(* ===== verification/Prelude.thy ===== *)
theory Prelude
  imports Complex_Main "HOL-Library.Word" "HOL-Library.AList"
begin

text \<open>
  Shared vocabulary of the development: Python values (bytes, str, dict, exceptions), the parts of
  the Python language and standard library that the backend uses (slices, \<open>struct.unpack\<close>,
  \<open>bytes.decode\<close>, \<open>str.strip\<close>, \<open>str.join\<close>, integer formatting, \<open>round\<close>), and the lemmas about
  them that the component theories share.

  Conventions.  A \<open>bytes\<close> object is a list of 8-bit words.  A \<open>str\<close> is the list of its code
  points; \<open>lit\<close> turns a literal into one.  A dict is an association list with distinct keys, so
  that its iteration order is Python's insertion order: \<open>AList.update\<close> overwrites in place and
  appends a new key at the end, \<open>AList.delete\<close> removes a key, \<open>map_of\<close> looks one up.  An
  exception is a value of \<open>exn\<close>, and a computation that may raise has type \<open>exn + 'a\<close>.
  Floating-point numbers (timestamps, durations) are real numbers: rounding errors of IEEE doubles
  are not modelled.
\<close>

section \<open>Types\<close>

type_synonym byte = "8 word"
type_synonym bytes = "8 word list"
type_synonym pystr = "nat list"
type_synonym timestamp = real
type_synonym ('k, 'v) dict = "('k \<times> 'v) list"

datatype exn =
    IndexError
  | KeyError
  | StructError
  | ValueError
  | TypeError
  | AttributeError
  | UnicodeError
  | SocketTimeout
  | ConnectionRefused
  | OsError pystr

section \<open>Collections of facts\<close>

named_theorems run_simps \<open>unfolding rules for small operations of the model\<close>
named_theorems wf_intros \<open>preservation of well-formedness by operations\<close>

section \<open>The exception monad\<close>

definition rbind :: "exn + 'a \<Rightarrow> ('a \<Rightarrow> exn + 'b) \<Rightarrow> exn + 'b" where
  "rbind m f = (case m of Inl e \<Rightarrow> Inl e | Inr x \<Rightarrow> f x)"

lemma rbind_simps [simp]:
  "rbind (Inl e) f = Inl e"
  "rbind (Inr x) f = f x"
  by (simp_all add: rbind_def)

lemma rbind_eq_Inr: "rbind m f = Inr y \<longleftrightarrow> (\<exists>x. m = Inr x \<and> f x = Inr y)"
  by (cases m) auto

lemma rbind_eq_Inl: "rbind m f = Inl e \<longleftrightarrow> m = Inl e \<or> (\<exists>x. m = Inr x \<and> f x = Inl e)"
  by (cases m) auto

lemma rbind_cong [fundef_cong]:
  assumes "m = m'" and "\<And>x. m' = Inr x \<Longrightarrow> f x = g x"
  shows "rbind m f = rbind m' g"
  using assms by (cases m') auto

text \<open>A computation that returns, whatever it returns.\<close>

definition returns :: "exn + 'a \<Rightarrow> bool" where
  "returns m = (case m of Inl _ \<Rightarrow> False | Inr _ \<Rightarrow> True)"

lemma returns_simps [simp]: "returns (Inr x)" "\<not> returns (Inl e)"
  by (simp_all add: returns_def)

lemma returns_iff: "returns m \<longleftrightarrow> (\<exists>x. m = Inr x)"
  by (cases m) auto

text \<open>Introduction rules that walk a handler from guard to guard.\<close>

lemma returns_rbind: "returns m \<Longrightarrow> (\<And>x. m = Inr x \<Longrightarrow> returns (f x)) \<Longrightarrow> returns (rbind m f)"
  by (cases m) auto

lemma returns_if: "(b \<Longrightarrow> returns m) \<Longrightarrow> (\<not> b \<Longrightarrow> returns m') \<Longrightarrow> returns (if b then m else m')"
  by simp

lemma returns_Let: "returns (f x) \<Longrightarrow> returns (Let x f)"
  by (simp add: Let_def)

lemmas returns_intros = returns_rbind returns_if returns_Let

text \<open>Partial correctness: what a computation yields if it returns.\<close>

definition yields :: "('a \<Rightarrow> bool) \<Rightarrow> exn + 'a \<Rightarrow> bool" where
  "yields P m = (case m of Inl _ \<Rightarrow> True | Inr x \<Rightarrow> P x)"

lemma yields_simps [simp]: "yields P (Inl e)" "yields P (Inr x) = P x"
  by (simp_all add: yields_def)

lemma yields_rbind: "(\<And>x. m = Inr x \<Longrightarrow> yields P (f x)) \<Longrightarrow> yields P (rbind m f)"
  by (cases m) auto

lemma yieldsD: "yields P m \<Longrightarrow> m = Inr x \<Longrightarrow> P x"
  by simp

section \<open>Bytes: indexing, slices, struct\<close>

text \<open>\<open>xs[i]\<close> for a non-negative index, and \<open>xs[i:j]\<close> for non-negative bounds.\<close>

definition byte_at :: "bytes \<Rightarrow> nat \<Rightarrow> exn + byte" where
  "byte_at xs i = (if i < length xs then Inr (xs ! i) else Inl IndexError)"

definition py_slice :: "'a list \<Rightarrow> nat \<Rightarrow> nat \<Rightarrow> 'a list" where
  "py_slice xs i j = take (j - i) (drop i xs)"

fun unpack_H :: "bytes \<Rightarrow> exn + nat" where
  "unpack_H [a, b] = Inr (256 * unat a + unat b)"
| "unpack_H _ = Inl StructError"

fun unpack_I :: "bytes \<Rightarrow> exn + nat" where
  "unpack_I [a, b, c, d] =
     Inr (16777216 * unat a + 65536 * unat b + 256 * unat c + unat d)"
| "unpack_I _ = Inl StructError"

definition byte_of :: "nat \<Rightarrow> byte" where
  "byte_of n = word_of_nat n"

definition be16 :: "nat \<Rightarrow> bytes" where
  "be16 n = [byte_of (n div 256), byte_of n]"

definition be32 :: "nat \<Rightarrow> bytes" where
  "be32 n = [byte_of (n div 16777216), byte_of (n div 65536), byte_of (n div 256), byte_of n]"

lemma byte_at_in [simp]: "i < length xs \<Longrightarrow> byte_at xs i = Inr (xs ! i)"
  by (simp add: byte_at_def)

lemma byte_at_out: "length xs \<le> i \<Longrightarrow> byte_at xs i = Inl IndexError"
  by (simp add: byte_at_def)

lemma length_py_slice [simp]: "length (py_slice xs i j) = min (j - i) (length xs - i)"
  by (simp add: py_slice_def)

lemma slice_append_left: "j \<le> length xs \<Longrightarrow> py_slice (xs @ ys) i j = py_slice xs i j"
  by (simp add: py_slice_def)

lemma slice_append_mid [simp]:
  "py_slice (xs @ ys @ zs) (length xs) (length xs + length ys) = ys"
  by (simp add: py_slice_def)

lemma slice_Nil [simp]: "py_slice [] i j = []"
  by (simp add: py_slice_def)

lemma slice_empty [simp]: "j \<le> i \<Longrightarrow> py_slice xs i j = []"
  by (simp add: py_slice_def)

lemma slice_nth: "k < j - i \<Longrightarrow> j \<le> length xs \<Longrightarrow> py_slice xs i j ! k = xs ! (i + k)"
  by (simp add: py_slice_def)

lemma slice_two:
  assumes "j = i + 2" and "j \<le> length xs"
  shows "py_slice xs i j = [xs ! i, xs ! Suc i]"
  using assms by (intro nth_equalityI) (auto simp: slice_nth less_2_cases_iff)

lemma slice_four:
  assumes "j = i + 4" and "j \<le> length xs"
  shows "py_slice xs i j = [xs ! i, xs ! (i + 1), xs ! (i + 2), xs ! (i + 3)]"
proof (rule nth_equalityI)
  show "length (py_slice xs i j) = length [xs ! i, xs ! (i + 1), xs ! (i + 2), xs ! (i + 3)]"
    using assms by simp
next
  fix k assume k: "k < length (py_slice xs i j)"
  then have "k = 0 \<or> k = 1 \<or> k = 2 \<or> k = 3" using assms by auto
  moreover have "py_slice xs i j ! k = xs ! (i + k)"
    using k assms by (intro slice_nth) auto
  ultimately show "py_slice xs i j ! k = [xs ! i, xs ! (i + 1), xs ! (i + 2), xs ! (i + 3)] ! k"
    by auto
qed

lemma unpack_H_slice [simp]:
  "j = i + 2 \<Longrightarrow> j \<le> length xs \<Longrightarrow>
   unpack_H (py_slice xs i j) = Inr (256 * unat (xs ! i) + unat (xs ! Suc i))"
  by (simp only: slice_two unpack_H.simps)

lemma unpack_I_slice [simp]:
  "j = i + 4 \<Longrightarrow> j \<le> length xs \<Longrightarrow>
   unpack_I (py_slice xs i j) =
     Inr (16777216 * unat (xs ! i) + 65536 * unat (xs ! (i + 1)) + 256 * unat (xs ! (i + 2))
          + unat (xs ! (i + 3)))"
  by (simp only: slice_four unpack_I.simps)

lemma unat_byte_less [simp]: "unat (b :: byte) < 256"
proof -
  have "unat b < 2 ^ LENGTH(8)" by (rule unsigned_less)
  then show ?thesis by simp
qed

lemma unat_byte_le [simp]: "unat (b :: byte) \<le> 255"
  using unat_byte_less [of b] by linarith

lemma unat_of_nat_byte [simp]: "unat (word_of_nat n :: byte) = n mod 256"
  by (simp add: unat_of_nat)

lemma unat_byte_of [simp]: "unat (byte_of n) = n mod 256"
  by (simp add: byte_of_def)

lemma byte_of_unat [simp]: "byte_of (unat b) = b"
  by (simp add: byte_of_def)

lemma length_be16 [simp]: "length (be16 n) = 2"
  by (simp add: be16_def)

lemma length_be32 [simp]: "length (be32 n) = 4"
  by (simp add: be32_def)

lemma unpack_H_be16 [simp]: "n < 65536 \<Longrightarrow> unpack_H (be16 n) = Inr n"
  by (simp add: be16_def div_less_iff_less_mult)

lemma unpack_I_be32 [simp]:
  assumes "n < 4294967296"
  shows "unpack_I (be32 n) = Inr n"
proof -
  have "n div 16777216 < 256" using assms by (simp add: div_less_iff_less_mult)
  moreover have "n div 65536 = 256 * (n div 16777216) + n div 65536 mod 256"
    using div_mult2_eq [of n 65536 256] by simp
  moreover have "n div 256 = 256 * (n div 65536) + n div 256 mod 256"
    using div_mult2_eq [of n 256 256] by simp
  moreover have "n = 256 * (n div 256) + n mod 256" by simp
  ultimately have "16777216 * (n div 16777216) + 65536 * (n div 65536 mod 256)
      + 256 * (n div 256 mod 256) + n mod 256 = n"
    by linarith
  then show ?thesis
    using \<open>n div 16777216 < 256\<close> by (simp add: be32_def)
qed

lemma returns_unpack_H: "j = i + 2 \<Longrightarrow> j \<le> length xs \<Longrightarrow> returns (unpack_H (py_slice xs i j))"
  by simp

lemma returns_byte_at: "i < length xs \<Longrightarrow> returns (byte_at xs i)"
  by simp

lemmas returns_reads = returns_unpack_H returns_byte_at

text \<open>Reading inside a concatenation.\<close>

lemma byte_at_append_right [simp]:
  "byte_at (xs @ ys) (length xs + k) = byte_at ys k"
  by (simp add: byte_at_def)

lemma py_slice_append_right:
  "py_slice (xs @ ys) (length xs + i) (length xs + j) = py_slice ys i j"
  by (simp add: py_slice_def)

lemma slice_mid:
  "i = length pre \<Longrightarrow> j = length pre + length m \<Longrightarrow> py_slice (pre @ m @ rest) i j = m"
  by simp

lemma py_slice_prefix: "py_slice ys 0 j = take j ys"
  by (simp add: py_slice_def)

end
