(* ===== verification/Py_Dict.thy ===== *)
theory Py_Dict
  imports Prelude "HOL-Library.Multiset"
begin

text \<open>
  Python dicts as association lists with distinct keys, in insertion order.  The lemmas here are
  about sizes and positions, which the finite-map view (\<open>map_of\<close>) does not show: the caches of the
  backend are bounded by their number of entries and evict by \<open>min\<close> over the iteration order.
\<close>

definition keys :: "('k, 'v) dict \<Rightarrow> 'k list" where
  "keys d = map fst d"

definition wf_dict :: "('k, 'v) dict \<Rightarrow> bool" where
  "wf_dict d \<longleftrightarrow> distinct (keys d)"

lemma wf_dict_Nil [simp]: "wf_dict []"
  by (simp add: wf_dict_def keys_def)

lemma set_keys [simp]: "set (keys d) = dom (map_of d)"
  by (simp add: keys_def dom_map_of_conv_image_fst)

lemma length_keys [simp]: "length (keys d) = length d"
  by (simp add: keys_def)

lemma wf_dict_update [wf_intros]: "wf_dict d \<Longrightarrow> wf_dict (AList.update k v d)"
  by (simp add: wf_dict_def keys_def distinct_update)

lemma wf_dict_delete [wf_intros]: "wf_dict d \<Longrightarrow> wf_dict (AList.delete k d)"
  by (simp add: wf_dict_def keys_def distinct_delete)

lemma wf_dict_length: "wf_dict d \<Longrightarrow> length d = card (dom (map_of d))"
  by (metis distinct_card length_keys set_keys wf_dict_def)

lemma map_of_update [simp]: "map_of (AList.update k v d) = (map_of d)(k \<mapsto> v)"
  by (rule update_conv')

lemma map_of_delete [simp]: "map_of (AList.delete k d) = (map_of d)(k := None)"
  by (rule delete_conv')

lemma update_new: "map_of d k = None \<Longrightarrow> AList.update k v d = d @ [(k, v)]"
  by (induction d) (auto split: if_splits)

lemma length_update:
  "length (AList.update k v d) = (if map_of d k = None then Suc (length d) else length d)"
  by (induction d) auto

lemma keys_update_old: "map_of d k \<noteq> None \<Longrightarrow> keys (AList.update k v d) = keys d"
  by (induction d) (auto simp: keys_def)

lemma length_delete:
  "wf_dict d \<Longrightarrow> length (AList.delete k d) = (if map_of d k = None then length d else length d - 1)"
proof -
  assume wf: "wf_dict d"
  have "length (AList.delete k d) = card (dom (map_of d) - {k})"
    using wf_dict_length [OF wf_dict_delete [OF wf, of k]] by simp
  then show ?thesis
    using wf_dict_length [OF wf] by (auto simp: card_Diff_singleton_if dom_def)
qed

lemma set_update_subset: "set (AList.update k v d) \<subseteq> insert (k, v) (set d)"
  by (induction d) auto

lemma set_delete_subset: "set (AList.delete k d) \<subseteq> set d"
  by (auto simp: AList.delete_eq)

lemma map_of_in_set: "wf_dict d \<Longrightarrow> (k, v) \<in> set d \<longleftrightarrow> map_of d k = Some v"
  by (simp add: wf_dict_def keys_def)

lemma fold_delete: "fold AList.delete ks d = filter (\<lambda>(k, v). k \<notin> set ks) d"
  by (induction ks arbitrary: d) (auto simp: AList.delete_eq filter_filter split_def intro!: filter_cong)

text \<open>Collecting the keys to drop first and deleting them afterwards, as the source does to avoid
  changing a dict under iteration, is a filter.\<close>

lemma wf_dict_filter: "wf_dict d \<Longrightarrow> wf_dict (filter P d)"
  by (simp add: wf_dict_def keys_def distinct_map_filter)

lemma wf_dict_map_values [simp]: "wf_dict (map (\<lambda>(k, v). (k, f v)) d) \<longleftrightarrow> wf_dict d"
  by (simp add: wf_dict_def keys_def comp_def split_def)

lemma map_of_map_values: "map_of (map (\<lambda>(k, v). (k, f v)) d) k = map_option f (map_of d k)"
  by (induction d) auto

lemma drop_keys:
  assumes "wf_dict d"
  shows "fold AList.delete [k. (k, v) \<leftarrow> d, P k v] d = filter (\<lambda>(k, v). \<not> P k v) d"
proof -
  have "k \<in> set [k. (k, v) \<leftarrow> d, P k v] \<longleftrightarrow> P k v" if "(k, v) \<in> set d" for k v
  proof -
    have "k \<in> set [k. (k, v) \<leftarrow> d, P k v] \<longleftrightarrow> (\<exists>v'. (k, v') \<in> set d \<and> P k v')" by force
    with that assms show ?thesis by (auto simp: map_of_in_set)
  qed
  then show ?thesis unfolding fold_delete by (intro filter_cong) auto
qed

lemma map_of_filter_wf:
  "wf_dict d \<Longrightarrow> map_of (filter (\<lambda>(k, v). P k v) d) k =
   (case map_of d k of None \<Rightarrow> None | Some v \<Rightarrow> if P k v then Some v else None)"
proof (induction d)
  case Nil
  then show ?case by simp
next
  case (Cons kv d)
  obtain k' v' where kv: "kv = (k', v')" by (cases kv)
  from Cons.prems kv have "wf_dict d" "map_of d k' = None"
    by (auto simp: wf_dict_def keys_def map_of_eq_None_iff)
  with Cons.IH kv show ?case by auto
qed

lemma update_nonempty [simp]: "AList.update k v d \<noteq> []"
  by (cases d) auto

text \<open>Sums over the values of a dict.\<close>

definition total :: "('v \<Rightarrow> nat) \<Rightarrow> ('k, 'v) dict \<Rightarrow> nat" where
  "total f d = sum_list (map (\<lambda>(k, v). f v) d)"

lemma total_simps [simp]:
  "total f [] = 0"
  "total f ((k, v) # d) = f v + total f d"
  by (simp_all add: total_def)

lemma total_update_new: "map_of d k = None \<Longrightarrow> total f (AList.update k v d) = total f d + f v"
  by (induction d) (auto split: if_splits)

lemma total_update_old:
  "map_of d k = Some v \<Longrightarrow> total f (AList.update k v' d) + f v = total f d + f v'"
  by (induction d) (auto split: if_splits)

section \<open>min over the iteration order\<close>

lemma arg_min_list_in_set: "xs \<noteq> [] \<Longrightarrow> arg_min_list f xs \<in> set xs"
  by (rule arg_min_list_in)

lemma arg_min_list_le: "x \<in> set xs \<Longrightarrow> f (arg_min_list f xs) \<le> (f x :: 'a :: linorder)"
  using f_arg_min_list_f [of xs f] by (cases xs) auto

text \<open>The first minimum: an element appended at the end loses every tie.\<close>

lemma arg_min_list_append:
  "xs \<noteq> [] \<Longrightarrow> (\<And>x. x \<in> set xs \<Longrightarrow> f x \<le> (f y :: 'a :: linorder)) \<Longrightarrow>
   arg_min_list f (xs @ [y]) = arg_min_list f xs"
proof (induction f xs rule: arg_min_list.induct)
  case (1 f x)
  then show ?case by simp
next
  case (2 f x y' zs)
  then show ?case by (simp add: Let_def)
next
  case (3 f)
  then show ?case by simp
qed

section \<open>Stable sorting by a key\<close>

text \<open>\<open>list.sort(key=f)\<close> is \<open>sort_key f\<close>; with \<open>reverse=True\<close> Python keeps equal elements in their
  original order and sorts the keys downwards, which is \<open>sort_key\<close> on the negated key.\<close>

definition sort_desc :: "('a \<Rightarrow> 'b :: linordered_ab_group_add) \<Rightarrow> 'a list \<Rightarrow> 'a list" where
  "sort_desc f xs = sort_key (\<lambda>x. - f x) xs"

lemma mset_sort_desc [simp]: "mset (sort_desc f xs) = mset xs"
  by (simp add: sort_desc_def)

lemma set_sort_desc [simp]: "set (sort_desc f xs) = set xs"
  by (simp add: sort_desc_def)

lemma length_sort_desc [simp]: "length (sort_desc f xs) = length xs"
  by (simp add: sort_desc_def)

lemma sorted_sort_desc: "sorted_wrt (\<ge>) (map f (sort_desc f xs))"
proof -
  have "sorted (map (\<lambda>x. - f x) (sort_key (\<lambda>x. - f x) xs))" by simp
  then show ?thesis by (simp add: sort_desc_def sorted_wrt_map)
qed

lemma sort_desc_stable: "filter (\<lambda>y. f y = k) (sort_desc f xs) = filter (\<lambda>y. f y = k) xs"
proof -
  have "filter (\<lambda>y. - f y = - k) (sort_key (\<lambda>x. - f x) xs) = filter (\<lambda>y. - f y = - k) xs"
    by (rule sort_key_stable)
  then show ?thesis by (simp add: sort_desc_def)
qed

section \<open>Numbers\<close>

text \<open>\<open>int(x)\<close> of a float truncates; \<open>round(x, 1)\<close> is the nearest tenth, ties to an even number
  of tenths.\<close>

definition py_int :: "real \<Rightarrow> int" where
  "py_int x = (if 0 \<le> x then \<lfloor>x\<rfloor> else \<lceil>x\<rceil>)"

definition round_even :: "real \<Rightarrow> int" where
  "round_even x =
     (let f = \<lfloor>x\<rfloor>; d = x - of_int f in
      if d < 1/2 then f else if d > 1/2 then f + 1 else if even f then f else f + 1)"

definition round1 :: "real \<Rightarrow> real" where
  "round1 x = of_int (round_even (10 * x)) / 10"

definition round2 :: "real \<Rightarrow> real" where
  "round2 x = of_int (round_even (100 * x)) / 100"

lemma round_even_of_int [simp]: "round_even (of_int k) = k"
  by (simp add: round_even_def)

lemma round_even_bounds: "of_int (round_even x) - 1/2 \<le> x" "x \<le> of_int (round_even x) + 1/2"
proof -
  have f: "of_int \<lfloor>x\<rfloor> \<le> x" "x < of_int \<lfloor>x\<rfloor> + 1" by linarith+
  show "of_int (round_even x) - 1/2 \<le> x"
    using f unfolding round_even_def Let_def by (split if_split; simp) linarith
  show "x \<le> of_int (round_even x) + 1/2"
    using f unfolding round_even_def Let_def by (split if_split; simp) linarith
qed

lemma round_even_mono: "x \<le> y \<Longrightarrow> round_even x \<le> round_even y"
proof -
  assume le: "x \<le> y"
  show ?thesis
  proof (cases "\<lfloor>x\<rfloor> = \<lfloor>y\<rfloor>")
    case True
    with le show ?thesis by (simp add: round_even_def Let_def)
  next
    case False
    with le have "\<lfloor>x\<rfloor> + 1 \<le> \<lfloor>y\<rfloor>" using floor_mono [OF le] by linarith
    moreover have "round_even x \<le> \<lfloor>x\<rfloor> + 1" "\<lfloor>y\<rfloor> \<le> round_even y"
      by (simp_all add: round_even_def Let_def)
    ultimately show ?thesis by linarith
  qed
qed

lemma round1_mono: "x \<le> y \<Longrightarrow> round1 x \<le> round1 y"
  by (simp add: round1_def divide_right_mono round_even_mono)

lemma round1_idem [simp]: "round1 (round1 x) = round1 x"
  by (simp add: round1_def)

lemma round1_nonneg: "0 \<le> x \<Longrightarrow> 0 \<le> round1 x"
proof -
  assume "0 \<le> x"
  then have "round1 0 \<le> round1 x" by (rule round1_mono)
  moreover have "round_even 0 = 0" using round_even_of_int [of 0] by simp
  ultimately show ?thesis by (simp add: round1_def)
qed

lemma round1_error: "\<bar>round1 x - x\<bar> \<le> 1/20"
proof -
  have "\<bar>of_int (round_even (10 * x)) - 10 * x\<bar> \<le> 1/2"
    using round_even_bounds [of "10 * x"] by linarith
  then show ?thesis unfolding round1_def by linarith
qed

lemma py_int_bounds: "0 \<le> x \<Longrightarrow> of_int (py_int x) \<le> x \<and> x < of_int (py_int x) + 1"
  by (simp add: py_int_def floor_le_iff)

lemma py_int_mono: "x \<le> y \<Longrightarrow> py_int x \<le> py_int y"
proof -
  assume le: "x \<le> y"
  have f: "of_int \<lfloor>x\<rfloor> \<le> x" "y \<le> of_int \<lceil>y\<rceil>" by simp_all
  consider "0 \<le> x" | "x < 0" "0 \<le> y" | "y < 0" by linarith
  then show ?thesis
  proof cases
    case 1
    with le have "0 \<le> y" by linarith
    with 1 le show ?thesis by (simp only: py_int_def if_True floor_mono)
  next
    case 2
    then have "\<lceil>x\<rceil> \<le> 0" "0 \<le> \<lfloor>y\<rfloor>" by linarith+
    moreover have "py_int x = \<lceil>x\<rceil>" "py_int y = \<lfloor>y\<rfloor>" using 2 by (simp_all add: py_int_def)
    ultimately show ?thesis by linarith
  next
    case 3
    with le have "\<not> 0 \<le> x" "\<not> 0 \<le> y" by linarith+
    with le show ?thesis by (simp only: py_int_def if_False ceiling_mono)
  qed
qed

end
