(* ===== verification/Py_Text.thy ===== *)
theory Py_Text
  imports Prelude
begin

text \<open>
  Python text: literals, number formatting (\<open>str(n)\<close>, \<open>f"{b:02x}"\<close>, \<open>f"{n:04X}"\<close>), \<open>str.join\<close>,
  \<open>str.split\<close>, \<open>str.strip\<close>, \<open>str.splitlines\<close>, \<open>str.startswith\<close>, \<open>in\<close>, and the decoders
  \<open>bytes.decode("utf-8", errors="replace")\<close> and \<open>bytes.decode("ascii", errors="replace")\<close>.
  The main lemmas: the textual forms of MAC and IPv4 addresses are injective (they are the keys of
  every cache of the backend), and decoding inverts UTF-8 encoding.
\<close>

section \<open>Literals\<close>

definition lit :: "string \<Rightarrow> pystr" where
  "lit s = map of_char s"

lemma lit_append: "lit (a @ b) = lit a @ lit b"
  by (simp add: lit_def)

lemma lit_Nil [simp]: "lit [] = []"
  by (simp add: lit_def)

lemma lit_eq_Nil [simp]: "lit s = [] \<longleftrightarrow> s = []" "[] = lit s \<longleftrightarrow> s = []"
  by (auto simp: lit_def)

lemma lit_inj [simp]: "lit a = lit b \<longleftrightarrow> a = b"
  by (auto simp: lit_def inj_map_eq_map inj_of_char)

lemma length_lit [simp]: "length (lit s) = length s"
  by (simp add: lit_def)

section \<open>Prefix, suffix, substring\<close>

definition startswith :: "pystr \<Rightarrow> pystr \<Rightarrow> bool" where
  "startswith s p = (take (length p) s = p)"

fun contains :: "pystr \<Rightarrow> pystr \<Rightarrow> bool" where
  "contains [] p = (p = [])"
| "contains (c # s) p = (startswith (c # s) p \<or> contains s p)"

lemma startswith_append [simp]: "startswith (p @ s) p"
  by (simp add: startswith_def)

lemma startswith_iff: "startswith s p \<longleftrightarrow> (\<exists>r. s = p @ r)"
  unfolding startswith_def by (metis append_eq_conv_conj append_take_drop_id)

lemma startswith_lit [simp]:
  "startswith (lit s) (lit p) \<longleftrightarrow> take (length p) s = p"
  by (simp add: startswith_def lit_def take_map [symmetric] inj_map_eq_map inj_of_char del: take_map)
     (simp add: take_map inj_map_eq_map inj_of_char)

lemma contains_iff: "contains s p \<longleftrightarrow> (\<exists>a b. s = a @ p @ b)"
proof (induction s)
  case Nil
  then show ?case by auto
next
  case (Cons c s)
  show ?case
  proof
    assume "contains (c # s) p"
    then show "\<exists>a b. c # s = a @ p @ b"
    proof (cases "startswith (c # s) p")
      case True
      then obtain r where "c # s = p @ r" by (auto simp: startswith_iff)
      then have "c # s = [] @ p @ r" by simp
      then show ?thesis by blast
    next
      case False
      with \<open>contains (c # s) p\<close> Cons.IH obtain a b where "s = a @ p @ b" by auto
      then have "c # s = (c # a) @ p @ b" by simp
      then show ?thesis by blast
    qed
  next
    assume "\<exists>a b. c # s = a @ p @ b"
    then obtain a b where ab: "c # s = a @ p @ b" by blast
    show "contains (c # s) p"
    proof (cases a)
      case Nil
      with ab have "startswith (c # s) p" by (simp add: startswith_iff)
      then show ?thesis by simp
    next
      case (Cons d a')
      with ab have "s = a' @ p @ b" by simp
      with Cons.IH show ?thesis by auto
    qed
  qed
qed

section \<open>Integers as text\<close>

fun dec :: "nat \<Rightarrow> pystr" where
  "dec n = (if n < 10 then [48 + n] else dec (n div 10) @ [48 + n mod 10])"

declare dec.simps [simp del]

definition str_int :: "int \<Rightarrow> pystr" where
  "str_int i = (if i < 0 then 45 # dec (nat (- i)) else dec (nat i))"

definition hexdigit :: "nat \<Rightarrow> nat" where
  "hexdigit d = (if d < 10 then 48 + d else 87 + d)"

definition hexdigit_upper :: "nat \<Rightarrow> nat" where
  "hexdigit_upper d = (if d < 10 then 48 + d else 55 + d)"

text \<open>\<open>f"{b:02x}"\<close> of a byte; \<open>bytes.hex()\<close>.\<close>

definition hex2 :: "byte \<Rightarrow> pystr" where
  "hex2 b = [hexdigit (unat b div 16), hexdigit (unat b mod 16)]"

definition bytes_hex :: "bytes \<Rightarrow> pystr" where
  "bytes_hex bs = concat (map hex2 bs)"

text \<open>\<open>f"{n:04x}"\<close>, \<open>f"{n:04X}"\<close>, \<open>f"{n:08X}"\<close> and \<open>format(n, "016b")\<close>, for numbers that fit
  the width (every use in the backend masks to the width first).\<close>

fun digits_fixed :: "(nat \<Rightarrow> nat) \<Rightarrow> nat \<Rightarrow> nat \<Rightarrow> nat \<Rightarrow> pystr" where
  "digits_fixed dig base 0 n = []"
| "digits_fixed dig base (Suc k) n = digits_fixed dig base k (n div base) @ [dig (n mod base)]"

definition hex4 :: "nat \<Rightarrow> pystr" where
  "hex4 n = digits_fixed hexdigit 16 4 n"

definition hex4_upper :: "nat \<Rightarrow> pystr" where
  "hex4_upper n = digits_fixed hexdigit_upper 16 4 n"

definition hex8_upper :: "nat \<Rightarrow> pystr" where
  "hex8_upper n = digits_fixed hexdigit_upper 16 8 n"

definition bin16 :: "nat \<Rightarrow> pystr" where
  "bin16 n = digits_fixed (\<lambda>d. 48 + d) 2 16 n"

lemma length_digits_fixed [simp]: "length (digits_fixed dig base k n) = k"
  by (induction k arbitrary: n) auto

lemma set_digits_fixed: "c \<in> set (digits_fixed dig base k n) \<Longrightarrow> 0 < base \<Longrightarrow> \<exists>d < base. c = dig d"
proof (induction k arbitrary: n)
  case (Suc k)
  moreover have "n mod base < base" using Suc.prems by simp
  ultimately show ?case by (cases "c = dig (n mod base)") auto
qed simp

lemma dec_nonempty [simp]: "dec n \<noteq> []"
  by (subst dec.simps) simp

lemma dec_digits: "c \<in> set (dec n) \<Longrightarrow> 48 \<le> c \<and> c \<le> 57"
proof (induction n rule: dec.induct)
  case (1 n)
  show ?case
  proof (cases "n < 10")
    case True
    with "1.prems" show ?thesis by (simp add: dec.simps [of n])
  next
    case False
    with "1.prems" consider "c \<in> set (dec (n div 10))" | "c = 48 + n mod 10"
      by (auto simp: dec.simps [of n])
    then show ?thesis
    proof cases
      case 1
      with "1.IH" False show ?thesis by blast
    next
      case 2
      have "n mod 10 < 10" by simp
      with 2 show ?thesis by linarith
    qed
  qed
qed

fun undec :: "pystr \<Rightarrow> nat" where
  "undec s = foldl (\<lambda>acc c. 10 * acc + (c - 48)) 0 s"

lemma undec_dec [simp]: "foldl (\<lambda>acc c. 10 * acc + (c - 48)) 0 (dec n) = n"
proof (induction n rule: dec.induct)
  case (1 n)
  then show ?case by (cases "n < 10") (simp_all add: dec.simps [of n])
qed

lemma dec_inj [simp]: "dec m = dec n \<longleftrightarrow> m = n"
  by (metis undec_dec)

lemma hexdigit_inj: "a < 16 \<Longrightarrow> b < 16 \<Longrightarrow> hexdigit a = hexdigit b \<longleftrightarrow> a = b"
  by (auto simp: hexdigit_def)

lemma hexdigit_range: "a < 16 \<Longrightarrow> 48 \<le> hexdigit a \<and> hexdigit a \<le> 102 \<and> hexdigit a \<noteq> 58"
  by (auto simp: hexdigit_def)

lemma unat_byte_div16 [simp]: "unat (b :: byte) div 16 < 16"
  using unat_byte_less [of b] by (simp add: div_less_iff_less_mult)

lemma hex2_inj [simp]: "hex2 a = hex2 b \<longleftrightarrow> a = b"
proof
  assume "hex2 a = hex2 b"
  then have "unat a div 16 = unat b div 16" "unat a mod 16 = unat b mod 16"
    by (auto simp: hex2_def hexdigit_inj)
  then have "unat a = unat b" by (metis div_mult_mod_eq)
  then show "a = b" by (simp add: word_unat_eq_iff)
qed simp

lemma length_hex2 [simp]: "length (hex2 b) = 2"
  by (simp add: hex2_def)

lemma length_bytes_hex [simp]: "length (bytes_hex bs) = 2 * length bs"
  by (induction bs) (simp_all add: bytes_hex_def)

lemma bytes_hex_inj: "bytes_hex xs = bytes_hex ys \<longleftrightarrow> xs = ys"
proof
  assume "bytes_hex xs = bytes_hex ys"
  then show "xs = ys"
  proof (induction xs arbitrary: ys)
    case Nil
    then show ?case by (cases ys) (auto simp: bytes_hex_def hex2_def)
  next
    case (Cons x xs)
    then obtain y ys' where ys: "ys = y # ys'"
      by (cases ys) (auto simp: bytes_hex_def hex2_def)
    with Cons.prems have "hex2 x @ bytes_hex xs = hex2 y @ bytes_hex ys'"
      by (simp add: bytes_hex_def)
    then have "hex2 x = hex2 y" "bytes_hex xs = bytes_hex ys'" by simp_all
    with Cons.IH ys show ?case by simp
  qed
qed simp

section \<open>join and split\<close>

fun join :: "'a list \<Rightarrow> 'a list list \<Rightarrow> 'a list" where
  "join sep [] = []"
| "join sep [x] = x"
| "join sep (x # y # zs) = x @ sep @ join sep (y # zs)"

text \<open>\<open>s.split(c)\<close> for a one-character separator.\<close>

fun split_on :: "'a \<Rightarrow> 'a list \<Rightarrow> 'a list list" where
  "split_on c [] = [[]]"
| "split_on c (x # xs) =
     (if x = c then [] # split_on c xs
      else (case split_on c xs of [] \<Rightarrow> [[x]] | p # ps \<Rightarrow> (x # p) # ps))"

lemma split_on_nonempty [simp]: "split_on c xs \<noteq> []"
  by (induction xs) (auto split: list.splits)

lemma split_on_no_sep: "c \<notin> set xs \<Longrightarrow> split_on c xs = [xs]"
  by (induction xs) auto

lemma split_on_append:
  "c \<notin> set p \<Longrightarrow> split_on c (p @ c # rest) = p # split_on c rest"
  by (induction p) auto

lemma split_on_join:
  "ps \<noteq> [] \<Longrightarrow> (\<And>p. p \<in> set ps \<Longrightarrow> c \<notin> set p) \<Longrightarrow> split_on c (join [c] ps) = ps"
  by (induction "[c]" ps rule: join.induct) (auto simp: split_on_no_sep split_on_append)

lemma join_split_on: "join [c] (split_on c xs) = xs"
proof (induction xs)
  case Nil
  then show ?case by simp
next
  case (Cons x xs)
  obtain p ps where p: "split_on c xs = p # ps"
    by (metis neq_Nil_conv split_on_nonempty)
  with Cons show ?case by (cases ps) auto
qed

lemma join_inj:
  assumes "ps \<noteq> []" "qs \<noteq> []"
    and "\<And>p. p \<in> set ps \<Longrightarrow> c \<notin> set p" and "\<And>q. q \<in> set qs \<Longrightarrow> c \<notin> set q"
    and "join [c] ps = join [c] qs"
  shows "ps = qs"
  using assms split_on_join by metis

section \<open>Addresses\<close>

text \<open>\<open>":".join(f"{b:02x}" for b in bs)\<close> and \<open>".".join(str(b) for b in bs)\<close>.\<close>

definition mac_str :: "bytes \<Rightarrow> pystr" where
  "mac_str bs = join [58] (map hex2 bs)"

definition ip_str :: "bytes \<Rightarrow> pystr" where
  "ip_str bs = join [46] (map (\<lambda>b. dec (unat b)) bs)"

lemma hex2_no_colon: "58 \<notin> set (hex2 b)"
  using hexdigit_range [of "unat b div 16"] hexdigit_range [of "unat b mod 16"]
  by (auto simp: hex2_def)

lemma mac_str_inj: "xs \<noteq> [] \<Longrightarrow> ys \<noteq> [] \<Longrightarrow> mac_str xs = mac_str ys \<longleftrightarrow> xs = ys"
proof
  assume ne: "xs \<noteq> []" "ys \<noteq> []" and eq: "mac_str xs = mac_str ys"
  have "map hex2 xs = map hex2 ys"
    using ne eq hex2_no_colon unfolding mac_str_def by (intro join_inj [where c = 58]) auto
  then show "xs = ys"
    by (simp add: inj_map_eq_map inj_def)
qed simp

lemma dec_no_dot: "46 \<notin> set (dec n)"
  using dec_digits by fastforce

lemma ip_str_inj: "xs \<noteq> [] \<Longrightarrow> ys \<noteq> [] \<Longrightarrow> ip_str xs = ip_str ys \<longleftrightarrow> xs = ys"
proof
  assume ne: "xs \<noteq> []" "ys \<noteq> []" and eq: "ip_str xs = ip_str ys"
  have "map (\<lambda>b. dec (unat b)) xs = map (\<lambda>b. dec (unat b)) ys"
    using ne eq dec_no_dot unfolding ip_str_def by (intro join_inj [where c = 46]) auto
  then show "xs = ys"
    by (auto simp: inj_map_eq_map inj_def word_unat_eq_iff)
qed simp

section \<open>strip and splitlines\<close>

text \<open>The code points for which \<open>str.isspace()\<close> holds, and those at which \<open>splitlines\<close> breaks.\<close>

definition is_space :: "nat \<Rightarrow> bool" where
  "is_space c \<longleftrightarrow> (9 \<le> c \<and> c \<le> 13) \<or> (28 \<le> c \<and> c \<le> 32) \<or> c = 133 \<or> c = 160 \<or> c = 5760 \<or>
     (8192 \<le> c \<and> c \<le> 8202) \<or> c = 8232 \<or> c = 8233 \<or> c = 8239 \<or> c = 8287 \<or> c = 12288"

definition is_linebreak :: "nat \<Rightarrow> bool" where
  "is_linebreak c \<longleftrightarrow> (10 \<le> c \<and> c \<le> 13) \<or> (28 \<le> c \<and> c \<le> 30) \<or> c = 133 \<or> c = 8232 \<or> c = 8233"

definition lstrip :: "pystr \<Rightarrow> pystr" where
  "lstrip s = dropWhile is_space s"

definition rstrip :: "pystr \<Rightarrow> pystr" where
  "rstrip s = rev (dropWhile is_space (rev s))"

definition strip :: "pystr \<Rightarrow> pystr" where
  "strip s = rstrip (lstrip s)"

text \<open>\<open>splitlines()\<close>: no empty line after a final break, and carriage return plus line feed is one
  break.\<close>

fun splitlines_from :: "pystr \<Rightarrow> pystr \<Rightarrow> pystr list" where
  "splitlines_from cur [] = (if cur = [] then [] else [cur])"
| "splitlines_from cur [c] = (if is_linebreak c then [cur] else [cur @ [c]])"
| "splitlines_from cur (c # d # s) =
     (if c = 13 \<and> d = 10 then cur # splitlines_from [] s
      else if is_linebreak c then cur # splitlines_from [] (d # s)
      else splitlines_from (cur @ [c]) (d # s))"

definition splitlines :: "pystr \<Rightarrow> pystr list" where
  "splitlines s = splitlines_from [] s"

lemma set_lstrip: "set (lstrip s) \<subseteq> set s"
  by (auto simp: lstrip_def dest: set_dropWhileD)

lemma set_rstrip: "set (rstrip s) \<subseteq> set s"
  by (auto simp: rstrip_def dest: set_dropWhileD)

lemma set_strip: "set (strip s) \<subseteq> set s"
  using set_lstrip set_rstrip unfolding strip_def by blast

lemma strip_Nil [simp]: "strip [] = []"
  by (simp add: strip_def lstrip_def rstrip_def)

lemma lstrip_idem: "lstrip (lstrip s) = lstrip s"
  by (simp add: lstrip_def)

lemma lstrip_hd: "lstrip s \<noteq> [] \<Longrightarrow> \<not> is_space (hd (lstrip s))"
  by (simp add: lstrip_def hd_dropWhile)

lemma rstrip_last: "rstrip s \<noteq> [] \<Longrightarrow> \<not> is_space (last (rstrip s))"
  by (simp add: rstrip_def hd_dropWhile last_rev)

lemma rstrip_prefix: "\<exists>w. s = rstrip s @ w \<and> list_all is_space w"
proof -
  have "rev s = takeWhile is_space (rev s) @ dropWhile is_space (rev s)" by simp
  then have "s = rstrip s @ rev (takeWhile is_space (rev s))"
    unfolding rstrip_def by (metis rev_append rev_rev_ident)
  moreover have "list_all is_space (rev (takeWhile is_space (rev s)))"
    by (auto simp: list_all_iff dest: set_takeWhileD)
  ultimately show ?thesis by blast
qed

lemma strip_ends:
  assumes "strip s \<noteq> []"
  shows "\<not> is_space (hd (strip s))" and "\<not> is_space (last (strip s))"
proof -
  obtain w where w: "lstrip s = strip s @ w"
    using rstrip_prefix [of "lstrip s"] by (auto simp: strip_def)
  with assms have "hd (lstrip s) = hd (strip s)" "lstrip s \<noteq> []" by auto
  then show "\<not> is_space (hd (strip s))" using lstrip_hd [of s] by simp
  show "\<not> is_space (last (strip s))"
    using assms rstrip_last by (simp add: strip_def)
qed

lemma strip_newline: "strip (x @ [10]) = strip x"
proof (cases "list_all is_space x")
  case True
  then have "lstrip x = []" "lstrip (x @ [10]) = []" by (auto simp: lstrip_def list_all_iff is_space_def)
  then show ?thesis by (simp add: strip_def)
next
  case False
  then have "lstrip (x @ [10]) = lstrip x @ [10]" by (induction x) (auto simp: lstrip_def)
  then show ?thesis by (simp add: strip_def rstrip_def is_space_def)
qed

lemma strip_idem: "strip (strip s) = strip s"
proof (cases "strip s = []")
  case False
  then obtain c cs where "strip s = c # cs" "\<not> is_space c" using strip_ends [OF False] by (cases "strip s") auto
  then have "lstrip (strip s) = strip s" by (simp add: lstrip_def)
  moreover obtain d ds where "rev (strip s) = d # ds" "\<not> is_space d"
    using False strip_ends [OF False] by (metis hd_rev list.collapse rev_is_Nil_conv)
  then have "rstrip (strip s) = strip s" unfolding rstrip_def by (metis dropWhile.simps(2) rev_rev_ident)
  ultimately show ?thesis by (simp add: strip_def [of "strip s"])
qed simp

lemma strip_plain: "\<not> is_space (hd s) \<Longrightarrow> \<not> is_space (last s) \<Longrightarrow> strip s = s"
proof (cases "s = []")
  case False
  assume "\<not> is_space (hd s)" "\<not> is_space (last s)"
  with False have "lstrip s = s" by (cases s) (auto simp: lstrip_def)
  moreover have "rev s = last s # tl (rev s)" using False by (metis hd_rev list.collapse rev_is_Nil_conv)
  then have "dropWhile is_space (rev s) = rev s"
    using \<open>\<not> is_space (last s)\<close> by (metis dropWhile.simps(2))
  then have "rstrip s = s" by (simp add: rstrip_def)
  ultimately show ?thesis by (simp add: strip_def)
qed simp

text \<open>Lines without line breaks of their own come back from \<open>splitlines\<close>.\<close>

definition plain_text :: "pystr \<Rightarrow> bool" where
  "plain_text l = list_all (\<lambda>c. \<not> is_linebreak c) l"

lemma splitlines_from_line:
  "plain_text l \<Longrightarrow> splitlines_from cur (l @ 10 # rest) = (cur @ l) # splitlines_from [] rest"
proof (induction l arbitrary: cur)
  case Nil
  then show ?case by (cases rest) (simp_all add: is_linebreak_def)
next
  case (Cons c l)
  then have c: "\<not> is_linebreak c" "c \<noteq> 13" by (auto simp: plain_text_def is_linebreak_def)
  obtain d s where "l @ 10 # rest = d # s" by (cases l) auto
  with Cons c show ?case by (simp add: plain_text_def)
qed

lemma splitlines_from_last: "plain_text l \<Longrightarrow> cur @ l \<noteq> [] \<Longrightarrow> splitlines_from cur l = [cur @ l]"
proof (induction l arbitrary: cur)
  case (Cons c l)
  then have c: "\<not> is_linebreak c" "c \<noteq> 13" by (auto simp: plain_text_def is_linebreak_def)
  with Cons show ?case by (cases l) (auto simp: plain_text_def)
qed simp

lemma splitlines_join:
  "list_all plain_text ls \<Longrightarrow> ls \<noteq> [] \<Longrightarrow> last ls \<noteq> [] \<Longrightarrow> splitlines (join [10] ls) = ls"
  unfolding splitlines_def
proof (induction ls)
  case (Cons l ls)
  then show ?case by (cases ls) (simp_all add: splitlines_from_line splitlines_from_last)
qed simp

lemma splitlines_eq_Nil [simp]: "splitlines s = [] \<longleftrightarrow> s = []"
proof -
  have "splitlines_from cur t = [] \<longleftrightarrow> cur = [] \<and> t = []" for cur t
    by (induction cur t rule: splitlines_from.induct) auto
  then show ?thesis by (simp add: splitlines_def)
qed

lemma splitlines_Nil [simp]: "splitlines [] = []"
  by simp

section \<open>UTF-8 and ASCII decoding with replacement\<close>

text \<open>
  \<open>bytes.decode("utf-8", errors="replace")\<close>.  \<open>utf8_step\<close> decodes the first code point of a
  non-empty input and returns it with the number of bytes used; an ill-formed sequence yields
  U+FFFD and skips its maximal valid prefix, as CPython's decoder does: one byte for an invalid
  start byte, the bytes before the offending one for an invalid continuation, all remaining bytes
  for a sequence cut off by the end of the input.
\<close>

definition is_cont :: "byte \<Rightarrow> bool" where
  "is_cont b \<longleftrightarrow> 128 \<le> unat b \<and> unat b < 192"

definition second_ok :: "nat \<Rightarrow> byte \<Rightarrow> bool" where
  "second_ok b0 b1 \<longleftrightarrow> is_cont b1 \<and>
     (b0 = 224 \<longrightarrow> 160 \<le> unat b1) \<and> (b0 = 237 \<longrightarrow> unat b1 < 160) \<and>
     (b0 = 240 \<longrightarrow> 144 \<le> unat b1) \<and> (b0 = 244 \<longrightarrow> unat b1 < 144)"

definition utf8_len :: "nat \<Rightarrow> nat" where
  "utf8_len b0 = (if b0 < 128 then 1 else if b0 < 194 then 0 else if b0 < 224 then 2
                  else if b0 < 240 then 3 else if b0 < 245 then 4 else 0)"

definition utf8_value :: "byte list \<Rightarrow> nat" where
  "utf8_value bs =
     (case map unat bs of
        [a] \<Rightarrow> a
      | [a, b] \<Rightarrow> 64 * (a mod 32) + b mod 64
      | [a, b, c] \<Rightarrow> 4096 * (a mod 16) + 64 * (b mod 64) + c mod 64
      | [a, b, c, d] \<Rightarrow> 262144 * (a mod 8) + 4096 * (b mod 64) + 64 * (c mod 64) + d mod 64
      | _ \<Rightarrow> 65533)"

text \<open>How many of the bytes after the first continue the sequence correctly, at most \<open>k\<close>.\<close>

definition good_tail :: "nat \<Rightarrow> nat \<Rightarrow> bytes \<Rightarrow> nat" where
  "good_tail k b0 rest =
     (case rest of [] \<Rightarrow> 0
      | b1 # more \<Rightarrow>
          if k = 0 \<or> \<not> second_ok b0 b1 then 0
          else Suc (length (takeWhile is_cont (take (k - 1) more))))"

definition utf8_step :: "byte \<Rightarrow> bytes \<Rightarrow> nat \<times> nat" where
  "utf8_step b rest =
     (let n = utf8_len (unat b) in
      if n = 0 then (65533, 1)
      else let g = good_tail (n - 1) (unat b) rest in
        if g = n - 1 then (utf8_value (b # take (n - 1) rest), n)
        else (65533, Suc g))"

function utf8_decode :: "bytes \<Rightarrow> pystr" where
  "utf8_decode [] = []"
| "utf8_decode (b # rest) =
     (let (c, k) = utf8_step b rest in c # utf8_decode (drop (k - 1) rest))"
  by pat_completeness auto
termination
  by (relation "measure length") auto

definition ascii_decode :: "bytes \<Rightarrow> pystr" where
  "ascii_decode bs = map (\<lambda>b. if unat b < 128 then unat b else 65533) bs"

text \<open>\<open>str.encode("utf-8")\<close> of a valid code point.\<close>

definition utf8_encode1 :: "nat \<Rightarrow> bytes" where
  "utf8_encode1 c = map byte_of
     (if c < 128 then [c]
      else if c < 2048 then [192 + c div 64, 128 + c mod 64]
      else if c < 65536 then [224 + c div 4096, 128 + c div 64 mod 64, 128 + c mod 64]
      else [240 + c div 262144, 128 + c div 4096 mod 64, 128 + c div 64 mod 64, 128 + c mod 64])"

definition scalar_value :: "nat \<Rightarrow> bool" where
  "scalar_value c \<longleftrightarrow> c < 55296 \<or> (57344 \<le> c \<and> c < 1114112)"

lemma length_ascii_decode [simp]: "length (ascii_decode bs) = length bs"
  by (simp add: ascii_decode_def)

lemma utf8_decode_eq_Nil [simp]: "utf8_decode bs = [] \<longleftrightarrow> bs = []"
  by (cases bs) (auto split: prod.splits)

lemma utf8_decode_ascii:
  "list_all (\<lambda>b. unat b < 128) bs \<Longrightarrow> utf8_decode bs = map unat bs"
proof (induction bs)
  case Nil
  then show ?case by simp
next
  case (Cons b bs)
  then have "utf8_step b bs = (unat b, 1)"
    by (cases bs) (auto simp: utf8_step_def utf8_len_def good_tail_def utf8_value_def)
  with Cons show ?case by simp
qed

lemma utf8_mods:
  fixes x :: nat
  shows "(128 + x) mod 64 = x mod 64" and "(192 + x) mod 32 = x mod 32"
    and "(224 + x) mod 16 = x mod 16" and "(240 + x) mod 8 = x mod 8"
  by (simp_all add: mod_add_left_eq [of 128 64, symmetric] mod_add_left_eq [of 192 32, symmetric]
      mod_add_left_eq [of 224 16, symmetric] mod_add_left_eq [of 240 8, symmetric])

lemma utf8_step_encode1:
  assumes "scalar_value c" and "utf8_encode1 c = b # t"
  shows "utf8_step b (t @ rest) = (c, Suc (length t))"
proof -
  consider "c < 128" | "128 \<le> c" "c < 2048" | "2048 \<le> c" "c < 65536"
    | "65536 \<le> c" "c < 1114112"
    using assms(1) unfolding scalar_value_def by linarith
  then show ?thesis
  proof cases
    case 1
    with assms(2) show ?thesis
      by (auto simp: utf8_encode1_def utf8_step_def utf8_len_def good_tail_def utf8_value_def
          split: list.splits)
  next
    case 2
    then have q: "c div 64 < 32" "2 \<le> c div 64" by (auto simp: div_less_iff_less_mult)
    show ?thesis using 2 assms(2) q
      by (auto simp: utf8_encode1_def utf8_step_def utf8_len_def good_tail_def utf8_value_def
          second_ok_def is_cont_def utf8_mods)
  next
    case 3
    then have a: "c div 4096 < 16" by (simp add: div_less_iff_less_mult)
    have b: "c div 64 = 64 * (c div 4096) + c div 64 mod 64"
      using div_mult2_eq [of c 64 64] by simp
    have d: "c = 64 * (c div 64) + c mod 64" by simp
    have e: "c div 4096 = 0 \<Longrightarrow> 32 \<le> c div 64 mod 64" using 3 b d by arith
    have f: "c div 4096 = 13 \<Longrightarrow> c div 64 mod 64 < 32"
      using assms(1) b d unfolding scalar_value_def by arith
    have g: "4096 * (c div 4096) + 64 * (c div 64 mod 64) + c mod 64 = c" using b d by linarith
    show ?thesis using 3 assms(2) a e f
      by (auto simp: utf8_encode1_def utf8_step_def utf8_len_def good_tail_def utf8_value_def
          second_ok_def is_cont_def utf8_mods g)
  next
    case 4
    then have a: "c div 262144 < 5" by (simp add: div_less_iff_less_mult)
    have g: "c div 4096 = 64 * (c div 262144) + c div 4096 mod 64"
      using div_mult2_eq [of c 4096 64] by simp
    have b: "c div 64 = 64 * (c div 4096) + c div 64 mod 64"
      using div_mult2_eq [of c 64 64] by simp
    have d: "c = 64 * (c div 64) + c mod 64" by simp
    have e: "c div 262144 = 0 \<Longrightarrow> 16 \<le> c div 4096 mod 64" using 4 g b d by arith
    have f: "c div 262144 = 4 \<Longrightarrow> c div 4096 mod 64 < 16" using 4 g b d by arith
    have h: "262144 * (c div 262144) + 4096 * (c div 4096 mod 64) + 64 * (c div 64 mod 64)
        + c mod 64 = c"
      using b d g by linarith
    show ?thesis using 4 assms(2) a e f
      by (auto simp: utf8_encode1_def utf8_step_def utf8_len_def good_tail_def utf8_value_def
          second_ok_def is_cont_def utf8_mods h)
  qed
qed

lemma utf8_encode1_nonempty: "utf8_encode1 c \<noteq> []"
  by (simp add: utf8_encode1_def)

theorem utf8_decode_encode:
  "list_all scalar_value cs \<Longrightarrow> utf8_decode (concat (map utf8_encode1 cs)) = cs"
proof (induction cs)
  case Nil
  then show ?case by simp
next
  case (Cons c cs)
  obtain b t where enc: "utf8_encode1 c = b # t"
    using utf8_encode1_nonempty [of c] by (cases "utf8_encode1 c") auto
  with Cons show ?case
    by (simp add: utf8_step_encode1 [OF _ enc])
qed

definition utf8 :: "pystr \<Rightarrow> bytes" where
  "utf8 s = concat (map utf8_encode1 s)"

lemma utf8_decode_utf8 [simp]: "list_all scalar_value s \<Longrightarrow> utf8_decode (utf8 s) = s"
  by (simp add: utf8_def utf8_decode_encode)

lemma utf8_eq_Nil [simp]: "utf8 s = [] \<longleftrightarrow> s = []"
  by (auto simp: utf8_def utf8_encode1_nonempty neq_Nil_conv)

end
