(* ===== verification/Neighbor_Cache.thy ===== *)
theory Neighbor_Cache
  imports Py_Dict Py_Text
begin

text \<open>
  The neighbour cache shared by \<open>backend/discovery/lldp.py\<close>, \<open>cdp.py\<close> and \<open>mndp.py\<close>: the dict
  \<open>_neighbors\<close> (source MAC to the last parsed announcement), how a frame is stored in it and how
  \<open>get_neighbors\<close> purges and reports it.  The three modules repeat this code; it is modelled once,
  over the type \<open>'n\<close> of the fields their parsers fill in, and each module's theory instantiates
  the locale \<open>neighbor_listener\<close> below with its own packet handler.
\<close>

record 'n neighbor =
  n_info :: 'n
  n_mac :: pystr
  n_last_seen :: timestamp

type_synonym 'n cache = "(pystr, 'n neighbor) dict"

record 'n report_entry =
  r_neighbor :: "'n neighbor"
  r_age :: int

record 'n report =
  r_interface :: pystr
  r_present :: bool
  r_neighbors :: "'n report_entry list"

definition max_neighbors :: nat where
  "max_neighbors = 500"

text \<open>The end of every \<open>_handle_packet\<close>: store, and over the cap drop the entry seen longest ago
  unless that is the one just stored.\<close>

definition cache_put :: "timestamp \<Rightarrow> pystr \<Rightarrow> 'n \<Rightarrow> 'n cache \<Rightarrow> 'n cache" where
  "cache_put now mac info c =
     (let c1 = AList.update mac \<lparr>n_info = info, n_mac = mac, n_last_seen = now\<rparr> c in
      if max_neighbors < length c1 then
        (let oldest_mac = fst (arg_min_list (\<lambda>(m, n). n_last_seen n) c1) in
         if oldest_mac \<noteq> mac then AList.delete oldest_mac c1 else c1)
      else c1)"

text \<open>The body of \<open>get_neighbors\<close> after \<open>start_listener\<close>: purge, then report by age.\<close>

definition purge_stale :: "timestamp \<Rightarrow> real \<Rightarrow> 'n cache \<Rightarrow> 'n cache" where
  "purge_stale now stale_after c =
     (let stale_macs = [mac. (mac, n) \<leftarrow> c, now - n_last_seen n > stale_after] in
      fold AList.delete stale_macs c)"

definition report_entries :: "timestamp \<Rightarrow> 'n cache \<Rightarrow> 'n report_entry list" where
  "report_entries now c =
     sort_key r_age (map (\<lambda>(m, n). \<lparr>r_neighbor = n, r_age = py_int (now - n_last_seen n)\<rparr>) c)"

definition cache_get :: "pystr \<Rightarrow> timestamp \<Rightarrow> real \<Rightarrow> 'n cache \<Rightarrow> 'n cache \<times> 'n report" where
  "cache_get interface now stale_after c =
     (let c' = purge_stale now stale_after c; fresh = report_entries now c' in
      (c', \<lparr>r_interface = interface, r_present = (0 < length fresh), r_neighbors = fresh\<rparr>))"

section \<open>Well-formed caches\<close>

text \<open>Distinct keys, and every entry is stored under its own MAC.\<close>

definition cache_ok :: "'n cache \<Rightarrow> bool" where
  "cache_ok c \<longleftrightarrow> wf_dict c \<and> (\<forall>(m, n) \<in> set c. n_mac n = m)"

lemma cache_ok_Nil [simp]: "cache_ok []"
  by (simp add: cache_ok_def)

lemma cache_put_shape:
  assumes "c1 = AList.update mac \<lparr>n_info = info, n_mac = mac, n_last_seen = now\<rparr> c"
  shows "cache_put now mac info c = c1 \<or>
    (\<exists>old. cache_put now mac info c = AList.delete old c1 \<and> old \<noteq> mac)"
  unfolding cache_put_def Let_def assms [symmetric] by auto

lemma cache_put_cases:
  obtains "cache_put now mac info c =
      AList.update mac \<lparr>n_info = info, n_mac = mac, n_last_seen = now\<rparr> c"
  | old where "cache_put now mac info c = AList.delete old
        (AList.update mac \<lparr>n_info = info, n_mac = mac, n_last_seen = now\<rparr> c)" "old \<noteq> mac"
  using cache_put_shape [OF refl, of now mac info c] by blast

lemma cache_ok_put [wf_intros]: "cache_ok c \<Longrightarrow> cache_ok (cache_put now mac info c)"
  by (rule cache_put_cases [of now mac info c])
    (auto simp: cache_ok_def wf_intros dest!: set_update_subset [THEN subsetD]
      set_delete_subset [THEN subsetD])

lemma purge_stale_eq:
  assumes "wf_dict c"
  shows "purge_stale now stale_after c = filter (\<lambda>(m, n). \<not> now - n_last_seen n > stale_after) c"
proof -
  have "m \<in> set [mac. (mac, n) \<leftarrow> c, now - n_last_seen n > stale_after] \<longleftrightarrow>
        now - n_last_seen n > stale_after" if "(m, n) \<in> set c" for m n
    using that assms by (auto simp: map_of_in_set)
  then show ?thesis
    unfolding purge_stale_def Let_def fold_delete by (intro filter_cong) auto
qed

lemma cache_ok_purge [wf_intros]: "cache_ok c \<Longrightarrow> cache_ok (purge_stale now stale_after c)"
  by (auto simp: cache_ok_def purge_stale_eq wf_dict_def keys_def distinct_map_filter)

section \<open>Storing\<close>

text \<open>The frame just handled is always in the cache afterwards; another MAC either keeps its entry
  or has been evicted.\<close>

lemma cache_put_stored:
  "map_of (cache_put now mac info c) mac = Some \<lparr>n_info = info, n_mac = mac, n_last_seen = now\<rparr>"
  by (rule cache_put_cases [of now mac info c]) auto

lemma cache_put_other:
  "m \<noteq> mac \<Longrightarrow> map_of (cache_put now mac info c) m \<in> {map_of c m, None}"
  by (rule cache_put_cases [of now mac info c]) auto

lemma cache_put_small:
  "length (AList.update mac n c) \<le> max_neighbors \<Longrightarrow>
   cache_put now mac info c = AList.update mac \<lparr>n_info = info, n_mac = mac, n_last_seen = now\<rparr> c"
  by (simp add: cache_put_def length_update Let_def split: if_splits)

lemma dom_cache_put: "dom (map_of (cache_put now mac info c)) \<subseteq> insert mac (dom (map_of c))"
  by (rule cache_put_cases [of now mac info c]) (auto split: if_splits)

text \<open>An evicted entry was one of the longest unseen.\<close>

lemma cache_put_evicts_oldest:
  assumes "wf_dict c" and "map_of c m = Some n" and "m \<noteq> mac"
    and "map_of (cache_put now mac info c) m = None" and "map_of c m' = Some n'" and "m' \<noteq> mac"
  shows "n_last_seen n \<le> n_last_seen n'"
proof -
  let ?new = "\<lparr>n_info = info, n_mac = mac, n_last_seen = now\<rparr>"
  let ?c1 = "AList.update mac ?new c"
  let ?old = "arg_min_list (\<lambda>(m, n). n_last_seen n) ?c1"
  have c1: "wf_dict ?c1" using assms(1) by (rule wf_intros)
  have at: "map_of ?c1 m = Some n" "map_of ?c1 m' = Some n'" using assms by simp_all
  from assms(3,4) at have "cache_put now mac info c = AList.delete (fst ?old) ?c1" "fst ?old = m"
    by (auto simp: cache_put_def Let_def split: if_splits)
  have "?c1 \<noteq> []" using at by auto
  then have "?old \<in> set ?c1" by (rule arg_min_list_in_set)
  with \<open>fst ?old = m\<close> at(1) c1 have "?old = (m, n)"
    by (cases ?old) (simp add: map_of_in_set)
  moreover have "(m', n') \<in> set ?c1" using at(2) c1 by (simp add: map_of_in_set)
  from arg_min_list_le [OF this, of "\<lambda>(m, n). n_last_seen n"]
  have "(\<lambda>(m, n). n_last_seen n) ?old \<le> n_last_seen n'" by simp
  ultimately show ?thesis by simp
qed

text \<open>The cap holds as long as the wall clock does not run backwards.\<close>

definition seen_by :: "timestamp \<Rightarrow> 'n cache \<Rightarrow> bool" where
  "seen_by now c \<longleftrightarrow> (\<forall>(m, n) \<in> set c. n_last_seen n \<le> now)"

lemma seen_by_put [wf_intros]: "seen_by now c \<Longrightarrow> seen_by now (cache_put now mac info c)"
  by (rule cache_put_cases [of now mac info c])
    (auto simp: seen_by_def dest!: set_update_subset [THEN subsetD] set_delete_subset [THEN subsetD])

lemma seen_by_mono: "seen_by t c \<Longrightarrow> t \<le> now \<Longrightarrow> seen_by now c"
  by (force simp: seen_by_def)

lemma cache_put_bound:
  assumes wf: "wf_dict c" and len: "length c \<le> max_neighbors" and seen: "seen_by now c"
  shows "length (cache_put now mac info c) \<le> max_neighbors"
proof -
  let ?new = "\<lparr>n_info = info, n_mac = mac, n_last_seen = now\<rparr>"
  let ?c1 = "AList.update mac ?new c"
  show ?thesis
  proof (cases "length ?c1 \<le> max_neighbors")
    case True
    then show ?thesis by (simp add: cache_put_def Let_def)
  next
    case False
    then have new: "map_of c mac = None" and full: "length c = max_neighbors"
      using len by (auto simp: length_update split: if_splits)
    then have c1: "?c1 = c @ [(mac, ?new)]" and ne: "c \<noteq> []"
      by (auto simp: update_new max_neighbors_def)
    have "arg_min_list (\<lambda>(m, n). n_last_seen n) ?c1 = arg_min_list (\<lambda>(m, n). n_last_seen n) c"
      unfolding c1 using ne seen by (intro arg_min_list_append) (auto simp: seen_by_def)
    then have in_c: "arg_min_list (\<lambda>(m, n). n_last_seen n) ?c1 \<in> set c"
      using arg_min_list_in_set [OF ne] by simp
    then have old: "map_of c (fst (arg_min_list (\<lambda>(m, n). n_last_seen n) ?c1)) \<noteq> None"
      by (metis fst_conv map_of_eq_None_iff image_eqI option.distinct(1))
    with new have neq: "fst (arg_min_list (\<lambda>(m, n). n_last_seen n) ?c1) \<noteq> mac" by auto
    have "wf_dict ?c1" using wf by (rule wf_intros)
    with old neq have "length (AList.delete (fst (arg_min_list (\<lambda>(m, n). n_last_seen n) ?c1)) ?c1)
        = length ?c1 - 1"
      by (auto simp: length_delete)
    with False neq full new show ?thesis
      by (simp add: cache_put_def Let_def length_update)
  qed
qed

section \<open>Reporting\<close>

lemma map_of_purge:
  "wf_dict c \<Longrightarrow> map_of (purge_stale now stale_after c) m =
     (case map_of c m of
        None \<Rightarrow> None
      | Some n \<Rightarrow> if now - n_last_seen n > stale_after then None else Some n)"
proof -
  assume wf: "wf_dict c"
  let ?c' = "purge_stale now stale_after c"
  have wf': "wf_dict ?c'"
    using wf by (simp add: purge_stale_eq wf_dict_def keys_def distinct_map_filter)
  have iff: "map_of ?c' m = Some n \<longleftrightarrow> map_of c m = Some n \<and> \<not> now - n_last_seen n > stale_after" for n
    by (simp only: map_of_in_set [OF wf', symmetric] map_of_in_set [OF wf, symmetric])
      (simp add: purge_stale_eq [OF wf])
  show ?thesis
  proof (cases "map_of c m")
    case None
    with iff have "map_of ?c' m \<noteq> Some n" for n by simp
    then have "map_of ?c' m = None" by (metis not_Some_eq)
    with None show ?thesis by simp
  next
    case (Some k)
    show ?thesis
    proof (cases "now - n_last_seen k > stale_after")
      case True
      with iff Some have "map_of ?c' m \<noteq> Some n" for n by auto
      then have "map_of ?c' m = None" by (metis not_Some_eq)
      with Some True show ?thesis by simp
    next
      case False
      with iff Some show ?thesis by simp
    qed
  qed
qed

lemma report_sorted: "sorted (map r_age (report_entries now c))"
  by (simp add: report_entries_def)

lemma report_content:
  "mset (map r_neighbor (report_entries now c)) = mset (map snd c)"
proof -
  let ?e = "\<lambda>(m, n). \<lparr>r_neighbor = n, r_age = py_int (now - n_last_seen n)\<rparr>"
  have "image_mset r_neighbor (mset (map ?e c)) = mset (map snd c)"
    by (induction c) auto
  then show ?thesis by (simp only: report_entries_def mset_map mset_sort)
qed

lemma report_age:
  "e \<in> set (report_entries now c) \<Longrightarrow> r_age e = py_int (now - n_last_seen (r_neighbor e))"
  by (auto simp: report_entries_def)

end
