(* ===== verification/Listener.thy ===== *)
theory Listener
  imports Neighbor_Cache
begin

text \<open>
  The contract between the capture dispatcher and its listeners.  A handler takes the time of the
  packet, the frame and its own state, and either raises or returns the new state; every handler of
  the backend does all its parsing, the only part that can raise, before it touches its state, so a
  raised exception leaves the state as it was.  The dispatcher swallows it.

  \<open>listener\<close> is the contract of any listener with an invariant; \<open>neighbor_listener\<close> that of the
  three discovery modules, stated by what their frame parser accepts.  Its client lemmas hold for a
  whole capture: the cache stays well-formed, stays within its cap while the clock is monotone, and
  holds for every source MAC exactly the last announcement parsed from it as long as the cap is not
  exceeded.
\<close>

type_synonym 's handler = "timestamp \<Rightarrow> bytes \<Rightarrow> 's \<Rightarrow> exn + 's"
type_synonym capture = "(timestamp \<times> bytes) list"

text \<open>\<open>try: handler(packet) except Exception: pass\<close>\<close>

definition run_handler :: "'s handler \<Rightarrow> timestamp \<times> bytes \<Rightarrow> 's \<Rightarrow> 's" where
  "run_handler h tp s = (case h (fst tp) (snd tp) s of Inl _ \<Rightarrow> s | Inr s' \<Rightarrow> s')"

definition listen :: "'s handler \<Rightarrow> capture \<Rightarrow> 's \<Rightarrow> 's" where
  "listen h ps s = fold (run_handler h) ps s"

lemma listen_simps [simp]:
  "listen h [] s = s"
  "listen h (tp # ps) s = listen h ps (run_handler h tp s)"
  by (simp_all add: listen_def)

lemma listen_append: "listen h (ps @ qs) s = listen h qs (listen h ps s)"
  by (simp add: listen_def)

locale listener =
  fixes handle :: "'s handler" and inv :: "'s \<Rightarrow> bool"
  assumes handle_inv: "inv s \<Longrightarrow> handle t p s = Inr s' \<Longrightarrow> inv s'"
begin

lemma run_inv: "inv s \<Longrightarrow> inv (run_handler handle tp s)"
  by (auto simp: run_handler_def split: sum.splits dest: handle_inv)

lemma listen_inv: "inv s \<Longrightarrow> inv (listen handle ps s)"
  by (induction ps arbitrary: s) (simp_all add: run_inv)

end

section \<open>Neighbour listeners\<close>

text \<open>The source MAC of a frame, the key of the cache, and what a capture stores under it: the
  announcements the parser accepts, in order.\<close>

definition frame_source :: "bytes \<Rightarrow> pystr" where
  "frame_source p = mac_str (py_slice p 6 12)"

definition announcement :: "(bytes \<Rightarrow> (exn + 'n) option) \<Rightarrow> timestamp \<times> bytes \<Rightarrow>
    (pystr \<times> 'n neighbor) option" where
  "announcement parse tp =
     (case parse (snd tp) of
        Some (Inr n) \<Rightarrow> Some (frame_source (snd tp),
          \<lparr>n_info = n, n_mac = frame_source (snd tp), n_last_seen = fst tp\<rparr>)
      | _ \<Rightarrow> None)"

definition announcements :: "(bytes \<Rightarrow> (exn + 'n) option) \<Rightarrow> capture \<Rightarrow>
    (pystr \<times> 'n neighbor) list" where
  "announcements parse ps = List.map_filter (announcement parse) ps"

lemma announcements_simps [simp]:
  "announcements parse [] = []"
  "announcements parse (tp # ps) =
     (case announcement parse tp of None \<Rightarrow> announcements parse ps
      | Some a \<Rightarrow> a # announcements parse ps)"
  by (simp_all add: announcements_def map_filter_simps split: option.split)

locale neighbor_listener =
  fixes handle :: "'n cache handler" and parse :: "bytes \<Rightarrow> (exn + 'n) option"
  assumes handle_eq: "handle t p c =
    (case parse p of
       None \<Rightarrow> Inr c
     | Some (Inl e) \<Rightarrow> Inl e
     | Some (Inr n) \<Rightarrow> Inr (cache_put t (frame_source p) n c))"
begin

lemma run_eq:
  "run_handler handle tp c =
     (case announcement parse tp of None \<Rightarrow> c
      | Some (m, n) \<Rightarrow> cache_put (fst tp) m (n_info n) c)"
  by (auto simp: run_handler_def handle_eq announcement_def split: option.splits sum.splits)

lemma announcement_fields:
  "announcement parse tp = Some (m, n) \<Longrightarrow> n = \<lparr>n_info = n_info n, n_mac = m, n_last_seen = fst tp\<rparr>"
  by (auto simp: announcement_def split: option.splits sum.splits)

end

sublocale neighbor_listener \<subseteq> listener handle cache_ok
proof
  fix s s' :: "'n cache" and t p
  assume "cache_ok s" "handle t p s = Inr s'"
  then show "cache_ok s'"
    by (auto simp: handle_eq wf_intros split: option.splits sum.splits)
qed

context neighbor_listener begin

lemma listen_ok: "cache_ok (listen handle ps [])"
  by (rule listen_inv) simp

lemma run_bound:
  assumes "cache_ok c" "length c \<le> max_neighbors" "seen_by t c" "t \<le> fst tp"
  shows "length (run_handler handle tp c) \<le> max_neighbors \<and> seen_by (fst tp) (run_handler handle tp c)"
proof -
  have s: "seen_by (fst tp) c" using assms(3,4) by (rule seen_by_mono)
  have "wf_dict c" using assms(1) by (simp add: cache_ok_def)
  then show ?thesis
    using assms(2) s by (auto simp: run_eq wf_intros cache_put_bound split: option.splits)
qed

lemma listen_bound_from:
  "cache_ok c \<Longrightarrow> length c \<le> max_neighbors \<Longrightarrow> seen_by t c \<Longrightarrow> sorted (t # map fst ps) \<Longrightarrow>
   length (listen handle ps c) \<le> max_neighbors"
proof (induction ps arbitrary: t c)
  case Nil
  then show ?case by simp
next
  case (Cons tp ps)
  from Cons.prems have "t \<le> fst tp" by simp
  with Cons.prems run_bound [of c t tp]
  have "length (run_handler handle tp c) \<le> max_neighbors" "seen_by (fst tp) (run_handler handle tp c)"
    by blast+
  with Cons.IH [of "run_handler handle tp c" "fst tp"] Cons.prems run_inv show ?case
    by simp
qed

lemma listen_bound:
  assumes "sorted (map fst ps)"
  shows "length (listen handle ps []) \<le> max_neighbors"
proof (cases ps)
  case Nil
  then show ?thesis by (simp add: max_neighbors_def)
next
  case (Cons tp qs)
  with assms have "sorted (fst tp # map fst ps)" by auto
  then show ?thesis by (rule listen_bound_from [rotated 3]) (simp_all add: seen_by_def)
qed

text \<open>Below the cap nothing is evicted, so the cache is the last announcement of every source.\<close>

lemma listen_exact_from:
  assumes "cache_ok c"
    and "card (dom (map_of c) \<union> fst ` set (announcements parse ps)) \<le> max_neighbors"
  shows "map_of (listen handle ps c) = map_of c ++ map_of (rev (announcements parse ps))"
  using assms
proof (induction ps arbitrary: c)
  case Nil
  then show ?case by simp
next
  case (Cons tp ps)
  show ?case
  proof (cases "announcement parse tp")
    case None
    with Cons show ?thesis by (simp add: run_eq)
  next
    case (Some a)
    obtain m n where a: "a = (m, n)" by (cases a)
    with Some have n: "\<lparr>n_info = n_info n, n_mac = m, n_last_seen = fst tp\<rparr> = n"
      using announcement_fields by metis
    have wf: "wf_dict (AList.update m n c)"
      using Cons.prems(1) by (simp add: cache_ok_def wf_intros)
    have "length (AList.update m n c) = card (insert m (dom (map_of c)))"
      using wf_dict_length [OF wf] by simp
    also have "\<dots> \<le> card (dom (map_of c) \<union> fst ` set (announcements parse (tp # ps)))"
      using Some a by (intro card_mono) (auto simp: finite_dom_map_of)
    also have "\<dots> \<le> max_neighbors" by (rule Cons.prems(2))
    finally have run: "run_handler handle tp c = AList.update m n c"
      using Some a n cache_put_small [of m n c "fst tp" "n_info n"] by (simp add: run_eq)
    have "map_of (listen handle ps (AList.update m n c))
        = map_of (AList.update m n c) ++ map_of (rev (announcements parse ps))"
    proof (rule Cons.IH)
      show "cache_ok (AList.update m n c)"
        using run_inv [OF Cons.prems(1), of tp] run by simp
      have "dom (map_of (AList.update m n c)) \<union> fst ` set (announcements parse ps)
          = dom (map_of c) \<union> fst ` set (announcements parse (tp # ps))"
        using Some a by auto
      then show "card (dom (map_of (AList.update m n c)) \<union> fst ` set (announcements parse ps))
          \<le> max_neighbors"
        using Cons.prems(2) by simp
    qed
    with run Some a show ?thesis
      by (auto simp: map_add_def fun_eq_iff split: option.splits)
  qed
qed

lemma listen_exact:
  "card (fst ` set (announcements parse ps)) \<le> max_neighbors \<Longrightarrow>
   map_of (listen handle ps []) = map_of (rev (announcements parse ps))"
  using listen_exact_from [of "[]" ps] by simp

end

end
