(* ===== verification/Tlv.thy ===== *)
theory Tlv
  imports Prelude
begin

text \<open>
  Type-length-value loops.  LLDP, CDP, MNDP, DHCP options and PROFINET blocks are all parsed by a
  \<open>while\<close> loop that walks an index over the bytes; the formats differ in header and padding, the
  argument that such a loop decodes a sequence of encoded items is the same.  The locale states
  what one iteration promises: at the start of an encoded item the loop applies the item's effect
  and continues after it, whatever precedes and follows.  A loop that stops at a limit before the end
  of its bytes (PROFINET) promises so for items below the limit; one without a limit is a special case.
\<close>

locale tlv_window =
  fixes loop :: "nat \<Rightarrow> bytes \<Rightarrow> nat \<Rightarrow> 'n \<Rightarrow> exn + 'n"
    and enc :: "'t \<Rightarrow> bytes"
    and ok :: "'t \<Rightarrow> bool"
    and app :: "'t \<Rightarrow> 'n \<Rightarrow> 'n"
  assumes window_step: "ok t \<Longrightarrow> length pre + length (enc t) \<le> limit \<Longrightarrow>
    loop limit (pre @ enc t @ rest) (length pre) n =
    loop limit (pre @ enc t @ rest) (length pre + length (enc t)) (app t n)"
begin

lemma window_run:
  "list_all ok ts \<Longrightarrow> length pre + length (concat (map enc ts)) \<le> limit \<Longrightarrow>
   loop limit (pre @ concat (map enc ts) @ rest) (length pre) n =
   loop limit (pre @ concat (map enc ts) @ rest) (length pre + length (concat (map enc ts))) (fold app ts n)"
proof (induction ts arbitrary: pre n)
  case Nil
  then show ?case by simp
next
  case (Cons t ts)
  let ?more = "concat (map enc ts) @ rest"
  have "loop limit (pre @ enc t @ ?more) (length pre) n
      = loop limit (pre @ enc t @ ?more) (length pre + length (enc t)) (app t n)"
    using Cons.prems by (intro window_step) simp_all
  also have "\<dots> = loop limit ((pre @ enc t) @ ?more) (length (pre @ enc t)) (app t n)" by simp
  also have "\<dots> = loop limit ((pre @ enc t) @ ?more)
      (length (pre @ enc t) + length (concat (map enc ts))) (fold app ts (app t n))"
    using Cons.prems by (intro Cons.IH) simp_all
  finally show ?case by (simp add: add.assoc)
qed

end

locale tlv_loop =
  fixes loop :: "bytes \<Rightarrow> nat \<Rightarrow> 'n \<Rightarrow> exn + 'n"
    and enc :: "'t \<Rightarrow> bytes"
    and ok :: "'t \<Rightarrow> bool"
    and app :: "'t \<Rightarrow> 'n \<Rightarrow> 'n"
  assumes step: "ok t \<Longrightarrow>
    loop (pre @ enc t @ rest) (length pre) n =
    loop (pre @ enc t @ rest) (length pre + length (enc t)) (app t n)"

sublocale tlv_loop \<subseteq> window: tlv_window "\<lambda>limit. loop" enc ok app
  by unfold_locales (rule step)

context tlv_loop
begin

lemma loop_run:
  "list_all ok ts \<Longrightarrow>
   loop (pre @ concat (map enc ts) @ rest) (length pre) n =
   loop (pre @ concat (map enc ts) @ rest) (length pre + length (concat (map enc ts))) (fold app ts n)"
  by (rule window.window_run [OF _ order_refl])

end

end
