(* ===== verification/Lldp.thy ===== *)
theory Lldp
  imports Listener Tlv
begin

text \<open>
  \<open>backend/discovery/lldp.py\<close>: the LLDPDU parser (TLVs with a 7-bit type and a 9-bit length) and
  the packet handler.  Shown here: the parser never raises, it inverts the encoding of a neighbour's
  announcement whatever follows the End TLV, and the module is a \<open>neighbor_listener\<close>.
\<close>

record lldp_info =
  l_chassis_id :: "pystr option"
  l_port_id :: "pystr option"
  l_port_description :: "pystr option"
  l_system_name :: "pystr option"
  l_system_description :: "pystr option"
  l_management_ip :: "pystr option"
  l_vlan :: "nat option"

definition lldp_empty :: lldp_info where
  "lldp_empty = \<lparr>l_chassis_id = None, l_port_id = None, l_port_description = None,
     l_system_name = None, l_system_description = None, l_management_ip = None, l_vlan = None\<rparr>"

definition LLDP_ETHERTYPE :: nat where
  "LLDP_ETHERTYPE = 0x88CC"

definition parse_chassis_id :: "byte \<Rightarrow> bytes \<Rightarrow> pystr" where
  "parse_chassis_id subtype v =
     (if subtype = 4 \<and> length v = 6 then mac_str v else utf8_decode v)"

definition parse_port_id :: "byte \<Rightarrow> bytes \<Rightarrow> pystr" where
  "parse_port_id subtype v =
     (if subtype = 3 \<and> length v = 6 then mac_str v else utf8_decode v)"

definition ip6_str :: "bytes \<Rightarrow> pystr" where
  "ip6_str addr = join [58] (map (\<lambda>i. bytes_hex (py_slice addr i (i + 2))) [0, 2, 4, 6, 8, 10, 12, 14])"

definition parse_management_address :: "bytes \<Rightarrow> exn + pystr option" where
  "parse_management_address v =
     (if length v < 2 then Inr None
      else rbind (byte_at v 0) (\<lambda>addr_len. rbind (byte_at v 1) (\<lambda>addr_subtype.
        let addr = py_slice v 2 (1 + unat addr_len) in
        if addr_subtype = 1 \<and> length addr = 4 then Inr (Some (ip_str addr))
        else if addr_subtype = 2 \<and> length addr = 16 then Inr (Some (ip6_str addr))
        else Inr None)))"

text \<open>The \<open>if/elif\<close> chain of one TLV.\<close>

definition lldp_tlv :: "nat \<Rightarrow> bytes \<Rightarrow> lldp_info \<Rightarrow> exn + lldp_info" where
  "lldp_tlv ty v nb =
     (if ty = 1 \<and> v \<noteq> [] then
        rbind (byte_at v 0) (\<lambda>sub. Inr (nb\<lparr>l_chassis_id := Some (parse_chassis_id sub (drop 1 v))\<rparr>))
      else if ty = 2 \<and> v \<noteq> [] then
        rbind (byte_at v 0) (\<lambda>sub. Inr (nb\<lparr>l_port_id := Some (parse_port_id sub (drop 1 v))\<rparr>))
      else if ty = 4 then Inr (nb\<lparr>l_port_description := Some (utf8_decode v)\<rparr>)
      else if ty = 5 then Inr (nb\<lparr>l_system_name := Some (utf8_decode v)\<rparr>)
      else if ty = 6 then Inr (nb\<lparr>l_system_description := Some (strip (utf8_decode v))\<rparr>)
      else if ty = 8 then
        rbind (parse_management_address v) (\<lambda>addr.
          case addr of
            Some a \<Rightarrow> Inr (if a \<noteq> [] then nb\<lparr>l_management_ip := Some a\<rparr> else nb)
          | None \<Rightarrow> Inr nb)
      else if ty = 127 \<and> 6 \<le> length v then
        rbind (byte_at v 3) (\<lambda>org_subtype.
          if py_slice v 0 3 = [0x00, 0x80, 0xC2] \<and> org_subtype = 3 then
            rbind (unpack_H (py_slice v 4 6)) (\<lambda>vlan. Inr (nb\<lparr>l_vlan := Some vlan\<rparr>))
          else Inr nb)
      else Inr nb)"

text \<open>The \<open>while i + 2 <= n\<close> loop; \<open>header >> 9\<close> and \<open>header & 0x1FF\<close> are written as quotient and
  remainder.\<close>

function lldp_loop :: "bytes \<Rightarrow> nat \<Rightarrow> lldp_info \<Rightarrow> exn + lldp_info" where
  "lldp_loop payload i nb =
     (if i + 2 \<le> length payload then
        rbind (unpack_H (py_slice payload i (i + 2))) (\<lambda>header.
          let tlv_type = header div 512;
              tlv_len = header mod 512;
              v = py_slice payload (i + 2) (i + 2 + tlv_len)
          in if length v < tlv_len then Inr nb
             else if tlv_type = 0 then Inr nb
             else rbind (lldp_tlv tlv_type v nb) (lldp_loop payload (i + 2 + tlv_len)))
      else Inr nb)"
  by pat_completeness auto
termination
  by (relation "measure (\<lambda>(payload, i, nb). length payload - i)") auto

declare lldp_loop.simps [simp del]

definition parse_lldpdu :: "bytes \<Rightarrow> exn + lldp_info" where
  "parse_lldpdu payload = lldp_loop payload 0 lldp_empty"

definition lldp_handle_packet :: "lldp_info cache handler" where
  "lldp_handle_packet now packet c =
     (if length packet < 14 then Inr c
      else rbind (unpack_H (py_slice packet 12 14)) (\<lambda>ethertype.
        if ethertype \<noteq> LLDP_ETHERTYPE then Inr c
        else let mac = mac_str (py_slice packet 6 12) in
          rbind (parse_lldpdu (drop 14 packet)) (\<lambda>nb. Inr (cache_put now mac nb c))))"

section \<open>The parser never raises\<close>

lemma parse_management_address_returns [simp]: "returns (parse_management_address v)"
  by (auto simp: parse_management_address_def byte_at_def Let_def)

lemma lldp_tlv_returns: "returns (lldp_tlv ty v nb)"
proof -
  obtain a where "parse_management_address v = Inr a"
    using parse_management_address_returns [of v] by (auto simp: returns_iff)
  then show ?thesis by (auto simp: lldp_tlv_def split: option.splits)
qed

lemma lldp_loop_returns: "returns (lldp_loop payload i nb)"
proof (induction payload i nb rule: lldp_loop.induct)
  case (1 payload i nb)
  show ?case
  proof (cases "i + 2 \<le> length payload")
    case False
    then show ?thesis by (simp add: lldp_loop.simps [of payload i])
  next
    case True
    let ?h = "256 * unat (payload ! i) + unat (payload ! Suc i)"
    have h: "unpack_H (py_slice payload i (i + 2)) = Inr ?h" using True by (intro unpack_H_slice) auto
    obtain nb' where nb': "lldp_tlv (?h div 512) (py_slice payload (i + 2) (i + 2 + ?h mod 512)) nb
        = Inr nb'"
      by (meson lldp_tlv_returns returns_iff)
    show ?thesis
    proof (cases "length (py_slice payload (i + 2) (i + 2 + ?h mod 512)) < ?h mod 512 \<or> ?h div 512 = 0")
      case stop: True
      with True h show ?thesis by (subst lldp_loop.simps) (auto simp: Let_def)
    next
      case go: False
      have "returns (lldp_loop payload (i + 2 + ?h mod 512) nb')"
        using "1.IH" [OF True h refl refl refl] go nb' by auto
      with True h go nb' show ?thesis by (subst lldp_loop.simps) (auto simp: Let_def)
    qed
  qed
qed

lemma parse_lldpdu_returns: "returns (parse_lldpdu payload)"
  by (simp add: parse_lldpdu_def lldp_loop_returns)

section \<open>Decoding encoded TLVs\<close>

definition lldp_enc :: "nat \<times> bytes \<Rightarrow> bytes" where
  "lldp_enc tv = be16 (512 * fst tv + length (snd tv)) @ snd tv"

definition lldp_enc_ok :: "nat \<times> bytes \<Rightarrow> bool" where
  "lldp_enc_ok tv \<longleftrightarrow> 0 < fst tv \<and> fst tv < 128 \<and> length (snd tv) < 512"

definition lldp_app :: "nat \<times> bytes \<Rightarrow> lldp_info \<Rightarrow> lldp_info" where
  "lldp_app tv nb = (case lldp_tlv (fst tv) (snd tv) nb of Inr nb' \<Rightarrow> nb' | Inl _ \<Rightarrow> nb)"

lemma lldp_app_eq: "lldp_tlv (fst tv) (snd tv) nb = Inr (lldp_app tv nb)"
  using lldp_tlv_returns [of "fst tv" "snd tv" nb] by (auto simp: lldp_app_def returns_iff)

lemma lldp_header:
  assumes "lldp_enc_ok tv"
  shows "unpack_H (py_slice (pre @ lldp_enc tv @ rest) (length pre) (length pre + 2))
    = Inr (512 * fst tv + length (snd tv))"
proof -
  have "512 * fst tv + length (snd tv) < 65536" using assms by (auto simp: lldp_enc_ok_def)
  moreover have "py_slice (pre @ lldp_enc tv @ rest) (length pre) (length pre + 2)
      = be16 (512 * fst tv + length (snd tv))"
    unfolding lldp_enc_def using slice_append_mid [of pre "be16 (512 * fst tv + length (snd tv))"] by simp
  ultimately show ?thesis by (simp only: unpack_H_be16)
qed

interpretation lldp: tlv_loop lldp_loop lldp_enc lldp_enc_ok lldp_app
proof
  fix tv pre rest nb
  assume ok: "lldp_enc_ok tv"
  let ?p = "pre @ lldp_enc tv @ rest"
  let ?h = "512 * fst tv + length (snd tv)"
  have v: "py_slice ?p (length pre + 2) (length pre + 2 + length (snd tv)) = snd tv"
    using slice_append_mid [of "pre @ be16 ?h" "snd tv" rest] by (simp add: lldp_enc_def)
  have h: "?h div 512 = fst tv" "?h mod 512 = length (snd tv)" "fst tv \<noteq> 0"
    using ok by (auto simp: lldp_enc_ok_def)
  have "length pre + 2 \<le> length ?p" by (simp add: lldp_enc_def)
  then show "lldp_loop ?p (length pre) nb = lldp_loop ?p (length pre + length (lldp_enc tv)) (lldp_app tv nb)"
    by (subst lldp_loop.simps)
      (simp only: if_True lldp_header [OF ok] rbind_simps Let_def h v lldp_app_eq,
        simp add: lldp_enc_def h(3) add.assoc)
qed

lemma lldp_loop_end:
  "lldp_loop (pre @ be16 0 @ junk) (length pre) nb = Inr nb"
proof -
  have "unpack_H (py_slice (pre @ be16 0 @ junk) (length pre) (length pre + 2)) = Inr 0"
    using slice_append_mid [of pre "be16 0" junk] by simp
  then show ?thesis by (subst lldp_loop.simps) (simp del: One_nat_def add_2_eq_Suc')
qed

lemma parse_lldpdu_encoded:
  assumes "list_all lldp_enc_ok tvs"
  shows "parse_lldpdu (concat (map lldp_enc tvs) @ be16 0 @ junk) = Inr (fold lldp_app tvs lldp_empty)"
  using lldp.loop_run [OF assms, of "[]" "be16 0 @ junk" lldp_empty] lldp_loop_end
  by (simp add: parse_lldpdu_def)

text \<open>An announcement as IEEE 802.1AB lays it out, from the fields a switch advertises.  In the organizationally
  specific TLVs of 802.1 (identifier 00-80-C2) subtype 1 is the Port VLAN ID, two bytes; subtype 3 is a VLAN
  Name, the two bytes of a VLAN followed by its name, one TLV for each VLAN.\<close>

record lldp_message =
  m_chassis_mac :: bytes
  m_port_name :: pystr
  m_port_descr :: pystr
  m_sys_name :: pystr
  m_sys_descr :: pystr
  m_address :: bytes
  m_port_vlan :: nat
  m_vlan_names :: "(nat \<times> pystr) list"

definition utf8_encode :: "pystr \<Rightarrow> bytes" where
  "utf8_encode s = concat (map utf8_encode1 s)"

definition text_ok :: "pystr \<Rightarrow> bool" where
  "text_ok s \<longleftrightarrow> list_all scalar_value s \<and> length (utf8_encode s) < 256"

definition lldp_message_ok :: "lldp_message \<Rightarrow> bool" where
  "lldp_message_ok m \<longleftrightarrow> length (m_chassis_mac m) = 6 \<and> length (m_address m) = 4 \<and>
     m_port_vlan m < 65536 \<and> text_ok (m_port_name m) \<and> text_ok (m_port_descr m) \<and> text_ok (m_sys_name m) \<and>
     text_ok (m_sys_descr m) \<and> list_all (\<lambda>(vid, name). vid < 65536 \<and> text_ok name) (m_vlan_names m)"

definition vlan_name_tlv :: "nat \<times> pystr \<Rightarrow> nat \<times> bytes" where
  "vlan_name_tlv v = (127, [0x00, 0x80, 0xC2, 3] @ be16 (fst v) @
     byte_of (length (utf8_encode (snd v))) # utf8_encode (snd v))"

definition lldp_message_tlvs :: "lldp_message \<Rightarrow> (nat \<times> bytes) list" where
  "lldp_message_tlvs m =
     [(1, 4 # m_chassis_mac m), (2, 5 # utf8_encode (m_port_name m)), (3, be16 120),
      (4, utf8_encode (m_port_descr m)), (5, utf8_encode (m_sys_name m)), (6, utf8_encode (m_sys_descr m)),
      (8, [5, 1] @ m_address m @ [2, 0, 0, 0, 1, 0]), (127, [0x00, 0x80, 0xC2, 1] @ be16 (m_port_vlan m))] @
     map vlan_name_tlv (m_vlan_names m)"

definition encode_lldpdu :: "lldp_message \<Rightarrow> bytes" where
  "encode_lldpdu m = concat (map lldp_enc (lldp_message_tlvs m)) @ be16 0"

lemma utf8_decode_utf8_encode [simp]: "list_all scalar_value s \<Longrightarrow> utf8_decode (utf8_encode s) = s"
  by (simp add: utf8_encode_def utf8_decode_encode)

lemma lldp_message_tlvs_ok: "lldp_message_ok m \<Longrightarrow> list_all lldp_enc_ok (lldp_message_tlvs m)"
  by (auto simp: lldp_message_tlvs_def lldp_enc_ok_def lldp_message_ok_def text_ok_def vlan_name_tlv_def list_all_iff)

lemma lldp_tlv_address:
  "length a = 4 \<Longrightarrow> parse_management_address (5 # 1 # a @ rest) = Inr (Some (ip_str a))"
  by (simp add: parse_management_address_def py_slice_def byte_at_def Let_def)

lemma ip_str_nonempty [simp]: "bs \<noteq> [] \<Longrightarrow> ip_str bs \<noteq> []"
  by (cases bs rule: list.exhaust; cases "tl bs") (auto simp: ip_str_def)

lemma lldp_vlan_slice:
  "n < 65536 \<Longrightarrow> unpack_H (py_slice ([a, b, c, d] @ be16 n @ rest) 4 6) = Inr n"
proof -
  assume n: "n < 65536"
  have "py_slice ([a, b, c, d] @ be16 n @ rest) 4 6 = be16 n" by (simp add: py_slice_def be16_def)
  with n show ?thesis by (simp only: unpack_H_be16)
qed

text \<open>The VLAN Name TLVs: the last one gives the VLAN.\<close>

lemma lldp_vlan_name:
  "fst v < 65536 \<Longrightarrow> lldp_app (vlan_name_tlv v) nb = nb\<lparr>l_vlan := Some (fst v)\<rparr>"
  using lldp_vlan_slice [of "fst v" 0 128 194 3 "byte_of (length (utf8_encode (snd v))) # utf8_encode (snd v)"]
  by (simp add: vlan_name_tlv_def lldp_app_def lldp_tlv_def py_slice_prefix)

lemma lldp_vlan_names:
  "list_all (\<lambda>(vid, name). vid < 65536 \<and> text_ok name) vs \<Longrightarrow>
    fold lldp_app (map vlan_name_tlv vs) nb = (if vs = [] then nb else nb\<lparr>l_vlan := Some (fst (last vs))\<rparr>)"
  by (induction vs arbitrary: nb) (auto simp: lldp_vlan_name)

section \<open>The listener\<close>

definition lldp_parse_frame :: "bytes \<Rightarrow> (exn + lldp_info) option" where
  "lldp_parse_frame p =
     (if 14 \<le> length p \<and> 256 * unat (p ! 12) + unat (p ! 13) = LLDP_ETHERTYPE
      then Some (parse_lldpdu (drop 14 p)) else None)"

interpretation lldp: neighbor_listener lldp_handle_packet lldp_parse_frame
  by unfold_locales
    (auto simp: lldp_handle_packet_def lldp_parse_frame_def frame_source_def rbind_def Let_def
      split: sum.splits)

section \<open>Properties\<close>

text \<open>C15: An announcement encoded as IEEE 802.1AB prescribes is decoded to its fields: the chassis MAC, port, port
  description, system name, system description (stripped) and management address reach the neighbour entry,
  whatever bytes (padding, a further TLV) follow the End TLV.  The VLAN of the entry is that of the last VLAN
  Name TLV, and none when the switch sends no such TLV; the Port VLAN ID it announces is never read.\<close>

theorem lldp_roundtrip:
  assumes "lldp_message_ok m"
  shows "parse_lldpdu (encode_lldpdu m @ junk) =
    Inr \<lparr>l_chassis_id = Some (mac_str (m_chassis_mac m)), l_port_id = Some (m_port_name m),
         l_port_description = Some (m_port_descr m), l_system_name = Some (m_sys_name m),
         l_system_description = Some (strip (m_sys_descr m)), l_management_ip = Some (ip_str (m_address m)),
         l_vlan = (if m_vlan_names m = [] then None else Some (fst (last (m_vlan_names m))))\<rparr>"
proof -
  have m: "length (m_chassis_mac m) = 6" "length (m_address m) = 4" "m_port_vlan m < 65536"
    "list_all scalar_value (m_port_name m)" "list_all scalar_value (m_port_descr m)"
    "list_all scalar_value (m_sys_name m)" "list_all scalar_value (m_sys_descr m)"
    "list_all (\<lambda>(vid, name). vid < 65536 \<and> text_ok name) (m_vlan_names m)"
    using assms by (auto simp: lldp_message_ok_def text_ok_def)
  then have ne: "m_address m \<noteq> []" by auto
  have tlv8: "parse_management_address ([5, 1] @ m_address m @ [2, 0, 0, 0, 1, 0])
      = Inr (Some (ip_str (m_address m)))"
    using lldp_tlv_address [OF m(2)] by simp
  have "parse_lldpdu (encode_lldpdu m @ junk) = Inr (fold lldp_app (lldp_message_tlvs m) lldp_empty)"
    using parse_lldpdu_encoded [OF lldp_message_tlvs_ok [OF assms]] by (simp add: encode_lldpdu_def)
  then show ?thesis
    using m ne tlv8
    by (simp add: lldp_message_tlvs_def lldp_vlan_names)
      (simp add: lldp_app_def lldp_tlv_def lldp_empty_def parse_chassis_id_def parse_port_id_def py_slice_prefix)
qed

text \<open>A switch port in the untagged VLAN 10, which names the VLANs 10 and 20.\<close>

definition sample_message :: lldp_message where
  "sample_message = \<lparr>m_chassis_mac = [0x00, 0x1B, 0x1B, 0xAA, 0x01, 0x02], m_port_name = lit ''port-001'',
     m_port_descr = lit ''uplink'', m_sys_name = 0x160 # lit ''witch'', m_sys_descr = lit ''switch'',
     m_address = [192, 168, 20, 4], m_port_vlan = 10, m_vlan_names = [(10, lit ''office''), (20, lit ''voice'')]\<rparr>"

theorem lldp_roundtrip_witness:
  "lldp_message_ok sample_message \<and>
   parse_lldpdu (encode_lldpdu sample_message @ [0, 0, 7]) =
    Inr \<lparr>l_chassis_id = Some (mac_str [0x00, 0x1B, 0x1B, 0xAA, 0x01, 0x02]),
         l_port_id = Some (lit ''port-001''), l_port_description = Some (lit ''uplink''),
         l_system_name = Some (0x160 # lit ''witch''), l_system_description = Some (strip (lit ''switch'')),
         l_management_ip = Some (ip_str [192, 168, 20, 4]), l_vlan = Some 20\<rparr>"
proof -
  have ok: "lldp_message_ok sample_message"
    by (simp add: lldp_message_ok_def sample_message_def text_ok_def lit_def scalar_value_def
        utf8_encode_def utf8_encode1_def)
  from lldp_roundtrip [OF this, of "[0, 0, 7]"] ok show ?thesis
    by (simp add: sample_message_def)
qed

text \<open>No frame, however malformed, makes the LLDP handler raise, so no other announcement can be
  lost to the dispatcher's exception handler.\<close>

theorem lldp_handler_total: "\<exists>c'. lldp_handle_packet now packet c = Inr c'"
  using parse_lldpdu_returns [of "drop 14 packet"]
  by (auto simp: lldp_handle_packet_def Let_def returns_iff)

text \<open>After any capture with at most 500 distinct announcing devices, the LLDP cache maps every
  source MAC to the parse and arrival time of the last announcement received from it, and to nothing
  for a MAC that never announced.\<close>

theorem lldp_cache_is_last_announcement:
  assumes "card (fst ` set (announcements lldp_parse_frame ps)) \<le> 500"
  shows "map_of (listen lldp_handle_packet ps []) = map_of (rev (announcements lldp_parse_frame ps))"
  using assms lldp.listen_exact [of ps] by (simp add: max_neighbors_def)

definition sample_frame :: "byte \<Rightarrow> bytes" where
  "sample_frame b = [0x01, 0x80, 0xC2, 0x00, 0x00, 0x0E, 0, 1, 2, 3, 4, b, 0x88, 0xCC] @
     lldp_enc (5, [0x70, b]) @ be16 0"

theorem lldp_cache_is_last_announcement_witness:
  "map_of (listen lldp_handle_packet [(1, sample_frame 65), (2, [1, 2]), (3, sample_frame 66)] []) =
   map_of (rev (announcements lldp_parse_frame
     [(1, sample_frame 65), (2, [1, 2]), (3, sample_frame 66)]))"
proof (rule lldp_cache_is_last_announcement)
  let ?as = "announcements lldp_parse_frame [(1, sample_frame 65), (2, [1, 2]), (3, sample_frame 66)]"
  have "length ?as \<le> 3" by (auto split: option.splits)
  then have "card (fst ` set ?as) \<le> 3"
    by (meson card_image_le card_length finite_set le_trans)
  then show "card (fst ` set ?as) \<le> 500" by simp
qed

end
