(* ===== verification/Cdp.thy ===== *)
theory Cdp
  imports Listener Tlv
begin

text \<open>
  \<open>backend/discovery/cdp.py\<close>: the CDP payload parser (TLVs whose 16-bit length includes their own
  4-byte header), the address-list parser and the packet handler with its LLC/SNAP filter.  Unlike
  the LLDP parser this one can raise: \<open>splitlines()[0]\<close> on an empty software version.
\<close>

record cdp_info =
  c_device_id :: "pystr option"
  c_port_id :: "pystr option"
  c_platform :: "pystr option"
  c_software_version :: "pystr option"
  c_native_vlan :: "nat option"
  c_address :: "pystr option"

definition cdp_empty :: cdp_info where
  "cdp_empty = \<lparr>c_device_id = None, c_port_id = None, c_platform = None,
     c_software_version = None, c_native_vlan = None, c_address = None\<rparr>"

definition CDP_DEST_MAC :: bytes where
  "CDP_DEST_MAC = [0x01, 0x00, 0x0C, 0xCC, 0xCC, 0xCC]"

definition CDP_SNAP_OUI :: bytes where
  "CDP_SNAP_OUI = [0x00, 0x00, 0x0C]"

definition CDP_SNAP_PID :: bytes where
  "CDP_SNAP_PID = [0x20, 0x00]"

text \<open>The loop \<open>for _ in range(count)\<close> of \<open>_parse_address_tlv\<close>.\<close>

fun cdp_address_loop :: "nat \<Rightarrow> bytes \<Rightarrow> nat \<Rightarrow> exn + pystr option" where
  "cdp_address_loop cnt v offset =
     (if cnt = 0 then Inr None
      else if offset + 2 > length v then Inr None
      else rbind (byte_at v offset) (\<lambda>protocol_type. rbind (byte_at v (offset + 1)) (\<lambda>protocol_length.
        let o1 = offset + 2;
            protocol = py_slice v o1 (o1 + unat protocol_length);
            o2 = o1 + unat protocol_length
        in if o2 + 2 > length v then Inr None
           else rbind (unpack_H (py_slice v o2 (o2 + 2))) (\<lambda>address_length.
             let o3 = o2 + 2;
                 address = py_slice v o3 (o3 + address_length)
             in if protocol_type = 1 \<and> protocol = [0xCC] \<and> address_length = 4
                then Inr (Some (ip_str address))
                else cdp_address_loop (cnt - 1) v (o3 + address_length)))))"

declare cdp_address_loop.simps [simp del]

definition parse_address_tlv :: "bytes \<Rightarrow> exn + pystr option" where
  "parse_address_tlv v =
     (if length v < 4 then Inr None
      else (case unpack_I (py_slice v 0 4) of
              Inl e \<Rightarrow> Inr None
            | Inr cnt \<Rightarrow> cdp_address_loop cnt v 4))"

definition cdp_set_address :: "pystr option \<Rightarrow> cdp_info \<Rightarrow> cdp_info" where
  "cdp_set_address addr nb =
     (case addr of Some a \<Rightarrow> if a \<noteq> [] then nb\<lparr>c_address := Some a\<rparr> else nb | None \<Rightarrow> nb)"

definition cdp_tlv :: "nat \<Rightarrow> bytes \<Rightarrow> cdp_info \<Rightarrow> exn + cdp_info" where
  "cdp_tlv ty v nb =
     (if ty = 0x0001 then Inr (nb\<lparr>c_device_id := Some (utf8_decode v)\<rparr>)
      else if ty = 0x0002 then rbind (parse_address_tlv v) (\<lambda>a. Inr (cdp_set_address a nb))
      else if ty = 0x0003 then Inr (nb\<lparr>c_port_id := Some (utf8_decode v)\<rparr>)
      else if ty = 0x0005 then
        (case splitlines (utf8_decode v) of
           [] \<Rightarrow> Inl IndexError
         | line # _ \<Rightarrow> Inr (nb\<lparr>c_software_version := Some (strip line)\<rparr>))
      else if ty = 0x0006 then Inr (nb\<lparr>c_platform := Some (utf8_decode v)\<rparr>)
      else if ty = 0x000A \<and> 2 \<le> length v then
        rbind (unpack_H (py_slice v 0 2)) (\<lambda>vlan. Inr (nb\<lparr>c_native_vlan := Some vlan\<rparr>))
      else if ty = 0x0016 then rbind (parse_address_tlv v) (\<lambda>a. Inr (cdp_set_address a nb))
      else Inr nb)"

text \<open>The \<open>while i + 4 <= n\<close> loop.  The source unpacks type and length in one \<open>struct.unpack\<close> of four
  bytes; a length below 4 ends the walk after the TLV has still been looked at.\<close>

function cdp_loop :: "bytes \<Rightarrow> nat \<Rightarrow> cdp_info \<Rightarrow> exn + cdp_info" where
  "cdp_loop payload i nb =
     (if i + 4 \<le> length payload then
        rbind (unpack_H (py_slice payload i (i + 2))) (\<lambda>tlv_type.
        rbind (unpack_H (py_slice payload (i + 2) (i + 4))) (\<lambda>tlv_len.
          let v = py_slice payload (i + 4) (i + tlv_len)
          in if int (length v) < int tlv_len - 4 then Inr nb
             else rbind (cdp_tlv tlv_type v nb)
               (cdp_loop payload (i + (if 4 \<le> tlv_len then tlv_len else length payload)))))
      else Inr nb)"
  by pat_completeness auto
termination
  by (relation "measure (\<lambda>(payload, i, nb). length payload - i)") auto

declare cdp_loop.simps [simp del]

definition parse_cdp_payload :: "bytes \<Rightarrow> exn + cdp_info" where
  "parse_cdp_payload payload =
     (if length payload < 4 then Inr cdp_empty else cdp_loop payload 4 cdp_empty)"

definition cdp_handle_packet :: "cdp_info cache handler" where
  "cdp_handle_packet now packet c =
     (if length packet < 22 then Inr c
      else if py_slice packet 0 6 \<noteq> CDP_DEST_MAC then Inr c
      else rbind (byte_at packet 14) (\<lambda>dsap. rbind (byte_at packet 15) (\<lambda>ssap.
        rbind (byte_at packet 16) (\<lambda>control.
          if dsap \<noteq> 0xAA \<or> ssap \<noteq> 0xAA \<or> control \<noteq> 0x03 then Inr c
          else if py_slice packet 17 20 \<noteq> CDP_SNAP_OUI \<or> py_slice packet 20 22 \<noteq> CDP_SNAP_PID then Inr c
          else let mac = mac_str (py_slice packet 6 12) in
            rbind (parse_cdp_payload (drop 22 packet)) (\<lambda>nb. Inr (cache_put now mac nb c))))))"

section \<open>What can raise\<close>

lemma cdp_address_loop_returns: "returns (cdp_address_loop cnt v offset)"
proof (induction cnt v offset rule: cdp_address_loop.induct)
  case (1 cnt v offset)
  show ?case
  proof (cases "cnt = 0 \<or> offset + 2 > length v")
    case True
    then show ?thesis by (auto simp: cdp_address_loop.simps [of cnt])
  next
    case False
    then have b: "byte_at v offset = Inr (v ! offset)" "byte_at v (offset + 1) = Inr (v ! (offset + 1))"
      by auto
    let ?o2 = "offset + 2 + unat (v ! (offset + 1))"
    show ?thesis
    proof (cases "?o2 + 2 > length v")
      case True
      with False b show ?thesis by (subst cdp_address_loop.simps) (simp add: Let_def)
    next
      case in2: False
      then obtain al where al: "unpack_H (py_slice v ?o2 (?o2 + 2)) = Inr al"
        by (metis not_less unpack_H_slice)
      have "returns (cdp_address_loop (cnt - 1) v (?o2 + 2 + al))"
        if "\<not> (v ! offset = 1 \<and> py_slice v (offset + 2) ?o2 = [0xCC] \<and> al = 4)"
        using "1.IH" [OF _ _ b refl refl refl _ al refl refl] False in2 that by auto
      with False b in2 al show ?thesis
        by (subst cdp_address_loop.simps) (auto simp: Let_def)
    qed
  qed
qed

lemma parse_address_tlv_returns: "returns (parse_address_tlv v)"
  by (simp add: parse_address_tlv_def cdp_address_loop_returns split: sum.split)

lemma cdp_tlv_outcome:
  "cdp_tlv ty v nb = Inl e \<longleftrightarrow> ty = 5 \<and> v = [] \<and> e = IndexError"
proof -
  obtain a where "parse_address_tlv v = Inr a"
    using parse_address_tlv_returns [of v] by (auto simp: returns_iff)
  then show ?thesis
    by (auto simp: cdp_tlv_def split: list.splits)
qed

section \<open>Decoding encoded TLVs\<close>

definition cdp_enc :: "nat \<times> bytes \<Rightarrow> bytes" where
  "cdp_enc tv = be16 (fst tv) @ be16 (4 + length (snd tv)) @ snd tv"

definition cdp_enc_ok :: "nat \<times> bytes \<Rightarrow> bool" where
  "cdp_enc_ok tv \<longleftrightarrow> fst tv < 65536 \<and> length (snd tv) < 65532 \<and> (fst tv = 5 \<longrightarrow> snd tv \<noteq> [])"

definition cdp_app :: "nat \<times> bytes \<Rightarrow> cdp_info \<Rightarrow> cdp_info" where
  "cdp_app tv nb = (case cdp_tlv (fst tv) (snd tv) nb of Inr nb' \<Rightarrow> nb' | Inl _ \<Rightarrow> nb)"

lemma cdp_app_eq: "cdp_enc_ok tv \<Longrightarrow> cdp_tlv (fst tv) (snd tv) nb = Inr (cdp_app tv nb)"
  using cdp_tlv_outcome [of "fst tv" "snd tv" nb]
  by (cases "cdp_tlv (fst tv) (snd tv) nb") (auto simp: cdp_app_def cdp_enc_ok_def)

lemma cdp_loop_at:
  assumes "ty < 65536" and "length v < 65532"
  shows "cdp_loop (pre @ cdp_enc (ty, v) @ rest) (length pre) nb =
    rbind (cdp_tlv ty v nb) (cdp_loop (pre @ cdp_enc (ty, v) @ rest) (length pre + 4 + length v))"
proof -
  let ?p = "pre @ cdp_enc (ty, v) @ rest" and ?l = "4 + length v"
  have a: "py_slice ?p (length pre) (length pre + 2) = be16 ty"
    using slice_mid [of "length pre" pre "length pre + 2" "be16 ty"] by (simp add: cdp_enc_def)
  have b: "py_slice ?p (length pre + 2) (length pre + 4) = be16 ?l"
    using slice_mid [of "length pre + 2" "pre @ be16 ty" "length pre + 4" "be16 ?l" "v @ rest"]
    by (simp add: cdp_enc_def)
  have c: "py_slice ?p (length pre + 4) (length pre + ?l) = v"
    using slice_mid [of "length pre + 4" "pre @ be16 ty @ be16 ?l" "length pre + ?l" v rest]
    by (simp add: cdp_enc_def)
  have u: "unpack_H (be16 ty) = Inr ty" "unpack_H (be16 ?l) = Inr ?l" using assms by auto
  have "length pre + 4 \<le> length ?p" by (simp add: cdp_enc_def)
  then show ?thesis
    by (subst cdp_loop.simps) (simp only: if_True a b u rbind_simps Let_def c, simp add: add.assoc)
qed

interpretation cdp: tlv_loop cdp_loop cdp_enc cdp_enc_ok cdp_app
proof
  fix tv pre rest nb
  assume ok: "cdp_enc_ok tv"
  then have "fst tv < 65536" "length (snd tv) < 65532" by (auto simp: cdp_enc_ok_def)
  from cdp_loop_at [OF this, of pre rest nb] cdp_app_eq [OF ok]
  have "cdp_loop (pre @ cdp_enc tv @ rest) (length pre) nb =
      cdp_loop (pre @ cdp_enc tv @ rest) (length pre + 4 + length (snd tv)) (cdp_app tv nb)"
    by simp
  moreover have "length pre + 4 + length (snd tv) = length pre + length (cdp_enc tv)"
    by (simp add: cdp_enc_def)
  ultimately show "cdp_loop (pre @ cdp_enc tv @ rest) (length pre) nb =
      cdp_loop (pre @ cdp_enc tv @ rest) (length pre + length (cdp_enc tv)) (cdp_app tv nb)"
    by (simp only:)
qed

lemma parse_cdp_encoded:
  assumes "list_all cdp_enc_ok tvs" and "length hdr = 4"
  shows "parse_cdp_payload (hdr @ concat (map cdp_enc tvs) @ rest) =
    cdp_loop (hdr @ concat (map cdp_enc tvs) @ rest) (4 + length (concat (map cdp_enc tvs)))
      (fold cdp_app tvs cdp_empty)"
  using cdp.loop_run [OF assms(1), of hdr rest cdp_empty] assms(2) by (simp add: parse_cdp_payload_def)









section \<open>The listener\<close>

definition cdp_parse_frame :: "bytes \<Rightarrow> (exn + cdp_info) option" where
  "cdp_parse_frame p =
     (if 22 \<le> length p \<and> py_slice p 0 6 = CDP_DEST_MAC \<and> p ! 14 = 0xAA \<and> p ! 15 = 0xAA \<and> p ! 16 = 0x03
         \<and> py_slice p 17 20 = CDP_SNAP_OUI \<and> py_slice p 20 22 = CDP_SNAP_PID
      then Some (parse_cdp_payload (drop 22 p)) else None)"

interpretation cdp: neighbor_listener cdp_handle_packet cdp_parse_frame
  by unfold_locales
    (auto simp: cdp_handle_packet_def cdp_parse_frame_def frame_source_def rbind_def Let_def
      split: sum.splits)

section \<open>Properties\<close>

definition cdp_frame :: "bytes \<Rightarrow> bytes \<Rightarrow> bytes \<Rightarrow> bytes" where
  "cdp_frame src len payload =
     CDP_DEST_MAC @ src @ len @ [0xAA, 0xAA, 0x03] @ CDP_SNAP_OUI @ CDP_SNAP_PID @ payload"

lemma cdp_handle_frame:
  assumes "length src = 6" and "length len = 2"
  shows "cdp_handle_packet now (cdp_frame src len payload) c =
    rbind (parse_cdp_payload payload) (\<lambda>nb. Inr (cache_put now (mac_str src) nb c))"
proof -
  obtain s0 s1 s2 s3 s4 s5 where src: "src = [s0, s1, s2, s3, s4, s5]"
    using assms(1) by (auto simp: length_Suc_conv numeral_eq_Suc)
  obtain l0 l1 where len: "len = [l0, l1]"
    using assms(2) by (auto simp: length_Suc_conv numeral_eq_Suc)
  show ?thesis
    unfolding cdp_handle_packet_def cdp_frame_def src len CDP_DEST_MAC_def CDP_SNAP_OUI_def
      CDP_SNAP_PID_def
    by (simp add: py_slice_def byte_at_def Let_def)
qed













text \<open>A device that announces an empty software version is never listed.  Whatever valid TLVs
  precede the empty one, \<open>splitlines()[0]\<close> raises, the exception escapes the handler, and the
  dispatcher drops the whole announcement: the cache is unchanged.\<close>

theorem cdp_empty_version_lost:
  assumes "list_all cdp_enc_ok tvs" and "length hdr = 4" and "length src = 6" and "length len = 2"
  shows "let frame = cdp_frame src len (hdr @ concat (map cdp_enc tvs) @ cdp_enc (5, []) @ rest) in
    cdp_handle_packet now frame c = Inl IndexError \<and>
    run_handler cdp_handle_packet (now, frame) c = c"
proof -
  let ?pre = "hdr @ concat (map cdp_enc tvs)"
  have "cdp_loop (?pre @ cdp_enc (5, []) @ rest) (length ?pre) nb = Inl IndexError" for nb
    using cdp_loop_at [of 5 "[]" ?pre rest nb] cdp_tlv_outcome [of 5 "[]" nb IndexError] by simp
  then have "parse_cdp_payload (hdr @ concat (map cdp_enc tvs) @ cdp_enc (5, []) @ rest) = Inl IndexError"
    using parse_cdp_encoded [OF assms(1,2), of "cdp_enc (5, []) @ rest"] assms(2) by simp
  then show ?thesis
    using cdp_handle_frame [OF assms(3,4)] by (simp add: run_handler_def Let_def)
qed

theorem cdp_empty_version_lost_witness:
  "cdp_handle_packet 7 (cdp_frame [0, 1, 2, 3, 4, 5] [0, 40] ([2, 180, 0, 0] @
     concat (map cdp_enc [(1, [0x52, 0x31])]) @ cdp_enc (5, []) @ cdp_enc (3, [0x31]))) []
   = Inl IndexError"
proof -
  have "list_all cdp_enc_ok [(1, [0x52, 0x31])]" by (simp add: cdp_enc_ok_def)
  from cdp_empty_version_lost [OF this, of "[2, 180, 0, 0]" "[0, 1, 2, 3, 4, 5]" "[0, 40]"
      "cdp_enc (3, [0x31])" 7 "[]"]
  show ?thesis by (simp add: Let_def)
qed

end
