(* ===== verification/Mndp.thy ===== *)
theory Mndp
  imports Listener Tlv
begin

text \<open>
  \<open>backend/discovery/mndp.py\<close>: the MikroTik neighbour protocol, a UDP broadcast on port 5678.  The
  TLV loop has 16-bit types and lengths; the uptime is the one little-endian field.
\<close>

record mndp_info =
  mt_mac_address :: "pystr option"
  mt_identity :: "pystr option"
  mt_platform :: "pystr option"
  mt_version :: "pystr option"
  mt_board :: "pystr option"
  mt_uptime_seconds :: "nat option"
  mt_software_id :: "pystr option"
  mt_interface_name :: "pystr option"
  mt_ipv4_address :: "pystr option"

definition mndp_empty :: mndp_info where
  "mndp_empty = \<lparr>mt_mac_address = None, mt_identity = None, mt_platform = None, mt_version = None,
     mt_board = None, mt_uptime_seconds = None, mt_software_id = None, mt_interface_name = None,
     mt_ipv4_address = None\<rparr>"

definition MNDP_PORT :: nat where
  "MNDP_PORT = 5678"

text \<open>\<open>struct.unpack("<I", v)\<close>\<close>

definition unpack_I_le :: "bytes \<Rightarrow> exn + nat" where
  "unpack_I_le v = unpack_I (rev v)"

definition mndp_tlv :: "nat \<Rightarrow> bytes \<Rightarrow> mndp_info \<Rightarrow> exn + mndp_info" where
  "mndp_tlv ty v nb =
     (if ty = 0x0001 \<and> length v = 6 then Inr (nb\<lparr>mt_mac_address := Some (mac_str v)\<rparr>)
      else if ty = 0x0005 then Inr (nb\<lparr>mt_identity := Some (utf8_decode v)\<rparr>)
      else if ty = 0x0007 then Inr (nb\<lparr>mt_version := Some (utf8_decode v)\<rparr>)
      else if ty = 0x0008 then Inr (nb\<lparr>mt_platform := Some (utf8_decode v)\<rparr>)
      else if ty = 0x000A \<and> length v = 4 then
        rbind (unpack_I_le v) (\<lambda>n. Inr (nb\<lparr>mt_uptime_seconds := Some n\<rparr>))
      else if ty = 0x000B then Inr (nb\<lparr>mt_software_id := Some (utf8_decode v)\<rparr>)
      else if ty = 0x000C then Inr (nb\<lparr>mt_board := Some (utf8_decode v)\<rparr>)
      else if ty = 0x0010 then Inr (nb\<lparr>mt_interface_name := Some (utf8_decode v)\<rparr>)
      else if ty = 0x0011 \<and> length v = 4 then Inr (nb\<lparr>mt_ipv4_address := Some (ip_str v)\<rparr>)
      else Inr nb)"

function mndp_loop :: "bytes \<Rightarrow> nat \<Rightarrow> mndp_info \<Rightarrow> exn + mndp_info" where
  "mndp_loop payload i nb =
     (if i + 4 \<le> length payload then
        rbind (unpack_H (py_slice payload i (i + 2))) (\<lambda>tlv_type.
        rbind (unpack_H (py_slice payload (i + 2) (i + 4))) (\<lambda>tlv_len.
          let v = py_slice payload (i + 4) (i + 4 + tlv_len)
          in if length v < tlv_len then Inr nb
             else rbind (mndp_tlv tlv_type v nb) (mndp_loop payload (i + 4 + tlv_len))))
      else Inr nb)"
  by pat_completeness auto
termination
  by (relation "measure (\<lambda>(payload, i, nb). length payload - i)") auto

declare mndp_loop.simps [simp del]

definition parse_mndp_payload :: "bytes \<Rightarrow> exn + mndp_info" where
  "parse_mndp_payload payload =
     (if length payload < 4 then Inr mndp_empty else mndp_loop payload 4 mndp_empty)"

definition mndp_handle_packet :: "mndp_info cache handler" where
  "mndp_handle_packet now packet c =
     (if length packet < 14 + 20 + 8 then Inr c
      else rbind (unpack_H (py_slice packet 12 14)) (\<lambda>ethertype.
        if ethertype \<noteq> 0x0800 then Inr c
        else rbind (byte_at packet 14) (\<lambda>b14. rbind (byte_at packet (14 + 9)) (\<lambda>ip_proto.
          let ip_header_len = (unat b14 mod 16) * 4 in
          if ip_proto \<noteq> 17 then Inr c
          else let udp_offset = 14 + ip_header_len; mndp_offset = udp_offset + 8 in
            if length packet < udp_offset + 4 then Inr c
            else rbind (unpack_H (py_slice packet udp_offset (udp_offset + 2))) (\<lambda>sport.
              rbind (unpack_H (py_slice packet (udp_offset + 2) (udp_offset + 4))) (\<lambda>dport.
                if sport \<noteq> MNDP_PORT \<and> dport \<noteq> MNDP_PORT then Inr c
                else if length packet < mndp_offset then Inr c
                else let mac = mac_str (py_slice packet 6 12) in
                  rbind (parse_mndp_payload (drop mndp_offset packet))
                    (\<lambda>nb. Inr (cache_put now mac nb c))))))))"

section \<open>Nothing raises\<close>

lemma unpack_I_4: "length v = 4 \<Longrightarrow> returns (unpack_I v)"
  using unpack_I_slice [of 4 0 v] by (simp add: py_slice_def del: unpack_I_slice)

lemma mndp_tlv_returns: "returns (mndp_tlv ty v nb)"
proof (cases "length v = 4")
  case True
  then obtain n where "unpack_I (rev v) = Inr n"
    using unpack_I_4 [of "rev v"] by (auto simp: returns_iff)
  then show ?thesis by (simp add: mndp_tlv_def unpack_I_le_def)
qed (simp add: mndp_tlv_def)

lemma mndp_loop_returns: "returns (mndp_loop payload i nb)"
proof (induction payload i nb rule: mndp_loop.induct)
  case (1 payload i nb)
  show ?case
  proof (cases "i + 4 \<le> length payload")
    case False
    then show ?thesis by (simp add: mndp_loop.simps [of payload i])
  next
    case True
    let ?t = "256 * unat (payload ! i) + unat (payload ! Suc i)"
    let ?l = "256 * unat (payload ! (i + 2)) + unat (payload ! Suc (i + 2))"
    have h: "unpack_H (py_slice payload i (i + 2)) = Inr ?t"
      "unpack_H (py_slice payload (i + 2) (i + 4)) = Inr ?l"
      using True by (intro unpack_H_slice; simp)+
    obtain nb' where nb': "mndp_tlv ?t (py_slice payload (i + 4) (i + 4 + ?l)) nb = Inr nb'"
      by (meson mndp_tlv_returns returns_iff)
    have ih: "\<not> length (py_slice payload (i + 4) (i + 4 + ?l)) < ?l \<Longrightarrow>
        returns (mndp_loop payload (i + 4 + ?l) nb')"
      using "1.IH" [OF True h refl _ nb'] .
    have "mndp_loop payload i nb =
        (if length (py_slice payload (i + 4) (i + 4 + ?l)) < ?l then Inr nb
         else mndp_loop payload (i + 4 + ?l) nb')"
      by (subst mndp_loop.simps) (simp only: True if_True h rbind_simps Let_def nb')
    with ih show ?thesis by (simp split: if_split)
  qed
qed

section \<open>Decoding encoded TLVs\<close>

definition mndp_enc :: "nat \<times> bytes \<Rightarrow> bytes" where
  "mndp_enc tv = be16 (fst tv) @ be16 (length (snd tv)) @ snd tv"

definition mndp_enc_ok :: "nat \<times> bytes \<Rightarrow> bool" where
  "mndp_enc_ok tv \<longleftrightarrow> fst tv < 65536 \<and> length (snd tv) < 65536"

definition mndp_app :: "nat \<times> bytes \<Rightarrow> mndp_info \<Rightarrow> mndp_info" where
  "mndp_app tv nb = (case mndp_tlv (fst tv) (snd tv) nb of Inr nb' \<Rightarrow> nb' | Inl _ \<Rightarrow> nb)"

lemma mndp_app_eq: "mndp_tlv (fst tv) (snd tv) nb = Inr (mndp_app tv nb)"
  using mndp_tlv_returns [of "fst tv" "snd tv" nb] by (auto simp: mndp_app_def returns_iff)

interpretation mndp: tlv_loop mndp_loop mndp_enc mndp_enc_ok mndp_app
proof
  fix tv pre rest nb
  assume ok: "mndp_enc_ok tv"
  obtain ty v where tv: "tv = (ty, v)" by (cases tv)
  let ?p = "pre @ mndp_enc tv @ rest"
  have a: "py_slice ?p (length pre) (length pre + 2) = be16 ty"
    using slice_mid [of "length pre" pre "length pre + 2" "be16 ty"] by (simp add: mndp_enc_def tv)
  have b: "py_slice ?p (length pre + 2) (length pre + 4) = be16 (length v)"
    using slice_mid [of "length pre + 2" "pre @ be16 ty" "length pre + 4" "be16 (length v)" "v @ rest"]
    by (simp add: mndp_enc_def tv)
  have c: "py_slice ?p (length pre + 4) (length pre + 4 + length v) = v"
    using slice_mid [of "length pre + 4" "pre @ be16 ty @ be16 (length v)"
        "length pre + 4 + length v" v rest]
    by (simp add: mndp_enc_def tv)
  have u: "unpack_H (be16 ty) = Inr ty" "unpack_H (be16 (length v)) = Inr (length v)"
    using ok tv by (auto simp: mndp_enc_ok_def)
  have app: "mndp_tlv ty v nb = Inr (mndp_app tv nb)" using mndp_app_eq [of tv nb] tv by simp
  have "length pre + 4 \<le> length ?p" by (simp add: mndp_enc_def tv)
  then have "mndp_loop ?p (length pre) nb = mndp_loop ?p (length pre + 4 + length v) (mndp_app tv nb)"
    by (subst mndp_loop.simps) (simp only: if_True a b u rbind_simps Let_def c app less_irrefl if_False)
  moreover have "length pre + 4 + length v = length pre + length (mndp_enc tv)"
    by (simp add: mndp_enc_def tv)
  ultimately show "mndp_loop ?p (length pre) nb =
      mndp_loop ?p (length pre + length (mndp_enc tv)) (mndp_app tv nb)"
    by (simp only:)
qed

lemma mndp_loop_short: "length payload < i + 4 \<Longrightarrow> mndp_loop payload i nb = Inr nb"
  by (subst mndp_loop.simps) simp

lemma parse_mndp_encoded:
  assumes "list_all mndp_enc_ok tvs" and "length hdr = 4" and "length junk < 4"
  shows "parse_mndp_payload (hdr @ concat (map mndp_enc tvs) @ junk) = Inr (fold mndp_app tvs mndp_empty)"
  using mndp.loop_run [OF assms(1), of hdr junk mndp_empty] assms
  by (simp add: parse_mndp_payload_def mndp_loop_short)

section \<open>The listener\<close>

definition mndp_parse_frame :: "bytes \<Rightarrow> (exn + mndp_info) option" where
  "mndp_parse_frame p =
     (let udp = 14 + (unat (p ! 14) mod 16) * 4 in
      if 42 \<le> length p \<and> 256 * unat (p ! 12) + unat (p ! 13) = 0x0800 \<and> p ! 23 = 17 \<and>
         udp + 8 \<le> length p \<and>
         (256 * unat (p ! udp) + unat (p ! Suc udp) = MNDP_PORT \<or>
          256 * unat (p ! (udp + 2)) + unat (p ! Suc (udp + 2)) = MNDP_PORT)
      then Some (parse_mndp_payload (drop (udp + 8) p)) else None)"

interpretation mndp: neighbor_listener mndp_handle_packet mndp_parse_frame
  by unfold_locales
    (auto simp: mndp_handle_packet_def mndp_parse_frame_def frame_source_def rbind_def Let_def
      split: sum.splits)

section \<open>Properties\<close>

lemma parse_mndp_payload_returns: "returns (parse_mndp_payload payload)"
  by (simp add: parse_mndp_payload_def mndp_loop_returns)

text \<open>No frame makes the MNDP handler raise, whatever its IP header length or UDP payload, so a
  frame is either ignored or cached.\<close>

theorem mndp_handler_total: "\<exists>c'. mndp_handle_packet now packet c = Inr c'"
proof -
  have "returns (mndp_handle_packet now packet c)"
    unfolding mndp_handle_packet_def
    by (intro returns_intros returns_reads returns_simps parse_mndp_payload_returns) auto
  then show ?thesis by (simp add: returns_iff)
qed

record mndp_message =
  mm_mac :: bytes
  mm_identity :: pystr
  mm_version :: pystr
  mm_platform :: pystr
  mm_uptime :: nat
  mm_software_id :: pystr
  mm_board :: pystr
  mm_interface :: pystr
  mm_ipv4 :: bytes

definition mndp_message_ok :: "mndp_message \<Rightarrow> bool" where
  "mndp_message_ok m \<longleftrightarrow> length (mm_mac m) = 6 \<and> length (mm_ipv4 m) = 4 \<and> mm_uptime m < 4294967296 \<and>
     list_all (\<lambda>s. list_all scalar_value s \<and> length (utf8 s) < 65536)
       [mm_identity m, mm_version m, mm_platform m, mm_software_id m, mm_board m, mm_interface m]"

definition mndp_message_tlvs :: "mndp_message \<Rightarrow> (nat \<times> bytes) list" where
  "mndp_message_tlvs m =
     [(1, mm_mac m), (5, utf8 (mm_identity m)), (7, utf8 (mm_version m)), (8, utf8 (mm_platform m)),
      (10, rev (be32 (mm_uptime m))), (11, utf8 (mm_software_id m)), (12, utf8 (mm_board m)),
      (14, [0]), (16, utf8 (mm_interface m)), (17, mm_ipv4 m)]"

text \<open>An MNDP payload built from a router's fields, with the uptime little-endian and a TLV of a
  type the parser does not know among them, is decoded to exactly those fields, for every 4-byte
  header and up to three bytes of trailing padding.\<close>

theorem mndp_roundtrip:
  assumes "mndp_message_ok m" and "length hdr = 4" and "length pad < 4"
  shows "parse_mndp_payload (hdr @ concat (map mndp_enc (mndp_message_tlvs m)) @ pad) =
    Inr \<lparr>mt_mac_address = Some (mac_str (mm_mac m)), mt_identity = Some (mm_identity m),
         mt_platform = Some (mm_platform m), mt_version = Some (mm_version m),
         mt_board = Some (mm_board m), mt_uptime_seconds = Some (mm_uptime m),
         mt_software_id = Some (mm_software_id m), mt_interface_name = Some (mm_interface m),
         mt_ipv4_address = Some (ip_str (mm_ipv4 m))\<rparr>"
proof -
  have "list_all mndp_enc_ok (mndp_message_tlvs m)"
    using assms(1) by (simp add: mndp_message_tlvs_def mndp_message_ok_def mndp_enc_ok_def)
  from parse_mndp_encoded [OF this assms(2,3)] show ?thesis
    using assms(1)
    by (simp add: mndp_message_tlvs_def mndp_message_ok_def mndp_app_def mndp_tlv_def mndp_empty_def
        unpack_I_le_def)
qed

theorem mndp_roundtrip_witness:
  "parse_mndp_payload ([0, 0, 0, 1] @ concat (map mndp_enc (mndp_message_tlvs
      \<lparr>mm_mac = [1, 2, 3, 4, 5, 6], mm_identity = lit ''gw'', mm_version = lit ''7.1'',
       mm_platform = lit ''MikroTik'', mm_uptime = 86400, mm_software_id = lit ''AB'',
       mm_board = lit ''hEX'', mm_interface = lit ''ether1'', mm_ipv4 = [10, 0, 0, 1]\<rparr>)) @ [0]) =
    Inr \<lparr>mt_mac_address = Some (mac_str [1, 2, 3, 4, 5, 6]), mt_identity = Some (lit ''gw''),
         mt_platform = Some (lit ''MikroTik''), mt_version = Some (lit ''7.1''),
         mt_board = Some (lit ''hEX''), mt_uptime_seconds = Some 86400,
         mt_software_id = Some (lit ''AB''), mt_interface_name = Some (lit ''ether1''),
         mt_ipv4_address = Some (ip_str [10, 0, 0, 1])\<rparr>"
proof -
  let ?m = "\<lparr>mm_mac = [1, 2, 3, 4, 5, 6], mm_identity = lit ''gw'', mm_version = lit ''7.1'',
       mm_platform = lit ''MikroTik'', mm_uptime = 86400, mm_software_id = lit ''AB'',
       mm_board = lit ''hEX'', mm_interface = lit ''ether1'', mm_ipv4 = [10, 0, 0, 1]\<rparr>"
  have "mndp_message_ok ?m"
    by (simp add: mndp_message_ok_def lit_def scalar_value_def utf8_def utf8_encode1_def)
  from mndp_roundtrip [OF this, of "[0, 0, 0, 1]" "[0]"] show ?thesis by simp
qed

end
