(* ===== verification/Byte_Stream.thy ===== *)
theory Byte_Stream
  imports Prelude
begin

text \<open>
  Reading an exact number of bytes from a source that delivers them in arbitrary pieces: the
  helper \<open>_read_exact\<close> of the capture dispatcher and \<open>_recv_exact\<close> of the Modbus and S7 clients
  are the same loop.  A source is the list of what its successive reads find: a non-empty piece of
  data, an exception, or nothing more (end of stream, also an empty piece).  The main lemma: on a
  source without exceptions the result depends only on the bytes, never on how they are cut.
\<close>

datatype event = Chunk bytes | Raise exn

text \<open>One \<open>stream.read(k)\<close> / \<open>sock.recv(k)\<close>: at most \<open>k\<close> bytes, the rest stays queued.\<close>

fun recv :: "nat \<Rightarrow> event list \<Rightarrow> exn + bytes \<times> event list" where
  "recv k [] = Inr ([], [])"
| "recv k (Raise e # es) = Inl e"
| "recv k (Chunk c # es) =
     (if length c \<le> k then Inr (c, es) else Inr (take k c, Chunk (drop k c) # es))"

text \<open>The loop \<open>while len(data) < count\<close>.\<close>

function recv_loop :: "int \<Rightarrow> bytes \<Rightarrow> event list \<Rightarrow> exn + bytes option \<times> event list" where
  "recv_loop count data es =
     (if int (length data) < count then
        (case recv (nat (count - int (length data))) es of
           Inl e \<Rightarrow> Inl e
         | Inr (chunk, es') \<Rightarrow>
             if chunk = [] then Inr (None, es') else recv_loop count (data @ chunk) es')
      else Inr (Some data, es))"
  by pat_completeness auto
termination
  by (relation "measure (\<lambda>(count, data, es). nat (count - int (length data)))") auto

declare recv_loop.simps [simp del]

definition recv_exact :: "int \<Rightarrow> event list \<Rightarrow> exn + bytes option \<times> event list" where
  "recv_exact count es = recv_loop count [] es"

section \<open>The bytes of a source\<close>

fun clean :: "event list \<Rightarrow> bool" where
  "clean [] = True"
| "clean (Chunk c # es) = (c \<noteq> [] \<and> clean es)"
| "clean (Raise e # es) = False"

fun stream_bytes :: "event list \<Rightarrow> bytes" where
  "stream_bytes [] = []"
| "stream_bytes (Chunk c # es) = c @ stream_bytes es"
| "stream_bytes (Raise e # es) = []"

lemma stream_bytes_Nil: "clean es \<Longrightarrow> stream_bytes es = [] \<longleftrightarrow> es = []"
  by (cases es rule: clean.cases) auto

text \<open>One read: it returns a non-empty prefix of at most \<open>k\<close> bytes unless the source is at its end.\<close>

lemma recv_clean:
  assumes "clean es" and "0 < k"
  obtains c es' where "recv k es = Inr (c, es')" "clean es'" "stream_bytes es = c @ stream_bytes es'"
    "length c \<le> k" "c = [] \<longleftrightarrow> stream_bytes es = []"
proof (cases es rule: clean.cases)
  case 1
  with that [of "[]" "[]"] show ?thesis by simp
next
  case (2 c rest)
  with assms that [of c rest] that [of "take k c" "Chunk (drop k c) # rest"] show ?thesis
    by (cases "length c \<le> k") auto
next
  case (3 e rest)
  with assms show ?thesis by simp
qed

lemma recv_loop_clean:
  assumes "clean es" and "int (length data) \<le> count"
  shows "\<exists>es'. clean es' \<and>
    (if int (length data + length (stream_bytes es)) < count
     then recv_loop count data es = Inr (None, es') \<and> stream_bytes es' = []
     else recv_loop count data es =
            Inr (Some (data @ take (nat count - length data) (stream_bytes es)), es') \<and>
          stream_bytes es' = drop (nat count - length data) (stream_bytes es))"
  using assms
proof (induction count data es rule: recv_loop.induct)
  case (1 count data es)
  show ?case
  proof (cases "int (length data) < count")
    case False
    with "1.prems" have "int (length data) = count" by simp
    then have "nat count = length data" by simp
    with "1.prems" False show ?thesis by (auto simp: recv_loop.simps [of count data es])
  next
    case True
    then have "0 < nat (count - int (length data))" by simp
    with "1.prems"(1) obtain c es' where r: "recv (nat (count - int (length data))) es = Inr (c, es')"
      and cl: "clean es'" and sb: "stream_bytes es = c @ stream_bytes es'"
      and len: "length c \<le> nat (count - int (length data))" and nil: "c = [] \<longleftrightarrow> stream_bytes es = []"
      by (rule recv_clean)
    show ?thesis
    proof (cases "c = []")
      case c: True
      with nil sb have "stream_bytes es = []" "stream_bytes es' = []" by simp_all
      with True r c cl show ?thesis
        by (intro exI [of _ es']) (simp add: recv_loop.simps [of count data es])
    next
      case c: False
      have step: "recv_loop count data es = recv_loop count (data @ c) es'"
        using True r c by (simp add: recv_loop.simps [of count data es])
      have "int (length (data @ c)) \<le> count" using len True by simp
      from "1.IH" [OF True r refl c cl this]
      obtain es'' where IH: "clean es''"
        "if int (length (data @ c) + length (stream_bytes es')) < count
         then recv_loop count (data @ c) es' = Inr (None, es'') \<and> stream_bytes es'' = []
         else recv_loop count (data @ c) es' =
                Inr (Some ((data @ c) @ take (nat count - length (data @ c)) (stream_bytes es')), es'')
              \<and> stream_bytes es'' = drop (nat count - length (data @ c)) (stream_bytes es')"
        by blast
      have "length c \<le> nat count - length data" using len by linarith
      then show ?thesis
        using IH step sb by (intro exI [of _ es'']) (auto simp: add.assoc)
    qed
  qed
qed

lemma recv_exact_enough:
  assumes "clean es" and "nat count \<le> length (stream_bytes es)"
  shows "\<exists>es'. recv_exact count es = Inr (Some (take (nat count) (stream_bytes es)), es') \<and>
    clean es' \<and> stream_bytes es' = drop (nat count) (stream_bytes es)"
proof (cases "0 \<le> count")
  case True
  with assms recv_loop_clean [of es "[]" count] show ?thesis
    by (auto simp: recv_exact_def split: if_splits)
next
  case False
  with assms show ?thesis
    by (auto simp: recv_exact_def recv_loop.simps [of count "[]" es])
qed

lemma recv_exact_short:
  assumes "clean es" and "int (length (stream_bytes es)) < count"
  shows "\<exists>es'. recv_exact count es = Inr (None, es')"
  using assms recv_loop_clean [of es "[]" count] by (auto simp: recv_exact_def split: if_splits)

text \<open>Cut independence: the data returned by an exact read is a function of the bytes alone.\<close>

definition recv_data :: "int \<Rightarrow> event list \<Rightarrow> exn + bytes option" where
  "recv_data count es = (case recv_exact count es of Inl e \<Rightarrow> Inl e | Inr (d, _) \<Rightarrow> Inr d)"

lemma recv_data_clean:
  assumes "clean es"
  shows "recv_data count es =
    Inr (if nat count \<le> length (stream_bytes es) then Some (take (nat count) (stream_bytes es))
         else None)"
proof (cases "nat count \<le> length (stream_bytes es)")
  case True
  with assms recv_exact_enough [of es count] show ?thesis
    by (auto simp: recv_data_def)
next
  case False
  then have "int (length (stream_bytes es)) < count" by linarith
  with assms recv_exact_short [of es count] False show ?thesis
    by (auto simp: recv_data_def)
qed

text \<open>
  What any read returns, exceptions included: all of it if it succeeds, and never more than asked.
\<close>

lemma recv_loop_length:
  "recv_loop count data es = Inr (Some d, es') \<Longrightarrow> int (length data) \<le> count \<Longrightarrow>
   int (length d) = count \<and> (\<exists>x. d = data @ x)"
proof (induction count data es rule: recv_loop.induct)
  case (1 count data es)
  show ?case
  proof (cases "int (length data) < count")
    case False
    with "1.prems" show ?thesis by (simp add: recv_loop.simps [of count data es])
  next
    case True
    with "1.prems"(1) obtain c es1 where r: "recv (nat (count - int (length data))) es = Inr (c, es1)"
      and c: "c \<noteq> []" and rl: "recv_loop count (data @ c) es1 = Inr (Some d, es')"
      by (auto simp: recv_loop.simps [of count data es] split: sum.splits if_splits)
    have "length c \<le> nat (count - int (length data))"
      using r True by (cases "(nat (count - int (length data)), es)" rule: recv.cases)
        (auto split: if_splits)
    with True have "int (length (data @ c)) \<le> count" by simp
    with "1.IH" [OF True r refl c rl] show ?thesis by auto
  qed
qed

lemma recv_exact_length:
  "recv_exact count es = Inr (Some d, es') \<Longrightarrow> int (length d) = max 0 count"
proof (cases "0 \<le> count")
  case True
  assume "recv_exact count es = Inr (Some d, es')"
  with True recv_loop_length [of count "[]" es d es'] show ?thesis by (simp add: recv_exact_def)
next
  case False
  assume "recv_exact count es = Inr (Some d, es')"
  with False show ?thesis by (simp add: recv_exact_def recv_loop.simps [of count "[]" es])
qed

text \<open>An exception of a read is one of the source's, and reading leaves no new ones.\<close>

definition raises :: "event list \<Rightarrow> exn set" where
  "raises es = {e. Raise e \<in> set es}"

lemma recv_raises: "recv k es = Inl e \<Longrightarrow> e \<in> raises es"
  "recv k es = Inr (c, es') \<Longrightarrow> raises es' \<subseteq> raises es"
  by (cases "(k, es)" rule: recv.cases; auto simp: raises_def split: if_splits)+

lemma recv_loop_raises:
  "(\<forall>e. recv_loop count data es = Inl e \<longrightarrow> e \<in> raises es) \<and>
   (\<forall>d es'. recv_loop count data es = Inr (d, es') \<longrightarrow> raises es' \<subseteq> raises es)"
proof (induction count data es rule: recv_loop.induct)
  case (1 count data es)
  show ?case
  proof (cases "int (length data) < count")
    case False
    then show ?thesis by (simp add: recv_loop.simps [of count data es])
  next
    case True
    show ?thesis
    proof (cases "recv (nat (count - int (length data))) es")
      case (Inl e)
      with True recv_raises(1) show ?thesis by (auto simp: recv_loop.simps [of count data es])
    next
      case (Inr ce)
      obtain c es1 where ce: "ce = (c, es1)" by (cases ce)
      have sub: "raises es1 \<subseteq> raises es" using Inr ce recv_raises(2) by blast
      show ?thesis
      proof (cases "c = []")
        case c: True
        with True Inr ce sub show ?thesis by (simp add: recv_loop.simps [of count data es])
      next
        case c: False
        with "1.IH" [OF True _ refl c, of es1] True Inr ce sub show ?thesis
          by (auto simp: recv_loop.simps [of count data es]) (blast dest: subsetD)+
      qed
    qed
  qed
qed

lemma recv_exact_raises:
  "recv_exact count es = Inl e \<Longrightarrow> e \<in> raises es"
  "recv_exact count es = Inr (d, es') \<Longrightarrow> raises es' \<subseteq> raises es"
  using recv_loop_raises [of count "[]" es] by (auto simp: recv_exact_def)

end
