(* ===== verification/Dispatcher.thy ===== *)
theory Dispatcher
  imports Listener Byte_Stream
begin

text \<open>
  \<open>backend/capture/dispatcher.py\<close>: one tcpdump process whose pcap stream is cut into frames and
  handed to every registered handler.  A run of tcpdump is the list of read events its pipe delivers
  (or the exception \<open>Popen\<close> raises); the capture thread is a sequence of such runs.  The handlers
  act on a shared state \<open>'s\<close>, the states of all listeners.  The clock is a function of the number of
  frames dispatched so far.
\<close>

record health =
  h_tcpdump_available :: "bool option"
  h_capture_running :: bool
  h_last_packet_at :: "timestamp option"

record 's dispatcher =
  d_handlers :: "'s handler list"
  d_started :: bool
  d_health :: health
  d_state :: 's
  d_count :: nat

definition PCAP_GLOBAL_HEADER_LEN :: int where
  "PCAP_GLOBAL_HEADER_LEN = 24"

definition PCAP_RECORD_HEADER_LEN :: int where
  "PCAP_RECORD_HEADER_LEN = 16"

definition RESTART_DELAY_SECONDS :: nat where
  "RESTART_DELAY_SECONDS = 5"

definition health0 :: health where
  "health0 = \<lparr>h_tcpdump_available = None, h_capture_running = False, h_last_packet_at = None\<rparr>"

definition dispatcher0 :: "'s \<Rightarrow> 's dispatcher" where
  "dispatcher0 s = \<lparr>d_handlers = [], d_started = False, d_health = health0, d_state = s, d_count = 0\<rparr>"

definition register_handler :: "'s handler \<Rightarrow> 's dispatcher \<Rightarrow> 's dispatcher" where
  "register_handler h d = d\<lparr>d_handlers := d_handlers d @ [h]\<rparr>"

text \<open>\<open>start_listener\<close> returns whether it started the capture thread.\<close>

definition start_listener :: "'s dispatcher \<Rightarrow> bool \<times> 's dispatcher" where
  "start_listener d = (if d_started d then (False, d) else (True, d\<lparr>d_started := True\<rparr>))"

definition dispatch :: "timestamp \<Rightarrow> bytes \<Rightarrow> 's dispatcher \<Rightarrow> 's dispatcher" where
  "dispatch now packet d =
     (let d1 = d\<lparr>d_health := (d_health d)\<lparr>h_last_packet_at := Some now\<rparr>, d_count := Suc (d_count d)\<rparr>
      in d1\<lparr>d_state := fold (\<lambda>h. run_handler h (now, packet)) (d_handlers d1) (d_state d1)\<rparr>)"

text \<open>The \<open>incl_len\<close> of \<open>struct.unpack("<IIII", record_header)\<close>.\<close>

definition record_incl_len :: "bytes \<Rightarrow> exn + nat" where
  "record_incl_len hdr = (if length hdr = 16 then unpack_I (rev (py_slice hdr 8 12)) else Inl StructError)"

text \<open>The bytes still queued in a source; an exact read of a positive count consumes some.\<close>

fun queued :: "event list \<Rightarrow> nat" where
  "queued [] = 0"
| "queued (Chunk c # es) = length c + queued es"
| "queued (Raise e # es) = queued es"

lemma recv_queued: "recv k es = Inr (c, es') \<Longrightarrow> queued es = length c + queued es'"
  by (cases "(k, es)" rule: recv.cases) (auto split: if_splits)

lemma recv_loop_queued:
  "recv_loop cnt data es = Inr (Some d, es') \<Longrightarrow> length data + queued es = length d + queued es'"
proof (induction cnt data es rule: recv_loop.induct)
  case (1 cnt data es)
  show ?case
  proof (cases "int (length data) < cnt")
    case False
    with "1.prems" show ?thesis by (simp add: recv_loop.simps [of cnt data es])
  next
    case True
    with "1.prems" obtain c es1 where r: "recv (nat (cnt - int (length data))) es = Inr (c, es1)"
      and c: "c \<noteq> []" and rl: "recv_loop cnt (data @ c) es1 = Inr (Some d, es')"
      by (auto simp: recv_loop.simps [of cnt data es] split: sum.splits if_splits)
    from "1.IH" [OF True r refl c rl] recv_queued [OF r] show ?thesis by simp
  qed
qed

lemma recv_exact_queued:
  "recv_exact cnt es = Inr (Some d, es') \<Longrightarrow> queued es = length d + queued es'"
  using recv_loop_queued [of cnt "[]" es d es'] by (simp add: recv_exact_def)

text \<open>The inner \<open>while True\<close>: read a record header, its frame, dispatch it.  An exception leaves the
  loop through \<open>except Exception: pass\<close>.\<close>

function capture_records :: "(nat \<Rightarrow> timestamp) \<Rightarrow> event list \<Rightarrow> 's dispatcher \<Rightarrow> 's dispatcher" where
  "capture_records clock es d =
     (case recv_exact PCAP_RECORD_HEADER_LEN es of
        Inl e \<Rightarrow> d
      | Inr (None, _) \<Rightarrow> d
      | Inr (Some record_header, es1) \<Rightarrow>
          (case record_incl_len record_header of
             Inl e \<Rightarrow> d
           | Inr incl_len \<Rightarrow>
               (case recv_exact (int incl_len) es1 of
                  Inl e \<Rightarrow> d
                | Inr (None, _) \<Rightarrow> d
                | Inr (Some packet, es2) \<Rightarrow>
                    capture_records clock es2 (dispatch (clock (d_count d)) packet d))))"
  by pat_completeness auto
termination
proof (relation "measure (\<lambda>(clock, es, d). queued es)", goal_cases)
  case 1
  then show ?case by simp
next
  case (2 clock es d p1 hdr_opt es1 hdr incl p2 pkt_opt es2 pkt)
  then have "recv_exact PCAP_RECORD_HEADER_LEN es = Inr (Some hdr, es1)"
    "recv_exact (int incl) es1 = Inr (Some pkt, es2)"
    by auto
  from recv_exact_queued [OF this(1)] recv_exact_length [OF this(1)] recv_exact_queued [OF this(2)]
  show ?case by (simp add: PCAP_RECORD_HEADER_LEN_def)
qed

declare capture_records.simps [simp del]

text \<open>One iteration of the outer loop, given what \<open>Popen\<close> does; the second component is the number of
  seconds slept before the next iteration.  The early \<open>continue\<close> of an end of stream inside the
  24-byte pcap header leaves through \<open>finally\<close> but skips the sleep.\<close>

definition capture_run :: "(nat \<Rightarrow> timestamp) \<Rightarrow> exn + event list \<Rightarrow> 's dispatcher \<Rightarrow> 's dispatcher \<times> nat"
where
  "capture_run clock popen d =
     (let running = (\<lambda>b d. d\<lparr>d_health := (d_health d)\<lparr>h_capture_running := b\<rparr>\<rparr>) in
      case popen of
        Inl e \<Rightarrow> (running False d, RESTART_DELAY_SECONDS)
      | Inr es \<Rightarrow>
          (case recv_exact PCAP_GLOBAL_HEADER_LEN es of
             Inl e \<Rightarrow> (running False d, RESTART_DELAY_SECONDS)
           | Inr (None, _) \<Rightarrow> (running False d, 0)
           | Inr (Some _, es') \<Rightarrow>
               (running False (capture_records clock es' (running True d)), RESTART_DELAY_SECONDS)))"

fun capture_runs :: "(nat \<Rightarrow> timestamp) \<Rightarrow> (exn + event list) list \<Rightarrow> 's dispatcher \<Rightarrow> 's dispatcher \<times> nat"
where
  "capture_runs clock [] d = (d, 0)"
| "capture_runs clock (r # rs) d =
     (let (d1, slept) = capture_run clock r d; (d2, slept') = capture_runs clock rs d1
      in (d2, slept + slept'))"

definition capture_loop ::
  "pystr option \<Rightarrow> (nat \<Rightarrow> timestamp) \<Rightarrow> (exn + event list) list \<Rightarrow> 's dispatcher \<Rightarrow> 's dispatcher \<times> nat"
where
  "capture_loop tcpdump clock runs d =
     (let d1 = d\<lparr>d_health := (d_health d)\<lparr>h_tcpdump_available := Some (tcpdump \<noteq> None)\<rparr>\<rparr> in
      if tcpdump = None then (d1, 0) else capture_runs clock runs d1)"

record health_report =
  hr_health :: health
  hr_seconds_since_last_packet :: "real option"

definition get_health :: "timestamp \<Rightarrow> 's dispatcher \<Rightarrow> health_report" where
  "get_health now d =
     \<lparr>hr_health = d_health d,
      hr_seconds_since_last_packet =
        (case h_last_packet_at (d_health d) of
           Some t \<Rightarrow> Some (round1 (now - t)) | None \<Rightarrow> None)\<rparr>"

section \<open>Framing\<close>

definition le32 :: "nat \<Rightarrow> bytes" where
  "le32 n = rev (be32 n)"

text \<open>A pcap record as tcpdump writes it: timestamp, captured and original length, the frame.\<close>

record pcap_record =
  pr_time :: bytes
  pr_frame :: bytes
  pr_orig :: bytes

definition pcap_record_ok :: "pcap_record \<Rightarrow> bool" where
  "pcap_record_ok r \<longleftrightarrow> length (pr_time r) = 8 \<and> length (pr_orig r) = 4 \<and>
     length (pr_frame r) < 4294967296"

definition record_header :: "pcap_record \<Rightarrow> bytes" where
  "record_header r = pr_time r @ le32 (length (pr_frame r)) @ pr_orig r"

definition record_bytes :: "pcap_record \<Rightarrow> bytes" where
  "record_bytes r = record_header r @ pr_frame r"

text \<open>A record cut off by the end of the stream.\<close>

definition record_cut :: "bytes \<Rightarrow> bool" where
  "record_cut b \<longleftrightarrow> (\<exists>r n. pcap_record_ok r \<and> b = take n (record_bytes r) \<and> n < length (record_bytes r))"

lemma record_cut_Nil: "record_cut []"
proof -
  let ?r = "\<lparr>pr_time = replicate 8 0, pr_frame = [], pr_orig = [0, 0, 0, 0]\<rparr>"
  have "pcap_record_ok ?r" by (simp add: pcap_record_ok_def)
  moreover have "0 < length (record_bytes ?r)" by (simp add: record_bytes_def record_header_def)
  ultimately show ?thesis unfolding record_cut_def by (metis take_0)
qed

definition dispatch_all :: "(nat \<Rightarrow> timestamp) \<Rightarrow> bytes list \<Rightarrow> 's dispatcher \<Rightarrow> 's dispatcher" where
  "dispatch_all clock ps d = fold (\<lambda>p d. dispatch (clock (d_count d)) p d) ps d"

lemma length_record_header: "pcap_record_ok r \<Longrightarrow> length (record_header r) = 16"
  by (simp add: record_header_def pcap_record_ok_def le32_def)

lemma record_incl_len_header:
  assumes "pcap_record_ok r"
  shows "record_incl_len (record_header r) = Inr (length (pr_frame r))"
proof -
  have "py_slice (record_header r) 8 12 = le32 (length (pr_frame r))"
    unfolding record_header_def using assms
    by (intro slice_mid) (simp_all add: pcap_record_ok_def le32_def)
  then show ?thesis
    using assms by (simp add: record_incl_len_def length_record_header le32_def pcap_record_ok_def)
qed

lemma capture_records_cons:
  assumes "clean es" and "stream_bytes es = record_bytes r @ rest" and "pcap_record_ok r"
  shows "\<exists>es'. clean es' \<and> stream_bytes es' = rest \<and>
    capture_records clock es d = capture_records clock es' (dispatch (clock (d_count d)) (pr_frame r) d)"
proof -
  from assms length_record_header [OF assms(3)] obtain es1 where
    1: "recv_exact PCAP_RECORD_HEADER_LEN es = Inr (Some (record_header r), es1)" "clean es1"
       "stream_bytes es1 = pr_frame r @ rest"
    using recv_exact_enough [of es 16]
    by (auto simp: PCAP_RECORD_HEADER_LEN_def record_bytes_def)
  then obtain es2 where
    "recv_exact (int (length (pr_frame r))) es1 = Inr (Some (pr_frame r), es2)" "clean es2"
    "stream_bytes es2 = rest"
    using recv_exact_enough [of es1 "int (length (pr_frame r))"] by auto
  with 1 record_incl_len_header [OF assms(3)] show ?thesis
    by (intro exI [of _ es2]) (simp add: capture_records.simps [of clock es d])
qed

lemma capture_records_cut:
  assumes "clean es" and "stream_bytes es = b" and "record_cut b"
  shows "capture_records clock es d = d"
proof -
  from assms(3) obtain r n where r: "pcap_record_ok r" "b = take n (record_bytes r)"
    "n < length (record_bytes r)"
    by (auto simp: record_cut_def)
  show ?thesis
  proof (cases "n < 16")
    case True
    with assms r obtain es' where "recv_exact PCAP_RECORD_HEADER_LEN es = Inr (None, es')"
      using recv_exact_short [of es PCAP_RECORD_HEADER_LEN] by (auto simp: PCAP_RECORD_HEADER_LEN_def)
    then show ?thesis by (simp add: capture_records.simps [of clock es d])
  next
    case False
    with assms r length_record_header [OF r(1)]
    have sb: "stream_bytes es = record_header r @ take (n - 16) (pr_frame r)"
      by (simp add: record_bytes_def)
    then obtain es1 where
      1: "recv_exact PCAP_RECORD_HEADER_LEN es = Inr (Some (record_header r), es1)" "clean es1"
         "stream_bytes es1 = take (n - 16) (pr_frame r)"
      using recv_exact_enough [OF assms(1), of 16] length_record_header [OF r(1)]
      by (auto simp: PCAP_RECORD_HEADER_LEN_def)
    have "int (length (stream_bytes es1)) < int (length (pr_frame r))"
      using 1(3) r(3) False length_record_header [OF r(1)] by (simp add: record_bytes_def)
    from recv_exact_short [OF 1(2) this]
    obtain es2 where "recv_exact (int (length (pr_frame r))) es1 = Inr (None, es2)" ..
    with 1 show ?thesis
      using record_incl_len_header [OF r(1)] by (simp add: capture_records.simps [of clock es d])
  qed
qed

lemma capture_records_run:
  "clean es \<Longrightarrow> stream_bytes es = concat (map record_bytes rs) @ b \<Longrightarrow> list_all pcap_record_ok rs \<Longrightarrow>
   record_cut b \<Longrightarrow> capture_records clock es d = dispatch_all clock (map pr_frame rs) d"
proof (induction rs arbitrary: es d)
  case Nil
  then show ?case by (simp add: capture_records_cut dispatch_all_def)
next
  case (Cons r rs)
  from Cons.prems obtain es' where "clean es'" "stream_bytes es' = concat (map record_bytes rs) @ b"
    "capture_records clock es d = capture_records clock es' (dispatch (clock (d_count d)) (pr_frame r) d)"
    using capture_records_cons [of es r "concat (map record_bytes rs) @ b" clock d] by auto
  with Cons show ?case by (simp add: dispatch_all_def)
qed

section \<open>Fan-out\<close>

definition fan_out :: "'s handler list \<Rightarrow> timestamp \<times> bytes \<Rightarrow> 's \<Rightarrow> 's" where
  "fan_out hs tp s = fold (\<lambda>h. run_handler h tp) hs s"

definition timed :: "(nat \<Rightarrow> timestamp) \<Rightarrow> nat \<Rightarrow> bytes list \<Rightarrow> capture" where
  "timed clock n ps = zip (map clock [n..<n + length ps]) ps"

lemma timed_simps [simp]:
  "timed clock n [] = []"
  "timed clock n (p # ps) = (clock n, p) # timed clock (Suc n) ps"
  by (simp_all add: timed_def upt_conv_Cons del: upt_Suc)

lemma dispatch_fields [simp]:
  "d_handlers (dispatch now p d) = d_handlers d"
  "d_started (dispatch now p d) = d_started d"
  "d_count (dispatch now p d) = Suc (d_count d)"
  "d_state (dispatch now p d) = fan_out (d_handlers d) (now, p) (d_state d)"
  by (simp_all add: dispatch_def fan_out_def Let_def)

lemma dispatch_all_fields:
  "d_handlers (dispatch_all clock ps d) = d_handlers d"
  "d_count (dispatch_all clock ps d) = d_count d + length ps"
  "d_state (dispatch_all clock ps d) = fold (fan_out (d_handlers d)) (timed clock (d_count d) ps) (d_state d)"
  by (induction ps arbitrary: d) (simp_all add: dispatch_all_def)

lemma capture_run_framing:
  assumes "clean es" and "stream_bytes es = hdr @ concat (map record_bytes rs) @ b"
    and "length hdr = 24" and "list_all pcap_record_ok rs" and "record_cut b"
  shows "let (d', slept) = capture_run clock (Inr es) d in
    d_state d' = fold (fan_out (d_handlers d)) (timed clock (d_count d) (map pr_frame rs)) (d_state d) \<and>
    d_count d' = d_count d + length rs \<and> d_handlers d' = d_handlers d \<and>
    \<not> h_capture_running (d_health d') \<and> slept = 5"
proof -
  from assms(1-3) obtain es' where "recv_exact PCAP_GLOBAL_HEADER_LEN es = Inr (Some hdr, es')"
    "clean es'" "stream_bytes es' = concat (map record_bytes rs) @ b"
    using recv_exact_enough [of es 24] by (auto simp: PCAP_GLOBAL_HEADER_LEN_def)
  with capture_records_run [OF this(2,3) assms(4,5), of clock
      "d\<lparr>d_health := (d_health d)\<lparr>h_capture_running := True\<rparr>\<rparr>"] show ?thesis
    by (simp add: capture_run_def Let_def dispatch_all_fields RESTART_DELAY_SECONDS_def)
qed

section \<open>Properties\<close>

text \<open>Framing.  Whatever pieces the pipe delivers the bytes in, a tcpdump run that wrote a pcap
  header, the records \<open>rs\<close> and possibly a last record cut off by its death hands exactly the frames
  of \<open>rs\<close>, in order and once each, to all registered handlers; the dispatcher then reports the
  capture as stopped and waits five seconds.\<close>

theorem capture_run_frames:
  assumes "clean es" and "stream_bytes es = hdr @ concat (map record_bytes rs) @ b"
    and "length hdr = 24" and "list_all pcap_record_ok rs" and "record_cut b"
  shows "let (d', slept) = capture_run clock (Inr es) d in
    d_state d' = fold (fan_out (d_handlers d)) (timed clock (d_count d) (map pr_frame rs)) (d_state d) \<and>
    d_count d' = d_count d + length rs \<and> d_handlers d' = d_handlers d \<and>
    \<not> h_capture_running (d_health d') \<and> slept = 5"
  using assms by (rule capture_run_framing)

theorem capture_run_frames_witness:
  "let r = \<lparr>pr_time = replicate 8 0, pr_frame = [1, 2, 3], pr_orig = [3, 0, 0, 0]\<rparr>;
       h = (\<lambda>t p s. if p = [] then Inl IndexError else Inr (s @ [(t, p)]));
       (d', slept) = capture_run real (Inr [Chunk (replicate 20 7), Chunk (replicate 4 7 @ record_bytes r)])
         (register_handler h (dispatcher0 []))
   in d_state d' = [(0, [1, 2, 3])] \<and> slept = 5"
proof -
  let ?r = "\<lparr>pr_time = replicate 8 0, pr_frame = [1, 2, 3], pr_orig = [3, 0, 0, 0]\<rparr>"
  let ?es = "[Chunk (replicate 20 7), Chunk (replicate 4 7 @ record_bytes ?r)]"
  have ok: "pcap_record_ok ?r" by (simp add: pcap_record_ok_def)
  have "stream_bytes ?es = replicate 24 7 @ concat (map record_bytes [?r]) @ []"
    using replicate_add [of 20 4 "7 :: byte"] by simp
  moreover have "clean ?es" "length (replicate 24 (7 :: byte)) = 24" "list_all pcap_record_ok [?r]"
    using ok by simp_all
  ultimately show ?thesis
    using capture_run_frames [of ?es "replicate 24 7" "[?r]" "[]" real
        "register_handler (\<lambda>t p s. if p = [] then Inl IndexError else Inr (s @ [(t, p)])) (dispatcher0 [])"] record_cut_Nil
    by (simp add: Let_def split_def register_handler_def dispatcher0_def fan_out_def run_handler_def)
qed

text \<open>No restart delay.  A tcpdump that dies before writing its 24-byte header (no such interface,
  no permission) is restarted at once: any number of such runs sleeps zero seconds in all, so the
  capture thread spins.\<close>

theorem capture_restart_no_delay:
  assumes "list_all (\<lambda>r. \<exists>es. r = Inr es \<and> clean es \<and> length (stream_bytes es) < 24) runs"
  shows "snd (capture_loop (Some tcpdump) clock runs d) = 0"
proof -
  have "snd (capture_run clock r d) = 0" if "r = Inr es" "clean es" "length (stream_bytes es) < 24"
    for r es and d :: "'a dispatcher"
    using that recv_exact_short [of es 24]
    by (auto simp: capture_run_def PCAP_GLOBAL_HEADER_LEN_def Let_def)
  then have "list_all (\<lambda>r. \<exists>es. r = Inr es \<and> clean es \<and> length (stream_bytes es) < 24) runs \<Longrightarrow>
      snd (capture_runs clock runs d) = 0" for d :: "'a dispatcher"
    by (induction runs arbitrary: d) (auto simp: Let_def split_def)
  with assms show ?thesis by (simp add: capture_loop_def Let_def)
qed

theorem capture_restart_no_delay_witness:
  "snd (capture_loop (Some (lit ''/usr/bin/tcpdump'')) real (replicate 1000 (Inr [])) (dispatcher0 ())) = 0"
proof -
  have "list_all (\<lambda>r. \<exists>es. r = Inr es \<and> clean es \<and> length (stream_bytes es) < 24)
      (replicate 1000 (Inr [] :: exn + event list))"
    by (simp add: list_all_iff)
  from capture_restart_no_delay [OF this] show ?thesis .
qed

end
