(* ===== verification/Ip_Conflict.thy ===== *)
theory Ip_Conflict
  imports Listener
begin

text \<open>
  \<open>backend/capture/ip_conflict.py\<close>: duplicate-IP detection.  Every ARP packet is a claim of its
  sender's MAC on its sender's IP; \<open>_owners\<close> holds, per IP, the MACs whose claim is younger than ten
  minutes.  The abstract specification is the list of claims of a capture: the tracker knows exactly
  the last claim of every (IP, MAC) pair that has not expired.
\<close>

type_synonym owners = "(pystr, (pystr, timestamp) dict) dict"

definition ARP_ETHERTYPE :: nat where
  "ARP_ETHERTYPE = 0x0806"

definition MAC_TTL_SECONDS :: real where
  "MAC_TTL_SECONDS = 600"

definition MAX_TRACKED_IPS :: nat where
  "MAX_TRACKED_IPS = 500"

definition parse_arp :: "bytes \<Rightarrow> exn + (pystr \<times> pystr) option" where
  "parse_arp packet =
     (if length packet < 42 then Inr None
      else rbind (unpack_H (py_slice packet 12 14)) (\<lambda>ethertype.
        if ethertype \<noteq> ARP_ETHERTYPE then Inr None
        else let sender_mac = mac_str (py_slice packet 22 28);
                 sender_ip = ip_str (py_slice packet 28 32)
             in Inr (Some (sender_ip, sender_mac))))"

text \<open>The first loop drops stale MACs from every inner dict, the second the IPs left without any.\<close>

definition prune_macs :: "timestamp \<Rightarrow> (pystr, timestamp) dict \<Rightarrow> (pystr, timestamp) dict" where
  "prune_macs now macs =
     (let stale_macs = [mac. (mac, last_seen) \<leftarrow> macs, now - last_seen > MAC_TTL_SECONDS] in
      fold AList.delete stale_macs macs)"

definition prune_stale_macs :: "timestamp \<Rightarrow> owners \<Rightarrow> owners" where
  "prune_stale_macs now owners =
     (let pruned = map (\<lambda>(ip, macs). (ip, prune_macs now macs)) owners;
          stale_ips = [ip. (ip, macs) \<leftarrow> pruned, macs = []]
      in fold AList.delete stale_ips pruned)"

definition track_claim :: "timestamp \<Rightarrow> pystr \<Rightarrow> pystr \<Rightarrow> owners \<Rightarrow> owners" where
  "track_claim now sender_ip sender_mac owners =
     (let owners1 = prune_stale_macs now owners in
      case map_of owners1 sender_ip of
        None \<Rightarrow>
          if MAX_TRACKED_IPS \<le> length owners1 then owners1
          else AList.update sender_ip (AList.update sender_mac now []) owners1
      | Some macs \<Rightarrow> AList.update sender_ip (AList.update sender_mac now macs) owners1)"

definition conflict_handle_packet :: "owners handler" where
  "conflict_handle_packet now packet owners =
     rbind (parse_arp packet) (\<lambda>parsed.
       case parsed of
         None \<Rightarrow> Inr owners
       | Some (sender_ip, sender_mac) \<Rightarrow>
           if sender_ip = lit ''0.0.0.0'' then Inr owners
           else Inr (track_claim now sender_ip sender_mac owners))"

record conflict =
  k_ip :: pystr
  k_macs :: "(pystr \<times> timestamp) list"

record conflicts_report =
  k_conflicts :: "conflict list"
  k_tracked_ips :: nat

definition newest_claim :: "conflict \<Rightarrow> timestamp" where
  "newest_claim k = Max (set (map snd (k_macs k)))"

definition get_conflicts :: "timestamp \<Rightarrow> owners \<Rightarrow> owners \<times> conflicts_report" where
  "get_conflicts now owners =
     (let owners1 = prune_stale_macs now owners;
          conflicts = [\<lparr>k_ip = ip, k_macs = sort_desc snd macs\<rparr>. (ip, macs) \<leftarrow> owners1, \<not> length macs < 2]
      in (owners1, \<lparr>k_conflicts = sort_desc newest_claim conflicts, k_tracked_ips = length owners1\<rparr>))"

definition conflict_reset :: "owners \<Rightarrow> owners" where
  "conflict_reset owners = []"

section \<open>Well-formed trackers\<close>

definition owners_ok :: "owners \<Rightarrow> bool" where
  "owners_ok owners \<longleftrightarrow> wf_dict owners \<and> (\<forall>(ip, macs) \<in> set owners. wf_dict macs \<and> macs \<noteq> []) \<and>
     length owners \<le> MAX_TRACKED_IPS"

lemma owners_ok_Nil [simp]: "owners_ok []"
  by (simp add: owners_ok_def)

lemma prune_macs_eq:
  "wf_dict macs \<Longrightarrow> prune_macs now macs = filter (\<lambda>(mac, t). \<not> now - t > MAC_TTL_SECONDS) macs"
  unfolding prune_macs_def Let_def by (rule drop_keys)

lemma prune_stale_macs_eq:
  assumes "wf_dict owners"
  shows "prune_stale_macs now owners =
    filter (\<lambda>(ip, macs). \<not> macs = []) (map (\<lambda>(ip, macs). (ip, prune_macs now macs)) owners)"
  unfolding prune_stale_macs_def Let_def using assms by (intro drop_keys) simp

lemma wf_prune_macs [wf_intros]: "wf_dict macs \<Longrightarrow> wf_dict (prune_macs now macs)"
  by (simp add: prune_macs_eq wf_dict_filter)

lemma owners_ok_prune [wf_intros]:
  assumes "owners_ok owners"
  shows "owners_ok (prune_stale_macs now owners)"
proof -
  have "length (filter P (map f owners)) \<le> length owners" for P f
    using length_filter_le [of P "map f owners"] by simp
  then have "length (prune_stale_macs now owners) \<le> length owners"
    using assms by (simp only: owners_ok_def prune_stale_macs_eq)
  moreover have "wf_dict (prune_stale_macs now owners)"
    using assms by (simp add: owners_ok_def prune_stale_macs_eq wf_dict_filter del: filter_map)
  moreover have "\<forall>(ip, macs) \<in> set (prune_stale_macs now owners). wf_dict macs \<and> macs \<noteq> []"
    using assms by (auto simp: owners_ok_def prune_stale_macs_eq wf_intros)
  ultimately show ?thesis using assms unfolding owners_ok_def by (meson le_trans)
qed

lemma owners_ok_update:
  assumes "owners_ok owners" and "wf_dict macs" and "macs \<noteq> []"
    and "map_of owners ip = None \<Longrightarrow> length owners < MAX_TRACKED_IPS"
  shows "owners_ok (AList.update ip macs owners)"
  using assms set_update_subset [of ip macs owners]
  by (auto simp: owners_ok_def length_update wf_intros)

lemma owners_ok_lookup: "owners_ok owners \<Longrightarrow> map_of owners ip = Some macs \<Longrightarrow> wf_dict macs \<and> macs \<noteq> []"
  by (auto simp: owners_ok_def dest!: map_of_SomeD)

lemma owners_ok_track [wf_intros]:
  assumes "owners_ok owners"
  shows "owners_ok (track_claim now ip mac owners)"
proof -
  have ok: "owners_ok (prune_stale_macs now owners)" using assms by (rule owners_ok_prune)
  show ?thesis
  proof (cases "map_of (prune_stale_macs now owners) ip")
    case None
    with ok show ?thesis
      by (auto simp: track_claim_def Let_def wf_dict_def keys_def intro!: owners_ok_update)
  next
    case (Some macs)
    with ok owners_ok_lookup [OF ok Some] show ?thesis
      by (auto simp: track_claim_def Let_def intro!: owners_ok_update wf_dict_update)
  qed
qed

text \<open>The packet handler as the list of claims it accepts.\<close>

definition arp_claim :: "bytes \<Rightarrow> (pystr \<times> pystr) option" where
  "arp_claim p =
     (if 42 \<le> length p \<and> 256 * unat (p ! 12) + unat (p ! 13) = ARP_ETHERTYPE \<and>
         ip_str (py_slice p 28 32) \<noteq> lit ''0.0.0.0''
      then Some (ip_str (py_slice p 28 32), mac_str (py_slice p 22 28)) else None)"

lemma conflict_handle_packet_eq:
  "conflict_handle_packet now p owners =
   Inr (case arp_claim p of None \<Rightarrow> owners | Some (ip, mac) \<Rightarrow> track_claim now ip mac owners)"
  by (auto simp: conflict_handle_packet_def parse_arp_def arp_claim_def Let_def)

interpretation arp: listener conflict_handle_packet owners_ok
  by unfold_locales (auto simp: conflict_handle_packet_eq wf_intros split: option.splits prod.splits)

section \<open>Refinement: the tracker is the set of unexpired claims\<close>

text \<open>When a MAC's claim on an IP was last seen, as far as the tracker knows.\<close>

definition claim_time :: "owners \<Rightarrow> pystr \<Rightarrow> pystr \<Rightarrow> timestamp option" where
  "claim_time owners ip mac = (case map_of owners ip of None \<Rightarrow> None | Some macs \<Rightarrow> map_of macs mac)"

definition unexpired :: "timestamp \<Rightarrow> timestamp option \<Rightarrow> timestamp option" where
  "unexpired now c = (case c of None \<Rightarrow> None | Some t \<Rightarrow> if now - t > MAC_TTL_SECONDS then None else Some t)"

definition claims :: "capture \<Rightarrow> ((pystr \<times> pystr) \<times> timestamp) list" where
  "claims ps = List.map_filter (\<lambda>(t, p). map_option (\<lambda>c. (c, t)) (arp_claim p)) ps"

definition last_claim :: "capture \<Rightarrow> pystr \<Rightarrow> pystr \<Rightarrow> timestamp option" where
  "last_claim ps ip mac = map_of (rev (claims ps)) (ip, mac)"

lemma unexpired_later: "now \<le> now' \<Longrightarrow> unexpired now' (unexpired now c) = unexpired now' c"
  by (auto simp: unexpired_def split: option.split)

lemma claim_time_prune:
  assumes "owners_ok owners"
  shows "claim_time (prune_stale_macs now owners) ip mac = unexpired now (claim_time owners ip mac)"
proof -
  have "wf_dict macs" if "map_of owners ip = Some macs" for macs
    using owners_ok_lookup [OF assms that] by simp
  then have "map_of (prune_macs now macs) mac = unexpired now (map_of macs mac)"
    if "map_of owners ip = Some macs" for macs
    using that by (simp add: prune_macs_eq map_of_filter_wf unexpired_def split: option.split)
  moreover have "wf_dict (map (\<lambda>(ip, macs). (ip, prune_macs now macs)) owners)"
    using assms by (simp add: owners_ok_def)
  moreover have "unexpired now (map_of macs mac) = None" if "map_of owners ip = Some macs"
    "prune_macs now macs = []" for macs
    using that calculation(1) [OF that(1)] by simp
  ultimately show ?thesis
    using assms by (auto simp: owners_ok_def prune_stale_macs_eq map_of_filter_wf map_of_map_values
        claim_time_def unexpired_def split: option.splits)
qed

lemma claim_time_update:
  "claim_time (AList.update ip macs owners) i m = (if i = ip then map_of macs m else claim_time owners i m)"
  by (simp add: claim_time_def)

lemma claim_time_track:
  assumes "owners_ok owners"
    and "map_of (prune_stale_macs now owners) ip = None \<Longrightarrow>
         length (prune_stale_macs now owners) < MAX_TRACKED_IPS"
  shows "claim_time (track_claim now ip mac owners) i m =
    (if (i, m) = (ip, mac) then Some now else unexpired now (claim_time owners i m))"
proof -
  let ?o = "prune_stale_macs now owners"
  have p: "claim_time ?o i m = unexpired now (claim_time owners i m)"
    using assms(1) by (rule claim_time_prune)
  show ?thesis
  proof (cases "map_of ?o ip")
    case None
    with assms(2) have "track_claim now ip mac owners = AList.update ip [(mac, now)] ?o"
      by (simp add: track_claim_def Let_def)
    moreover have "claim_time ?o ip m = None" using None by (simp add: claim_time_def)
    ultimately show ?thesis using p by (auto simp: claim_time_update)
  next
    case (Some macs)
    then have "track_claim now ip mac owners = AList.update ip (AList.update mac now macs) ?o"
      by (simp add: track_claim_def Let_def)
    moreover have "claim_time ?o ip m = map_of macs m" using Some by (simp add: claim_time_def)
    ultimately show ?thesis using p by (auto simp: claim_time_update)
  qed
qed

lemma dom_prune: "owners_ok owners \<Longrightarrow> dom (map_of (prune_stale_macs now owners)) \<subseteq> dom (map_of owners)"
  by (auto simp: prune_stale_macs_eq owners_ok_def map_of_filter_wf map_of_map_values split: option.splits)

lemma dom_track:
  "owners_ok owners \<Longrightarrow> dom (map_of (track_claim now ip mac owners)) \<subseteq> insert ip (dom (map_of owners))"
  using dom_prune [of owners now] by (auto simp: track_claim_def Let_def split: option.splits if_splits)

lemma claims_snoc:
  "claims (ps @ [(t, p)]) =
    claims ps @ (case arp_claim p of None \<Rightarrow> [] | Some c \<Rightarrow> [(c, t)])"
  by (simp add: claims_def List.map_filter_def split: option.split)

definition claimed_ips :: "capture \<Rightarrow> pystr set" where
  "claimed_ips ps = (\<lambda>((ip, mac), t). ip) ` set (claims ps)"

lemma finite_claimed_ips [simp]: "finite (claimed_ips ps)"
  by (simp add: claimed_ips_def)

lemma claimed_ips_snoc:
  "claimed_ips (ps @ [(t, p)]) =
    (case arp_claim p of None \<Rightarrow> claimed_ips ps | Some (ip, mac) \<Rightarrow> insert ip (claimed_ips ps))"
  by (auto simp: claimed_ips_def claims_snoc split: option.split)

lemma run_conflict:
  "run_handler conflict_handle_packet (t, p) owners =
    (case arp_claim p of None \<Rightarrow> owners | Some (ip, mac) \<Rightarrow> track_claim t ip mac owners)"
  by (simp add: run_handler_def conflict_handle_packet_eq)

lemma tracked_subset: "dom (map_of (listen conflict_handle_packet ps [])) \<subseteq> claimed_ips ps"
proof (induction ps rule: rev_induct)
  case Nil
  then show ?case by simp
next
  case (snoc tp ps)
  obtain t p where tp: "tp = (t, p)" by (cases tp)
  have "owners_ok (listen conflict_handle_packet ps [])" by (rule arp.listen_inv) simp
  from dom_track [OF this] snoc show ?case
    by (fastforce simp: tp listen_append run_conflict claimed_ips_snoc split: option.splits)
qed

text \<open>With a clock that never steps back and at most 500 claimed IPs, the tracker answers like the
  list of claims.\<close>

lemma tracker_refines:
  "sorted (map fst ps) \<Longrightarrow> card (claimed_ips ps) \<le> MAX_TRACKED_IPS \<Longrightarrow> \<forall>t \<in> fst ` set ps. t \<le> now \<Longrightarrow>
   unexpired now (claim_time (listen conflict_handle_packet ps []) ip mac) = unexpired now (last_claim ps ip mac)"
proof (induction ps rule: rev_induct)
  case Nil
  then show ?case by (simp add: claim_time_def last_claim_def claims_def)
next
  case (snoc tp ps)
  obtain t p where tp: "tp = (t, p)" by (cases tp)
  let ?o = "listen conflict_handle_packet ps []"
  have ok: "owners_ok ?o" by (rule arp.listen_inv) simp
  have le: "\<forall>t' \<in> fst ` set ps. t' \<le> t" "t \<le> now" "sorted (map fst ps)"
    using snoc.prems tp by (auto simp: sorted_append)
  have "card (claimed_ips ps) \<le> card (claimed_ips (ps @ [tp]))"
    by (rule card_mono) (auto simp: tp claimed_ips_snoc split: option.splits)
  with snoc le have IH: "unexpired now (claim_time ?o ip mac) = unexpired now (last_claim ps ip mac)"
    by auto
  show ?case
  proof (cases "arp_claim p")
    case None
    with IH show ?thesis by (simp add: tp listen_append run_conflict last_claim_def claims_snoc)
  next
    case (Some c)
    obtain ip' mac' where c: "c = (ip', mac')" by (cases c)
    have full: "length (prune_stale_macs t ?o) < MAX_TRACKED_IPS"
      if "map_of (prune_stale_macs t ?o) ip' = None"
    proof -
      have "length (prune_stale_macs t ?o) = card (dom (map_of (prune_stale_macs t ?o)))"
        using owners_ok_prune [OF ok, of t] by (simp add: owners_ok_def wf_dict_length)
      also have "\<dots> < card (insert ip' (dom (map_of (prune_stale_macs t ?o))))"
        using that by (simp add: finite_dom_map_of card_insert_if domIff)
      also have "\<dots> \<le> card (claimed_ips (ps @ [tp]))"
        using dom_prune [OF ok, of t] tracked_subset [of ps] Some c tp
        by (intro card_mono) (auto simp: claimed_ips_snoc)
      finally show ?thesis using snoc.prems(2) by simp
    qed
    have "claim_time (listen conflict_handle_packet (ps @ [tp]) []) ip mac =
        (if (ip, mac) = (ip', mac') then Some t else unexpired t (claim_time ?o ip mac))"
      using claim_time_track [where ip = ip' and mac = mac' and i = ip and m = mac, OF ok full] Some c tp
      by (simp add: listen_append run_conflict)
    moreover have "last_claim (ps @ [tp]) ip mac =
        (if (ip, mac) = (ip', mac') then Some t else last_claim ps ip mac)"
      using Some c tp by (auto simp: last_claim_def claims_snoc)
    ultimately show ?thesis using IH unexpired_later [OF le(2)] by auto
  qed
qed

text \<open>An ARP frame with the given sender: Ethernet header, hardware and protocol fields, sender, target.\<close>

definition arp_frame :: "bytes \<Rightarrow> bytes \<Rightarrow> bytes" where
  "arp_frame mac ip = replicate 6 0xFF @ mac @ [0x08, 0x06, 0, 1, 8, 0, 6, 4, 0, 2] @ mac @ ip @ replicate 10 0"

lemma arp_claim_frame:
  assumes "length mac = 6" and "length ip = 4" and "ip_str ip \<noteq> lit ''0.0.0.0''"
  shows "arp_claim (arp_frame mac ip) = Some (ip_str ip, mac_str mac)"
proof -
  let ?h = "replicate 6 0xFF @ mac @ [0x08, 0x06, 0, 1, 8, 0, 6, 4, 0, 2]"
  have "py_slice (arp_frame mac ip) 22 28 = mac"
    using slice_mid [of 22 ?h 28 mac "ip @ replicate 10 0"] assms by (simp add: arp_frame_def)
  moreover have "py_slice (arp_frame mac ip) 28 32 = ip"
    using slice_mid [of 28 "?h @ mac" 32 ip "replicate 10 0"] assms by (simp add: arp_frame_def)
  moreover have "arp_frame mac ip ! 12 = 0x08" "arp_frame mac ip ! 13 = 0x06"
    using assms by (simp_all add: arp_frame_def nth_append)
  ultimately show ?thesis
    using assms by (simp add: arp_claim_def ARP_ETHERTYPE_def) (simp add: arp_frame_def)
qed

section \<open>Properties\<close>

lemma conflicts_of_owners:
  assumes "owners_ok owners"
  shows "k \<in> set (k_conflicts (snd (get_conflicts now owners))) \<longleftrightarrow>
    (\<exists>macs. map_of (prune_stale_macs now owners) (k_ip k) = Some macs \<and> 2 \<le> length macs \<and>
      k_macs k = sort_desc snd macs)"
proof -
  have "wf_dict (prune_stale_macs now owners)"
    using owners_ok_prune [OF assms] by (simp add: owners_ok_def)
  then show ?thesis
    by (cases k) (force simp: get_conflicts_def Let_def map_of_in_set not_less)
qed

text \<open>C12: what \<open>get_conflicts\<close> reports is exactly what was seen.  After any capture whose clock never
  steps back and that claims at most 500 addresses, an IP is reported as in conflict iff at least
  two MACs claimed it within the last ten minutes, and its entry lists exactly those MACs, each with
  the time of its last claim, the most recent first.\<close>

theorem conflicts_exact:
  assumes "sorted (map fst ps)" and "card (claimed_ips ps) \<le> 500" and "\<forall>t \<in> fst ` set ps. t \<le> now"
  shows "let report = snd (get_conflicts now (listen conflict_handle_packet ps []));
             live = (\<lambda>ip. {(mac, t). last_claim ps ip mac = Some t \<and> now - t \<le> 600}) in
    k_ip ` set (k_conflicts report) = {ip. 2 \<le> card (live ip)} \<and>
    (\<forall>k \<in> set (k_conflicts report). set (k_macs k) = live (k_ip k) \<and>
       sorted_wrt (\<ge>) (map snd (k_macs k)) \<and> distinct (map fst (k_macs k)))"
proof -
  let ?o = "listen conflict_handle_packet ps []"
  let ?q = "prune_stale_macs now ?o"
  define live where "live ip = {(mac, t). last_claim ps ip mac = Some t \<and> now - t \<le> 600}" for ip
  have ok: "owners_ok ?o" by (rule arp.listen_inv) simp
  have okq: "owners_ok ?q" using ok by (rule owners_ok_prune)
  have ct: "claim_time ?q ip mac = unexpired now (last_claim ps ip mac)" for ip mac
    using tracker_refines [OF assms(1) _ assms(3)] assms(2) claim_time_prune [OF ok]
    by (simp add: MAX_TRACKED_IPS_def)
  have liveq: "live ip = (case map_of ?q ip of None \<Rightarrow> {} | Some macs \<Rightarrow> set macs)" for ip
  proof -
    have "(mac, t) \<in> live ip \<longleftrightarrow> claim_time ?q ip mac = Some t" for mac t
      by (auto simp: live_def ct unexpired_def MAC_TTL_SECONDS_def split: option.splits)
    then show ?thesis
      using owners_ok_lookup [OF okq, of ip]
      by (auto simp: claim_time_def map_of_in_set split: option.split)
  qed
  have d: "distinct (map fst macs)" if "map_of ?q ip = Some macs" for ip macs
    using owners_ok_lookup [OF okq that] by (simp add: wf_dict_def keys_def)
  then have len: "length macs = card (live ip)" if "map_of ?q ip = Some macs" for ip macs
    using that liveq [of ip] by (simp add: distinct_card distinct_map)
  have "k_ip ` set (k_conflicts (snd (get_conflicts now ?o))) = {ip. 2 \<le> card (live ip)}" (is "?L = ?R")
  proof
    show "?L \<subseteq> ?R" using len by (auto simp: conflicts_of_owners [OF ok])
    show "?R \<subseteq> ?L"
    proof
      fix ip assume "ip \<in> ?R"
      then obtain macs where "map_of ?q ip = Some macs" "2 \<le> length macs"
        using liveq [of ip] len by (cases "map_of ?q ip") auto
      then have "\<lparr>k_ip = ip, k_macs = sort_desc snd macs\<rparr> \<in> set (k_conflicts (snd (get_conflicts now ?o)))"
        by (simp add: conflicts_of_owners [OF ok])
      then show "ip \<in> ?L" by force
    qed
  qed
  moreover have "set (k_macs k) = live (k_ip k) \<and> sorted_wrt (\<ge>) (map snd (k_macs k)) \<and>
      distinct (map fst (k_macs k))"
    if k: "k \<in> set (k_conflicts (snd (get_conflicts now ?o)))" for k
  proof -
    from k obtain macs where m: "map_of ?q (k_ip k) = Some macs" "k_macs k = sort_desc snd macs"
      by (auto simp: conflicts_of_owners [OF ok])
    have "mset (map fst (sort_desc snd macs)) = mset (map fst macs)" by simp
    then have "distinct (map fst (sort_desc snd macs))" using d [OF m(1)] mset_eq_imp_distinct_iff by blast
    then show ?thesis using m liveq [of "k_ip k"] sorted_sort_desc [of snd macs] by simp
  qed
  ultimately show ?thesis unfolding live_def Let_def by blast
qed

theorem conflicts_exact_witness:
  "ip_str [10, 0, 0, 1] \<in> k_ip ` set (k_conflicts (snd (get_conflicts 9 (listen conflict_handle_packet
     [(0, arp_frame [1, 2, 3, 4, 5, 6] [10, 0, 0, 1]), (5, arp_frame [1, 2, 3, 4, 5, 7] [10, 0, 0, 1])] []))))"
proof -
  let ?m1 = "[1, 2, 3, 4, 5, 6] :: bytes" and ?m2 = "[1, 2, 3, 4, 5, 7] :: bytes"
  let ?ip = "[10, 0, 0, 1] :: bytes"
  let ?ps = "[(0, arp_frame ?m1 ?ip), (5, arp_frame ?m2 ?ip)] :: capture"
  have z: "ip_str ?ip \<noteq> lit ''0.0.0.0''" by (simp add: ip_str_def lit_def dec.simps)
  have cl: "claims ?ps = [((ip_str ?ip, mac_str ?m1), 0), ((ip_str ?ip, mac_str ?m2), 5)]"
    using z by (simp add: claims_def List.map_filter_def arp_claim_frame)
  have ne: "mac_str ?m1 \<noteq> mac_str ?m2" by (subst mac_str_inj) simp_all
  have "card (claimed_ips ?ps) \<le> 500" by (simp add: claimed_ips_def cl)
  from conflicts_exact [OF _ this, of 9]
  have "k_ip ` set (k_conflicts (snd (get_conflicts 9 (listen conflict_handle_packet ?ps []))))
      = {ip. 2 \<le> card {(mac, t). last_claim ?ps ip mac = Some t \<and> 9 - t \<le> 600}}"
    by (simp add: Let_def)
  moreover have "{(mac, t). last_claim ?ps (ip_str ?ip) mac = Some t \<and> 9 - t \<le> 600}
      = {(mac_str ?m1, 0), (mac_str ?m2, 5)}"
    using ne by (auto simp: last_claim_def cl split: if_splits)
  ultimately show ?thesis using ne by simp
qed

end
