(* ===== verification/Dhcp_Monitor.thy ===== *)
theory Dhcp_Monitor
  imports Listener Tlv
begin

text \<open>
  \<open>backend/capture/dhcp_monitor.py\<close>: every distinct DHCP server seen answering.  The option walk is
  the fourth type-length-value loop (with pad and end options); the sample of offered addresses is a
  set, kept as a duplicate-free list.
\<close>

record dhcp_server =
  v_mac :: pystr
  v_offers :: nat
  v_acks :: nat
  v_first_seen :: timestamp
  v_last_seen :: timestamp
  v_offered_ips :: "pystr list"

type_synonym servers = "(pystr, dhcp_server) dict"

definition DHCP_SERVER_PORT :: nat where
  "DHCP_SERVER_PORT = 67"

definition DHCP_MAGIC_COOKIE :: bytes where
  "DHCP_MAGIC_COOKIE = [99, 130, 83, 99]"

definition OFFER :: byte where
  "OFFER = 2"

definition ACK :: byte where
  "ACK = 5"

definition MAX_SERVERS :: nat where
  "MAX_SERVERS = 50"

definition MAX_OFFERED_IPS_SAMPLE :: nat where
  "MAX_OFFERED_IPS_SAMPLE = 5"

record udp_datagram =
  u_src_mac :: pystr
  u_src_ip :: pystr
  u_dst_ip :: pystr
  u_src_port :: nat
  u_dst_port :: nat
  u_payload :: bytes

definition parse_ipv4_udp :: "bytes \<Rightarrow> exn + udp_datagram option" where
  "parse_ipv4_udp packet =
     (if length packet < 14 + 20 + 8 then Inr None
      else rbind (unpack_H (py_slice packet 12 14)) (\<lambda>ethertype.
        if ethertype \<noteq> 0x0800 then Inr None
        else rbind (byte_at packet 14) (\<lambda>b14. rbind (byte_at packet 23) (\<lambda>proto.
          let ihl = (unat b14 mod 16) * 4 in
          if proto \<noteq> 17 then Inr None
          else if length packet < 14 + ihl + 8 then Inr None
          else let udp_offset = 14 + ihl in
            rbind (unpack_H (py_slice packet udp_offset (udp_offset + 2))) (\<lambda>src_port.
            rbind (unpack_H (py_slice packet (udp_offset + 2) (udp_offset + 4))) (\<lambda>dst_port.
              Inr (Some \<lparr>u_src_mac = mac_str (py_slice packet 6 12), u_src_ip = ip_str (py_slice packet 26 30),
                     u_dst_ip = ip_str (py_slice packet 30 34), u_src_port = src_port,
                     u_dst_port = dst_port, u_payload = drop (udp_offset + 8) packet\<rparr>)))))))"

text \<open>The dict of options: a repeated code keeps its place and takes the last value.\<close>

function dhcp_options_loop :: "bytes \<Rightarrow> nat \<Rightarrow> (byte, bytes) dict \<Rightarrow> exn + (byte, bytes) dict" where
  "dhcp_options_loop options i parsed =
     (if i < length options then
        rbind (byte_at options i) (\<lambda>code.
          if code = 0xFF then Inr parsed
          else if code = 0 then dhcp_options_loop options (i + 1) parsed
          else if length options \<le> i + 1 then Inr parsed
          else rbind (byte_at options (i + 1)) (\<lambda>len.
            let v = py_slice options (i + 2) (i + 2 + unat len) in
            if length v < unat len then Inr parsed
            else dhcp_options_loop options (i + 2 + unat len) (AList.update code v parsed)))
      else Inr parsed)"
  by pat_completeness auto
termination
  by (relation "measure (\<lambda>(options, i, parsed). length options - i)") auto

declare dhcp_options_loop.simps [simp del]

definition parse_dhcp_options :: "bytes \<Rightarrow> exn + (byte, bytes) dict" where
  "parse_dhcp_options options = dhcp_options_loop options 0 []"

record dhcp_message =
  d_message_type :: byte
  d_offered_ip :: pystr
  d_server_identifier :: "pystr option"

definition parse_dhcp :: "bytes \<Rightarrow> exn + dhcp_message option" where
  "parse_dhcp payload =
     (if length payload < 240 \<or> py_slice payload 236 240 \<noteq> DHCP_MAGIC_COOKIE then Inr None
      else let yiaddr = ip_str (py_slice payload 16 20) in
        rbind (parse_dhcp_options (drop 240 payload)) (\<lambda>options.
          case map_of options 53 of
            None \<Rightarrow> Inr None
          | Some [] \<Rightarrow> Inr None
          | Some (message_type # _) \<Rightarrow>
              Inr (Some \<lparr>d_message_type = message_type, d_offered_ip = yiaddr,
                d_server_identifier =
                  (case map_of options 54 of
                     None \<Rightarrow> None
                   | Some raw \<Rightarrow> if length raw = 4 then Some (ip_str raw) else None)\<rparr>)))"

definition add_offered_ip :: "pystr \<Rightarrow> pystr list \<Rightarrow> pystr list" where
  "add_offered_ip ip ips =
     (if ip \<noteq> [] \<and> ip \<noteq> lit ''0.0.0.0'' \<and> length ips < MAX_OFFERED_IPS_SAMPLE
      then (if ip \<in> set ips then ips else ips @ [ip]) else ips)"

definition seen_server :: "timestamp \<Rightarrow> udp_datagram \<Rightarrow> dhcp_message \<Rightarrow> dhcp_server \<Rightarrow> dhcp_server" where
  "seen_server now u m e =
     (let e1 = e\<lparr>v_mac := u_src_mac u, v_last_seen := now\<rparr>;
          e2 = (if d_message_type m = OFFER then e1\<lparr>v_offers := v_offers e1 + 1\<rparr>
                else e1\<lparr>v_acks := v_acks e1 + 1\<rparr>)
      in e2\<lparr>v_offered_ips := add_offered_ip (d_offered_ip m) (v_offered_ips e2)\<rparr>)"

definition record_server :: "timestamp \<Rightarrow> udp_datagram \<Rightarrow> dhcp_message \<Rightarrow> servers \<Rightarrow> servers" where
  "record_server now u m s =
     (let server_ip = (case d_server_identifier m of
            Some i \<Rightarrow> if i \<noteq> [] then i else u_src_ip u | None \<Rightarrow> u_src_ip u)
      in case map_of s server_ip of
           None \<Rightarrow>
             if MAX_SERVERS \<le> length s then s
             else AList.update server_ip (seen_server now u m
               \<lparr>v_mac = u_src_mac u, v_offers = 0, v_acks = 0, v_first_seen = now, v_last_seen = now,
                v_offered_ips = []\<rparr>) s
         | Some e \<Rightarrow> AList.update server_ip (seen_server now u m e) s)"

definition dhcp_handle_packet :: "servers handler" where
  "dhcp_handle_packet now packet s =
     rbind (parse_ipv4_udp packet) (\<lambda>parsed.
       case parsed of
         None \<Rightarrow> Inr s
       | Some u \<Rightarrow>
           if u_src_port u \<noteq> DHCP_SERVER_PORT then Inr s
           else rbind (parse_dhcp (u_payload u)) (\<lambda>d.
             case d of
               None \<Rightarrow> Inr s
             | Some m \<Rightarrow>
                 if d_message_type m \<notin> {OFFER, ACK} then Inr s
                 else Inr (record_server now u m s)))"

record servers_report =
  w_servers :: "(pystr \<times> dhcp_server) list"
  w_multiple :: bool

text \<open>\<open>sorted(entry["offered_ips"])\<close>: strings in code point order.\<close>

fun str_le :: "pystr \<Rightarrow> pystr \<Rightarrow> bool" where
  "str_le [] _ = True"
| "str_le (a # as) [] = False"
| "str_le (a # as) (b # bs) = (a < b \<or> a = b \<and> str_le as bs)"

fun str_insert :: "pystr \<Rightarrow> pystr list \<Rightarrow> pystr list" where
  "str_insert x [] = [x]"
| "str_insert x (y # ys) = (if str_le x y then x # y # ys else y # str_insert x ys)"

definition str_sort :: "pystr list \<Rightarrow> pystr list" where
  "str_sort xs = fold str_insert xs []"

definition get_servers :: "servers \<Rightarrow> servers_report" where
  "get_servers s =
     (let entries = map (\<lambda>(ip, e). (ip, e\<lparr>v_offered_ips := str_sort (v_offered_ips e)\<rparr>)) s;
          sorted_servers = sort_key (\<lambda>(ip, e). v_first_seen e) entries
      in \<lparr>w_servers = sorted_servers, w_multiple = (1 < length sorted_servers)\<rparr>)"

definition dhcp_reset :: "servers \<Rightarrow> servers" where
  "dhcp_reset s = []"

section \<open>Totality\<close>

lemma parse_ipv4_udp_returns: "returns (parse_ipv4_udp packet)"
  unfolding parse_ipv4_udp_def by (intro returns_intros returns_reads returns_simps) auto

lemma dhcp_options_returns: "returns (dhcp_options_loop options i parsed)"
proof (induction options i parsed rule: dhcp_options_loop.induct)
  case (1 options i parsed)
  show ?case
  proof (cases "i < length options")
    case False
    then show ?thesis by (simp add: dhcp_options_loop.simps [of options i])
  next
    case True
    then have c: "byte_at options i = Inr (options ! i)" by simp
    show ?thesis
    proof (cases "options ! i = 0xFF \<or> options ! i = 0 \<or> length options \<le> i + 1")
      case stop: True
      with True c "1.IH"(1) [OF True c] show ?thesis
        by (subst dhcp_options_loop.simps) auto
    next
      case False
      then have l: "byte_at options (i + 1) = Inr (options ! (i + 1))" by simp
      from "1.IH"(2) [OF True c _ _ _ l refl] True False c l show ?thesis
        by (subst dhcp_options_loop.simps) (simp add: Let_def del: byte_at_in)
    qed
  qed
qed

lemma parse_dhcp_returns: "returns (parse_dhcp payload)"
  using dhcp_options_returns [of "drop 240 payload" 0 "[]"]
  by (auto simp: parse_dhcp_def parse_dhcp_options_def returns_iff Let_def split: option.split list.split)

section \<open>Options\<close>

text \<open>Encoded options: \<open>None\<close> is a pad byte.\<close>

definition dhcp_enc :: "(byte \<times> bytes) option \<Rightarrow> bytes" where
  "dhcp_enc opt = (case opt of None \<Rightarrow> [0] | Some (code, v) \<Rightarrow> [code, byte_of (length v)] @ v)"

definition dhcp_enc_ok :: "(byte \<times> bytes) option \<Rightarrow> bool" where
  "dhcp_enc_ok opt = (case opt of None \<Rightarrow> True | Some (code, v) \<Rightarrow> code \<noteq> 0 \<and> code \<noteq> 0xFF \<and> length v < 256)"

definition dhcp_app :: "(byte \<times> bytes) option \<Rightarrow> (byte, bytes) dict \<Rightarrow> (byte, bytes) dict" where
  "dhcp_app opt d = (case opt of None \<Rightarrow> d | Some (code, v) \<Rightarrow> AList.update code v d)"

interpretation dhcp: tlv_loop dhcp_options_loop dhcp_enc dhcp_enc_ok dhcp_app
proof
  fix t pre rest n
  assume ok: "dhcp_enc_ok t"
  let ?p = "pre @ dhcp_enc t @ rest"
  show "dhcp_options_loop ?p (length pre) n = dhcp_options_loop ?p (length pre + length (dhcp_enc t)) (dhcp_app t n)"
  proof (cases t)
    case None
    have "byte_at ?p (length pre) = Inr 0" by (simp add: byte_at_def None dhcp_enc_def)
    then show ?thesis
      by (subst dhcp_options_loop.simps) (simp add: None dhcp_enc_def dhcp_app_def del: byte_at_in)
  next
    case (Some cv)
    obtain c v where cv: "cv = (c, v)" by (cases cv)
    let ?q = "pre @ [c, byte_of (length v)] @ v @ rest"
    have c: "byte_at ?q (length pre) = Inr c" "byte_at ?q (length pre + 1) = Inr (byte_of (length v))"
      by (simp_all add: byte_at_def nth_append)
    have s: "py_slice ?q (length pre + 2) (length pre + 2 + length v) = v"
      using slice_mid [of "length pre + 2" "pre @ [c, byte_of (length v)]" "length pre + 2 + length v" v rest]
      by simp
    have "c \<noteq> 0" "c \<noteq> 0xFF" "unat (byte_of (length v)) = length v"
      using ok Some cv by (auto simp: dhcp_enc_ok_def)
    moreover have "length pre < length ?q" "\<not> length ?q \<le> length pre + 1" by simp_all
    ultimately have "dhcp_options_loop ?q (length pre) n =
        dhcp_options_loop ?q (length pre + 2 + length v) (AList.update c v n)"
      by (subst dhcp_options_loop.simps) (simp only: if_True if_False c rbind_simps Let_def s less_irrefl)
    then show ?thesis by (simp add: Some cv dhcp_enc_def dhcp_app_def)
  qed
qed

section \<open>Replies\<close>

type_synonym reply = "udp_datagram \<times> dhcp_message"

definition dhcp_reply :: "bytes \<Rightarrow> reply option" where
  "dhcp_reply p =
     (case parse_ipv4_udp p of
        Inr (Some u) \<Rightarrow>
          if u_src_port u = DHCP_SERVER_PORT
          then (case parse_dhcp (u_payload u) of
                  Inr (Some m) \<Rightarrow> if d_message_type m \<in> {OFFER, ACK} then Some (u, m) else None
                | _ \<Rightarrow> None)
          else None
      | _ \<Rightarrow> None)"

definition reply_server :: "reply \<Rightarrow> pystr" where
  "reply_server r = (case d_server_identifier (snd r) of
     Some i \<Rightarrow> if i \<noteq> [] then i else u_src_ip (fst r) | None \<Rightarrow> u_src_ip (fst r))"

lemma dhcp_handle_eq:
  "dhcp_handle_packet now p s =
    Inr (case dhcp_reply p of None \<Rightarrow> s | Some (u, m) \<Rightarrow> record_server now u m s)"
proof -
  obtain x where x: "parse_ipv4_udp p = Inr x"
    using parse_ipv4_udp_returns by (auto simp: returns_iff)
  show ?thesis
  proof (cases x)
    case None
    with x show ?thesis by (simp add: dhcp_handle_packet_def dhcp_reply_def)
  next
    case (Some u)
    obtain y where y: "parse_dhcp (u_payload u) = Inr y"
      using parse_dhcp_returns by (auto simp: returns_iff)
    with x Some show ?thesis
      by (cases y) (simp_all add: dhcp_handle_packet_def dhcp_reply_def)
  qed
qed

lemma run_dhcp:
  "run_handler dhcp_handle_packet (t, p) s =
    (case dhcp_reply p of None \<Rightarrow> s | Some (u, m) \<Rightarrow> record_server t u m s)"
  by (simp add: run_handler_def dhcp_handle_eq)

section \<open>The table is well-formed\<close>

definition sample_ok :: "pystr list \<Rightarrow> bool" where
  "sample_ok ips \<longleftrightarrow> distinct ips \<and> length ips \<le> MAX_OFFERED_IPS_SAMPLE \<and> lit ''0.0.0.0'' \<notin> set ips \<and> [] \<notin> set ips"

definition servers_ok :: "servers \<Rightarrow> bool" where
  "servers_ok s \<longleftrightarrow> wf_dict s \<and> length s \<le> MAX_SERVERS \<and>
     (\<forall>ip e. map_of s ip = Some e \<longrightarrow> 0 < v_offers e + v_acks e \<and> sample_ok (v_offered_ips e))"

lemma sample_ok_add: "sample_ok ips \<Longrightarrow> sample_ok (add_offered_ip ip ips)"
  by (auto simp: sample_ok_def add_offered_ip_def)

lemma seen_server_fields:
  "v_mac (seen_server now u m e) = u_src_mac u"
  "v_last_seen (seen_server now u m e) = now"
  "v_first_seen (seen_server now u m e) = v_first_seen e"
  "v_offers (seen_server now u m e) = v_offers e + (if d_message_type m = OFFER then 1 else 0)"
  "v_acks (seen_server now u m e) = v_acks e + (if d_message_type m = OFFER then 0 else 1)"
  "v_offered_ips (seen_server now u m e) = add_offered_ip (d_offered_ip m) (v_offered_ips e)"
  by (simp_all add: seen_server_def Let_def)

lemma record_server_eq:
  "record_server now u m s =
    (case map_of s (reply_server (u, m)) of
       None \<Rightarrow> if MAX_SERVERS \<le> length s then s
         else AList.update (reply_server (u, m)) (seen_server now u m
           \<lparr>v_mac = u_src_mac u, v_offers = 0, v_acks = 0, v_first_seen = now, v_last_seen = now,
            v_offered_ips = []\<rparr>) s
     | Some e \<Rightarrow> AList.update (reply_server (u, m)) (seen_server now u m e) s)"
  unfolding record_server_def reply_server_def Let_def fst_conv snd_conv ..

lemma servers_ok_record [wf_intros]: "servers_ok s \<Longrightarrow> servers_ok (record_server now u m s)"
  unfolding servers_ok_def record_server_eq
  by (auto simp: wf_intros length_update seen_server_fields sample_ok_add split: option.splits)
    (simp_all add: sample_ok_def add_offered_ip_def MAX_OFFERED_IPS_SAMPLE_def)

interpretation dhcp_listener: listener dhcp_handle_packet servers_ok
proof
  fix s s' t p
  assume "servers_ok s" "dhcp_handle_packet t p s = Inr s'"
  then show "servers_ok s'" by (auto simp: dhcp_handle_eq wf_intros split: option.splits)
qed

section \<open>Refinement: the table is the list of replies\<close>


definition server_ips :: "capture \<Rightarrow> pystr set" where
  "server_ips ps = {reply_server r | r t p. (t, p) \<in> set ps \<and> dhcp_reply p = Some r}"


lemma server_ips_snoc:
  "server_ips (ps @ [(t, p)]) =
    (case dhcp_reply p of None \<Rightarrow> server_ips ps | Some r \<Rightarrow> insert (reply_server r) (server_ips ps))"
  by (auto simp: server_ips_def split: option.split)

lemma finite_server_ips [simp]: "finite (server_ips ps)"
  by (rule finite_subset [of _ "(\<lambda>(t, p). reply_server (the (dhcp_reply p))) ` set ps"])
    (force simp: server_ips_def)+








lemma OFFER_not_ACK [simp]: "OFFER \<noteq> ACK" "ACK \<noteq> OFFER"
  by (simp_all add: OFFER_def ACK_def)

lemma dom_servers: "dom (map_of (listen dhcp_handle_packet ps [])) \<subseteq> server_ips ps"
proof (induction ps rule: rev_induct)
  case (snoc tp ps)
  obtain t p where tp: "tp = (t, p)" by (cases tp)
  have "dom (map_of (record_server t u m s)) \<subseteq> insert (reply_server (u, m)) (dom (map_of s))" for u m s
    by (auto simp: record_server_eq split: option.splits if_splits)
  with snoc show ?case
    by (fastforce simp: tp listen_append run_dhcp server_ips_snoc split: option.splits)
qed simp


lemma wf_servers: "wf_dict (listen dhcp_handle_packet ps [])"
  using dhcp_listener.listen_inv [of "[]" ps] by (simp add: servers_ok_def)

text \<open>As long as there is room, every server that answered is in the table.\<close>

lemma servers_until_full:
  "length (listen dhcp_handle_packet ps []) < MAX_SERVERS \<Longrightarrow>
   dom (map_of (listen dhcp_handle_packet ps [])) = server_ips ps"
proof (induction ps rule: rev_induct)
  case Nil
  then show ?case by (simp add: server_ips_def)
next
  case (snoc tp ps)
  obtain t p where tp: "tp = (t, p)" by (cases tp)
  let ?s = "listen dhcp_handle_packet ps []"
  show ?case
  proof (cases "dhcp_reply p")
    case None
    with snoc show ?thesis by (simp add: tp listen_append run_dhcp server_ips_snoc)
  next
    case (Some r)
    obtain u m where r: "r = (u, m)" by (cases r)
    have after: "listen dhcp_handle_packet (ps @ [tp]) [] = record_server t u m ?s"
      using Some r by (simp add: tp listen_append run_dhcp)
    have "length ?s \<le> length (record_server t u m ?s)"
      by (auto simp: record_server_eq length_update split: option.split)
    with snoc after have "length ?s < MAX_SERVERS" "dom (map_of ?s) = server_ips ps" by auto
    then show ?thesis
      using Some r after by (auto simp: tp record_server_eq server_ips_snoc split: option.splits)
  qed
qed

section \<open>Sorting strings\<close>

lemma str_le_refl [simp]: "str_le a a"
  by (induction a) auto

lemma str_le_total: "str_le a b \<or> str_le b a"
  by (induction a b rule: str_le.induct) auto

lemma str_le_trans: "str_le a b \<Longrightarrow> str_le b c \<Longrightarrow> str_le a c"
proof (induction a b arbitrary: c rule: str_le.induct)
  case (3 a as b bs)
  then show ?case by (cases c) auto
qed auto

lemma set_str_insert [simp]: "set (str_insert x ys) = insert x (set ys)"
  by (induction ys) auto

lemma length_str_insert [simp]: "length (str_insert x ys) = Suc (length ys)"
  by (induction ys) auto

lemma distinct_str_insert [simp]: "distinct (str_insert x ys) \<longleftrightarrow> x \<notin> set ys \<and> distinct ys"
  by (induction ys) auto

lemma sorted_str_insert: "sorted_wrt str_le ys \<Longrightarrow> sorted_wrt str_le (str_insert x ys)"
  using str_le_total by (induction ys) (auto intro: str_le_trans)

lemma str_sort_fold:
  "set (fold str_insert xs ys) = set xs \<union> set ys \<and>
   length (fold str_insert xs ys) = length xs + length ys \<and>
   (sorted_wrt str_le ys \<longrightarrow> sorted_wrt str_le (fold str_insert xs ys)) \<and>
   (distinct (xs @ ys) \<longrightarrow> distinct (fold str_insert xs ys))"
  by (induction xs arbitrary: ys) (auto simp: sorted_str_insert)

lemma str_sort [simp]:
  "set (str_sort xs) = set xs" "length (str_sort xs) = length xs" "sorted_wrt str_le (str_sort xs)"
  "distinct xs \<Longrightarrow> distinct (str_sort xs)"
  using str_sort_fold [of xs "[]"] by (simp_all add: str_sort_def)

section \<open>Properties\<close>

text \<open>Options.  A DHCP option field built from any sequence of options and pad bytes, closed by the
  end option and followed by anything, is read back as its options, the last one of a repeated code.\<close>

theorem dhcp_options_roundtrip:
  assumes "list_all dhcp_enc_ok opts"
  shows "\<exists>d. parse_dhcp_options (concat (map dhcp_enc opts) @ 0xFF # rest) = Inr d \<and>
    (\<forall>code. map_of d code = map_of (rev (List.map_filter id opts)) code)"
proof -
  let ?p = "concat (map dhcp_enc opts)"
  have "dhcp_options_loop (?p @ 0xFF # rest) (length ?p) d = Inr d" for d
    by (subst dhcp_options_loop.simps) (simp add: nth_append)
  with dhcp.loop_run [OF assms, of "[]" "0xFF # rest" "[]"]
  have "parse_dhcp_options (?p @ 0xFF # rest) = Inr (fold dhcp_app opts [])"
    by (simp add: parse_dhcp_options_def)
  moreover have "map_of (fold dhcp_app opts d) = map_of d ++ map_of (rev (List.map_filter id opts))" for d
  proof (induction opts arbitrary: d)
    case (Cons opt opts)
    then show ?case
      by (cases opt) (auto simp: dhcp_app_def map_filter_simps map_add_def fun_eq_iff split: option.splits)
  qed (simp add: map_filter_simps)
  ultimately show ?thesis by simp
qed

theorem dhcp_options_roundtrip_witness:
  "\<exists>d. parse_dhcp_options [53, 1, 2, 0, 54, 4, 10, 0, 0, 1, 0xFF, 7] = Inr d \<and>
    map_of d 53 = Some [2] \<and> map_of d 54 = Some [10, 0, 0, 1] \<and> map_of d 7 = None"
proof -
  let ?o = "[Some (53, [2]), None, Some (54, [10, 0, 0, 1])] :: (byte \<times> bytes) option list"
  have "list_all dhcp_enc_ok ?o" by (simp add: dhcp_enc_ok_def)
  from dhcp_options_roundtrip [OF this, of "[7]"] show ?thesis
    by (auto simp: dhcp_enc_def byte_of_def map_filter_simps)
qed

text \<open>A rogue server is noticed.  After any capture, \<open>multiple_servers_detected\<close> is true exactly when
  at least two distinct servers have sent an OFFER or an ACK.\<close>

theorem dhcp_rogue_detected:
  "w_multiple (get_servers (listen dhcp_handle_packet ps [])) \<longleftrightarrow> 2 \<le> card (server_ips ps)"
proof -
  let ?s = "listen dhcp_handle_packet ps []"
  have len: "length ?s = card (dom (map_of ?s))" by (rule wf_dict_length [OF wf_servers])
  also have "\<dots> \<le> card (server_ips ps)" by (intro card_mono dom_servers) simp
  finally have "length ?s \<le> card (server_ips ps)" .
  moreover have "length ?s = card (server_ips ps)" if "length ?s < MAX_SERVERS"
    using servers_until_full [OF that] len by simp
  ultimately have "1 < length ?s \<longleftrightarrow> 2 \<le> card (server_ips ps)"
    by (cases "length ?s < MAX_SERVERS") (auto simp: MAX_SERVERS_def)
  then show ?thesis by (simp add: get_servers_def Let_def)
qed





end
