(* ===== verification/Response_Times.thy ===== *)
theory Response_Times
  imports Py_Dict
begin

text \<open>
  The running response-time statistics that the Modbus traffic analyser and the register poller both
  keep: a sum and a count of times already rounded to a tenth of a millisecond, their minimum and
  maximum, and the average rounded again.  The invariant says that the three figures shown appear
  together and in order.
\<close>

definition times_fields_ok :: "nat \<Rightarrow> real \<Rightarrow> real option \<Rightarrow> real option \<Rightarrow> real option \<Rightarrow> bool" where
  "times_fields_ok n sum_ms mn_ms av_ms mx_ms \<longleftrightarrow>
     (case (mn_ms, av_ms, mx_ms) of
        (None, None, None) \<Rightarrow> n = 0 \<and> sum_ms = 0
      | (Some mn, Some av, Some mx) \<Rightarrow> 0 < n \<and> mn \<le> av \<and> av \<le> mx \<and>
          n * mn \<le> sum_ms \<and> sum_ms \<le> n * mx \<and> round1 mn = mn \<and> round1 mx = mx
      | _ \<Rightarrow> False)"

lemma times_fields_empty [simp]: "times_fields_ok 0 0 None None None"
  by (simp add: times_fields_ok_def)

lemma avg_bounds:
  fixes mn mx total :: real
  assumes "0 < n" and "real n * mn \<le> total" and "total \<le> real n * mx" and "round1 mn = mn" and "round1 mx = mx"
  shows "mn \<le> round1 (total / real n)" and "round1 (total / real n) \<le> mx"
proof -
  have "mn \<le> total / real n" "total / real n \<le> mx"
    using assms(1-3) by (simp_all add: pos_le_divide_eq pos_divide_le_eq mult.commute)
  then show "mn \<le> round1 (total / real n)" "round1 (total / real n) \<le> mx"
    using assms(4,5) round1_mono by metis+
qed

lemma sum_bounds:
  fixes mn mx total ms :: real
  assumes "real n * mn \<le> total" and "total \<le> real n * mx"
  shows "real (n + 1) * min mn ms \<le> total + ms" and "total + ms \<le> real (n + 1) * max mx ms"
proof -
  have "real n * min mn ms \<le> real n * mn" "real n * mx \<le> real n * max mx ms"
    by (intro mult_left_mono; simp)+
  with assms show "real (n + 1) * min mn ms \<le> total + ms" "total + ms \<le> real (n + 1) * max mx ms"
    by (auto simp: algebra_simps)
qed

lemma times_fields_add:
  assumes "times_fields_ok n sum_ms mn_ms av_ms mx_ms" and "round1 ms = ms"
  shows "times_fields_ok (Suc n) (sum_ms + ms)
    (Some (case mn_ms of None \<Rightarrow> ms | Some x \<Rightarrow> min x ms))
    (Some (round1 ((sum_ms + ms) / (1 + real n))))
    (Some (case mx_ms of None \<Rightarrow> ms | Some x \<Rightarrow> max x ms))"
proof (cases mn_ms)
  case None
  then have "n = 0" "sum_ms = 0" "mx_ms = None"
    using assms(1) by (auto simp: times_fields_ok_def split: option.splits)
  then show ?thesis
    using None assms(2) by (simp add: times_fields_ok_def)
next
  case (Some mn)
  then obtain av mx :: real where m: "av_ms = Some av" "mx_ms = Some mx"
    "n * mn \<le> sum_ms" "sum_ms \<le> n * mx" "round1 mn = mn" "round1 mx = mx"
    using assms(1) by (auto simp: times_fields_ok_def split: option.splits)
  have r: "round1 (min mn ms) = min mn ms" "round1 (max mx ms) = max mx ms"
    using m assms(2) by (auto simp: min_def max_def)
  from sum_bounds [OF m(3,4), of ms] avg_bounds [OF _ sum_bounds [OF m(3,4), of ms] r] r show ?thesis
    by (simp add: times_fields_ok_def Some m)
qed

text \<open>A share of a whole, as a rounded percentage.\<close>

lemma percent_bounds:
  assumes "b \<le> (a :: nat)" and "0 < a"
  shows "0 \<le> round1 (100 * (real a - real b) / real a)" and "round1 (100 * (real a - real b) / real a) \<le> 100"
proof -
  have "0 \<le> 100 * (real a - real b) / real a" "100 * (real a - real b) / real a \<le> 100"
    using assms by (simp_all add: pos_divide_le_eq)
  moreover have "round1 100 = 100"
    using round_even_of_int [of 1000] by (simp add: round1_def)
  ultimately show "0 \<le> round1 (100 * (real a - real b) / real a)"
    "round1 (100 * (real a - real b) / real a) \<le> 100"
    using round1_nonneg round1_mono by metis+
qed

end
