(* ===== verification/Modbus_Traffic.thy ===== *)
theory Modbus_Traffic
  imports Listener Response_Times
begin

text \<open>
  \<open>backend/capture/modbus_traffic.py\<close>: passive statistics of Modbus TCP conversations.  The state is
  the table of relationships and the table of requests still waiting for an answer.  Times are real
  numbers, so the milliseconds are the exact arithmetic the floats approximate.
\<close>

type_synonym rel_key = "pystr \<times> pystr \<times> nat \<times> nat"
type_synonym pending_key = "pystr \<times> pystr \<times> nat"

record relationship =
  q_requests :: nat
  q_responses :: nat
  q_exceptions :: nat
  q_missing :: nat
  q_last_seen :: "timestamp option"
  q_sum_ms :: real
  q_ms_count :: nat
  q_min_ms :: "real option"
  q_avg_ms :: "real option"
  q_max_ms :: "real option"

record pending_entry =
  p_sent_at :: timestamp
  p_unit_id :: nat
  p_function_code :: nat

record modbus_traffic =
  m_relationships :: "(rel_key, relationship) dict"
  m_pending :: "(pending_key, pending_entry) dict"

definition MODBUS_PORT :: nat where
  "MODBUS_PORT = 502"

definition PENDING_TIMEOUT_SECONDS :: real where
  "PENDING_TIMEOUT_SECONDS = 5"

definition MAX_RELATIONSHIPS :: nat where
  "MAX_RELATIONSHIPS = 200"

definition modbus_traffic0 :: modbus_traffic where
  "modbus_traffic0 = \<lparr>m_relationships = [], m_pending = []\<rparr>"

definition empty_relationship :: relationship where
  "empty_relationship =
     \<lparr>q_requests = 0, q_responses = 0, q_exceptions = 0, q_missing = 0, q_last_seen = None,
      q_sum_ms = 0, q_ms_count = 0, q_min_ms = None, q_avg_ms = None, q_max_ms = None\<rparr>"

record tcp_segment =
  t_src_ip :: pystr
  t_dst_ip :: pystr
  t_src_port :: nat
  t_dst_port :: nat
  t_payload :: bytes

definition parse_ipv4_tcp :: "bytes \<Rightarrow> exn + tcp_segment option" where
  "parse_ipv4_tcp packet =
     (if length packet < 14 + 20 then Inr None
      else rbind (unpack_H (py_slice packet 12 14)) (\<lambda>ethertype.
        if ethertype \<noteq> 0x0800 then Inr None
        else rbind (byte_at packet 14) (\<lambda>b14. rbind (byte_at packet 23) (\<lambda>proto.
          let ihl = (unat b14 mod 16) * 4 in
          if proto \<noteq> 6 then Inr None
          else if length packet < 14 + ihl + 20 then Inr None
          else let src_ip = ip_str (py_slice packet 26 30);
                   dst_ip = ip_str (py_slice packet 30 34);
                   tcp_offset = 14 + ihl
               in rbind (unpack_H (py_slice packet tcp_offset (tcp_offset + 2))) (\<lambda>src_port.
                  rbind (unpack_H (py_slice packet (tcp_offset + 2) (tcp_offset + 4))) (\<lambda>dst_port.
                  rbind (byte_at packet (tcp_offset + 12)) (\<lambda>b12.
                    let data_offset = (unat b12 div 16) * 4;
                        payload_offset = tcp_offset + data_offset
                    in if length packet < payload_offset then Inr None
                       else Inr (Some \<lparr>t_src_ip = src_ip, t_dst_ip = dst_ip, t_src_port = src_port,
                              t_dst_port = dst_port, t_payload = drop payload_offset packet\<rparr>))))))))"

record mbap_pdu =
  b_transaction_id :: nat
  b_unit_id :: nat
  b_function_code :: nat
  b_is_exception :: bool
  b_exception_code :: "nat option"

text \<open>\<open>payload[7:7 + (length - 1)]\<close>: for a length field of 0 the upper bound is 6, an empty slice.\<close>

definition parse_mbap_pdu :: "bytes \<Rightarrow> exn + mbap_pdu option" where
  "parse_mbap_pdu payload =
     (if length payload < 8 then Inr None
      else rbind (unpack_H (py_slice payload 0 2)) (\<lambda>transaction_id.
        rbind (unpack_H (py_slice payload 2 4)) (\<lambda>protocol_id.
        rbind (unpack_H (py_slice payload 4 6)) (\<lambda>len.
        rbind (byte_at payload 6) (\<lambda>unit_id.
          if protocol_id \<noteq> 0 then Inr None
          else let pdu = py_slice payload 7 (6 + len) in
            if length pdu < 1 then Inr None
            else rbind (byte_at pdu 0) (\<lambda>fc.
              let function_code = unat fc;
                  is_exception = (128 \<le> function_code)
              in Inr (Some \<lparr>b_transaction_id = transaction_id, b_unit_id = unat unit_id,
                     b_function_code = function_code mod 128, b_is_exception = is_exception,
                     b_exception_code = (if is_exception \<and> 1 < length pdu then Some (unat (pdu ! 1)) else None)\<rparr>)))))))"

text \<open>The body of the second loop of \<open>_prune_stale_pending\<close>, and the function.\<close>

definition count_missing :: "pending_key \<Rightarrow> modbus_traffic \<Rightarrow> modbus_traffic" where
  "count_missing key s =
     (case map_of (m_pending s) key of
        None \<Rightarrow> s
      | Some entry \<Rightarrow>
          let s1 = s\<lparr>m_pending := AList.delete key (m_pending s)\<rparr>;
              (client_ip, server_ip, _) = key;
              rel_key = (client_ip, server_ip, p_unit_id entry, p_function_code entry)
          in case map_of (m_relationships s1) rel_key of
               None \<Rightarrow> s1
             | Some rel \<Rightarrow> s1\<lparr>m_relationships :=
                 AList.update rel_key (rel\<lparr>q_missing := q_missing rel + 1\<rparr>) (m_relationships s1)\<rparr>)"

definition prune_stale_pending :: "timestamp \<Rightarrow> modbus_traffic \<Rightarrow> modbus_traffic" where
  "prune_stale_pending now s =
     (let stale_keys = [key. (key, entry) \<leftarrow> m_pending s, now - p_sent_at entry > PENDING_TIMEOUT_SECONDS]
      in fold count_missing stale_keys s)"

definition record_request :: "timestamp \<Rightarrow> tcp_segment \<Rightarrow> mbap_pdu \<Rightarrow> modbus_traffic \<Rightarrow> modbus_traffic" where
  "record_request now seg m s =
     (let client_ip = t_src_ip seg; server_ip = t_dst_ip seg;
          rel_key = (client_ip, server_ip, b_unit_id m, b_function_code m);
          put = (\<lambda>rel. s\<lparr>m_relationships := AList.update rel_key
                   (rel\<lparr>q_requests := q_requests rel + 1, q_last_seen := Some now\<rparr>) (m_relationships s),
                 m_pending := AList.update (client_ip, server_ip, b_transaction_id m)
                   \<lparr>p_sent_at = now, p_unit_id = b_unit_id m, p_function_code = b_function_code m\<rparr>
                   (m_pending s)\<rparr>)
      in case map_of (m_relationships s) rel_key of
           None \<Rightarrow> if MAX_RELATIONSHIPS \<le> length (m_relationships s) then s else put empty_relationship
         | Some rel \<Rightarrow> put rel)"

definition add_response_time :: "real \<Rightarrow> relationship \<Rightarrow> relationship" where
  "add_response_time response_ms rel =
     (let sum_ms = q_sum_ms rel + response_ms; ms_count = q_ms_count rel + 1 in
      rel\<lparr>q_sum_ms := sum_ms, q_ms_count := ms_count,
          q_min_ms := Some (case q_min_ms rel of None \<Rightarrow> response_ms | Some x \<Rightarrow> min x response_ms),
          q_max_ms := Some (case q_max_ms rel of None \<Rightarrow> response_ms | Some x \<Rightarrow> max x response_ms),
          q_avg_ms := Some (round1 (sum_ms / ms_count))\<rparr>)"

definition record_response :: "timestamp \<Rightarrow> tcp_segment \<Rightarrow> mbap_pdu \<Rightarrow> modbus_traffic \<Rightarrow> modbus_traffic" where
  "record_response now seg m s =
     (let server_ip = t_src_ip seg; client_ip = t_dst_ip seg;
          key = (client_ip, server_ip, b_transaction_id m);
          pending_entry = map_of (m_pending s) key;
          s1 = s\<lparr>m_pending := AList.delete key (m_pending s)\<rparr>;
          rel_key = (client_ip, server_ip, b_unit_id m, b_function_code m)
      in case map_of (m_relationships s1) rel_key of
           None \<Rightarrow> s1
         | Some rel \<Rightarrow>
             let rel1 = rel\<lparr>q_responses := q_responses rel + 1, q_last_seen := Some now,
                   q_exceptions := q_exceptions rel + (if b_is_exception m then 1 else 0)\<rparr>;
                 rel2 = (case pending_entry of None \<Rightarrow> rel1
                   | Some e \<Rightarrow> add_response_time (round1 ((now - p_sent_at e) * 1000)) rel1)
             in s1\<lparr>m_relationships := AList.update rel_key rel2 (m_relationships s1)\<rparr>)"

definition modbus_handle_packet :: "modbus_traffic handler" where
  "modbus_handle_packet now packet s =
     rbind (parse_ipv4_tcp packet) (\<lambda>parsed.
       case parsed of
         None \<Rightarrow> Inr s
       | Some seg \<Rightarrow>
           if t_src_port seg \<noteq> MODBUS_PORT \<and> t_dst_port seg \<noteq> MODBUS_PORT then Inr s
           else rbind (parse_mbap_pdu (t_payload seg)) (\<lambda>mbap.
             case mbap of
               None \<Rightarrow> Inr s
             | Some m \<Rightarrow>
                 let s1 = prune_stale_pending now s in
                 Inr (if t_dst_port seg = MODBUS_PORT then record_request now seg m s1
                      else record_response now seg m s1)))"

text \<open>\<open>get_stats\<close>: the relationships, the busiest first (without the two internal accumulators).\<close>

definition modbus_get_stats :: "timestamp \<Rightarrow> modbus_traffic \<Rightarrow> modbus_traffic \<times> (rel_key \<times> relationship) list" where
  "modbus_get_stats now s =
     (let s1 = prune_stale_pending now s
      in (s1, sort_desc (\<lambda>(k, rel). int (q_requests rel)) (m_relationships s1)))"

definition modbus_traffic_reset :: "modbus_traffic \<Rightarrow> modbus_traffic" where
  "modbus_traffic_reset s = s\<lparr>m_relationships := [], m_pending := []\<rparr>"

section \<open>No frame raises\<close>

lemma parse_ipv4_tcp_returns: "returns (parse_ipv4_tcp packet)"
  unfolding parse_ipv4_tcp_def
  by (intro returns_intros returns_reads returns_simps) auto

lemma parse_mbap_pdu_returns: "returns (parse_mbap_pdu payload)"
  unfolding parse_mbap_pdu_def
  by (intro returns_intros returns_reads returns_simps) auto

section \<open>The invariant\<close>

definition times_ok :: "relationship \<Rightarrow> bool" where
  "times_ok rel \<longleftrightarrow>
     times_fields_ok (q_ms_count rel) (q_sum_ms rel) (q_min_ms rel) (q_avg_ms rel) (q_max_ms rel)"

definition rel_ok :: "relationship \<Rightarrow> bool" where
  "rel_ok rel \<longleftrightarrow> q_exceptions rel \<le> q_responses rel \<and> q_ms_count rel \<le> q_responses rel \<and> times_ok rel"

definition rel_of_pending :: "pending_key \<Rightarrow> pending_entry \<Rightarrow> rel_key" where
  "rel_of_pending key e = (fst key, fst (snd key), p_unit_id e, p_function_code e)"

definition rels_ok :: "(rel_key, relationship) dict \<Rightarrow> bool" where
  "rels_ok d \<longleftrightarrow> (\<forall>k rel. map_of d k = Some rel \<longrightarrow> rel_ok rel)"

definition pending_known :: "(rel_key, relationship) dict \<Rightarrow> (pending_key, pending_entry) dict \<Rightarrow> bool" where
  "pending_known d p \<longleftrightarrow> (\<forall>key e. map_of p key = Some e \<longrightarrow> map_of d (rel_of_pending key e) \<noteq> None)"

lemma rels_okD: "rels_ok d \<Longrightarrow> map_of d k = Some rel \<Longrightarrow> rel_ok rel"
  unfolding rels_ok_def by blast

lemma rels_ok_update [wf_intros]: "rels_ok d \<Longrightarrow> rel_ok rel \<Longrightarrow> rels_ok (AList.update k rel d)"
  unfolding rels_ok_def map_of_update by (metis fun_upd_apply option.inject)

lemma pending_knownD:
  "pending_known d p \<Longrightarrow> map_of p key = Some e \<Longrightarrow> \<exists>rel. map_of d (rel_of_pending key e) = Some rel"
  unfolding pending_known_def by blast

lemma pending_known_update [wf_intros]: "pending_known d p \<Longrightarrow> pending_known (AList.update k rel d) p"
  unfolding pending_known_def map_of_update by (metis fun_upd_apply option.distinct(1))

lemma pending_known_delete [wf_intros]: "pending_known d p \<Longrightarrow> pending_known d (AList.delete key p)"
  unfolding pending_known_def map_of_delete by (metis fun_upd_apply option.distinct(1))

lemma pending_known_add [wf_intros]:
  "pending_known d p \<Longrightarrow> map_of d (rel_of_pending key e) \<noteq> None \<Longrightarrow> pending_known d (AList.update key e p)"
  unfolding pending_known_def map_of_update by (metis fun_upd_apply option.inject)

definition modbus_traffic_ok :: "modbus_traffic \<Rightarrow> bool" where
  "modbus_traffic_ok s \<longleftrightarrow>
     wf_dict (m_relationships s) \<and> length (m_relationships s) \<le> MAX_RELATIONSHIPS \<and> wf_dict (m_pending s) \<and>
     rels_ok (m_relationships s) \<and> pending_known (m_relationships s) (m_pending s) \<and>
     total q_missing (m_relationships s) + total q_ms_count (m_relationships s) + length (m_pending s)
       \<le> total q_requests (m_relationships s)"

lemma modbus_traffic_ok_0 [simp]: "modbus_traffic_ok modbus_traffic0"
  by (simp add: modbus_traffic_ok_def modbus_traffic0_def rels_ok_def pending_known_def)

lemma rel_ok_empty: "rel_ok empty_relationship"
  by (simp add: rel_ok_def times_ok_def times_fields_ok_def empty_relationship_def)

lemma add_response_time_fields [simp]:
  "q_requests (add_response_time ms rel) = q_requests rel"
  "q_responses (add_response_time ms rel) = q_responses rel"
  "q_exceptions (add_response_time ms rel) = q_exceptions rel"
  "q_missing (add_response_time ms rel) = q_missing rel"
  "q_ms_count (add_response_time ms rel) = q_ms_count rel + 1"
  by (simp_all add: add_response_time_def Let_def)

lemma times_ok_add: "times_ok rel \<Longrightarrow> round1 ms = ms \<Longrightarrow> times_ok (add_response_time ms rel)"
  using times_fields_add [of "q_ms_count rel" "q_sum_ms rel" "q_min_ms rel" "q_avg_ms rel" "q_max_ms rel" ms]
  by (simp add: times_ok_def add_response_time_def Let_def)

lemma rel_ok_record:
  assumes "rel_ok rel"
  shows "rel_ok (rel\<lparr>q_requests := a, q_last_seen := b\<rparr>)" and "rel_ok (rel\<lparr>q_missing := c\<rparr>)"
  using assms by (simp_all add: rel_ok_def times_ok_def)

text \<open>Replacing one relationship by another.\<close>

lemma ok_update:
  assumes "modbus_traffic_ok s" and "map_of (m_relationships s) k = Some rel" and "rel_ok rel'"
    and "wf_dict p"
    and "pending_known (AList.update k rel' (m_relationships s)) p"
    and "q_missing rel' + q_ms_count rel' + length p + q_requests rel
       \<le> q_missing rel + q_ms_count rel + length (m_pending s) + q_requests rel'"
  shows "modbus_traffic_ok (s\<lparr>m_relationships := AList.update k rel' (m_relationships s), m_pending := p\<rparr>)"
proof -
  let ?r = "m_relationships s" and ?r' = "AList.update k rel' (m_relationships s)"
  have t: "total f ?r' + f rel = total f ?r + f rel'" for f
    using assms(2) by (rule total_update_old)
  have "total q_missing ?r + total q_ms_count ?r + length (m_pending s) \<le> total q_requests ?r"
    using assms(1) by (simp add: modbus_traffic_ok_def)
  then have "total q_missing ?r' + total q_ms_count ?r' + length p \<le> total q_requests ?r'"
    using t [of q_missing] t [of q_ms_count] t [of q_requests] assms(6) by linarith
  moreover have "length ?r' = length ?r" using assms(2) by (simp add: length_update)
  ultimately show ?thesis
    using assms(1,3,4,5) by (simp add: modbus_traffic_ok_def wf_intros)
qed

lemma ok_drop_pending:
  "modbus_traffic_ok s \<Longrightarrow> modbus_traffic_ok (s\<lparr>m_pending := AList.delete key (m_pending s)\<rparr>)"
  using diff_le_self [of "length (m_pending s)" 1]
  by (simp add: modbus_traffic_ok_def wf_intros length_delete) linarith

lemma length_delete_Suc:
  assumes "wf_dict d" and "map_of d k = Some v"
  shows "Suc (length (AList.delete k d)) = length d"
  using assms by (cases "length d") (auto simp: length_delete)

lemma ok_count_missing: "modbus_traffic_ok s \<Longrightarrow> modbus_traffic_ok (count_missing key s)"
proof (cases "map_of (m_pending s) key")
  case None
  then show "modbus_traffic_ok s \<Longrightarrow> modbus_traffic_ok (count_missing key s)"
    by (simp add: count_missing_def)
next
  case (Some e)
  assume ok: "modbus_traffic_ok s"
  then obtain rel where rel: "map_of (m_relationships s) (rel_of_pending key e) = Some rel"
    using Some pending_knownD unfolding modbus_traffic_ok_def by blast
  have ro: "rel_ok rel" and wf: "wf_dict (m_pending s)"
    and pk: "pending_known (m_relationships s) (m_pending s)"
    using ok rel rels_okD unfolding modbus_traffic_ok_def by blast+
  have eq: "count_missing key s = s\<lparr>m_relationships := AList.update (rel_of_pending key e)
      (rel\<lparr>q_missing := q_missing rel + 1\<rparr>) (m_relationships s), m_pending := AList.delete key (m_pending s)\<rparr>"
    using Some rel by (cases key) (simp add: count_missing_def rel_of_pending_def Let_def)
  show ?thesis
    unfolding eq using ok rel rel_ok_record(2) [OF ro]
    by (rule ok_update) (use wf pk length_delete_Suc [OF wf Some] in \<open>simp_all add: wf_intros\<close>)
qed

lemma ok_prune_stale [wf_intros]: "modbus_traffic_ok s \<Longrightarrow> modbus_traffic_ok (prune_stale_pending now s)"
proof -
  have "modbus_traffic_ok s \<Longrightarrow> modbus_traffic_ok (fold count_missing ks s)" for ks and s
    by (induction ks arbitrary: s) (simp_all add: ok_count_missing)
  then show "modbus_traffic_ok s \<Longrightarrow> modbus_traffic_ok (prune_stale_pending now s)"
    by (simp add: prune_stale_pending_def Let_def)
qed

lemma ok_new_relationship:
  assumes "modbus_traffic_ok s" and "map_of (m_relationships s) k = None"
    and "length (m_relationships s) < MAX_RELATIONSHIPS"
  shows "modbus_traffic_ok (s\<lparr>m_relationships := AList.update k empty_relationship (m_relationships s)\<rparr>)"
  using assms rel_ok_empty
  by (simp add: modbus_traffic_ok_def wf_intros length_update total_update_new)
    (simp add: empty_relationship_def)

lemma ok_existing_request:
  assumes "modbus_traffic_ok s" and "map_of (m_relationships s) k = Some rel"
    and "rel_of_pending key e = k"
  shows "modbus_traffic_ok (s\<lparr>m_relationships := AList.update k
      (rel\<lparr>q_requests := q_requests rel + 1, q_last_seen := Some now\<rparr>) (m_relationships s),
    m_pending := AList.update key e (m_pending s)\<rparr>)"
proof -
  have "rel_ok rel" "wf_dict (m_pending s)" "pending_known (m_relationships s) (m_pending s)"
    using assms(1,2) rels_okD unfolding modbus_traffic_ok_def by blast+
  then show ?thesis
    using assms(3) by (intro ok_update [OF assms(1,2)] rel_ok_record)
      (simp_all add: wf_intros length_update)
qed

lemma update_update: "AList.update k v (AList.update k v' d) = AList.update k v d"
  by (induction d) auto

lemma ok_record_request [wf_intros]:
  assumes "modbus_traffic_ok s"
  shows "modbus_traffic_ok (record_request now seg m s)"
proof -
  let ?k = "(t_src_ip seg, t_dst_ip seg, b_unit_id m, b_function_code m)"
  let ?key = "(t_src_ip seg, t_dst_ip seg, b_transaction_id m)"
  let ?e = "\<lparr>p_sent_at = now, p_unit_id = b_unit_id m, p_function_code = b_function_code m\<rparr>"
  have key: "rel_of_pending ?key ?e = ?k" by (simp add: rel_of_pending_def)
  show ?thesis
  proof (cases "map_of (m_relationships s) ?k")
    case (Some rel)
    with ok_existing_request [OF assms Some key] show ?thesis
      by (simp add: record_request_def Let_def)
  next
    case None
    show ?thesis
    proof (cases "MAX_RELATIONSHIPS \<le> length (m_relationships s)")
      case True
      with None assms show ?thesis by (simp add: record_request_def Let_def)
    next
      case False
      let ?s = "s\<lparr>m_relationships := AList.update ?k empty_relationship (m_relationships s)\<rparr>"
      have "modbus_traffic_ok ?s" using assms None False by (intro ok_new_relationship) auto
      from ok_existing_request [OF this _ key, of empty_relationship now] None False show ?thesis
        by (simp add: record_request_def Let_def update_update)
    qed
  qed
qed

lemma ok_record_response [wf_intros]:
  assumes "modbus_traffic_ok s"
  shows "modbus_traffic_ok (record_response now seg m s)"
proof -
  let ?k = "(t_dst_ip seg, t_src_ip seg, b_unit_id m, b_function_code m)"
  let ?key = "(t_dst_ip seg, t_src_ip seg, b_transaction_id m)"
  have wf: "wf_dict (m_pending s)" and pk: "pending_known (m_relationships s) (m_pending s)"
    using assms by (simp_all add: modbus_traffic_ok_def)
  show ?thesis
  proof (cases "map_of (m_relationships s) ?k")
    case None
    with ok_drop_pending [OF assms, of ?key] show ?thesis
      by (simp add: record_response_def Let_def)
  next
    case (Some rel)
    then have ro: "rel_ok rel" using assms rels_okD unfolding modbus_traffic_ok_def by blast
    let ?r1 = "rel\<lparr>q_responses := q_responses rel + 1, q_last_seen := Some now,
                   q_exceptions := q_exceptions rel + (if b_is_exception m then 1 else 0)\<rparr>"
    have t1: "times_ok ?r1" using ro by (simp add: rel_ok_def times_ok_def)
    show ?thesis
    proof (cases "map_of (m_pending s) ?key")
      case none: None
      have "rel_ok ?r1" using ro t1 by (simp add: rel_ok_def)
      moreover have "record_response now seg m s = s\<lparr>m_relationships :=
          AList.update ?k ?r1 (m_relationships s), m_pending := AList.delete ?key (m_pending s)\<rparr>"
        using none Some by (simp only: record_response_def Let_def) simp
      ultimately show ?thesis
        using ok_update [OF assms Some, of ?r1 "AList.delete ?key (m_pending s)"] wf pk none
        by (simp add: wf_intros length_delete)
    next
      case some: (Some e)
      let ?r2 = "add_response_time (round1 ((now - p_sent_at e) * 1000)) ?r1"
      have "rel_ok ?r2"
        using ro times_ok_add [OF t1, of "round1 ((now - p_sent_at e) * 1000)"]
        by (simp add: rel_ok_def)
      moreover have "record_response now seg m s = s\<lparr>m_relationships :=
          AList.update ?k ?r2 (m_relationships s), m_pending := AList.delete ?key (m_pending s)\<rparr>"
        using some Some by (simp only: record_response_def Let_def) simp
      ultimately show ?thesis
        using ok_update [OF assms Some, of ?r2 "AList.delete ?key (m_pending s)"] wf pk
          length_delete_Suc [OF wf some]
        by (simp add: wf_intros)
    qed
  qed
qed

text \<open>The Modbus message of a frame, if it carries one.\<close>

definition modbus_frame :: "bytes \<Rightarrow> (tcp_segment \<times> mbap_pdu) option" where
  "modbus_frame p =
     (case parse_ipv4_tcp p of
        Inr (Some seg) \<Rightarrow>
          if t_src_port seg = MODBUS_PORT \<or> t_dst_port seg = MODBUS_PORT
          then (case parse_mbap_pdu (t_payload seg) of Inr (Some m) \<Rightarrow> Some (seg, m) | _ \<Rightarrow> None)
          else None
      | _ \<Rightarrow> None)"

lemma modbus_handle_eq:
  "modbus_handle_packet now p s =
    Inr (case modbus_frame p of None \<Rightarrow> s
      | Some (seg, m) \<Rightarrow>
          if t_dst_port seg = MODBUS_PORT then record_request now seg m (prune_stale_pending now s)
          else record_response now seg m (prune_stale_pending now s))"
proof -
  obtain x where x: "parse_ipv4_tcp p = Inr x"
    using parse_ipv4_tcp_returns by (auto simp: returns_iff)
  show ?thesis
  proof (cases x)
    case None
    with x show ?thesis by (simp add: modbus_handle_packet_def modbus_frame_def)
  next
    case (Some seg)
    obtain y where y: "parse_mbap_pdu (t_payload seg) = Inr y"
      using parse_mbap_pdu_returns by (auto simp: returns_iff)
    with x Some show ?thesis
      by (cases y) (simp_all add: modbus_handle_packet_def modbus_frame_def Let_def)
  qed
qed

interpretation modbus_traffic: listener modbus_handle_packet modbus_traffic_ok
proof
  fix s s' t p
  assume "modbus_traffic_ok s" "modbus_handle_packet t p s = Inr s'"
  then show "modbus_traffic_ok s'"
    by (auto simp: modbus_handle_eq wf_intros split: option.splits if_splits)
qed

section \<open>Properties\<close>

text \<open>C11: the books balance after any capture.  For every relationship reported by \<open>get_stats\<close>,
  exceptions and timed answers are among its responses, the minimum, average and maximum response
  times appear together and in this order (the average is of rounded times and itself rounded), at
  most 200 relationships are kept, and over the table no request is counted twice: those reported
  missing and those answered in time together never exceed the requests.\<close>

theorem modbus_stats_balance:
  "let report = snd (modbus_get_stats now (listen modbus_handle_packet ps modbus_traffic0)) in
     length report \<le> 200 \<and>
     list_all (\<lambda>(k, rel). q_exceptions rel \<le> q_responses rel \<and> q_ms_count rel \<le> q_responses rel \<and>
       (case (q_min_ms rel, q_avg_ms rel, q_max_ms rel) of
          (None, None, None) \<Rightarrow> q_ms_count rel = 0
        | (Some mn, Some av, Some mx) \<Rightarrow> mn \<le> av \<and> av \<le> mx
        | _ \<Rightarrow> False)) report \<and>
     sum_list (map (q_missing \<circ> snd) report) + sum_list (map (q_ms_count \<circ> snd) report)
       \<le> sum_list (map (q_requests \<circ> snd) report)"
proof -
  let ?s = "prune_stale_pending now (listen modbus_handle_packet ps modbus_traffic0)"
  let ?d = "m_relationships ?s"
  define report where "report = sort_desc (\<lambda>(k, rel). int (q_requests rel)) ?d"
  have ok: "modbus_traffic_ok ?s"
    by (intro ok_prune_stale modbus_traffic.listen_inv) simp
  have m: "mset report = mset ?d" by (simp add: report_def)
  have st: "set report = set ?d" by (simp add: report_def)
  have len: "length report = length ?d" by (simp add: report_def)
  have sums: "sum_list (map (f \<circ> snd) report) = total f ?d" for f
  proof -
    have "mset (map (f \<circ> snd) report) = mset (map (f \<circ> snd) ?d)" using m by simp
    then have "sum_list (map (f \<circ> snd) report) = sum_list (map (f \<circ> snd) ?d)"
      by (metis sum_mset_sum_list)
    then show ?thesis by (simp add: total_def comp_def split_def)
  qed
  have rel: "q_exceptions rel \<le> q_responses rel \<and> q_ms_count rel \<le> q_responses rel \<and>
      (case (q_min_ms rel, q_avg_ms rel, q_max_ms rel) of
         (None, None, None) \<Rightarrow> q_ms_count rel = 0
       | (Some mn, Some av, Some mx) \<Rightarrow> mn \<le> av \<and> av \<le> mx
       | _ \<Rightarrow> False)" if "(k, rel) \<in> set report" for k rel
  proof -
    have "wf_dict ?d" "rels_ok ?d" using ok by (simp_all add: modbus_traffic_ok_def)
    with that st have "rel_ok rel" using rels_okD [of ?d k rel] by (simp add: map_of_in_set)
    then show ?thesis
      by (simp add: rel_ok_def times_ok_def times_fields_ok_def split: option.splits)
  qed
  have "length report \<le> 200" using ok len by (simp add: modbus_traffic_ok_def MAX_RELATIONSHIPS_def)
  moreover have "total q_missing ?d + total q_ms_count ?d \<le> total q_requests ?d"
    using ok by (simp add: modbus_traffic_ok_def)
  ultimately show ?thesis
    unfolding modbus_get_stats_def Let_def snd_conv report_def [symmetric] sums
    using rel by (auto simp: list_all_iff)
qed

lemma prune_nothing:
  "\<forall>(key, e) \<in> set (m_pending s). now - p_sent_at e \<le> 5 \<Longrightarrow> prune_stale_pending now s = s"
proof -
  assume fresh: "\<forall>(key, e) \<in> set (m_pending s). now - p_sent_at e \<le> 5"
  then have "[key. (key, entry) \<leftarrow> m_pending s, now - p_sent_at entry > PENDING_TIMEOUT_SECONDS] = []"
    by (auto simp: PENDING_TIMEOUT_SECONDS_def)
  then show ?thesis by (simp only: prune_stale_pending_def Let_def fold_simps id_apply)
qed

text \<open>One exchange, in time or late.  A request and the answer with its transaction id, seen
  \<open>t1 - t0\<close> seconds apart on an otherwise idle tracker, give one relationship with one request and
  one response; up to five seconds the answer is timed, later the request has already been counted
  missing and the answer is counted without a time.\<close>

theorem modbus_exchange:
  assumes "modbus_frame request = Some (seg, m)" and "modbus_frame response = Some (seg', m')"
    and "t_dst_port seg = 502" and "t_dst_port seg' \<noteq> 502"
    and "t_src_ip seg' = t_dst_ip seg" and "t_dst_ip seg' = t_src_ip seg"
    and "b_transaction_id m' = b_transaction_id m" and "b_unit_id m' = b_unit_id m"
    and "b_function_code m' = b_function_code m"
  shows "let ms = round1 ((t1 - t0) * 1000); timely = t1 - t0 \<le> 5 in
    m_relationships (listen modbus_handle_packet [(t0, request), (t1, response)] modbus_traffic0) =
      [((t_src_ip seg, t_dst_ip seg, b_unit_id m, b_function_code m),
        \<lparr>q_requests = 1, q_responses = 1, q_exceptions = (if b_is_exception m' then 1 else 0),
         q_missing = (if timely then 0 else 1), q_last_seen = Some t1,
         q_sum_ms = (if timely then ms else 0), q_ms_count = (if timely then 1 else 0),
         q_min_ms = (if timely then Some ms else None), q_avg_ms = (if timely then Some ms else None),
         q_max_ms = (if timely then Some ms else None)\<rparr>)]"
proof -
  let ?k = "(t_src_ip seg, t_dst_ip seg, b_unit_id m, b_function_code m)"
  let ?key = "(t_src_ip seg, t_dst_ip seg, b_transaction_id m)"
  let ?e = "\<lparr>p_sent_at = t0, p_unit_id = b_unit_id m, p_function_code = b_function_code m\<rparr>"
  let ?s1 = "\<lparr>m_relationships = [(?k, empty_relationship\<lparr>q_requests := 1, q_last_seen := Some t0\<rparr>)],
              m_pending = [(?key, ?e)]\<rparr>"
  have "prune_stale_pending t0 modbus_traffic0 = modbus_traffic0"
    by (rule prune_nothing) (simp add: modbus_traffic0_def)
  then have s1: "run_handler modbus_handle_packet (t0, request) modbus_traffic0 = ?s1"
    using assms by (simp add: run_handler_def modbus_handle_eq record_request_def MODBUS_PORT_def
        Let_def modbus_traffic0_def MAX_RELATIONSHIPS_def empty_relationship_def)
  have run: "run_handler modbus_handle_packet (t1, response) ?s1 =
      record_response t1 seg' m' (prune_stale_pending t1 ?s1)"
    using assms by (simp add: run_handler_def modbus_handle_eq MODBUS_PORT_def)
  show ?thesis
  proof (cases "t1 - t0 \<le> 5")
    case True
    then have "prune_stale_pending t1 ?s1 = ?s1" by (intro prune_nothing) simp
    with True run show ?thesis
      using assms by (simp add: s1 record_response_def Let_def empty_relationship_def
          add_response_time_def)
  next
    case False
    then have "prune_stale_pending t1 ?s1 = \<lparr>m_relationships =
        [(?k, empty_relationship\<lparr>q_requests := 1, q_last_seen := Some t0, q_missing := 1\<rparr>)], m_pending = []\<rparr>"
      by (simp add: prune_stale_pending_def PENDING_TIMEOUT_SECONDS_def count_missing_def Let_def
          empty_relationship_def)
    with False run show ?thesis
      using assms by (simp add: s1 record_response_def Let_def empty_relationship_def)
  qed
qed

definition modbus_tcp_frame :: "bytes \<Rightarrow> bytes \<Rightarrow> bytes \<Rightarrow> bytes" where
  "modbus_tcp_frame ips ports payload =
     [0, 0, 0, 0, 0, 0, 0, 0, 0, 0, 0, 0, 0x08, 0x00, 0x45, 0, 0, 0, 0, 0, 0, 0, 0, 6, 0, 0] @ ips @ ports @
     [0, 0, 0, 0, 0, 0, 0, 0, 0x50, 0, 0, 0, 0, 0, 0, 0] @ payload"

lemma parse_modbus_tcp_frame:
  "parse_ipv4_tcp (modbus_tcp_frame [a0, a1, a2, a3, b0, b1, b2, b3] [s0, s1, d0, d1] payload) =
    Inr (Some \<lparr>t_src_ip = ip_str [a0, a1, a2, a3], t_dst_ip = ip_str [b0, b1, b2, b3],
      t_src_port = 256 * unat s0 + unat s1, t_dst_port = 256 * unat d0 + unat d1, t_payload = payload\<rparr>)"
  by (simp add: parse_ipv4_tcp_def modbus_tcp_frame_def Let_def py_slice_def)

theorem modbus_exchange_witness:
  "m_relationships (listen modbus_handle_packet
     [(0, modbus_tcp_frame [10, 0, 0, 2, 10, 0, 0, 9] [0xC0, 0x00, 0x01, 0xF6] [0, 7, 0, 0, 0, 6, 1, 3, 0, 0, 0, 1]),
      (7, modbus_tcp_frame [10, 0, 0, 9, 10, 0, 0, 2] [0x01, 0xF6, 0xC0, 0x00] [0, 7, 0, 0, 0, 3, 1, 0x83, 2])]
     modbus_traffic0) =
   [((ip_str [10, 0, 0, 2], ip_str [10, 0, 0, 9], 1, 3),
     \<lparr>q_requests = 1, q_responses = 1, q_exceptions = 1, q_missing = 1, q_last_seen = Some 7, q_sum_ms = 0,
      q_ms_count = 0, q_min_ms = None, q_avg_ms = None, q_max_ms = None\<rparr>)]"
proof -
  let ?f = "modbus_tcp_frame [10, 0, 0, 2, 10, 0, 0, 9] [0xC0, 0x00, 0x01, 0xF6] [0, 7, 0, 0, 0, 6, 1, 3, 0, 0, 0, 1]"
  let ?g = "modbus_tcp_frame [10, 0, 0, 9, 10, 0, 0, 2] [0x01, 0xF6, 0xC0, 0x00] [0, 7, 0, 0, 0, 3, 1, 0x83, 2]"
  have f: "modbus_frame ?f = Some (\<lparr>t_src_ip = ip_str [10, 0, 0, 2], t_dst_ip = ip_str [10, 0, 0, 9],
        t_src_port = 49152, t_dst_port = 502, t_payload = [0, 7, 0, 0, 0, 6, 1, 3, 0, 0, 0, 1]\<rparr>,
      \<lparr>b_transaction_id = 7, b_unit_id = 1, b_function_code = 3, b_is_exception = False,
       b_exception_code = None\<rparr>)"
    by (simp add: modbus_frame_def parse_modbus_tcp_frame parse_mbap_pdu_def MODBUS_PORT_def Let_def
        py_slice_def)
  have g: "modbus_frame ?g = Some (\<lparr>t_src_ip = ip_str [10, 0, 0, 9], t_dst_ip = ip_str [10, 0, 0, 2],
        t_src_port = 502, t_dst_port = 49152, t_payload = [0, 7, 0, 0, 0, 3, 1, 0x83, 2]\<rparr>,
      \<lparr>b_transaction_id = 7, b_unit_id = 1, b_function_code = 3, b_is_exception = True,
       b_exception_code = Some 2\<rparr>)"
    by (simp add: modbus_frame_def parse_modbus_tcp_frame parse_mbap_pdu_def MODBUS_PORT_def Let_def
        py_slice_def)
  from modbus_exchange [OF f g, of 7 0] show ?thesis by (simp add: Let_def)
qed

end
