(* ===== verification/Traffic_Stats.thy ===== *)
theory Traffic_Stats
  imports Listener
begin

text \<open>
  \<open>backend/capture/traffic_stats.py\<close>: frame classification, totals, the rolling five-second window
  and the table of talkers.  The dict of protocol counts has a fixed set of keys, so it is a function
  on the type of protocols.  The interface's own MAC is read once from sysfs: the file's content is a
  parameter, the cache is part of the state.
\<close>

datatype protocol = Arp | Ipv4 | Ipv6 | Dhcp | Lldp | Cdp | Mdns | Ssdp | Profinet | S7

type_synonym protocol_counts = "protocol \<Rightarrow> nat"

definition empty_protocol_counts :: protocol_counts where
  "empty_protocol_counts = (\<lambda>_. 0)"

definition RATE_WINDOW_SECONDS :: real where
  "RATE_WINDOW_SECONDS = 5"

definition MAX_TALKERS :: nat where
  "MAX_TALKERS = 500"

definition BROADCAST_MAC :: bytes where
  "BROADCAST_MAC = [0xFF, 0xFF, 0xFF, 0xFF, 0xFF, 0xFF]"

definition TS_CDP_DEST_MAC :: bytes where
  "TS_CDP_DEST_MAC = [0x01, 0x00, 0x0C, 0xCC, 0xCC, 0xCC]"

definition S7_PORT :: nat where
  "S7_PORT = 102"

record traffic_totals =
  s_started_at :: timestamp
  s_packets :: nat
  s_bytes :: nat
  s_broadcast :: nat
  s_multicast :: nat
  s_unicast :: nat
  s_protocols :: protocol_counts

record talker =
  k_ip :: "pystr option"
  k_packets :: nat
  k_bytes :: nat
  k_broadcast :: nat
  k_multicast :: nat
  k_protocols :: protocol_counts

record traffic =
  x_stats :: traffic_totals
  x_talkers :: "(pystr, talker) dict"
  x_recent_packets :: "(timestamp \<times> pystr \<times> nat) list"
  x_self_mac_cache :: "pystr option"
  x_self_mac_checked :: bool

definition empty_stats :: "timestamp \<Rightarrow> traffic_totals" where
  "empty_stats now = \<lparr>s_started_at = now, s_packets = 0, s_bytes = 0, s_broadcast = 0, s_multicast = 0,
     s_unicast = 0, s_protocols = empty_protocol_counts\<rparr>"

definition empty_talker :: talker where
  "empty_talker = \<lparr>k_ip = None, k_packets = 0, k_bytes = 0, k_broadcast = 0, k_multicast = 0,
     k_protocols = empty_protocol_counts\<rparr>"

definition traffic0 :: "timestamp \<Rightarrow> traffic" where
  "traffic0 now = \<lparr>x_stats = empty_stats now, x_talkers = [], x_recent_packets = [],
     x_self_mac_cache = None, x_self_mac_checked = False\<rparr>"

text \<open>\<open>_self_mac\<close>: \<open>addr_file\<close> is what reading \<open>/sys/class/net/eth0/address\<close> gives, \<open>None\<close> when it raises
  \<open>OSError\<close>.\<close>

definition lower :: "pystr \<Rightarrow> pystr" where
  "lower s = map (\<lambda>c. if 65 \<le> c \<and> c \<le> 90 then c + 32 else c) s"

definition self_mac :: "pystr option \<Rightarrow> traffic \<Rightarrow> pystr option \<times> traffic" where
  "self_mac addr_file s =
     (if x_self_mac_checked s then (x_self_mac_cache s, s)
      else let cache = (case addr_file of None \<Rightarrow> None
             | Some text \<Rightarrow> let m = lower (strip text) in if m = [] then None else Some m)
           in (cache, s\<lparr>x_self_mac_checked := True, x_self_mac_cache := cache\<rparr>))"

record frame_class =
  f_src_mac :: pystr
  f_src_ip :: "pystr option"
  f_broadcast :: bool
  f_multicast :: bool
  f_protocols :: "protocol list"

text \<open>The UDP and TCP branches of the IPv4 case.\<close>

definition classify_udp :: "bytes \<Rightarrow> nat \<Rightarrow> exn + protocol list" where
  "classify_udp packet l4_offset =
     rbind (unpack_H (py_slice packet l4_offset (l4_offset + 2))) (\<lambda>sport.
     rbind (unpack_H (py_slice packet (l4_offset + 2) (l4_offset + 4))) (\<lambda>dport.
       Inr (if sport = 67 \<or> dport = 67 \<or> sport = 68 \<or> dport = 68 then [Dhcp]
            else if sport = 5353 \<or> dport = 5353 then [Mdns]
            else if sport = 1900 \<or> dport = 1900 then [Ssdp]
            else [])))"

definition classify_tcp :: "bytes \<Rightarrow> nat \<Rightarrow> exn + protocol list" where
  "classify_tcp packet l4_offset =
     rbind (unpack_H (py_slice packet l4_offset (l4_offset + 2))) (\<lambda>sport.
     rbind (unpack_H (py_slice packet (l4_offset + 2) (l4_offset + 4))) (\<lambda>dport.
       if (sport = S7_PORT \<or> dport = S7_PORT) \<and> l4_offset + 20 \<le> length packet then
         rbind (byte_at packet (l4_offset + 12)) (\<lambda>b.
           let data_offset = (unat b div 16) * 4 in
           Inr (if length packet > l4_offset + data_offset then [S7] else []))
       else Inr []))"

definition classify_ipv4 :: "bytes \<Rightarrow> exn + pystr option \<times> protocol list" where
  "classify_ipv4 packet =
     (if length packet < 34 then Inr (None, [Ipv4])
      else rbind (byte_at packet 14) (\<lambda>b14. rbind (byte_at packet 23) (\<lambda>proto.
        let src_ip = ip_str (py_slice packet 26 30); l4_offset = 14 + (unat b14 mod 16) * 4 in
        if proto = 17 \<and> l4_offset + 4 \<le> length packet then
          rbind (classify_udp packet l4_offset) (\<lambda>ps. Inr (Some src_ip, Ipv4 # ps))
        else if proto = 6 \<and> l4_offset + 4 \<le> length packet then
          rbind (classify_tcp packet l4_offset) (\<lambda>ps. Inr (Some src_ip, Ipv4 # ps))
        else Inr (Some src_ip, [Ipv4]))))"

definition classify :: "bytes \<Rightarrow> exn + frame_class" where
  "classify packet =
     (let dst_mac = py_slice packet 0 6; src_mac = mac_str (py_slice packet 6 12) in
      rbind (unpack_H (py_slice packet 12 14)) (\<lambda>ethertype.
      rbind (byte_at dst_mac 0) (\<lambda>d0.
        let is_broadcast = (dst_mac = BROADCAST_MAC);
            is_multicast = (\<not> is_broadcast \<and> odd (unat d0))
        in rbind
             (if ethertype = 0x0806 then
                Inr (if 32 \<le> length packet then Some (ip_str (py_slice packet 28 32)) else None, [Arp])
              else if ethertype = 0x0800 then classify_ipv4 packet
              else if ethertype = 0x86DD then Inr (None, [Ipv6])
              else if ethertype = 0x88CC then Inr (None, [Lldp])
              else if ethertype = 0x8892 then Inr (None, [Profinet])
              else if dst_mac = TS_CDP_DEST_MAC then Inr (None, [Cdp])
              else Inr (None, []))
             (\<lambda>(src_ip, protocols).
               Inr \<lparr>f_src_mac = src_mac, f_src_ip = src_ip, f_broadcast = is_broadcast,
                    f_multicast = is_multicast, f_protocols = protocols\<rparr>))))"

definition bump :: "protocol list \<Rightarrow> protocol_counts \<Rightarrow> protocol_counts" where
  "bump ps c = fold (\<lambda>p c. c(p := c p + 1)) ps c"

definition stats_add :: "frame_class \<Rightarrow> nat \<Rightarrow> traffic_totals \<Rightarrow> traffic_totals" where
  "stats_add f len st =
     (let st1 = st\<lparr>s_packets := s_packets st + 1, s_bytes := s_bytes st + len,
                   s_protocols := bump (f_protocols f) (s_protocols st)\<rparr>
      in if f_broadcast f then st1\<lparr>s_broadcast := s_broadcast st + 1\<rparr>
         else if f_multicast f then st1\<lparr>s_multicast := s_multicast st + 1\<rparr>
         else st1\<lparr>s_unicast := s_unicast st + 1\<rparr>)"

definition talker_add :: "frame_class \<Rightarrow> nat \<Rightarrow> talker \<Rightarrow> talker" where
  "talker_add f len k =
     (let k1 = k\<lparr>k_packets := k_packets k + 1, k_bytes := k_bytes k + len,
                 k_ip := (case f_src_ip f of None \<Rightarrow> k_ip k | Some ip \<Rightarrow> if ip = [] then k_ip k else Some ip),
                 k_protocols := bump (f_protocols f) (k_protocols k)\<rparr>
      in if f_broadcast f then k1\<lparr>k_broadcast := k_broadcast k + 1\<rparr>
         else if f_multicast f then k1\<lparr>k_multicast := k_multicast k + 1\<rparr>
         else k1)"

text \<open>\<open>while _recent_packets and _recent_packets[0][0] < cutoff: popleft()\<close>\<close>

definition expire_recent :: "timestamp \<Rightarrow> (timestamp \<times> pystr \<times> nat) list \<Rightarrow> (timestamp \<times> pystr \<times> nat) list" where
  "expire_recent now recent = dropWhile (\<lambda>(t, _). t < now - RATE_WINDOW_SECONDS) recent"

definition talkers_add :: "frame_class \<Rightarrow> nat \<Rightarrow> (pystr, talker) dict \<Rightarrow> (pystr, talker) dict" where
  "talkers_add f len talkers =
     (case map_of talkers (f_src_mac f) of
        Some k \<Rightarrow> AList.update (f_src_mac f) (talker_add f len k) talkers
      | None \<Rightarrow>
          if length talkers < MAX_TALKERS
          then AList.update (f_src_mac f) (talker_add f len empty_talker) talkers
          else talkers)"

definition classify_and_record :: "pystr option \<Rightarrow> traffic handler" where
  "classify_and_record addr_file now packet s =
     (if length packet < 14 then Inr s
      else rbind (classify packet) (\<lambda>f.
        let len = length packet;
            s1 = s\<lparr>x_stats := stats_add f len (x_stats s),
                   x_recent_packets := expire_recent now (x_recent_packets s @ [(now, f_src_mac f, len)])\<rparr>;
            (own, s2) = self_mac addr_file s1
        in if Some (f_src_mac f) = own then Inr s2
           else Inr (s2\<lparr>x_talkers := talkers_add f len (x_talkers s2)\<rparr>)))"

record talker_report =
  o_mac :: pystr
  o_talker :: talker
  o_packets_per_second :: real
  o_bytes_per_second :: real

record traffic_report =
  o_elapsed_seconds :: real
  o_stats :: traffic_totals
  o_total_packets_per_second :: real
  o_total_bytes_per_second :: real
  o_top_talkers :: "talker_report list"

text \<open>The dict \<open>recent_by_mac\<close> of packets and bytes per MAC; a MAC without an entry counts as two zeros.\<close>

definition entry_of :: "(pystr, nat \<times> nat) dict \<Rightarrow> pystr \<Rightarrow> nat \<times> nat" where
  "entry_of d mac = (case map_of d mac of None \<Rightarrow> (0, 0) | Some e \<Rightarrow> e)"

definition recent_by_mac :: "(timestamp \<times> pystr \<times> nat) list \<Rightarrow> (pystr, nat \<times> nat) dict" where
  "recent_by_mac recent =
     fold (\<lambda>(_, mac, len) d.
       let e = entry_of d mac
       in AList.update mac (fst e + 1, snd e + len) d) recent []"

definition traffic_get_stats :: "timestamp \<Rightarrow> traffic \<Rightarrow> traffic \<times> traffic_report" where
  "traffic_get_stats now s =
     (let recent = expire_recent now (x_recent_packets s);
          by_mac = recent_by_mac recent;
          recent_bytes_total = sum_list (map (\<lambda>(_, _, len). len) recent);
          talkers_list = map (\<lambda>(mac, cum).
            let e = entry_of by_mac mac in
            \<lparr>o_mac = mac, o_talker = cum,
             o_packets_per_second = round2 (fst e / RATE_WINDOW_SECONDS),
             o_bytes_per_second = round2 (snd e / RATE_WINDOW_SECONDS)\<rparr>) (x_talkers s)
      in (s\<lparr>x_recent_packets := recent\<rparr>,
          \<lparr>o_elapsed_seconds = round1 (now - s_started_at (x_stats s)),
           o_stats = x_stats s,
           o_total_packets_per_second = round2 (length recent / RATE_WINDOW_SECONDS),
           o_total_bytes_per_second = round2 (recent_bytes_total / RATE_WINDOW_SECONDS),
           o_top_talkers = sort_desc (\<lambda>t. int (k_bytes (o_talker t))) talkers_list\<rparr>))"

definition traffic_reset :: "timestamp \<Rightarrow> traffic \<Rightarrow> traffic" where
  "traffic_reset now s = s\<lparr>x_stats := empty_stats now, x_talkers := [], x_recent_packets := []\<rparr>"

section \<open>Classification is total\<close>

lemma classify_udp_returns: "l4 + 4 \<le> length p \<Longrightarrow> returns (classify_udp p l4)"
  unfolding classify_udp_def by (intro returns_intros returns_reads returns_simps) auto

lemma classify_tcp_returns: "l4 + 4 \<le> length p \<Longrightarrow> returns (classify_tcp p l4)"
  unfolding classify_tcp_def by (intro returns_intros returns_reads returns_simps) auto

lemma classify_ipv4_returns: "returns (classify_ipv4 p)"
  unfolding classify_ipv4_def
  by (intro returns_intros returns_reads returns_simps classify_udp_returns classify_tcp_returns) auto

lemma classify_returns: "14 \<le> length p \<Longrightarrow> returns (classify p)"
  unfolding classify_def
  by (intro returns_intros returns_reads returns_simps classify_ipv4_returns) (auto split: prod.splits)

definition frame_class_of :: "bytes \<Rightarrow> frame_class" where
  "frame_class_of p = projr (classify p)"

lemma classify_eq: "14 \<le> length p \<Longrightarrow> classify p = Inr (frame_class_of p)"
  using classify_returns [of p] by (auto simp: returns_iff frame_class_of_def)

lemma classify_udp_protocols:
  "classify_udp p l4 = Inr ps \<Longrightarrow> ps \<in> {[], [Dhcp], [Mdns], [Ssdp]}"
  by (auto simp: classify_udp_def rbind_eq_Inr split: if_splits)

lemma classify_tcp_protocols: "classify_tcp p l4 = Inr ps \<Longrightarrow> ps \<in> {[], [S7]}"
  by (auto simp: classify_tcp_def rbind_eq_Inr Let_def split: if_splits)

lemma classify_ipv4_protocols: "classify_ipv4 p = Inr (ip, ps) \<Longrightarrow> distinct ps"
  by (auto simp: classify_ipv4_def rbind_eq_Inr Let_def split: if_splits
      dest: classify_udp_protocols classify_tcp_protocols)

lemma classify_shape:
  "classify p = Inr f \<Longrightarrow> distinct (f_protocols f) \<and> \<not> (f_broadcast f \<and> f_multicast f) \<and>
    f_src_mac f = mac_str (py_slice p 6 12)"
  by (auto simp: classify_def rbind_eq_Inr Let_def classify_ipv4_protocols split: if_splits)

lemma frame_class_shape:
  assumes "14 \<le> length p"
  shows "distinct (f_protocols (frame_class_of p))"
    and "f_broadcast (frame_class_of p) \<Longrightarrow> \<not> f_multicast (frame_class_of p)"
    and "f_src_mac (frame_class_of p) = mac_str (py_slice p 6 12)"
  using classify_shape [OF classify_eq [OF assms]] by auto

lemma bump_apply: "distinct ps \<Longrightarrow> bump ps c p = c p + (if p \<in> set ps then 1 else 0)"
  by (induction ps arbitrary: c) (auto simp: bump_def)

section \<open>One frame\<close>

definition own_mac :: "pystr option \<Rightarrow> pystr option" where
  "own_mac addr_file = fst (self_mac addr_file (traffic0 0))"

definition self_known :: "pystr option \<Rightarrow> traffic \<Rightarrow> bool" where
  "self_known addr_file s \<longleftrightarrow> (x_self_mac_checked s \<longrightarrow> x_self_mac_cache s = own_mac addr_file)"

lemma self_known_0 [simp]: "self_known addr_file (traffic0 now)"
  by (simp add: self_known_def traffic0_def)

lemma self_mac_result:
  assumes "self_known addr_file s"
  obtains s' where "self_mac addr_file s = (own_mac addr_file, s')" "self_known addr_file s'"
    "x_stats s' = x_stats s" "x_talkers s' = x_talkers s" "x_recent_packets s' = x_recent_packets s"
  using assms that
  by (cases "x_self_mac_checked s"; cases addr_file)
    (auto simp: self_known_def own_mac_def self_mac_def traffic0_def Let_def)

lemma classify_and_record_step:
  assumes "self_known addr_file s" and "14 \<le> length p"
  defines "f \<equiv> frame_class_of p"
  shows "\<exists>s'. classify_and_record addr_file now p s = Inr s' \<and> self_known addr_file s' \<and>
    x_stats s' = stats_add f (length p) (x_stats s) \<and>
    x_recent_packets s' = expire_recent now (x_recent_packets s @ [(now, f_src_mac f, length p)]) \<and>
    x_talkers s' = (if Some (f_src_mac f) = own_mac addr_file then x_talkers s
                    else talkers_add f (length p) (x_talkers s))"
proof -
  let ?s1 = "s\<lparr>x_stats := stats_add f (length p) (x_stats s),
     x_recent_packets := expire_recent now (x_recent_packets s @ [(now, f_src_mac f, length p)])\<rparr>"
  have "self_known addr_file ?s1" using assms(1) by (simp add: self_known_def)
  then obtain s2 where "self_mac addr_file ?s1 = (own_mac addr_file, s2)" "self_known addr_file s2"
    "x_stats s2 = x_stats ?s1" "x_talkers s2 = x_talkers ?s1" "x_recent_packets s2 = x_recent_packets ?s1"
    by (rule self_mac_result)
  with assms(2) show ?thesis
    by (auto simp: classify_and_record_def classify_eq Let_def self_known_def f_def)
qed

section \<open>Refinement: the counters are the counts of the frames seen\<close>

definition frames :: "capture \<Rightarrow> capture" where
  "frames ps = filter (\<lambda>(t, p). 14 \<le> length p) ps"

definition frames_with :: "(frame_class \<Rightarrow> bool) \<Rightarrow> capture \<Rightarrow> nat" where
  "frames_with P ps = length (filter (\<lambda>(t, p). P (frame_class_of p)) (frames ps))"

definition bytes_with :: "(frame_class \<Rightarrow> bool) \<Rightarrow> capture \<Rightarrow> nat" where
  "bytes_with P ps =
     sum_list (map (\<lambda>(t, p). length p) (filter (\<lambda>(t, p). P (frame_class_of p)) (frames ps)))"

lemma frames_snoc: "frames (ps @ [(t, p)]) = frames ps @ (if 14 \<le> length p then [(t, p)] else [])"
  by (simp add: frames_def)

lemma frames_with_snoc:
  "frames_with P (ps @ [(t, p)]) =
    frames_with P ps + (if 14 \<le> length p \<and> P (frame_class_of p) then 1 else 0)"
  by (simp add: frames_with_def frames_snoc)

lemma bytes_with_snoc:
  "bytes_with P (ps @ [(t, p)]) =
    bytes_with P ps + (if 14 \<le> length p \<and> P (frame_class_of p) then length p else 0)"
  by (simp add: bytes_with_def frames_snoc)

lemma frames_with_Nil [simp]: "frames_with P [] = 0" "bytes_with P [] = 0"
  by (simp_all add: frames_with_def bytes_with_def frames_def)

definition totals_of :: "timestamp \<Rightarrow> capture \<Rightarrow> traffic_totals" where
  "totals_of t0 ps =
     \<lparr>s_started_at = t0, s_packets = frames_with (\<lambda>_. True) ps, s_bytes = bytes_with (\<lambda>_. True) ps,
      s_broadcast = frames_with f_broadcast ps, s_multicast = frames_with f_multicast ps,
      s_unicast = frames_with (\<lambda>f. \<not> f_broadcast f \<and> \<not> f_multicast f) ps,
      s_protocols = (\<lambda>pr. frames_with (\<lambda>f. pr \<in> set (f_protocols f)) ps)\<rparr>"

text \<open>The most recent source address among the frames of a MAC.\<close>

definition last_ip_step :: "pystr \<Rightarrow> timestamp \<times> bytes \<Rightarrow> pystr option \<Rightarrow> pystr option" where
  "last_ip_step m tp ip =
     (let f = frame_class_of (snd tp) in
      if f_src_mac f = m then (case f_src_ip f of None \<Rightarrow> ip | Some i \<Rightarrow> if i = [] then ip else Some i) else ip)"

definition last_ip :: "pystr \<Rightarrow> capture \<Rightarrow> pystr option" where
  "last_ip m ps = fold (last_ip_step m) (frames ps) None"

definition talker_of :: "pystr \<Rightarrow> capture \<Rightarrow> talker" where
  "talker_of m ps =
     (let of_m = (\<lambda>P f. f_src_mac f = m \<and> P f) in
      \<lparr>k_ip = last_ip m ps, k_packets = frames_with (of_m (\<lambda>_. True)) ps,
       k_bytes = bytes_with (of_m (\<lambda>_. True)) ps, k_broadcast = frames_with (of_m f_broadcast) ps,
       k_multicast = frames_with (of_m f_multicast) ps,
       k_protocols = (\<lambda>pr. frames_with (of_m (\<lambda>f. pr \<in> set (f_protocols f))) ps)\<rparr>)"

definition talker_macs :: "pystr option \<Rightarrow> capture \<Rightarrow> pystr set" where
  "talker_macs own ps = {m. Some m \<noteq> own \<and> (\<exists>(t, p) \<in> set (frames ps). f_src_mac (frame_class_of p) = m)}"

lemma totals_of_snoc:
  assumes "14 \<le> length p"
  shows "totals_of t0 (ps @ [(t, p)]) = stats_add (frame_class_of p) (length p) (totals_of t0 ps)"
  using frame_class_shape [OF assms] assms
  by (auto simp: totals_of_def stats_add_def Let_def frames_with_snoc bytes_with_snoc bump_apply fun_eq_iff)

lemma talker_of_snoc:
  assumes "14 \<le> length p"
  shows "talker_of m (ps @ [(t, p)]) =
    (if f_src_mac (frame_class_of p) = m then talker_add (frame_class_of p) (length p) (talker_of m ps)
     else talker_of m ps)"
proof -
  have "last_ip m (ps @ [(t, p)]) = last_ip_step m (t, p) (last_ip m ps)"
    using assms by (simp add: last_ip_def frames_snoc)
  with frame_class_shape [OF assms] assms show ?thesis
    by (auto simp: talker_of_def talker_add_def last_ip_step_def Let_def frames_with_snoc bytes_with_snoc
        bump_apply fun_eq_iff split: option.split)
qed

lemma talker_of_none: "m \<notin> talker_macs None ps \<Longrightarrow> talker_of m ps = empty_talker"
proof -
  assume a: "m \<notin> talker_macs None ps"
  have "frames_with (\<lambda>f. f_src_mac f = m \<and> P f) ps = 0" "bytes_with (\<lambda>f. f_src_mac f = m \<and> P f) ps = 0" for P
    using a by (auto simp: frames_with_def bytes_with_def talker_macs_def intro!: filter_False)
  from this [of "\<lambda>_. True"] this
  have n: "frames_with (\<lambda>f. f_src_mac f = m) ps = 0" "bytes_with (\<lambda>f. f_src_mac f = m) ps = 0"
    "frames_with (\<lambda>f. f_src_mac f = m \<and> P f) ps = 0" for P
    by simp_all
  have "fold (last_ip_step m) qs ip = ip" if "set qs \<subseteq> set (frames ps)" for qs ip
    using that a by (induction qs) (auto simp: talker_macs_def last_ip_step_def Let_def)
  then show ?thesis
    by (simp add: talker_of_def Let_def last_ip_def empty_talker_def empty_protocol_counts_def n)
qed

lemma talker_macs_snoc:
  "talker_macs own (ps @ [(t, p)]) =
    (if 14 \<le> length p \<and> Some (f_src_mac (frame_class_of p)) \<noteq> own
     then insert (f_src_mac (frame_class_of p)) (talker_macs own ps) else talker_macs own ps)"
  by (auto simp: talker_macs_def frames_snoc)

lemma finite_talker_macs [simp]: "finite (talker_macs own ps)"
  by (rule finite_subset [of _ "(\<lambda>(t, p). f_src_mac (frame_class_of p)) ` set (frames ps)"])
    (auto simp: talker_macs_def)

lemma talker_macs_None: "Some m \<noteq> own \<Longrightarrow> m \<in> talker_macs None ps \<longleftrightarrow> m \<in> talker_macs own ps"
  by (simp add: talker_macs_def)

abbreviation traffic_after :: "pystr option \<Rightarrow> timestamp \<Rightarrow> capture \<Rightarrow> traffic" where
  "traffic_after addr_file t0 ps \<equiv> listen (classify_and_record addr_file) ps (traffic0 t0)"

lemma run_short: "length p < 14 \<Longrightarrow> run_handler (classify_and_record a) (t, p) s = s"
  by (simp add: run_handler_def classify_and_record_def)

lemma traffic_totals:
  "self_known a (traffic_after a t0 ps) \<and> x_stats (traffic_after a t0 ps) = totals_of t0 ps"
proof (induction ps rule: rev_induct)
  case Nil
  then show ?case
    by (simp add: totals_of_def traffic0_def empty_stats_def empty_protocol_counts_def)
      (simp add: self_known_def)
next
  case (snoc tp ps)
  obtain t p where tp: "tp = (t, p)" by (cases tp)
  show ?case
  proof (cases "14 \<le> length p")
    case True
    then obtain s' where "classify_and_record a t p (traffic_after a t0 ps) = Inr s'" "self_known a s'"
      "x_stats s' = stats_add (frame_class_of p) (length p) (totals_of t0 ps)"
      using classify_and_record_step snoc by metis
    with True show ?thesis by (simp add: tp listen_append run_handler_def totals_of_snoc)
  next
    case False
    with snoc show ?thesis
      by (simp add: tp listen_append run_short totals_of_def frames_with_snoc bytes_with_snoc)
  qed
qed

lemma map_of_talkers_add:
  "map_of talkers (f_src_mac f) \<noteq> None \<or> length talkers < MAX_TALKERS \<Longrightarrow>
   map_of (talkers_add f len talkers) = (map_of talkers)(f_src_mac f \<mapsto>
     talker_add f len (case map_of talkers (f_src_mac f) of None \<Rightarrow> empty_talker | Some k \<Rightarrow> k))"
  by (auto simp: talkers_add_def split: option.split)

lemma wf_talkers_add [wf_intros]:
  "wf_dict d \<Longrightarrow> wf_dict (talkers_add f len d)"
  by (auto simp: talkers_add_def wf_intros split: option.split)

lemma length_talkers_add:
  "length d \<le> MAX_TALKERS \<Longrightarrow> length (talkers_add f len d) \<le> MAX_TALKERS"
  by (auto simp: talkers_add_def length_update split: option.split)

text \<open>The cap and the exclusion of the own MAC, whatever is captured.\<close>

lemma talkers_bounded:
  "wf_dict (x_talkers (traffic_after a t0 ps)) \<and> length (x_talkers (traffic_after a t0 ps)) \<le> MAX_TALKERS \<and>
   dom (map_of (x_talkers (traffic_after a t0 ps))) \<subseteq> talker_macs (own_mac a) ps"
proof (induction ps rule: rev_induct)
  case Nil
  then show ?case by (simp add: traffic0_def)
next
  case (snoc tp ps)
  obtain t p where tp: "tp = (t, p)" by (cases tp)
  show ?case
  proof (cases "14 \<le> length p")
    case True
    then obtain s' where s': "classify_and_record a t p (traffic_after a t0 ps) = Inr s'"
      "x_talkers s' = (if Some (f_src_mac (frame_class_of p)) = own_mac a then x_talkers (traffic_after a t0 ps)
        else talkers_add (frame_class_of p) (length p) (x_talkers (traffic_after a t0 ps)))"
      using classify_and_record_step traffic_totals by metis
    let ?d = "x_talkers (traffic_after a t0 ps)" and ?f = "frame_class_of p"
    have "dom (map_of (talkers_add ?f (length p) ?d)) \<subseteq> insert (f_src_mac ?f) (dom (map_of ?d))"
      by (auto simp: talkers_add_def split: option.splits if_splits)
    with snoc have "dom (map_of (talkers_add ?f (length p) ?d)) \<subseteq> insert (f_src_mac ?f) (talker_macs (own_mac a) ps)"
      by blast
    with True snoc s' show ?thesis
      by (simp add: tp listen_append run_handler_def talker_macs_snoc wf_intros length_talkers_add)
  next
    case False
    with snoc show ?thesis
      by (simp add: tp listen_append run_short talker_macs_snoc)
  qed
qed

lemma talkers_exact:
  "card (talker_macs (own_mac a) ps) \<le> MAX_TALKERS \<Longrightarrow>
   map_of (x_talkers (traffic_after a t0 ps)) m =
     (if m \<in> talker_macs (own_mac a) ps then Some (talker_of m ps) else None)"
proof (induction ps arbitrary: m rule: rev_induct)
  case Nil
  then show ?case by (simp add: traffic0_def talker_macs_def frames_def)
next
  case (snoc tp ps)
  obtain t p where tp: "tp = (t, p)" by (cases tp)
  let ?d = "x_talkers (traffic_after a t0 ps)" and ?f = "frame_class_of p"
  have "card (talker_macs (own_mac a) ps) \<le> card (talker_macs (own_mac a) (ps @ [tp]))"
    by (rule card_mono) (auto simp: tp talker_macs_snoc)
  with snoc have IH: "map_of ?d m = (if m \<in> talker_macs (own_mac a) ps then Some (talker_of m ps) else None)" for m
    by auto
  show ?case
  proof (cases "14 \<le> length p")
    case False
    with IH show ?thesis
      by (simp add: tp listen_append run_short talker_macs_snoc talker_of_def last_ip_def frames_snoc
          frames_with_snoc bytes_with_snoc)
  next
    case True
    then obtain s' where s': "classify_and_record a t p (traffic_after a t0 ps) = Inr s'"
      "x_talkers s' = (if Some (f_src_mac ?f) = own_mac a then ?d else talkers_add ?f (length p) ?d)"
      using classify_and_record_step traffic_totals by metis
    then have after: "x_talkers (traffic_after a t0 (ps @ [tp])) = x_talkers s'"
      by (simp add: tp listen_append run_handler_def)
    show ?thesis
    proof (cases "Some (f_src_mac ?f) = own_mac a")
      case own: True
      then have "m \<in> talker_macs (own_mac a) ps \<Longrightarrow> f_src_mac ?f \<noteq> m" by (auto simp: talker_macs_def)
      with own True IH s' after show ?thesis
        by (simp add: tp talker_macs_snoc talker_of_snoc)
    next
      case other: False
      have room: "map_of ?d (f_src_mac ?f) \<noteq> None \<or> length ?d < MAX_TALKERS"
      proof (cases "map_of ?d (f_src_mac ?f)")
        case None
        have "length ?d = card (dom (map_of ?d))"
          using talkers_bounded [of a ps t0] by (simp add: wf_dict_length)
        also have "\<dots> < card (insert (f_src_mac ?f) (dom (map_of ?d)))"
          using None by (simp add: finite_dom_map_of card_insert_if domIff)
        also have "\<dots> \<le> card (talker_macs (own_mac a) (ps @ [tp]))"
          using talkers_bounded [of a ps t0] True other
          by (intro card_mono) (auto simp: tp talker_macs_snoc)
        finally show ?thesis using snoc.prems by simp
      qed simp
      have "talker_of (f_src_mac ?f) ps = empty_talker" if "f_src_mac ?f \<notin> talker_macs (own_mac a) ps"
        using that other talker_macs_None talker_of_none by metis
      with room other True IH s' after show ?thesis
        by (simp add: tp map_of_talkers_add talker_macs_snoc talker_of_snoc)
    qed
  qed
qed

section \<open>The rolling window\<close>

definition recent_of :: "timestamp \<Rightarrow> capture \<Rightarrow> (timestamp \<times> pystr \<times> nat) list" where
  "recent_of now ps = map (\<lambda>(t, p). (t, f_src_mac (frame_class_of p), length p))
     (filter (\<lambda>(t, p). now - 5 \<le> t) (frames ps))"

lemma dropWhile_sorted:
  "sorted (map fst xs) \<Longrightarrow> dropWhile (\<lambda>(t, _). t < c) xs = filter (\<lambda>(t, _). c \<le> (t :: real)) xs"
proof (induction xs)
  case Nil
  then show ?case by simp
next
  case (Cons x xs)
  obtain t y where x: "x = (t, y)" by (cases x)
  show ?case
  proof (cases "t < c")
    case True
    with Cons x show ?thesis by simp
  next
    case False
    with Cons.prems x have "\<forall>z \<in> set xs. c \<le> fst z" by fastforce
    then have "filter (\<lambda>(t, _). c \<le> t) xs = xs" by (auto simp: filter_id_conv)
    with False x show ?thesis by simp
  qed
qed

lemma expire_sorted:
  "sorted (map fst xs) \<Longrightarrow> expire_recent now xs = filter (\<lambda>(t, _). now - 5 \<le> t) xs"
  by (simp add: expire_recent_def RATE_WINDOW_SECONDS_def dropWhile_sorted)

lemma recent_of_snoc:
  "recent_of now (ps @ [(t, p)]) = recent_of now ps @
    (if 14 \<le> length p \<and> now - 5 \<le> t then [(t, f_src_mac (frame_class_of p), length p)] else [])"
  by (simp add: recent_of_def frames_snoc)

lemma window_inv:
  "sorted (map fst ps) \<Longrightarrow>
   sorted (map fst (x_recent_packets (traffic_after a t0 ps))) \<and>
   fst ` set (x_recent_packets (traffic_after a t0 ps)) \<subseteq> fst ` set ps \<and>
   (\<forall>now. (\<forall>t \<in> fst ` set ps. t \<le> now) \<longrightarrow>
     filter (\<lambda>(t, _). now - 5 \<le> t) (x_recent_packets (traffic_after a t0 ps)) = recent_of now ps)"
proof (induction ps rule: rev_induct)
  case Nil
  then show ?case by (simp add: traffic0_def recent_of_def frames_def)
next
  case (snoc tp ps)
  obtain t p where tp: "tp = (t, p)" by (cases tp)
  let ?r = "x_recent_packets (traffic_after a t0 ps)"
  let ?x = "(t, f_src_mac (frame_class_of p), length p)"
  from snoc tp have IH: "sorted (map fst ?r)" "fst ` set ?r \<subseteq> fst ` set ps"
    "\<And>now. \<forall>t \<in> fst ` set ps. t \<le> now \<Longrightarrow> filter (\<lambda>(t, _). now - 5 \<le> t) ?r = recent_of now ps"
    and le: "\<forall>u \<in> fst ` set ps. u \<le> t"
    by (auto simp: sorted_append)
  show ?case
  proof (cases "14 \<le> length p")
    case False
    with IH show ?thesis by (auto simp: tp listen_append run_short recent_of_snoc)
  next
    case True
    have "sorted (map fst (?r @ [?x]))" using IH(1,2) le by (fastforce simp: sorted_append)
    then have e: "expire_recent t (?r @ [?x]) = filter (\<lambda>(u, _). t - 5 \<le> u) (?r @ [?x])"
      by (rule expire_sorted)
    obtain s' where "classify_and_record a t p (traffic_after a t0 ps) = Inr s'"
      "x_recent_packets s' = expire_recent t (?r @ [?x])"
      using classify_and_record_step True traffic_totals by metis
    then have r': "x_recent_packets (traffic_after a t0 (ps @ [tp])) = filter (\<lambda>(u, _). t - 5 \<le> u) (?r @ [?x])"
      by (simp add: tp listen_append run_handler_def e)
    have "filter (\<lambda>(u, _). now - 5 \<le> u) (filter (\<lambda>(u, _). t - 5 \<le> u) (?r @ [?x])) = recent_of now (ps @ [tp])"
      if "\<forall>u \<in> fst ` set (ps @ [tp]). u \<le> now" for now
    proof -
      from that tp have "t \<le> now" "\<forall>u \<in> fst ` set ps. u \<le> now" by auto
      then have "filter (\<lambda>(u, _). now - 5 \<le> u) (filter (\<lambda>(u, _). t - 5 \<le> u) (?r @ [?x]))
          = filter (\<lambda>(u, _). now - 5 \<le> u) (?r @ [?x])"
        by (auto simp: filter_filter split_def intro!: filter_cong)
      with IH(3) [OF \<open>\<forall>u \<in> fst ` set ps. u \<le> now\<close>] True show ?thesis
        by (simp add: tp recent_of_snoc)
    qed
    moreover have "sorted (map fst (filter (\<lambda>(u, _). t - 5 \<le> u) (?r @ [?x])))"
      using \<open>sorted (map fst (?r @ [?x]))\<close> by (rule sorted_filter)
    moreover have "fst ` set (filter (\<lambda>(u, _). t - 5 \<le> u) (?r @ [?x])) \<subseteq> fst ` set (ps @ [tp])"
      using IH(2) tp by auto
    ultimately show ?thesis unfolding r' by blast
  qed
qed

lemma window_refines:
  assumes "sorted (map fst ps)" and "\<forall>t \<in> fst ` set ps. t \<le> now"
  shows "expire_recent now (x_recent_packets (traffic_after a t0 ps)) = recent_of now ps"
  using window_inv [OF assms(1), of a t0] assms(2) expire_sorted by fastforce

lemma entry_of_recent:
  "entry_of (recent_by_mac recent) m =
    (length (filter (\<lambda>(_, mac, _). mac = m) recent),
     sum_list (map (\<lambda>(_, _, len). len) (filter (\<lambda>(_, mac, _). mac = m) recent)))"
proof (induction recent rule: rev_induct)
  case Nil
  then show ?case by (simp add: recent_by_mac_def entry_of_def)
next
  case (snoc x xs)
  have "recent_by_mac (xs @ [x]) = AList.update (fst (snd x))
      (fst (entry_of (recent_by_mac xs) (fst (snd x))) + 1,
       snd (entry_of (recent_by_mac xs) (fst (snd x))) + snd (snd x)) (recent_by_mac xs)"
    by (cases x) (simp add: recent_by_mac_def Let_def)
  with snoc show ?case by (cases x) (auto simp: entry_of_def)
qed

lemma recent_of_mac:
  "filter (\<lambda>(_, mac, _). mac = m) (recent_of now ps) =
    map (\<lambda>(t, p). (t, f_src_mac (frame_class_of p), length p))
      (filter (\<lambda>(t, p). now - 5 \<le> t \<and> f_src_mac (frame_class_of p) = m) (frames ps))"
  by (simp add: recent_of_def filter_map filter_filter comp_def split_def conj_commute)

lemma entry_window:
  "entry_of (recent_by_mac (recent_of now ps)) m =
    (let recent = filter (\<lambda>(t, p). now - 5 \<le> t \<and> f_src_mac (frame_class_of p) = m) (frames ps) in
     (length recent, sum_list (map (\<lambda>(t, p). length p) recent)))"
  unfolding entry_of_recent recent_of_mac by (simp add: Let_def comp_def split_def)

lemma set_talkers:
  assumes "card (talker_macs (own_mac a) ps) \<le> MAX_TALKERS"
  shows "set (x_talkers (traffic_after a t0 ps)) = (\<lambda>m. (m, talker_of m ps)) ` talker_macs (own_mac a) ps"
proof -
  have "(m, k) \<in> set (x_talkers (traffic_after a t0 ps)) \<longleftrightarrow>
      m \<in> talker_macs (own_mac a) ps \<and> k = talker_of m ps" for m k
    using talkers_bounded [of a ps t0] talkers_exact [OF assms] by (auto simp: map_of_in_set)
  then show ?thesis by auto
qed

text \<open>The report as a sorted image of the table.\<close>

lemma top_talkers_eq:
  assumes "sorted (map fst ps)" and "\<forall>t \<in> fst ` set ps. t \<le> now"
  shows "o_top_talkers (snd (traffic_get_stats now (traffic_after a t0 ps))) =
    sort_desc (\<lambda>t. int (k_bytes (o_talker t))) (map (\<lambda>(m, cum).
      let recent = filter (\<lambda>(t, p). now - 5 \<le> t \<and> f_src_mac (frame_class_of p) = m) (frames ps) in
      \<lparr>o_mac = m, o_talker = cum, o_packets_per_second = round2 (length recent / 5),
       o_bytes_per_second = round2 (sum_list (map (\<lambda>(t, p). length p) recent) / 5)\<rparr>)
      (x_talkers (traffic_after a t0 ps)))"
  by (simp add: traffic_get_stats_def Let_def window_refines [OF assms] entry_window RATE_WINDOW_SECONDS_def)

section \<open>Properties\<close>

text \<open>The summary is the capture.  After any capture the totals are the counts of the frames of at
  least 14 bytes; every such frame is broadcast, multicast or unicast and only one of them; and the
  table holds at most 500 talkers, none of them the interface itself.\<close>

theorem traffic_totals_exact:
  "let s = traffic_after addr_file t0 ps in
     x_stats s = totals_of t0 ps \<and>
     s_packets (x_stats s) = s_broadcast (x_stats s) + s_multicast (x_stats s) + s_unicast (x_stats s) \<and>
     length (x_talkers s) \<le> 500 \<and> own_mac addr_file \<notin> Some ` set (keys (x_talkers s))"
proof -
  have "frames_with (\<lambda>_. True) ps = frames_with f_broadcast ps + frames_with f_multicast ps +
      frames_with (\<lambda>f. \<not> f_broadcast f \<and> \<not> f_multicast f) ps"
  proof (induction ps rule: rev_induct)
    case (snoc tp ps)
    then show ?case using frame_class_shape by (cases tp) (auto simp: frames_with_snoc)
  qed simp
  moreover have "own_mac addr_file \<notin> Some ` talker_macs (own_mac addr_file) ps"
    by (auto simp: talker_macs_def)
  ultimately show ?thesis
    using traffic_totals [of addr_file ps t0] talkers_bounded [of addr_file ps t0]
    by (auto simp: Let_def totals_of_def MAX_TALKERS_def)
qed

text \<open>C9: what \<open>get_stats\<close> reports per talker.  With a monotone clock and at most 500 foreign source
  MACs, exactly the MACs that sent a frame are listed, ranked by bytes; each entry is the count of
  that MAC's frames over the whole period, and its rates are those of its frames of the last five
  seconds.\<close>

theorem traffic_talkers_exact:
  assumes "sorted (map fst ps)" and "\<forall>t \<in> fst ` set ps. t \<le> now"
    and "card (talker_macs (own_mac addr_file) ps) \<le> 500"
  shows "let report = snd (traffic_get_stats now (traffic_after addr_file t0 ps));
             top = o_top_talkers report;
             recent = (\<lambda>m. filter (\<lambda>(t, p). now - 5 \<le> t \<and> f_src_mac (frame_class_of p) = m) (frames ps)) in
    set top = (\<lambda>m. \<lparr>o_mac = m, o_talker = talker_of m ps,
        o_packets_per_second = round2 (length (recent m) / 5),
        o_bytes_per_second = round2 (sum_list (map (\<lambda>(t, p). length p) (recent m)) / 5)\<rparr>)
      ` talker_macs (own_mac addr_file) ps \<and>
    sorted_wrt (\<ge>) (map (k_bytes \<circ> o_talker) top) \<and> distinct (map o_mac top) \<and>
    o_total_packets_per_second report = round2 (length (filter (\<lambda>(t, p). now - 5 \<le> t) (frames ps)) / 5)"
proof -
  let ?s = "traffic_after addr_file t0 ps"
  let ?g = "\<lambda>(m, cum). let recent = filter (\<lambda>(t, p). now - 5 \<le> t \<and> f_src_mac (frame_class_of p) = m) (frames ps) in
      \<lparr>o_mac = m, o_talker = cum, o_packets_per_second = round2 (length recent / 5),
       o_bytes_per_second = round2 (sum_list (map (\<lambda>(t, p). length p) recent) / 5)\<rparr>"
  define top where "top = sort_desc (\<lambda>t. int (k_bytes (o_talker t))) (map ?g (x_talkers ?s))"
  have top: "o_top_talkers (snd (traffic_get_stats now ?s)) = top"
    unfolding top_def by (rule top_talkers_eq [OF assms(1,2)])
  have "set top = ?g ` set (x_talkers ?s)" by (simp add: top_def)
  also have "set (x_talkers ?s) = (\<lambda>m. (m, talker_of m ps)) ` talker_macs (own_mac addr_file) ps"
    using assms(3) by (intro set_talkers) (simp add: MAX_TALKERS_def)
  finally have 1: "set top = ?g ` (\<lambda>m. (m, talker_of m ps)) ` talker_macs (own_mac addr_file) ps" .
  have "sorted_wrt (\<ge>) (map (\<lambda>t. int (k_bytes (o_talker t))) top)"
    unfolding top_def by (rule sorted_sort_desc)
  then have 2: "sorted_wrt (\<ge>) (map (k_bytes \<circ> o_talker) top)" by (simp add: sorted_wrt_map)
  have "mset (map o_mac top) = mset (map o_mac (map ?g (x_talkers ?s)))"
    by (simp only: top_def mset_map mset_sort_desc)
  moreover have "map o_mac (map ?g (x_talkers ?s)) = keys (x_talkers ?s)"
    by (auto simp: keys_def Let_def)
  ultimately have 3: "distinct (map o_mac top)"
    using talkers_bounded [of addr_file ps t0] mset_eq_imp_distinct_iff unfolding wf_dict_def by metis
  have 4: "o_total_packets_per_second (snd (traffic_get_stats now ?s)) =
      round2 (length (filter (\<lambda>(t, p). now - 5 \<le> t) (frames ps)) / 5)"
    by (simp add: traffic_get_stats_def Let_def window_refines [OF assms(1,2)] recent_of_def
        RATE_WINDOW_SECONDS_def)
  show ?thesis
    unfolding Let_def top using 1 2 3 4 by (simp add: image_image Let_def)
qed

theorem traffic_talkers_exact_witness:
  "o_mac ` set (o_top_talkers (snd (traffic_get_stats 9 (traffic_after None 0
     [(2, replicate 6 0xFF @ [1, 2, 3, 4, 5, 6, 0x88, 0xCC, 0]),
      (8, replicate 6 0xFF @ [1, 2, 3, 4, 5, 7, 0x88, 0xCC, 0, 0])])))) =
   {mac_str [1, 2, 3, 4, 5, 6], mac_str [1, 2, 3, 4, 5, 7]}"
proof -
  let ?p = "replicate 6 0xFF @ [1, 2, 3, 4, 5, 6, 0x88, 0xCC, 0] :: bytes"
  let ?q = "replicate 6 0xFF @ [1, 2, 3, 4, 5, 7, 0x88, 0xCC, 0, 0] :: bytes"
  let ?ps = "[(2, ?p), (8, ?q)] :: capture"
  have m: "f_src_mac (frame_class_of ?p) = mac_str [1, 2, 3, 4, 5, 6]"
    "f_src_mac (frame_class_of ?q) = mac_str [1, 2, 3, 4, 5, 7]"
    by (subst frame_class_shape; simp add: py_slice_def)+
  have macs: "talker_macs (own_mac None) ?ps = {mac_str [1, 2, 3, 4, 5, 6], mac_str [1, 2, 3, 4, 5, 7]}"
    using m by (auto simp: talker_macs_def frames_def own_mac_def self_mac_def traffic0_def)
  then have "card (talker_macs (own_mac None) ?ps) \<le> 500"
    by (simp add: card_insert_if)
  from traffic_talkers_exact [OF _ _ this, of 9 0] show ?thesis
    by (simp add: Let_def image_image macs)
qed

end
