(* ===== verification/Modbus_Client.thy ===== *)
theory Modbus_Client
  imports Byte_Stream Py_Text Py_Dict
begin

text \<open>
  \<open>backend/tools/modbus.py\<close>: the read-only Modbus TCP client.  The network is what the source's
  socket calls find: whether \<open>bind\<close>/\<open>connect\<close>/\<open>sendall\<close> raise, and the read events of the
  connection.  The source address (\<open>_eth0_source_ip\<close>), the transaction id and the elapsed time are
  arguments.  Python's integers arrive as \<open>int\<close> and are packed only after validation.
\<close>

record network =
  n_setup :: "exn option"
  n_events :: "event list"

datatype modbus_values = Bits "bool list" | Registers "nat list"

record read_ok =
  ro_function :: pystr
  ro_address :: nat
  ro_quantity :: nat
  ro_values :: modbus_values
  ro_request :: bytes
  ro_response :: bytes
  ro_time_ms :: real

text \<open>\<open>{"ok": False}\<close> without raw bytes (refused input), with them (\<open>_read_error\<close>), and success.\<close>

datatype read_result =
    Refused pystr
  | Failed (f_message: pystr) (f_request: "bytes option") (f_response: "bytes option") (f_time_ms: real)
  | Read read_ok

definition READ_FUNCTIONS :: "(int, pystr) dict" where
  "READ_FUNCTIONS = [(1, lit ''read_coils''), (2, lit ''read_discrete_inputs''),
     (3, lit ''read_holding_registers''), (4, lit ''read_input_registers'')]"

definition MAX_QUANTITY :: "int \<Rightarrow> int" where
  "MAX_QUANTITY fc = (if fc = 1 \<or> fc = 2 then 2000 else 125)"

definition EXCEPTION_MESSAGES :: "(nat, pystr) dict" where
  "EXCEPTION_MESSAGES = [(1, lit ''Illegal Function''), (2, lit ''Illegal Data Address''),
     (3, lit ''Illegal Data Value''), (4, lit ''Slave Device Failure''), (5, lit ''Acknowledge''),
     (6, lit ''Slave Device Busy''), (8, lit ''Memory Parity Error''),
     (10, lit ''Gateway Path Unavailable''), (11, lit ''Gateway Target Device Failed to Respond'')]"

definition exception_text :: "nat option \<Rightarrow> pystr" where
  "exception_text code =
     (case code of
        None \<Rightarrow> lit ''code None''
      | Some c \<Rightarrow> (case map_of EXCEPTION_MESSAGES c of Some m \<Rightarrow> m | None \<Rightarrow> lit ''code '' @ dec c))"

definition next_transaction_id :: "nat \<Rightarrow> nat" where
  "next_transaction_id tid = (tid + 1) mod 0x10000"

text \<open>\<open>_eth0_source_ip\<close>: the part of \<open>eth0_mode.get_mode()["address"]\<close> before the slash.\<close>

definition eth0_source_ip :: "pystr option \<Rightarrow> pystr option" where
  "eth0_source_ip address =
     (case address of None \<Rightarrow> None | Some a \<Rightarrow> if a = [] then None else Some (hd (split_on 47 a)))"

text \<open>MBAP header and PDU of a request.\<close>

definition read_request :: "nat \<Rightarrow> nat \<Rightarrow> nat \<Rightarrow> nat \<Rightarrow> nat \<Rightarrow> bytes" where
  "read_request tid unit_id fc address quantity =
     (let pdu = [byte_of fc] @ be16 address @ be16 quantity;
          mbap = be16 tid @ be16 0 @ be16 (length pdu + 1) @ [byte_of unit_id]
      in mbap @ pdu)"

text \<open>The messages of the three \<open>except\<close> clauses; other exceptions are not caught.\<close>

definition socket_error :: "pystr \<Rightarrow> exn \<Rightarrow> exn + pystr" where
  "socket_error port_text e =
     (case e of
        SocketTimeout \<Rightarrow> Inr (lit ''timeout -- no response from device'')
      | ConnectionRefused \<Rightarrow> Inr (lit ''connection refused -- port '' @ port_text @ lit '' not open'')
      | OsError m \<Rightarrow> Inr m
      | _ \<Rightarrow> Inl e)"

definition read_error :: "pystr \<Rightarrow> bytes option \<Rightarrow> real \<Rightarrow> bytes option \<Rightarrow> bytes option \<Rightarrow> read_result" where
  "read_error message request elapsed header body =
     Failed message request
       (case header of None \<Rightarrow> None | Some h \<Rightarrow> Some (h @ (case body of None \<Rightarrow> [] | Some b \<Rightarrow> b)))
       (round1 (elapsed * 1000))"

text \<open>What the connection yields: an early return, or header and body of a response.\<close>

datatype exchange = Early read_result | Response bytes bytes

definition body_exchange :: "bytes \<Rightarrow> real \<Rightarrow> bytes \<Rightarrow> bytes option \<Rightarrow> exchange" where
  "body_exchange request elapsed header body =
     (case body of
        Some (b # bs) \<Rightarrow> Response header (b # bs)
      | _ \<Rightarrow> Early (read_error (lit ''incomplete response'') (Some request) elapsed (Some header) body))"

definition read_response :: "nat \<Rightarrow> bytes \<Rightarrow> pystr \<Rightarrow> real \<Rightarrow> event list \<Rightarrow> exn + exchange" where
  "read_response tid request port_text elapsed es =
     (let failed = (\<lambda>header e. rbind (socket_error port_text e)
            (\<lambda>m. Inr (Early (read_error m (Some request) elapsed header None)))) in
      case recv_exact 7 es of
        Inl e \<Rightarrow> failed None e
      | Inr (None, _) \<Rightarrow>
          Inr (Early (read_error (lit ''no response (connection closed)'') (Some request) elapsed None None))
      | Inr (Some header, es1) \<Rightarrow>
          rbind (unpack_H (py_slice header 0 2)) (\<lambda>resp_tid.
          rbind (unpack_H (py_slice header 4 6)) (\<lambda>resp_length.
            if resp_tid \<noteq> tid then
              Inr (Early (read_error (lit ''unexpected transaction ID in response'') (Some request) elapsed
                (Some header) None))
            else (case recv_exact (int resp_length - 1) es1 of
                Inl e \<Rightarrow> failed (Some header) e
              | Inr (body, _) \<Rightarrow>
                  Inr (body_exchange request elapsed header body)))))"

text \<open>\<open>[bool(data[i // 8] & (1 << (i % 8))) for i in range(quantity) if i // 8 < len(data)]\<close> and
  \<open>[struct.unpack("!H", data[i:i + 2])[0] for i in range(0, len(data) - 1, 2)]\<close>\<close>

definition unpack_bits :: "nat \<Rightarrow> bytes \<Rightarrow> bool list" where
  "unpack_bits quantity data =
     map (\<lambda>i. bit (data ! (i div 8)) (i mod 8)) (filter (\<lambda>i. i div 8 < length data) [0..<quantity])"

fun unpack_registers :: "bytes \<Rightarrow> nat list" where
  "unpack_registers (a # b # data) = (256 * unat a + unat b) # unpack_registers data"
| "unpack_registers _ = []"

definition decode_response ::
  "nat \<Rightarrow> nat \<Rightarrow> nat \<Rightarrow> bytes \<Rightarrow> real \<Rightarrow> bytes \<Rightarrow> bytes \<Rightarrow> exn + read_result" where
  "decode_response fc address quantity request elapsed header body =
     rbind (byte_at body 0) (\<lambda>resp_fc.
       if 128 \<le> unat resp_fc then
         Inr (Failed (lit ''Modbus exception: '' @
                exception_text (if 1 < length body then Some (unat (body ! 1)) else None))
              (Some request) (Some (header @ body)) (round1 (elapsed * 1000)))
       else if unat resp_fc \<noteq> fc then
         Inr (read_error (lit ''unexpected function code in response'') (Some request) elapsed
           (Some header) (Some body))
       else if length body < 2 then
         Inr (read_error (lit ''malformed response'') (Some request) elapsed (Some header) (Some body))
       else
         rbind (byte_at body 1) (\<lambda>byte_count.
           let data = py_slice body 2 (2 + unat byte_count);
               values = (if fc = 1 \<or> fc = 2 then Bits (unpack_bits quantity data)
                         else Registers (unpack_registers data))
           in Inr (Read \<lparr>ro_function = (case map_of READ_FUNCTIONS (int fc) of Some f \<Rightarrow> f | None \<Rightarrow> []),
                ro_address = address, ro_quantity = quantity, ro_values = values,
                ro_request = request, ro_response = header @ body,
                ro_time_ms = round1 (elapsed * 1000)\<rparr>)))"

definition read_checks :: "pystr \<Rightarrow> int \<Rightarrow> int \<Rightarrow> int \<Rightarrow> int \<Rightarrow> int \<Rightarrow> pystr option" where
  "read_checks host unit_id function_code address quantity port =
     (if host = [] then Some (lit ''host is required'')
      else if map_of READ_FUNCTIONS function_code = None then
        Some (lit ''function code must be 1 (coils), 2 (discrete inputs), 3 (holding registers), or 4 (input registers)'')
      else if \<not> (0 \<le> unit_id \<and> unit_id \<le> 255) then Some (lit ''unit ID must be 0-255'')
      else if \<not> (0 \<le> address \<and> address \<le> 0xFFFF) then Some (lit ''address must be 0-65535'')
      else if \<not> (1 \<le> quantity \<and> quantity \<le> MAX_QUANTITY function_code) then
        Some (lit ''quantity must be 1-'' @ str_int (MAX_QUANTITY function_code) @ lit '' for this function'')
      else if \<not> (1 \<le> port \<and> port \<le> 65535) then Some (lit ''port must be 1-65535'')
      else None)"

definition no_source_ip :: pystr where
  "no_source_ip = lit ''eth0 has no IP address -- switch to DHCP or Static mode first (Passive mode has no source address to connect from)''"

definition modbus_read ::
  "pystr \<Rightarrow> int \<Rightarrow> int \<Rightarrow> int \<Rightarrow> int \<Rightarrow> int \<Rightarrow> pystr option \<Rightarrow> nat \<Rightarrow> network \<Rightarrow> real \<Rightarrow> exn + read_result \<times> nat" where
  "modbus_read host unit_id function_code address quantity port eth0_address tid net elapsed =
     (case read_checks (strip host) unit_id function_code address quantity port of
        Some message \<Rightarrow> Inr (Refused message, tid)
      | None \<Rightarrow>
          (case eth0_source_ip eth0_address of
             None \<Rightarrow> Inr (Refused no_source_ip, tid)
           | Some source_ip \<Rightarrow>
               if source_ip = [] then Inr (Refused no_source_ip, tid)
               else
                 let tid' = next_transaction_id tid;
                     fc = nat function_code;
                     request = read_request tid' (nat unit_id) fc (nat address) (nat quantity)
                 in (case n_setup net of
                       Some e \<Rightarrow> rbind (socket_error (str_int port) e)
                         (\<lambda>m. Inr (read_error m (Some request) elapsed None None, tid'))
                     | None \<Rightarrow>
                         rbind (read_response tid' request (str_int port) elapsed (n_events net)) (\<lambda>x.
                           case x of
                             Early r \<Rightarrow> Inr (r, tid')
                           | Response header body \<Rightarrow>
                               rbind (decode_response fc (nat address) (nat quantity) request elapsed header body)
                                 (\<lambda>r. Inr (r, tid'))))))"

section \<open>A Modbus device\<close>

text \<open>The other end of the connection, as the Modbus specification has it: tables of bits and
  registers, and the exception code, if any, with which the device refuses a function, address and
  quantity.  It decodes the request from its bytes.\<close>

record device =
  dv_bit :: "nat \<Rightarrow> nat \<Rightarrow> bool"
  dv_register :: "nat \<Rightarrow> nat \<Rightarrow> nat"
  dv_refuse :: "nat \<Rightarrow> nat \<Rightarrow> nat \<Rightarrow> nat option"

definition device_ok :: "device \<Rightarrow> bool" where
  "device_ok dev \<longleftrightarrow> (\<forall>fc a. dv_register dev fc a < 65536) \<and>
     (\<forall>fc a q c. dv_refuse dev fc a q = Some c \<longrightarrow> c < 256)"

fun pack_bits :: "bool list \<Rightarrow> bytes" where
  "pack_bits [] = []"
| "pack_bits (b # bs) = horner_sum of_bool 2 (take 8 (b # bs)) # pack_bits (drop 7 bs)"

definition response_frame :: "nat \<Rightarrow> byte \<Rightarrow> bytes \<Rightarrow> bytes" where
  "response_frame tid unit body = be16 tid @ be16 0 @ be16 (length body + 1) @ [unit] @ body"

definition nat16 :: "bytes \<Rightarrow> nat" where
  "nat16 bs = 256 * unat (bs ! 0) + unat (bs ! 1)"

definition device_body :: "device \<Rightarrow> nat \<Rightarrow> nat \<Rightarrow> nat \<Rightarrow> bytes" where
  "device_body dev fc address quantity =
     (case dv_refuse dev fc address quantity of
        Some code \<Rightarrow> [byte_of (fc + 128), byte_of code]
      | None \<Rightarrow>
          let data = (if fc = 1 \<or> fc = 2 then pack_bits (map (dv_bit dev fc) [address..<address + quantity])
                      else concat (map (be16 \<circ> dv_register dev fc) [address..<address + quantity]))
          in [byte_of fc, byte_of (length data)] @ data)"

definition device_reply :: "device \<Rightarrow> bytes \<Rightarrow> bytes" where
  "device_reply dev request =
     response_frame (nat16 (take 2 request)) (request ! 6)
       (device_body dev (unat (request ! 7)) (nat16 (py_slice request 8 10)) (nat16 (py_slice request 10 12)))"

lemma nat16_be16 [simp]: "n < 65536 \<Longrightarrow> nat16 (be16 n) = n"
  using unpack_H_be16 [of n] by (simp add: be16_def nat16_def)

text \<open>The device sees what the client meant.\<close>

lemma device_reply_request:
  assumes "tid < 65536" and "unit < 256" and "fc < 256" and "address < 65536" and "quantity < 65536"
  shows "device_reply dev (read_request tid unit fc address quantity) =
    response_frame tid (byte_of unit) (device_body dev fc address quantity)"
proof -
  let ?r = "read_request tid unit fc address quantity"
  have r: "?r = be16 tid @ be16 0 @ be16 6 @ [byte_of unit, byte_of fc] @ be16 address @ be16 quantity"
    by (simp add: read_request_def)
  have "take 2 ?r = be16 tid" "?r ! 6 = byte_of unit" "?r ! 7 = byte_of fc"
    "py_slice ?r 8 10 = be16 address" "py_slice ?r 10 12 = be16 quantity"
    unfolding r by (simp_all add: be16_def py_slice_def)
  with assms show ?thesis by (simp add: device_reply_def)
qed

lemma length_pack_bits: "length (pack_bits bs) = (length bs + 7) div 8"
proof (induction bs rule: pack_bits.induct)
  case (2 b bs)
  then show ?case by (cases "length bs < 7") (auto simp: le_div_geq div_if)
qed simp

lemma pack_bits_nth: "8 * j < length bs \<Longrightarrow> pack_bits bs ! j = horner_sum of_bool 2 (take 8 (drop (8 * j) bs))"
proof (induction bs arbitrary: j rule: pack_bits.induct)
  case (2 b bs)
  show ?case
  proof (cases j)
    case (Suc i)
    with 2 have "pack_bits (drop 7 bs) ! i = horner_sum of_bool 2 (take 8 (drop (8 * i) (drop 7 bs)))"
      by (intro "2.IH") simp
    moreover have "drop (8 * j) (b # bs) = drop (8 * i) (drop 7 bs)"
      using Suc by (simp add: drop_Cons' add.commute)
    ultimately show ?thesis using Suc by simp
  qed simp
qed simp

lemma unpack_pack_bits: "unpack_bits (length bs) (pack_bits bs) = bs"
proof -
  have "i div 8 < length (pack_bits bs)" if "i < length bs" for i
    using that unfolding length_pack_bits by linarith
  then have f: "filter (\<lambda>i. i div 8 < length (pack_bits bs)) [0..<length bs] = [0..<length bs]"
    by (auto simp: filter_id_conv)
  have "bit (pack_bits bs ! (i div 8)) (i mod 8) = bs ! i" if "i < length bs" for i
  proof -
    let ?k = "8 * (i div 8)"
    have i: "?k + i mod 8 = i" "i mod 8 < 8" by simp_all
    with that have k: "?k < length bs" "i mod 8 < length bs - ?k" by linarith+
    have "bit (pack_bits bs ! (i div 8)) (i mod 8) \<longleftrightarrow>
        i mod 8 < length (take 8 (drop ?k bs)) \<and> take 8 (drop ?k bs) ! (i mod 8)"
      unfolding pack_bits_nth [OF k(1)] by (simp add: bit_horner_sum_bit_iff)
    also have "\<dots> \<longleftrightarrow> bs ! (?k + i mod 8)" using i k by (simp only: nth_take nth_drop length_take length_drop) simp
    finally show ?thesis using i(1) by simp
  qed
  then show ?thesis
    unfolding unpack_bits_def f by (intro nth_equalityI) auto
qed

lemma unpack_registers_concat:
  "list_all (\<lambda>n. n < 65536) ns \<Longrightarrow> unpack_registers (concat (map be16 ns)) = ns"
  by (induction ns) (auto simp: be16_def div_less_iff_less_mult)

section \<open>Receiving a response\<close>

lemma read_response_frame:
  assumes "clean es" and "stream_bytes es = response_frame tid unit body @ rest"
    and "tid < 65536" and "body \<noteq> []" and "length body < 65535"
  shows "read_response tid request pt elapsed es =
    Inr (Response (be16 tid @ be16 0 @ be16 (length body + 1) @ [unit]) body)"
proof -
  let ?h = "be16 tid @ be16 0 @ be16 (length body + 1) @ [unit]"
  have "stream_bytes es = ?h @ body @ rest" using assms(2) by (simp add: response_frame_def)
  then obtain es1 where 1: "recv_exact 7 es = Inr (Some ?h, es1)" "clean es1" "stream_bytes es1 = body @ rest"
    using recv_exact_enough [OF assms(1), of 7] by auto
  then obtain es2 where 2: "recv_exact (int (length body + 1) - 1) es1 = Inr (Some body, es2)"
    using recv_exact_enough [OF 1(2), of "int (length body)"] by auto
  have "py_slice ?h 0 2 = be16 tid" "py_slice ?h 4 6 = be16 (length body + 1)"
    by (simp_all add: be16_def py_slice_def)
  moreover obtain b bs where "body = b # bs" using assms(4) by (cases body) auto
  ultimately show ?thesis using 1 2 assms(3-5) by (simp add: read_response_def body_exchange_def Let_def)
qed

section \<open>Decoding a device's answer\<close>

lemma function_cases: "map_of READ_FUNCTIONS fc \<noteq> None \<longleftrightarrow> fc \<in> {1, 2, 3, 4}"
  by (auto simp: READ_FUNCTIONS_def)

definition device_values :: "device \<Rightarrow> nat \<Rightarrow> nat \<Rightarrow> nat \<Rightarrow> modbus_values" where
  "device_values dev fc address quantity =
     (if fc = 1 \<or> fc = 2 then Bits (map (dv_bit dev fc) [address..<address + quantity])
      else Registers (map (dv_register dev fc) [address..<address + quantity]))"

lemma device_body_length:
  assumes "1 \<le> quantity" and "int quantity \<le> MAX_QUANTITY (int fc)"
  shows "length (device_body dev fc address quantity) < 65535" "device_body dev fc address quantity \<noteq> []"
  using assms by (auto simp: device_body_def MAX_QUANTITY_def length_pack_bits sum_list_triv o_def
      length_concat Let_def split: option.split if_splits)

lemma decode_refused:
  assumes "dv_refuse dev fc address quantity = Some code" and "fc \<in> {1, 2, 3, 4}" and "code < 256"
  shows "decode_response fc address quantity request elapsed header (device_body dev fc address quantity) =
    Inr (Failed (lit ''Modbus exception: '' @ exception_text (Some code)) (Some request)
      (Some (header @ device_body dev fc address quantity)) (round1 (elapsed * 1000)))"
  using assms by (auto simp: decode_response_def device_body_def)

lemma decode_values:
  assumes "dv_refuse dev fc address quantity = None" and "fc \<in> {1, 2, 3, 4}" and "device_ok dev"
    and "int quantity \<le> MAX_QUANTITY (int fc)" and "f = the (map_of READ_FUNCTIONS (int fc))"
  shows "decode_response fc address quantity request elapsed header (device_body dev fc address quantity) =
    Inr (Read \<lparr>ro_function = f, ro_address = address,
      ro_quantity = quantity, ro_values = device_values dev fc address quantity, ro_request = request,
      ro_response = header @ device_body dev fc address quantity, ro_time_ms = round1 (elapsed * 1000)\<rparr>)"
proof -
  let ?bits = "map (dv_bit dev fc) [address..<address + quantity]"
  let ?regs = "map (dv_register dev fc) [address..<address + quantity]"
  let ?data = "if fc = 1 \<or> fc = 2 then pack_bits ?bits else concat (map be16 ?regs)"
  have body: "device_body dev fc address quantity = [byte_of fc, byte_of (length ?data)] @ ?data"
    using assms(1) by (simp add: device_body_def Let_def)
  have "length ?data < 256"
    using assms(4) by (auto simp: MAX_QUANTITY_def length_pack_bits length_concat o_def sum_list_triv split: if_splits)
  then have "py_slice ([byte_of fc, byte_of (length ?data)] @ ?data) 2 (2 + unat (byte_of (length ?data))) = ?data"
    using slice_mid [of 2 "[byte_of fc, byte_of (length ?data)]" "2 + length ?data" ?data "[]"] by simp
  moreover have "unpack_bits quantity (pack_bits ?bits) = ?bits"
    using unpack_pack_bits [of ?bits] by simp
  moreover have "unpack_registers (concat (map be16 ?regs)) = ?regs"
    using assms(3) by (intro unpack_registers_concat) (simp add: device_ok_def list_all_iff)
  moreover obtain x where "map_of READ_FUNCTIONS (int fc) = Some x"
    using assms(2) by (auto simp: READ_FUNCTIONS_def)
  ultimately show ?thesis
    using assms(2,5) unfolding body
    by (auto simp: decode_response_def Let_def device_values_def byte_at_def)
qed

section \<open>No answer makes the client raise\<close>

fun socket_exn :: "exn \<Rightarrow> bool" where
  "socket_exn SocketTimeout = True"
| "socket_exn ConnectionRefused = True"
| "socket_exn (OsError m) = True"
| "socket_exn _ = False"

text \<open>The socket module raises only \<open>OSError\<close> and its subclasses.\<close>

definition network_ok :: "network \<Rightarrow> bool" where
  "network_ok net \<longleftrightarrow> (case n_setup net of None \<Rightarrow> True | Some e \<Rightarrow> socket_exn e) \<and>
     (\<forall>e \<in> raises (n_events net). socket_exn e)"

lemma socket_error_returns: "socket_exn e \<Longrightarrow> returns (socket_error pt e)"
  by (cases e) (simp_all add: socket_error_def)

lemma unpack_H_length: "length bs = 2 \<Longrightarrow> returns (unpack_H bs)"
  using unpack_H_slice [of 2 0 bs] by (simp add: py_slice_def del: unpack_H_slice)

lemma read_response_returns:
  assumes "\<forall>e \<in> raises es. socket_exn e"
  shows "returns (read_response tid request pt elapsed es)"
proof (cases "recv_exact 7 es")
  case (Inl e)
  with assms recv_exact_raises(1) obtain m where "socket_error pt e = Inr m"
    using socket_error_returns by (metis returns_iff)
  with Inl show ?thesis by (simp add: read_response_def Let_def)
next
  case (Inr r)
  show ?thesis
  proof (cases r)
    case (Pair h es1)
    show ?thesis
    proof (cases h)
      case None
      with Inr Pair show ?thesis by (simp add: read_response_def Let_def)
    next
      case (Some header)
      then have len: "length header = 7" using recv_exact_length [of 7 es header es1] Inr Pair by simp
      then obtain t l where h: "unpack_H (py_slice header 0 2) = Inr t" "unpack_H (py_slice header 4 6) = Inr l"
        using unpack_H_length [of "py_slice header 0 2"] unpack_H_length [of "py_slice header 4 6"]
        by (auto simp: returns_iff)
      show ?thesis
      proof (cases "recv_exact (int l - 1) es1")
        case inl: (Inl e)
        then have "e \<in> raises es" using recv_exact_raises(1) recv_exact_raises(2) Inr Pair by blast
        then obtain m where "socket_error pt e = Inr m"
          using assms socket_error_returns by (metis returns_iff)
        with Inr Pair Some h inl show ?thesis by (simp add: read_response_def Let_def)
      next
        case (Inr b)
        with \<open>recv_exact 7 es = Inr r\<close> Pair Some h show ?thesis
          by (cases b) (simp add: read_response_def Let_def)
      qed
    qed
  qed
qed

lemma body_exchange_body: "body_exchange request elapsed h b = Response header body \<Longrightarrow> body \<noteq> []"
  by (auto simp: body_exchange_def split: option.splits list.splits)

lemma read_response_body: "read_response tid request pt elapsed es = Inr (Response header body) \<Longrightarrow> body \<noteq> []"
  by (auto simp: read_response_def Let_def rbind_eq_Inr dest: body_exchange_body split: sum.splits option.splits if_splits)
    (metis body_exchange_body old.sum.exhaust surj_pair)

lemma decode_response_returns: "body \<noteq> [] \<Longrightarrow> returns (decode_response fc a q request elapsed header body)"
  unfolding decode_response_def by (intro returns_intros returns_reads returns_simps) auto

section \<open>Properties\<close>

text \<open>C5: reading a device.  For every device and every valid request, and however the network cuts the
  device's answer into pieces, \<open>read\<close> returns exactly the addressed bits or registers, or the
  device's exception as its message; the transaction id advances by one modulo 65536.\<close>

theorem modbus_read_device:
  assumes "read_checks (strip host) unit_id fc address quantity port = None"
    and "eth0_source_ip eth0_address = Some ip" and "ip \<noteq> []" and "device_ok dev"
    and "n_setup net = None" and "clean (n_events net)"
    and "stream_bytes (n_events net) =
      device_reply dev (read_request (next_transaction_id tid) (nat unit_id) (nat fc) (nat address) (nat quantity)) @ rest"
  shows "let n = nat fc; a = nat address; q = nat quantity; ms = round1 (elapsed * 1000);
      request = read_request (next_transaction_id tid) (nat unit_id) n a q;
      response = device_reply dev request in
    modbus_read host unit_id fc address quantity port eth0_address tid net elapsed =
    Inr (case dv_refuse dev n a q of
        None \<Rightarrow> Read \<lparr>ro_function = the (map_of READ_FUNCTIONS fc), ro_address = a, ro_quantity = q,
          ro_values = device_values dev n a q, ro_request = request, ro_response = response, ro_time_ms = ms\<rparr>
      | Some code \<Rightarrow> Failed (lit ''Modbus exception: '' @ exception_text (Some code)) (Some request) (Some response) ms,
      next_transaction_id tid)"
proof -
  let ?tid = "next_transaction_id tid" and ?n = "nat fc" and ?a = "nat address" and ?q = "nat quantity"
  let ?req = "read_request ?tid (nat unit_id) ?n ?a ?q" and ?body = "device_body dev (nat fc) (nat address) (nat quantity)"
  have c: "fc \<in> {1, 2, 3, 4}" "0 \<le> unit_id" "unit_id \<le> 255" "0 \<le> address" "address \<le> 65535"
    "1 \<le> quantity" "quantity \<le> MAX_QUANTITY fc"
    using assms(1) function_cases [of fc] by (auto simp: read_checks_def split: if_splits)
  then have n: "?n \<in> {1, 2, 3, 4}" "int ?n = fc" "int ?q \<le> MAX_QUANTITY (int ?n)" "1 \<le> ?q" by auto
  have q: "?q < 65536" using c by (auto simp: MAX_QUANTITY_def split: if_splits)
  have t: "?tid < 65536" by (simp add: next_transaction_id_def)
  have reply: "device_reply dev ?req = response_frame ?tid (byte_of (nat unit_id)) ?body"
    using c q t by (intro device_reply_request) auto
  let ?header = "be16 ?tid @ be16 0 @ be16 (length ?body + 1) @ [byte_of (nat unit_id)]"
  have resp: "read_response ?tid ?req (str_int port) elapsed (n_events net) = Inr (Response ?header ?body)"
    using assms(6,7) reply t device_body_length [OF n(4,3)] by (intro read_response_frame) auto
  have hb: "?header @ ?body = device_reply dev ?req" by (simp add: reply response_frame_def)
  have "decode_response ?n ?a ?q ?req elapsed ?header ?body =
     Inr (case dv_refuse dev ?n ?a ?q of
        None \<Rightarrow> Read \<lparr>ro_function = the (map_of READ_FUNCTIONS fc), ro_address = ?a, ro_quantity = ?q,
          ro_values = device_values dev ?n ?a ?q, ro_request = ?req, ro_response = ?header @ ?body,
          ro_time_ms = round1 (elapsed * 1000)\<rparr>
      | Some code \<Rightarrow> Failed (lit ''Modbus exception: '' @ exception_text (Some code)) (Some ?req)
          (Some (?header @ ?body)) (round1 (elapsed * 1000)))"
  proof (cases "dv_refuse dev ?n ?a ?q")
    case None
    from decode_values [OF None n(1) assms(4) n(3) refl] None n(2) show ?thesis by simp
  next
    case (Some code)
    with assms(4) have "code < 256" by (auto simp: device_ok_def)
    with decode_refused [OF Some n(1)] Some show ?thesis by simp
  qed
  then show ?thesis
    using assms(1-3,5) resp unfolding hb by (simp add: modbus_read_def Let_def)
qed

text \<open>No answer makes the client raise.  Whatever the peer sends, in whatever pieces, and wherever
  the socket times out, is refused or breaks, \<open>read\<close> returns a result.\<close>

theorem modbus_read_total:
  assumes "network_ok net"
  shows "\<exists>r tid'. modbus_read host unit_id fc address quantity port eth0_address tid net elapsed = Inr (r, tid')"
proof -
  have se: "n_setup net = Some e \<Longrightarrow> returns (socket_error (str_int port) e)" for e
    using assms socket_error_returns by (simp add: network_ok_def)
  have "returns (modbus_read host unit_id fc address quantity port eth0_address tid net elapsed)"
    unfolding modbus_read_def
    using assms
    by (auto simp: network_ok_def Let_def split: option.split
        intro!: returns_rbind se read_response_returns decode_response_returns
        dest: read_response_body split: exchange.split)
  then show ?thesis by (auto simp: returns_iff)
qed

theorem modbus_read_device_witness:
  "let dev = \<lparr>dv_bit = (\<lambda>_ _. False), dv_register = (\<lambda>_ a. a mod 65536), dv_refuse = (\<lambda>_ _ _. None)\<rparr>;
       reply = response_frame 8 1 (device_body dev 3 100 2);
       net = \<lparr>n_setup = None, n_events = [Chunk (take 5 reply), Chunk (drop 5 reply @ [9])]\<rparr>
   in \<exists>r. modbus_read (lit ''10.0.0.5'') 1 3 100 2 502 (Some (lit ''10.0.0.2/24'')) 7 net 0 = Inr (Read r, 8) \<and>
     ro_values r = Registers [100, 101]"
proof -
  define dev where "dev = \<lparr>dv_bit = (\<lambda>_ _. False), dv_register = (\<lambda>_ a. a mod 65536), dv_refuse = (\<lambda>_ _ _. None)\<rparr>"
  define reply where "reply = response_frame 8 1 (device_body dev 3 100 2)"
  define net where "net = \<lparr>n_setup = None, n_events = [Chunk (take 5 reply), Chunk (drop 5 reply @ [9])]\<rparr>"
  have checks: "read_checks (strip (lit ''10.0.0.5'')) 1 3 100 2 502 = None"
    by (simp add: read_checks_def READ_FUNCTIONS_def MAX_QUANTITY_def strip_def lstrip_def rstrip_def
        lit_def is_space_def)
  have ip: "eth0_source_ip (Some (lit ''10.0.0.2/24'')) = Some (lit ''10.0.0.2'')"
    by (simp add: eth0_source_ip_def lit_def)
  have ok: "device_ok dev" by (simp add: device_ok_def dev_def)
  have "reply \<noteq> []" by (simp add: reply_def response_frame_def be16_def)
  then have clean: "clean (n_events net)" by (simp add: net_def)
  have "device_reply dev (read_request 8 1 3 100 2) = reply"
    by (subst device_reply_request) (simp_all add: reply_def byte_of_def)
  then have sb: "stream_bytes (n_events net) =
      device_reply dev (read_request (next_transaction_id 7) (nat 1) (nat 3) (nat 100) (nat 2)) @ [9]"
    by (simp add: net_def next_transaction_id_def)
  have "net = net" ..
  with modbus_read_device [OF checks ip _ ok _ clean sb, of 0]
  have "\<exists>r. modbus_read (lit ''10.0.0.5'') 1 3 100 2 502 (Some (lit ''10.0.0.2/24'')) 7 net 0 = Inr (Read r, 8) \<and>
     ro_values r = Registers [100, 101]"
    by (simp add: net_def dev_def Let_def next_transaction_id_def device_values_def upt_conv_Cons)
  then show ?thesis unfolding net_def reply_def dev_def Let_def .
qed

theorem modbus_read_total_witness:
  "\<exists>r tid'. modbus_read (lit ''10.0.0.5'') 1 3 0 1 502 (Some (lit ''10.0.0.2/24'')) 7
     \<lparr>n_setup = None, n_events = [Chunk [0, 8, 0], Raise SocketTimeout]\<rparr> 3 = Inr (r, tid')"
  by (rule modbus_read_total) (simp add: network_ok_def raises_def)

end
