(* ===== verification/Modbus_Device_Id.thy ===== *)
theory Modbus_Device_Id
  imports Modbus_Client
begin

text \<open>
  \<open>read_device_identification\<close> of \<open>backend/tools/modbus.py\<close> (function 43, MEI type 14): the device's
  objects are collected over at most eight requests on one connection.  What arrives after a request is a
  function of all requests sent on the connection so far; bytes left over from an earlier answer come first.  A
  raising \<open>sendall\<close> inside the loop is the exception at the next read of the event list: both reach the same
  handlers with the request already built.
\<close>

record id_network =
  in_setup :: "exn option"
  in_answers :: "bytes list \<Rightarrow> event list"

datatype id_result =
    IdFailed read_result
  | IdUnsupported pystr bytes bytes real
  | IdObjects "(pystr, pystr) dict" real

definition DEVICE_ID_OBJECT_NAMES :: "(nat, pystr) dict" where
  "DEVICE_ID_OBJECT_NAMES = [(0, lit ''vendor_name''), (1, lit ''product_code''),
     (2, lit ''major_minor_revision''), (3, lit ''vendor_url''), (4, lit ''product_name''),
     (5, lit ''model_name''), (6, lit ''user_application_name'')]"

definition object_name :: "nat \<Rightarrow> pystr" where
  "object_name obj_id =
     (case map_of DEVICE_ID_OBJECT_NAMES obj_id of Some n \<Rightarrow> n | None \<Rightarrow> lit ''object_'' @ dec obj_id)"

definition id_request :: "nat \<Rightarrow> nat \<Rightarrow> byte \<Rightarrow> bytes" where
  "id_request tid unit_id object_id =
     (let pdu = [0x2B, 0x0E, 0x02, object_id] in
      be16 tid @ be16 0 @ be16 (length pdu + 1) @ [byte_of unit_id] @ pdu)"

text \<open>\<open>for _ in range(number_of_objects)\<close>\<close>

fun id_objects :: "nat \<Rightarrow> nat \<Rightarrow> bytes \<Rightarrow> (pystr, pystr) dict \<Rightarrow> (pystr, pystr) dict" where
  "id_objects 0 offset body objects = objects"
| "id_objects (Suc n) offset body objects =
     (if length body < offset + 2 then objects
      else let obj_id = unat (body ! offset);
               obj_len = unat (body ! (offset + 1));
               obj_value = py_slice body (offset + 2) (offset + 2 + obj_len)
           in id_objects n (offset + 2 + obj_len) body
                (AList.update (object_name obj_id) (ascii_decode obj_value) objects))"

text \<open>One response: stop with a result, or go on with the objects read and the next object id.\<close>

datatype id_step = Stop id_result | More "(pystr, pystr) dict" "byte option"

definition id_decode ::
  "bytes \<Rightarrow> real \<Rightarrow> bytes \<Rightarrow> bytes \<Rightarrow> byte \<Rightarrow> (pystr, pystr) dict \<Rightarrow> exn + id_step" where
  "id_decode request elapsed header body object_id objects =
     rbind (byte_at body 0) (\<lambda>resp_fc.
       if 128 \<le> unat resp_fc then
         Inr (Stop (IdUnsupported (lit ''Device Identification not supported ('' @
             exception_text (if 1 < length body then Some (unat (body ! 1)) else None) @ lit '')'')
           request (header @ body) (round1 (elapsed * 1000))))
       else if resp_fc \<noteq> 0x2B \<or> length body < 7 \<or> body ! 1 \<noteq> 0x0E then
         Inr (Stop (IdFailed (read_error (lit ''malformed device identification response'')
           (Some request) elapsed (Some header) (Some body))))
       else
         rbind (byte_at body 4) (\<lambda>more_follows.
         rbind (byte_at body 5) (\<lambda>next_object_id.
         rbind (byte_at body 6) (\<lambda>number_of_objects.
           let objects' = id_objects (unat number_of_objects) 7 body objects in
           if more_follows \<noteq> 0xFF \<or> next_object_id = object_id then Inr (More objects' None)
           else Inr (More objects' (Some next_object_id))))))"

text \<open>One exchange on the open connection; the rest of the events is returned.\<close>

definition id_exchange ::
  "nat \<Rightarrow> bytes \<Rightarrow> pystr \<Rightarrow> real \<Rightarrow> event list \<Rightarrow> exn + exchange \<times> event list" where
  "id_exchange tid request port_text elapsed es =
     (let failed = (\<lambda>e. rbind (socket_error port_text e)
            (\<lambda>m. Inr (Early (read_error m (Some request) elapsed None None), []))) in
      case recv_exact 7 es of
        Inl e \<Rightarrow> failed e
      | Inr (None, es1) \<Rightarrow>
          Inr (Early (read_error (lit ''no response (connection closed)'') (Some request) elapsed None None), es1)
      | Inr (Some header, es1) \<Rightarrow>
          rbind (unpack_H (py_slice header 0 2)) (\<lambda>resp_tid.
          rbind (unpack_H (py_slice header 4 6)) (\<lambda>resp_length.
            if resp_tid \<noteq> tid then
              Inr (Early (read_error (lit ''unexpected transaction ID in response'') (Some request) elapsed
                (Some header) None), es1)
            else (case recv_exact (int resp_length - 1) es1 of
                Inl e \<Rightarrow> failed e
              | Inr (body, es2) \<Rightarrow> Inr (body_exchange request elapsed header body, es2)))))"

fun id_loop ::
  "(bytes list \<Rightarrow> event list) \<Rightarrow> nat \<Rightarrow> nat \<Rightarrow> pystr \<Rightarrow> real \<Rightarrow> byte \<Rightarrow> (pystr, pystr) dict \<Rightarrow> nat \<Rightarrow> bytes list \<Rightarrow>
    event list \<Rightarrow> exn + id_result \<times> nat" where
  "id_loop answers 0 unit_id port_text elapsed object_id objects tid sent es =
     Inr (IdObjects objects (round1 (elapsed * 1000)), tid)"
| "id_loop answers (Suc n) unit_id port_text elapsed object_id objects tid sent es =
     (let tid' = next_transaction_id tid;
          request = id_request tid' unit_id object_id;
          sent' = sent @ [request]
      in rbind (id_exchange tid' request port_text elapsed (es @ answers sent')) (\<lambda>(x, es').
           case x of
             Early r \<Rightarrow> Inr (IdFailed r, tid')
           | Response header body \<Rightarrow>
               rbind (id_decode request elapsed header body object_id objects) (\<lambda>step.
                 case step of
                   Stop r \<Rightarrow> Inr (r, tid')
                 | More objects' None \<Rightarrow> Inr (IdObjects objects' (round1 (elapsed * 1000)), tid')
                 | More objects' (Some next) \<Rightarrow>
                     id_loop answers n unit_id port_text elapsed next objects' tid' sent' es')))"

definition id_checks :: "pystr \<Rightarrow> int \<Rightarrow> int \<Rightarrow> pystr option" where
  "id_checks host unit_id port =
     (if host = [] then Some (lit ''host is required'')
      else if \<not> (0 \<le> unit_id \<and> unit_id \<le> 255) then Some (lit ''unit ID must be 0-255'')
      else if \<not> (1 \<le> port \<and> port \<le> 65535) then Some (lit ''port must be 1-65535'')
      else None)"

definition read_device_identification ::
  "pystr \<Rightarrow> int \<Rightarrow> int \<Rightarrow> pystr option \<Rightarrow> nat \<Rightarrow> id_network \<Rightarrow> real \<Rightarrow> exn + id_result \<times> nat" where
  "read_device_identification host unit_id port eth0_address tid net elapsed =
     (case id_checks (strip host) unit_id port of
        Some message \<Rightarrow> Inr (IdFailed (Refused message), tid)
      | None \<Rightarrow>
          (case eth0_source_ip eth0_address of
             None \<Rightarrow> Inr (IdFailed (Refused no_source_ip), tid)
           | Some source_ip \<Rightarrow>
               if source_ip = [] then Inr (IdFailed (Refused no_source_ip), tid)
               else (case in_setup net of
                   Some e \<Rightarrow> rbind (socket_error (str_int port) e)
                     (\<lambda>m. Inr (IdFailed (read_error m None elapsed None None), tid))
                 | None \<Rightarrow> id_loop (in_answers net) 8 (nat unit_id) (str_int port) elapsed 0 [] tid [] [])))"

section \<open>A device's identification\<close>

type_synonym id_page = "(byte \<times> bytes) list"

definition id_object_bytes :: "byte \<times> bytes \<Rightarrow> bytes" where
  "id_object_bytes ob = [fst ob, byte_of (length (snd ob))] @ snd ob"

definition id_page_ok :: "id_page \<Rightarrow> bool" where
  "id_page_ok page \<longleftrightarrow> length page < 256 \<and> list_all (\<lambda>ob. length (snd ob) < 256) page \<and>
     length (concat (map id_object_bytes page)) < 65000"

definition id_page_body :: "byte option \<Rightarrow> id_page \<Rightarrow> bytes" where
  "id_page_body next page =
     [0x2B, 0x0E, 0x02, 0x82, (if next = None then 0 else 0xFF), (case next of None \<Rightarrow> 0 | Some i \<Rightarrow> i),
      byte_of (length page)] @ concat (map id_object_bytes page)"

definition id_app :: "byte \<times> bytes \<Rightarrow> (pystr, pystr) dict \<Rightarrow> (pystr, pystr) dict" where
  "id_app ob d = AList.update (object_name (unat (fst ob))) (ascii_decode (snd ob)) d"

lemma id_object_bytes_pair: "id_object_bytes (i, v) = [i, byte_of (length v)] @ v"
  by (simp add: id_object_bytes_def)

lemma id_objects_page:
  "list_all (\<lambda>ob. length (snd ob) < 256) page \<Longrightarrow>
   id_objects (length page) (length pre) (pre @ concat (map id_object_bytes page)) d = fold id_app page d"
proof (induction page arbitrary: pre d)
  case (Cons ob page)
  obtain i v where ob: "ob = (i, v)" by (cases ob)
  let ?more = "concat (map id_object_bytes page)"
  let ?b = "pre @ [i, byte_of (length v)] @ v @ ?more"
  have nth: "?b ! length pre = i" "?b ! (length pre + 1) = byte_of (length v)" by (simp_all add: nth_append)
  have len: "unat (byte_of (length v)) = length v" using Cons.prems ob by simp
  have slice: "py_slice ?b (length pre + 2) (length pre + 2 + length v) = v"
    using slice_mid [of "length pre + 2" "pre @ [i, byte_of (length v)]" "length pre + 2 + length v" v ?more]
    by simp
  have "id_objects (Suc (length page)) (length pre) ?b d =
      id_objects (length page) (length pre + 2 + length v) ?b (id_app ob d)"
    unfolding id_objects.simps Let_def nth len slice by (simp add: ob id_app_def)
  also have "\<dots> = id_objects (length page) (length (pre @ id_object_bytes ob)) ((pre @ id_object_bytes ob) @ ?more) (id_app ob d)"
    by (simp add: ob id_object_bytes_pair)
  also have "\<dots> = fold id_app page (id_app ob d)"
    using Cons.prems by (intro Cons.IH) simp
  finally have "id_objects (Suc (length page)) (length pre) ?b d = fold id_app (ob # page) d" by simp
  moreover have "pre @ concat (map id_object_bytes (ob # page)) = ?b" by (simp add: ob id_object_bytes_pair)
  ultimately show ?case by (simp only: list.size add_0 plus_1_eq_Suc add_Suc_right add_0_right)
qed simp

lemma id_decode_page:
  assumes "id_page_ok page" and "nx \<noteq> Some oid"
  shows "id_decode request elapsed header (id_page_body nx page) oid d = Inr (More (fold id_app page d) nx)"
proof -
  let ?b = "id_page_body nx page"
  let ?pre = "[0x2B, 0x0E, 0x02, 0x82, (if nx = None then 0 else 0xFF), (case nx of None \<Rightarrow> 0 | Some i \<Rightarrow> i),
      byte_of (length page)]"
  have b: "?b = ?pre @ concat (map id_object_bytes page)" by (simp add: id_page_body_def)
  have "id_objects (length page) (length ?pre) ?b d = fold id_app page d"
    unfolding b using assms(1) by (intro id_objects_page) (simp add: id_page_ok_def)
  moreover have "length ?pre = 7" by simp
  ultimately have o: "id_objects (length page) 7 ?b d = fold id_app page d" by (simp only:)
  have n: "unat (byte_of (length page)) = length page" using assms(1) by (simp add: id_page_ok_def)
  have rd: "byte_at ?b 0 = Inr 0x2B" "byte_at ?b 4 = Inr (if nx = None then 0 else 0xFF)"
    "byte_at ?b 5 = Inr (case nx of None \<Rightarrow> 0 | Some i \<Rightarrow> i)" "byte_at ?b 6 = Inr (byte_of (length page))"
    "?b ! 1 = 0x0E" "\<not> length ?b < 7"
    by (simp_all add: id_page_body_def byte_at_def)
  show ?thesis
    using assms(2) unfolding id_decode_def rd rbind_simps n o Let_def
    using rd(5,6) by (auto split: option.split)
qed

text \<open>A device has objects in ascending order of their ids.  Asked for an object, it answers with a page of those
  from this id on, as many as it puts into one answer (at least one), and says whether more follow, and with
  which id; to anything but a request for its objects it answers \<open>Illegal Function\<close>.\<close>

record id_device =
  iv_objects :: "(byte \<times> bytes) list"
  iv_per_page :: "(byte \<times> bytes) list \<Rightarrow> nat"

definition page_size :: "id_device \<Rightarrow> (byte \<times> bytes) list \<Rightarrow> nat" where
  "page_size dev objs = Suc (iv_per_page dev objs)"

definition id_serve :: "id_device \<Rightarrow> byte \<Rightarrow> bytes" where
  "id_serve dev oid =
     (let objs = dropWhile (\<lambda>ob. fst ob < oid) (iv_objects dev); n = page_size dev objs
      in id_page_body (if length objs \<le> n then None else Some (fst (objs ! n))) (take n objs))"

definition id_device_reply :: "id_device \<Rightarrow> bytes \<Rightarrow> bytes" where
  "id_device_reply dev request =
     response_frame (nat16 (take 2 request)) (request ! 6)
       (if length request = 11 \<and> py_slice request 2 6 = [0, 0, 0, 5] \<and> py_slice request 7 10 = [0x2B, 0x0E, 0x02]
        then id_serve dev (request ! 10) else [byte_of (unat (request ! 7) + 128), 1])"

text \<open>Whatever was sent before, the network brings the device's answer to the last request, in any pieces.\<close>

definition brings_replies :: "(bytes list \<Rightarrow> event list) \<Rightarrow> id_device \<Rightarrow> bool" where
  "brings_replies answers dev \<longleftrightarrow>
     (\<forall>sent request. clean (answers (sent @ [request])) \<and>
        stream_bytes (answers (sent @ [request])) = id_device_reply dev request)"

definition id_device_ok :: "id_device \<Rightarrow> bool" where
  "id_device_ok dev \<longleftrightarrow> sorted_wrt (<) (map fst (iv_objects dev)) \<and> id_page_ok (iv_objects dev)"

text \<open>How many pages the device needs for the objects that are left.\<close>

function pages_needed :: "id_device \<Rightarrow> (byte \<times> bytes) list \<Rightarrow> nat" where
  "pages_needed dev objs =
     (if length objs \<le> page_size dev objs then 1 else Suc (pages_needed dev (drop (page_size dev objs) objs)))"
  by pat_completeness auto
termination by (relation "measure (\<lambda>(dev, objs). length objs)") (auto simp: page_size_def)

declare pages_needed.simps [simp del]

lemma id_device_reply_request:
  assumes "tid < 65536"
  shows "id_device_reply dev (id_request tid unit_id oid) = response_frame tid (byte_of unit_id) (id_serve dev oid)"
proof -
  have "id_request tid unit_id oid = be16 tid @ [0, 0, 0, 5, byte_of unit_id, 0x2B, 0x0E, 0x02, oid]"
    by (simp add: id_request_def be16_def byte_of_def)
  moreover have "length (be16 tid) = 2" by (simp add: be16_def)
  ultimately show ?thesis using assms by (simp add: id_device_reply_def py_slice_def nth_append)
qed

lemma id_exchange_frame:
  assumes "clean es" and "stream_bytes es = response_frame tid unit body @ rest"
    and "tid < 65536" and "body \<noteq> []" and "length body < 65535"
  shows "\<exists>es'. id_exchange tid request pt elapsed es =
    Inr (Response (be16 tid @ be16 0 @ be16 (length body + 1) @ [unit]) body, es') \<and>
    clean es' \<and> stream_bytes es' = rest"
proof -
  let ?h = "be16 tid @ be16 0 @ be16 (length body + 1) @ [unit]"
  have "stream_bytes es = ?h @ body @ rest" using assms(2) by (simp add: response_frame_def)
  then obtain es1 where 1: "recv_exact 7 es = Inr (Some ?h, es1)" "clean es1" "stream_bytes es1 = body @ rest"
    using recv_exact_enough [OF assms(1), of 7] by auto
  then obtain es2 where 2: "recv_exact (int (length body + 1) - 1) es1 = Inr (Some body, es2)" "clean es2"
    "stream_bytes es2 = rest"
    using recv_exact_enough [OF 1(2), of "int (length body)"] by auto
  have "py_slice ?h 0 2 = be16 tid" "py_slice ?h 4 6 = be16 (length body + 1)"
    by (simp_all add: be16_def py_slice_def)
  moreover obtain b bs where "body = b # bs" using assms(4) by (cases body) auto
  ultimately show ?thesis
    using 1 2 assms(3-5) by (simp add: id_exchange_def body_exchange_def Let_def)
qed

text \<open>Asked for the first of the objects that are left, the device serves a page of them.\<close>

lemma dropWhile_ids:
  fixes objs :: "(byte \<times> bytes) list"
  assumes "sorted_wrt (<) (map fst objs)" and "objs = before @ ob # rest"
  shows "dropWhile (\<lambda>x. fst x < fst ob) objs = ob # rest"
proof -
  have "\<forall>x \<in> set before. fst x < fst ob" using assms by (auto simp: sorted_wrt_append)
  then show ?thesis unfolding assms(2) by (simp add: dropWhile_append)
qed

lemma id_serve_rest:
  assumes "sorted_wrt (<) (map fst (iv_objects dev))" and "iv_objects dev = before @ objs"
    and "objs = [] \<longrightarrow> before = []" and "before \<noteq> [] \<longrightarrow> oid = fst (hd objs)" and "before = [] \<longrightarrow> oid = 0"
  shows "id_serve dev oid = id_page_body
    (if length objs \<le> page_size dev objs then None else Some (fst (objs ! page_size dev objs)))
    (take (page_size dev objs) objs)"
proof -
  have "dropWhile (\<lambda>ob. fst ob < oid) (iv_objects dev) = objs"
  proof (cases "before = []")
    case True
    then show ?thesis using assms by (cases objs) auto
  next
    case False
    then obtain ob rest where "objs = ob # rest" using assms(3) by (cases objs) auto
    with False assms show ?thesis using dropWhile_ids by simp
  qed
  then show ?thesis by (simp add: id_serve_def Let_def)
qed

lemma id_page_ok_part:
  assumes "id_page_ok (before @ objs)"
  shows "id_page_ok (take n objs)"
proof -
  have "length (concat (map id_object_bytes (take n objs))) \<le> length (concat (map id_object_bytes objs))"
    by (metis append_take_drop_id concat_append le_add1 length_append map_append)
  moreover have "length (concat (map id_object_bytes objs)) < 65000" using assms by (simp add: id_page_ok_def)
  ultimately have "length (concat (map id_object_bytes (take n objs))) < 65000" by (rule le_less_trans)
  then show ?thesis using assms by (auto simp: id_page_ok_def list_all_iff dest: in_set_takeD)
qed

lemma id_serve_length: "id_page_ok page \<Longrightarrow> id_page_body nx page \<noteq> [] \<and> length (id_page_body nx page) < 65535"
  by (auto simp: id_page_body_def id_page_ok_def)

lemma clean_append: "clean es \<Longrightarrow> clean (es @ es') = clean es'"
  and stream_bytes_append: "clean es \<Longrightarrow> stream_bytes (es @ es') = stream_bytes es @ stream_bytes es'"
  by (induction es rule: clean.induct) simp_all

text \<open>One round: the device's page is read, and nothing is left over.\<close>

lemma id_round:
  assumes "brings_replies answers dev" and "id_serve dev oid = id_page_body nx page" and "id_page_ok page"
    and "nx \<noteq> Some oid" and "clean es" and "stream_bytes es = []"
  obtains es' where "clean es'" and "stream_bytes es' = []"
    and "id_loop answers (Suc n) unit_id pt elapsed oid d tid sent es =
      (case nx of
         None \<Rightarrow> Inr (IdObjects (fold id_app page d) (round1 (elapsed * 1000)), next_transaction_id tid)
       | Some i \<Rightarrow> id_loop answers n unit_id pt elapsed i (fold id_app page d) (next_transaction_id tid)
           (sent @ [id_request (next_transaction_id tid) unit_id oid]) es')"
proof -
  let ?tid = "next_transaction_id tid"
  let ?req = "id_request ?tid unit_id oid" and ?body = "id_page_body nx page"
  let ?es = "es @ answers (sent @ [?req])"
  have t: "?tid < 65536" by (simp add: next_transaction_id_def)
  have "clean ?es" "stream_bytes ?es = response_frame ?tid (byte_of unit_id) ?body @ []"
    using assms(1,5,6) id_device_reply_request [OF t] by (simp_all add: brings_replies_def assms(2) clean_append stream_bytes_append)
  from id_exchange_frame [OF this t] id_serve_length [OF assms(3)]
  obtain es' where "id_exchange ?tid ?req pt elapsed ?es = Inr (Response (be16 ?tid @ be16 0 @
      be16 (length ?body + 1) @ [byte_of unit_id]) ?body, es')" "clean es'" "stream_bytes es' = []"
    by metis
  with that id_decode_page [OF assms(3,4)] show ?thesis by (simp add: Let_def split: option.split)
qed

lemma id_loop_pages:
  assumes "brings_replies answers dev" and "id_device_ok dev"
  shows "iv_objects dev = before @ objs \<Longrightarrow> (objs = [] \<longrightarrow> before = []) \<Longrightarrow> (before \<noteq> [] \<longrightarrow> oid = fst (hd objs)) \<Longrightarrow>
    (before = [] \<longrightarrow> oid = 0) \<Longrightarrow> pages_needed dev objs \<le> n \<Longrightarrow> clean es \<Longrightarrow> stream_bytes es = [] \<Longrightarrow>
    id_loop answers n unit_id pt elapsed oid d tid sent es =
      Inr (IdObjects (fold id_app objs d) (round1 (elapsed * 1000)),
        (next_transaction_id ^^ pages_needed dev objs) tid)"
proof (induction "length objs" arbitrary: before objs oid n d tid sent es rule: less_induct)
  case less
  let ?k = "page_size dev objs"
  let ?nx = "if length objs \<le> ?k then None else Some (fst (objs ! ?k))"
  have sorted: "sorted_wrt (<) (map fst (iv_objects dev))" using assms(2) by (simp add: id_device_ok_def)
  have serve: "id_serve dev oid = id_page_body ?nx (take ?k objs)"
    using id_serve_rest [OF sorted less.prems(1-4)] .
  have ok: "id_page_ok (take ?k objs)" using assms(2) less.prems(1) by (intro id_page_ok_part [of before]) (simp add: id_device_ok_def)
  have k: "0 < ?k" by (simp add: page_size_def)
  have nx: "?nx \<noteq> Some oid"
  proof (cases "length objs \<le> ?k")
    case False
    then obtain ob rest where objs: "objs = ob # rest" and len: "?k < length objs" by (cases objs) auto
    have "fst ob < fst (objs ! ?k)"
      using sorted k len unfolding less.prems(1) objs by (auto simp: sorted_wrt_append nth_Cons' list_all_iff)
    moreover have "oid = fst ob \<or> oid = 0" using less.prems(3,4) objs by auto
    ultimately show ?thesis using False by (auto simp: word_le_less_eq)
  qed simp
  obtain m where n: "n = Suc m" using less.prems(5) by (cases n) (simp_all add: pages_needed.simps [of dev objs] split: if_splits)
  obtain es' where es': "clean es'" "stream_bytes es' = []" and loop:
    "id_loop answers (Suc m) unit_id pt elapsed oid d tid sent es =
      (case ?nx of
         None \<Rightarrow> Inr (IdObjects (fold id_app (take ?k objs) d) (round1 (elapsed * 1000)), next_transaction_id tid)
       | Some i \<Rightarrow> id_loop answers m unit_id pt elapsed i (fold id_app (take ?k objs) d) (next_transaction_id tid)
           (sent @ [id_request (next_transaction_id tid) unit_id oid]) es')"
    using id_round [OF assms(1) serve ok nx less.prems(6,7)] by blast
  show ?case
  proof (cases "length objs \<le> ?k")
    case True
    then show ?thesis using loop by (simp add: n pages_needed.simps [of dev objs])
  next
    case False
    let ?rest = "drop ?k objs"
    have needed: "pages_needed dev objs = Suc (pages_needed dev ?rest)"
      using False by (simp add: pages_needed.simps [of dev objs])
    have hd: "hd ?rest = objs ! ?k" using False by (simp add: hd_drop_conv_nth)
    have "id_loop answers m unit_id pt elapsed (fst (objs ! ?k)) (fold id_app (take ?k objs) d)
        (next_transaction_id tid) (sent @ [id_request (next_transaction_id tid) unit_id oid]) es' =
      Inr (IdObjects (fold id_app ?rest (fold id_app (take ?k objs) d)) (round1 (elapsed * 1000)),
        (next_transaction_id ^^ pages_needed dev ?rest) (next_transaction_id tid))"
    proof (rule less.hyps [of ?rest "before @ take ?k objs"])
      show "length ?rest < length objs" using False k by simp
      show "iv_objects dev = (before @ take ?k objs) @ ?rest" using less.prems(1) by simp
      show "?rest = [] \<longrightarrow> before @ take ?k objs = []" using False by simp
      show "before @ take ?k objs \<noteq> [] \<longrightarrow> fst (objs ! ?k) = fst (hd ?rest)" using hd by simp
      show "before @ take ?k objs = [] \<longrightarrow> fst (objs ! ?k) = 0" using False k by auto
      show "pages_needed dev ?rest \<le> m" using less.prems(5) needed n by simp
    qed (rule es')+
    moreover have "fold id_app ?rest (fold id_app (take ?k objs) d) = fold id_app objs d"
      by (metis append_take_drop_id fold_append comp_apply)
    ultimately show ?thesis using loop False by (simp add: n needed funpow_swap1)
  qed
qed

text \<open>The name of an object in the standard, and the report of a list of objects with different ids.\<close>

definition standard_name :: "nat \<Rightarrow> pystr" where
  "standard_name i =
     (if i < 7 then [lit ''vendor_name'', lit ''product_code'', lit ''major_minor_revision'', lit ''vendor_url'',
        lit ''product_name'', lit ''model_name'', lit ''user_application_name''] ! i
      else lit ''object_'' @ dec i)"

lemma object_name_standard: "object_name i = standard_name i"
proof (cases "i < 7")
  case True
  then have "i \<in> {0, 1, 2, 3, 4, 5, 6}" by auto
  then show ?thesis by (elim insertE) (simp_all add: object_name_def standard_name_def DEVICE_ID_OBJECT_NAMES_def)
qed (auto simp: object_name_def standard_name_def DEVICE_ID_OBJECT_NAMES_def)

lemma standard_name_inj: "standard_name i = standard_name j \<longleftrightarrow> i = j"
proof (cases "i < 7 \<or> j < 7")
  case True
  have "i \<in> {0, 1, 2, 3, 4, 5, 6} \<or> 7 \<le> i" "j \<in> {0, 1, 2, 3, 4, 5, 6} \<or> 7 \<le> j" by auto
  with True show ?thesis by (elim disjE insertE) (simp_all add: standard_name_def lit_def)
qed (simp add: standard_name_def)

lemma fold_id_app:
  "distinct (map fst d0 @ map (\<lambda>ob. standard_name (unat (fst ob))) objs) \<Longrightarrow>
    fold id_app objs d0 = d0 @ map (\<lambda>ob. (standard_name (unat (fst ob)), ascii_decode (snd ob))) objs"
proof (induction objs arbitrary: d0)
  case (Cons ob objs)
  have "id_app ob d0 = d0 @ [(standard_name (unat (fst ob)), ascii_decode (snd ob))]"
    using Cons.prems by (simp add: id_app_def object_name_standard update_new map_of_eq_None_iff)
  with Cons show ?case by simp
qed simp

section \<open>Properties\<close>

text \<open>C17: device identification.  For every device that has its objects in ascending order and answers the
  requests it is sent with pages of any sizes, at most eight, and however the network cuts its answers,
  exactly its objects are reported, in order and under their standard names where they have one, and one
  transaction id is used per page.\<close>

theorem device_id_collects_pages:
  assumes "id_checks (strip host) unit_id port = None"
    and "eth0_source_ip eth0_address = Some ip" and "ip \<noteq> []"
    and "in_setup net = None" and "brings_replies (in_answers net) dev"
    and "id_device_ok dev" and "pages_needed dev (iv_objects dev) \<le> 8"
  shows "read_device_identification host unit_id port eth0_address tid net elapsed =
    Inr (IdObjects (map (\<lambda>(i, v). (standard_name (unat i), ascii_decode v)) (iv_objects dev)) (round1 (elapsed * 1000)),
      (next_transaction_id ^^ pages_needed dev (iv_objects dev)) tid)"
proof -
  have "distinct (map fst (iv_objects dev))"
    using assms(6) by (simp add: id_device_ok_def strict_sorted_iff)
  moreover have "inj_on (\<lambda>i. standard_name (unat i)) A" for A :: "byte set"
    by (auto simp: inj_on_def standard_name_inj intro: word_unat_eq_iff [THEN iffD2])
  ultimately have "distinct (map (\<lambda>i. standard_name (unat i)) (map fst (iv_objects dev)))"
    by (simp only: distinct_map simp_thms)
  then have "distinct (map (\<lambda>ob. standard_name (unat (fst ob))) (iv_objects dev))" by (simp add: comp_def)
  then have "fold id_app (iv_objects dev) [] =
      map (\<lambda>(i, v). (standard_name (unat i), ascii_decode v)) (iv_objects dev)"
    using fold_id_app [of "[]" "iv_objects dev"] by (simp add: split_def)
  with id_loop_pages [OF assms(5,6), of "[]" "iv_objects dev" 0 8] assms(1-4,7) show ?thesis
    by (simp add: read_device_identification_def)
qed

text \<open>A device with three objects, two to a page.\<close>

definition id_device_sample :: id_device where
  "id_device_sample = \<lparr>iv_objects = [(0, [0x41, 0x42]), (1, [0x31]), (2, [0x76])], iv_per_page = (\<lambda>objs. 1)\<rparr>"

definition id_network_sample :: id_network where
  "id_network_sample = \<lparr>in_setup = None,
     in_answers = (\<lambda>sent. if sent = [] then [] else [Chunk (id_device_reply id_device_sample (last sent))])\<rparr>"

theorem device_id_collects_pages_witness:
  "read_device_identification (lit ''10.0.0.5'') 1 502 (Some (lit ''10.0.0.2/24'')) 4 id_network_sample 0 =
   Inr (IdObjects [(lit ''vendor_name'', [0x41, 0x42]), (lit ''product_code'', [0x31]),
     (lit ''major_minor_revision'', [0x76])] (round1 0), 6)"
proof -
  have checks: "id_checks (strip (lit ''10.0.0.5'')) 1 502 = None"
    by (simp add: id_checks_def strip_def lstrip_def rstrip_def lit_def is_space_def)
  have ip: "eth0_source_ip (Some (lit ''10.0.0.2/24'')) = Some (lit ''10.0.0.2'')"
    by (simp add: eth0_source_ip_def lit_def)
  have net: "in_setup id_network_sample = None" "brings_replies (in_answers id_network_sample) id_device_sample"
    by (simp_all add: id_network_sample_def brings_replies_def id_device_reply_def response_frame_def be16_def)
  have ok: "id_device_ok id_device_sample"
    by (simp add: id_device_ok_def id_device_sample_def id_page_ok_def id_object_bytes_def)
  have pages: "pages_needed id_device_sample (iv_objects id_device_sample) = Suc (Suc 0)"
    by (simp add: pages_needed.simps page_size_def id_device_sample_def)
  from device_id_collects_pages [OF checks ip _ net ok, of 4 0] show ?thesis
    by (simp add: pages) (simp add: id_device_sample_def standard_name_def ascii_decode_def next_transaction_id_def)
qed

end
