(* ===== verification/Modbus_Register_Scan.thy ===== *)
theory Modbus_Register_Scan
  imports Modbus_Client
begin

text \<open>
  \<open>backend/tools/modbus_register_scan.py\<close>: which addresses of a range can be read.  \<open>_probe\<close> reads a
  block and halves it where the device answers with an exception; a range above the function's limit
  is cut into chunks first.  The state is the module's \<open>_state\<close> paired with the outside world \<open>'w\<close>:
  \<open>rd\<close> is \<open>modbus.read\<close> reduced to what the scan uses of its result, \<open>env\<close> is anything other threads
  do to both (a \<open>stop\<close>, a new \<open>start\<close>) while the scan thread waits for the answer and sleeps.
\<close>

datatype probe_result = Good | Bad pystr

record segment =
  g_start :: nat
  g_end :: nat
  g_readable :: "bool option"
  g_message :: "pystr option"

record reg_scan =
  rs_running :: bool
  rs_host :: "pystr option"
  rs_register_type :: "pystr option"
  rs_unit_id :: "int option"
  rs_start_address :: "int option"
  rs_end_address :: "int option"
  rs_scan_id :: nat
  rs_segments :: "segment list"
  rs_progress :: nat
  rs_total :: nat

definition reg_scan0 :: reg_scan where
  "reg_scan0 = \<lparr>rs_running = False, rs_host = None, rs_register_type = None, rs_unit_id = None,
     rs_start_address = None, rs_end_address = None, rs_scan_id = 0, rs_segments = [], rs_progress = 0,
     rs_total = 0\<rparr>"

definition MAX_RANGE_SIZE :: int where
  "MAX_RANGE_SIZE = 10000"

definition RS_MAX_QUANTITY :: "nat \<Rightarrow> nat" where
  "RS_MAX_QUANTITY fc = (if fc = 1 \<or> fc = 2 then 2000 else 125)"

definition REGISTER_TYPES :: "(pystr, nat) dict" where
  "REGISTER_TYPES = [(lit ''coils'', 1), (lit ''discrete_inputs'', 2), (lit ''holding_registers'', 3),
     (lit ''input_registers'', 4)]"

definition rs_bump_progress :: "nat \<Rightarrow> nat \<Rightarrow> reg_scan \<Rightarrow> reg_scan" where
  "rs_bump_progress scan_id n st =
     (if rs_scan_id st = scan_id then st\<lparr>rs_progress := rs_progress st + n\<rparr> else st)"

definition rs_stopped :: "nat \<Rightarrow> reg_scan \<Rightarrow> bool" where
  "rs_stopped scan_id st \<longleftrightarrow> rs_scan_id st \<noteq> scan_id"

text \<open>The world of a scan thread.\<close>

record 'w scan_world =
  sw_read :: "nat \<Rightarrow> nat \<Rightarrow> 'w \<Rightarrow> probe_result \<times> 'w"
  sw_env :: "reg_scan \<times> 'w \<Rightarrow> reg_scan \<times> 'w"

text \<open>\<open>probe W fc id a n\<close> is \<open>_probe\<close> of the block from address \<open>a\<close> to \<open>a + n\<close>, so \<open>n + 1\<close> is its quantity
  (never zero, as in the source); \<open>probe_chunks W fc id pos r\<close> is the loop \<open>while pos <= end\<close> with \<open>r\<close>
  addresses left.\<close>

function probe :: "'w scan_world \<Rightarrow> nat \<Rightarrow> nat \<Rightarrow> nat \<Rightarrow> nat \<Rightarrow> reg_scan \<times> 'w \<Rightarrow> segment list \<times> (reg_scan \<times> 'w)"
  and probe_chunks :: "'w scan_world \<Rightarrow> nat \<Rightarrow> nat \<Rightarrow> nat \<Rightarrow> nat \<Rightarrow> reg_scan \<times> 'w \<Rightarrow> segment list \<times> (reg_scan \<times> 'w)"
where
  "probe W fc scan_id start n s =
     (if rs_stopped scan_id (fst s) then
        ([\<lparr>g_start = start, g_end = start + n, g_readable = None, g_message = Some (lit ''stopped'')\<rparr>], s)
      else let quantity = n + 1 in
        if RS_MAX_QUANTITY fc < quantity then probe_chunks W fc scan_id start quantity s
        else let (res, w1) = sw_read W start quantity (snd s);
                 s1 = sw_env W (fst s, w1)
             in case res of
                  Good \<Rightarrow>
                    ([\<lparr>g_start = start, g_end = start + n, g_readable = Some True, g_message = None\<rparr>],
                     (rs_bump_progress scan_id quantity (fst s1), snd s1))
                | Bad message \<Rightarrow>
                    if quantity = 1 \<or> \<not> startswith message (lit ''Modbus exception'') then
                      ([\<lparr>g_start = start, g_end = start + n, g_readable = Some False, g_message = Some message\<rparr>],
                       (rs_bump_progress scan_id quantity (fst s1), snd s1))
                    else let mid = start + quantity div 2;
                             (left, s2) = probe W fc scan_id start (mid - 1 - start) s1;
                             (right, s3) = probe W fc scan_id mid (start + n - mid) s2
                         in (left @ right, s3))"
| "probe_chunks W fc scan_id pos r s =
     (if r = 0 then ([], s)
      else let chunk = min (RS_MAX_QUANTITY fc) r;
               (segs, s1) = probe W fc scan_id pos (chunk - 1) s;
               (more, s2) = probe_chunks W fc scan_id (pos + chunk) (r - chunk) s1
           in (segs @ more, s2))"
  by pat_completeness auto
termination
  by (relation "measure (\<lambda>x. case x of
      Inl (W, fc, scan_id, start, n, s) \<Rightarrow>
        if RS_MAX_QUANTITY fc < n + 1 then 2 * (n + 1) + 1 else 2 * n + 1
    | Inr (W, fc, scan_id, pos, r, s) \<Rightarrow> 2 * r)")
    (auto simp: RS_MAX_QUANTITY_def min_def split: if_splits)

declare probe.simps [simp del] probe_chunks.simps [simp del]

definition merge_step :: "segment \<Rightarrow> segment list \<Rightarrow> segment list" where
  "merge_step seg merged =
     (let l = last merged in
      if g_start seg = g_end l + 1 \<and> g_readable seg = g_readable l \<and> g_message seg = g_message l
      then butlast merged @ [l\<lparr>g_end := g_end seg\<rparr>]
      else merged @ [seg])"

definition merge_segments :: "segment list \<Rightarrow> segment list" where
  "merge_segments segments =
     (if segments = [] then []
      else let ordered = sort_key g_start segments
           in fold merge_step (tl ordered) [hd ordered])"

definition run_scan :: "'w scan_world \<Rightarrow> nat \<Rightarrow> nat \<Rightarrow> nat \<Rightarrow> nat \<Rightarrow> reg_scan \<times> 'w \<Rightarrow> reg_scan \<times> 'w" where
  "run_scan W fc start n scan_id s =
     (let (segments, (st, w)) = probe W fc scan_id start n s;
          merged = merge_segments segments
      in if rs_scan_id st \<noteq> scan_id then (st, w)
         else (st\<lparr>rs_segments := merged, rs_running := False\<rparr>, w))"

definition rs_checks :: "pystr \<Rightarrow> pystr \<Rightarrow> int \<Rightarrow> int \<Rightarrow> int \<Rightarrow> int \<Rightarrow> real \<Rightarrow> pystr option" where
  "rs_checks host register_type unit_id start_address end_address port timeout =
     (if host = [] then Some (lit ''host is required'')
      else if map_of REGISTER_TYPES register_type = None then
        Some (lit ''register type must be one of '' @ join (lit '', '') (map fst REGISTER_TYPES))
      else if \<not> (0 \<le> unit_id \<and> unit_id \<le> 255) then Some (lit ''unit ID must be 0-255'')
      else if \<not> (0 \<le> start_address \<and> start_address \<le> 0xFFFF) \<or> \<not> (0 \<le> end_address \<and> end_address \<le> 0xFFFF)
        then Some (lit ''addresses must be 0-65535'')
      else if end_address < start_address then Some (lit ''start address must be <= end address'')
      else if MAX_RANGE_SIZE < end_address - start_address + 1 then
        Some (lit ''range too large -- max 10000 addresses per scan'')
      else if \<not> (1 \<le> port \<and> port \<le> 65535) then Some (lit ''port must be 1-65535'')
      else if \<not> (1 / 10 \<le> timeout \<and> timeout \<le> 10) then Some (lit ''timeout must be 0.1-10 seconds'')
      else None)"

text \<open>\<open>start\<close>: refused, or the new state and the arguments of the thread it starts (function code, first
  address, last address minus first, scan id).\<close>

definition rs_start ::
  "pystr \<Rightarrow> pystr \<Rightarrow> int \<Rightarrow> int \<Rightarrow> int \<Rightarrow> int \<Rightarrow> real \<Rightarrow> reg_scan \<Rightarrow> pystr + reg_scan \<times> nat \<times> nat \<times> nat \<times> nat" where
  "rs_start host register_type unit_id start_address end_address port timeout st =
     (case rs_checks (strip host) register_type unit_id start_address end_address port timeout of
        Some m \<Rightarrow> Inl m
      | None \<Rightarrow>
          let scan_id = rs_scan_id st + 1 in
          Inr (\<lparr>rs_running = True, rs_host = Some (strip host), rs_register_type = Some register_type,
                rs_unit_id = Some unit_id, rs_start_address = Some start_address,
                rs_end_address = Some end_address, rs_scan_id = scan_id, rs_segments = [], rs_progress = 0,
                rs_total = nat (end_address - start_address + 1)\<rparr>,
              the (map_of REGISTER_TYPES register_type), nat start_address,
              nat (end_address - start_address), scan_id))"

definition rs_stop :: "reg_scan \<Rightarrow> reg_scan \<times> pystr" where
  "rs_stop st =
     (if rs_running st then (st\<lparr>rs_scan_id := rs_scan_id st + 1, rs_running := False\<rparr>, lit ''scan stopped'')
      else (st, lit ''no scan running''))"

text \<open>\<open>status()\<close>: the state without the scan id.\<close>

record reg_report =
  rr_running :: bool
  rr_host :: "pystr option"
  rr_register_type :: "pystr option"
  rr_unit_id :: "int option"
  rr_start_address :: "int option"
  rr_end_address :: "int option"
  rr_segments :: "segment list"
  rr_progress :: nat
  rr_total :: nat

definition rs_status :: "reg_scan \<Rightarrow> reg_report" where
  "rs_status st =
     \<lparr>rr_running = rs_running st, rr_host = rs_host st, rr_register_type = rs_register_type st,
      rr_unit_id = rs_unit_id st, rr_start_address = rs_start_address st, rr_end_address = rs_end_address st,
      rr_segments = rs_segments st, rr_progress = rs_progress st, rr_total = rs_total st\<rparr>"

section \<open>The probe covers the range\<close>

text \<open>A list of segments that lines up from one address to just before another.\<close>

fun tiles :: "nat \<Rightarrow> segment list \<Rightarrow> nat \<Rightarrow> bool" where
  "tiles a [] b \<longleftrightarrow> a = b"
| "tiles a (g # gs) b \<longleftrightarrow> g_start g = a \<and> a \<le> g_end g \<and> tiles (g_end g + 1) gs b"

lemma tiles_append: "tiles a gs b \<Longrightarrow> tiles b hs c \<Longrightarrow> tiles a (gs @ hs) c"
  by (induction gs arbitrary: a) auto

text \<open>The function, one case at a time.\<close>

lemma probe_stopped:
  "rs_stopped scan_id (fst s) \<Longrightarrow> probe W fc scan_id start n s =
    ([\<lparr>g_start = start, g_end = start + n, g_readable = None, g_message = Some (lit ''stopped'')\<rparr>], s)"
  by (subst probe.simps) simp

lemma probe_large:
  "\<not> rs_stopped scan_id (fst s) \<Longrightarrow> RS_MAX_QUANTITY fc < n + 1 \<Longrightarrow>
   probe W fc scan_id start n s = probe_chunks W fc scan_id start (n + 1) s"
  by (subst probe.simps) (simp add: Let_def)

definition after_read :: "'w scan_world \<Rightarrow> nat \<Rightarrow> nat \<Rightarrow> reg_scan \<times> 'w \<Rightarrow> probe_result \<times> (reg_scan \<times> 'w)" where
  "after_read W start q s =
     (let (res, w1) = sw_read W start q (snd s) in (res, sw_env W (fst s, w1)))"

lemma probe_leaf:
  assumes "\<not> rs_stopped scan_id (fst s)" and "n + 1 \<le> RS_MAX_QUANTITY fc"
    and "after_read W start (n + 1) s = (res, s1)"
    and "res = Good \<or> (\<exists>m. res = Bad m \<and> (n = 0 \<or> \<not> startswith m (lit ''Modbus exception'')))"
  shows "probe W fc scan_id start n s =
    ([\<lparr>g_start = start, g_end = start + n, g_readable = Some (res = Good),
       g_message = (case res of Good \<Rightarrow> None | Bad m \<Rightarrow> Some m)\<rparr>],
     (rs_bump_progress scan_id (n + 1) (fst s1), snd s1))"
  using assms by (subst probe.simps) (auto simp: after_read_def Let_def split: prod.splits)

lemma probe_split:
  assumes "\<not> rs_stopped scan_id (fst s)" and "n + 1 \<le> RS_MAX_QUANTITY fc"
    and "after_read W start (n + 1) s = (Bad m, s1)" and "0 < n" and "startswith m (lit ''Modbus exception'')"
    and "h = (n + 1) div 2 - 1"
    and "probe W fc scan_id start h s1 = (left, s2)"
    and "probe W fc scan_id (start + h + 1) (n - h - 1) s2 = (right, s3)"
  shows "probe W fc scan_id start n s = (left @ right, s3)"
proof -
  have "start + (n + 1) div 2 - 1 - start = h" "start + (n + 1) div 2 = start + h + 1"
    "start + n - (start + (n + 1) div 2) = n - h - 1"
    using assms(4,6) by auto
  with assms show ?thesis
    by (subst probe.simps) (auto simp: after_read_def Let_def split: prod.splits)
qed

text \<open>Induction over the calls the probe makes.\<close>

lemma probe_cases_induct [case_names stopped large leaf split none chunk]:
  assumes "\<And>start n s. rs_stopped scan_id (fst s) \<Longrightarrow>
      P start n s [\<lparr>g_start = start, g_end = start + n, g_readable = None, g_message = Some (lit ''stopped'')\<rparr>] s"
    and "\<And>start n s gs s'. \<not> rs_stopped scan_id (fst s) \<Longrightarrow> RS_MAX_QUANTITY fc < n + 1 \<Longrightarrow>
      Q start (n + 1) s gs s' \<Longrightarrow> P start n s gs s'"
    and "\<And>start n s res s1. \<not> rs_stopped scan_id (fst s) \<Longrightarrow> n + 1 \<le> RS_MAX_QUANTITY fc \<Longrightarrow>
      after_read W start (n + 1) s = (res, s1) \<Longrightarrow>
      res = Good \<or> (\<exists>m. res = Bad m \<and> (n = 0 \<or> \<not> startswith m (lit ''Modbus exception''))) \<Longrightarrow>
      P start n s [\<lparr>g_start = start, g_end = start + n, g_readable = Some (res = Good),
         g_message = (case res of Good \<Rightarrow> None | Bad m \<Rightarrow> Some m)\<rparr>]
        (rs_bump_progress scan_id (n + 1) (fst s1), snd s1)"
    and "\<And>start n s m s1 h left s2 right s3. \<not> rs_stopped scan_id (fst s) \<Longrightarrow> n + 1 \<le> RS_MAX_QUANTITY fc \<Longrightarrow>
      after_read W start (n + 1) s = (Bad m, s1) \<Longrightarrow> 0 < n \<Longrightarrow> startswith m (lit ''Modbus exception'') \<Longrightarrow>
      h = (n + 1) div 2 - 1 \<Longrightarrow> P start h s1 left s2 \<Longrightarrow> P (start + h + 1) (n - h - 1) s2 right s3 \<Longrightarrow>
      P start n s (left @ right) s3"
    and "\<And>pos s. Q pos 0 s [] s"
    and "\<And>pos r c s gs s1 more s2. 0 < r \<Longrightarrow> c = min (RS_MAX_QUANTITY fc) r \<Longrightarrow> P pos (c - 1) s gs s1 \<Longrightarrow>
      Q (pos + c) (r - c) s1 more s2 \<Longrightarrow> Q pos r s (gs @ more) s2"
  shows "P start n s (fst (probe W fc scan_id start n s)) (snd (probe W fc scan_id start n s))"
    and "Q pos r s (fst (probe_chunks W fc scan_id pos r s)) (snd (probe_chunks W fc scan_id pos r s))"
proof -
  let ?size = "\<lambda>n. if RS_MAX_QUANTITY fc < n + 1 then 2 * (n + 1) + 1 else 2 * n + (1 :: nat)"
  have "(\<forall>start n s. ?size n = k \<longrightarrow> P start n s (fst (probe W fc scan_id start n s)) (snd (probe W fc scan_id start n s))) \<and>
    (\<forall>pos r s. 2 * r = k \<longrightarrow> Q pos r s (fst (probe_chunks W fc scan_id pos r s)) (snd (probe_chunks W fc scan_id pos r s)))" for k
  proof (induction k rule: less_induct)
    case (less k)
    have IHP: "P start n s (fst (probe W fc scan_id start n s)) (snd (probe W fc scan_id start n s))"
      if "?size n < k" for start n s using less that by blast
    have IHQ: "Q pos r s (fst (probe_chunks W fc scan_id pos r s)) (snd (probe_chunks W fc scan_id pos r s))"
      if "2 * r < k" for pos r s using less that by blast
    have 1: "P start n s (fst (probe W fc scan_id start n s)) (snd (probe W fc scan_id start n s))"
      if k: "?size n = k" for start n s
    proof (cases "rs_stopped scan_id (fst s)")
      case True
      with assms(1) show ?thesis by (simp add: probe_stopped)
    next
      case run: False
      show ?thesis
      proof (cases "RS_MAX_QUANTITY fc < n + 1")
        case True
        with k have "2 * (n + 1) < k" by simp
        from assms(2) [OF run True IHQ [OF this]] show ?thesis by (simp add: probe_large [OF run True])
      next
        case fits: False
        then have fits': "n + 1 \<le> RS_MAX_QUANTITY fc" by simp
        obtain res s1 where ar: "after_read W start (n + 1) s = (res, s1)"
          by (cases "after_read W start (n + 1) s")
        show ?thesis
        proof (cases "res = Good \<or> (\<exists>m. res = Bad m \<and> (n = 0 \<or> \<not> startswith m (lit ''Modbus exception'')))")
          case True
          from assms(3) [OF run fits' ar True] show ?thesis
            unfolding probe_leaf [OF run fits' ar True] by simp
        next
          case False
          then obtain m where m: "res = Bad m" "0 < n" "startswith m (lit ''Modbus exception'')"
            by (cases res) auto
          define h where "h = (n + 1) div 2 - 1"
          have small: "?size h < k" "?size (n - h - 1) < k"
            using k fits m(2) unfolding h_def by (auto simp: not_less)
          obtain left s2 where l: "probe W fc scan_id start h s1 = (left, s2)"
            by (cases "probe W fc scan_id start h s1")
          obtain right s3 where r: "probe W fc scan_id (start + h + 1) (n - h - 1) s2 = (right, s3)"
            by (cases "probe W fc scan_id (start + h + 1) (n - h - 1) s2")
          have "P start h s1 left s2" using IHP [OF small(1), of start s1] l by simp
          moreover have "P (start + h + 1) (n - h - 1) s2 right s3"
            using IHP [OF small(2), of "start + h + 1" s2] r by simp
          ultimately have "P start n s (left @ right) s3"
            using assms(4) [OF run fits' ar [unfolded m(1)] m(2,3) h_def] by blast
          with probe_split [OF run fits' ar [unfolded m(1)] m(2,3) h_def l r] show ?thesis by simp
        qed
      qed
    qed
    have 2: "Q pos r s (fst (probe_chunks W fc scan_id pos r s)) (snd (probe_chunks W fc scan_id pos r s))"
      if k: "2 * r = k" for pos r s
    proof (cases "r = 0")
      case True
      with assms(5) show ?thesis by (simp add: probe_chunks.simps [of W fc scan_id pos 0])
    next
      case False
      define c where "c = min (RS_MAX_QUANTITY fc) r"
      have c: "0 < c" "c \<le> r" "c \<le> RS_MAX_QUANTITY fc"
        using False by (auto simp: c_def RS_MAX_QUANTITY_def)
      then have small: "?size (c - 1) < k" "2 * (r - c) < k" using k by auto
      obtain gs s1 where g: "probe W fc scan_id pos (c - 1) s = (gs, s1)"
        by (cases "probe W fc scan_id pos (c - 1) s")
      obtain more s2 where m: "probe_chunks W fc scan_id (pos + c) (r - c) s1 = (more, s2)"
        by (cases "probe_chunks W fc scan_id (pos + c) (r - c) s1")
      have "P pos (c - 1) s gs s1" using IHP [OF small(1), of pos s] g by simp
      moreover have "Q (pos + c) (r - c) s1 more s2" using IHQ [OF small(2), of "pos + c" s1] m by simp
      ultimately have "Q pos r s (gs @ more) s2" using assms(6) [OF _ c_def] False by blast
      moreover have "probe_chunks W fc scan_id pos r s = (gs @ more, s2)"
        using False g m by (subst probe_chunks.simps) (simp add: c_def [symmetric] Let_def)
      ultimately show ?thesis by simp
    qed
    from 1 2 show ?case by blast
  qed
  then show "P start n s (fst (probe W fc scan_id start n s)) (snd (probe W fc scan_id start n s))"
    and "Q pos r s (fst (probe_chunks W fc scan_id pos r s)) (snd (probe_chunks W fc scan_id pos r s))"
    by blast+
qed

lemma RS_MAX_pos: "0 < RS_MAX_QUANTITY fc"
  by (simp add: RS_MAX_QUANTITY_def)

lemma chunk_end: "0 < r \<Longrightarrow> Suc (pos + (min (RS_MAX_QUANTITY fc) r - Suc 0)) = pos + min (RS_MAX_QUANTITY fc) r"
  using RS_MAX_pos [of fc] by auto

lemma probe_tiles: "tiles start (fst (probe W fc scan_id start n s)) (start + n + 1)"
  by (rule probe_cases_induct(1) [where P = "\<lambda>start n s gs s'. tiles start gs (start + n + 1)"
      and Q = "\<lambda>pos r s gs s'. tiles pos gs (pos + r)"])
    (auto elim!: tiles_append simp: chunk_end)

section \<open>Merging\<close>

definition seg_label :: "segment \<Rightarrow> bool option \<times> pystr option" where
  "seg_label g = (g_readable g, g_message g)"

lemma tiles_nonempty: "tiles a gs b \<Longrightarrow> a < b \<Longrightarrow> gs \<noteq> []"
  by (cases gs) auto

lemma tiles_le: "tiles a gs b \<Longrightarrow> a \<le> b"
  by (induction gs arbitrary: a) fastforce+

lemma tiles_start: "tiles a gs b \<Longrightarrow> g \<in> set gs \<Longrightarrow> a \<le> g_start g \<and> g_start g \<le> g_end g \<and> g_end g < b"
proof (induction gs arbitrary: a)
  case (Cons h gs)
  then show ?case using tiles_le by fastforce
qed simp

lemma tiles_cover: "tiles a gs b \<Longrightarrow> a \<le> x \<Longrightarrow> x < b \<Longrightarrow> \<exists>g \<in> set gs. g_start g \<le> x \<and> x \<le> g_end g"
proof (induction gs arbitrary: a)
  case (Cons g gs)
  then show ?case by (cases "x \<le> g_end g") auto
qed simp

lemma tiles_sorted: "tiles a gs b \<Longrightarrow> sort_key g_start gs = gs"
proof -
  assume t: "tiles a gs b"
  have "sorted (map g_start gs)" using t
  proof (induction gs arbitrary: a)
    case (Cons g gs)
    then show ?case using tiles_start [of "g_end g + 1" gs b] by fastforce
  qed simp
  then show ?thesis by (rule sort_key_id_if_sorted)
qed

lemma tiles_snoc: "tiles a (gs @ [g]) b \<longleftrightarrow> (\<exists>m. tiles a gs m \<and> g_start g = m \<and> m \<le> g_end g \<and> b = g_end g + 1)"
  by (induction gs arbitrary: a) auto

text \<open>One step keeps the tiling, makes no two neighbours alike and changes no address's label.\<close>

definition label_at :: "segment list \<Rightarrow> nat \<Rightarrow> (bool option \<times> pystr option) set" where
  "label_at gs a = {seg_label g | g. g \<in> set gs \<and> g_start g \<le> a \<and> a \<le> g_end g}"

lemma label_at_simps [simp]:
  "label_at [] a = {}"
  "label_at (g # gs) a = (if g_start g \<le> a \<and> a \<le> g_end g then {seg_label g} else {}) \<union> label_at gs a"
  by (auto simp: label_at_def)

lemma label_at_append: "label_at (gs @ hs) a = label_at gs a \<union> label_at hs a"
  by (auto simp: label_at_def)

lemma merge_step_ok:
  assumes "tiles a merged b" and "merged \<noteq> []" and "distinct_adj (map seg_label merged)"
    and "g_start g = b" and "b \<le> g_end g"
  shows "tiles a (merge_step g merged) (g_end g + 1) \<and> merge_step g merged \<noteq> [] \<and>
    distinct_adj (map seg_label (merge_step g merged)) \<and>
    label_at (merge_step g merged) x = label_at (merged @ [g]) x"
proof -
  obtain ms l where m: "merged = ms @ [l]" using assms(2) by (cases merged rule: rev_cases) auto
  have t: "tiles a ms (g_start l)" "g_start l \<le> g_end l" "b = g_end l + 1"
    using assms(1) m by (auto simp: tiles_snoc)
  show ?thesis
  proof (cases "seg_label g = seg_label l")
    case True
    then have e: "merge_step g (ms @ [l]) = ms @ [l\<lparr>g_end := g_end g\<rparr>]"
      using assms(4) t(3) by (simp add: merge_step_def seg_label_def)
    have sl: "seg_label (l\<lparr>g_end := g_end g\<rparr>) = seg_label l" by (simp add: seg_label_def)
    have "label_at [l\<lparr>g_end := g_end g\<rparr>] x = label_at [l, g] x"
      using True sl assms(4,5) t(2,3) by auto
    then have "label_at (merge_step g merged) x = label_at (merged @ [g]) x"
      unfolding m e by (simp only: label_at_append append_assoc append.simps)
    with t assms(3-5) show ?thesis
      unfolding m e by (auto simp: tiles_snoc sl)
  next
    case False
    then have "merge_step g merged = merged @ [g]"
      by (auto simp: merge_step_def m seg_label_def)
    moreover have "tiles a (merged @ [g]) (g_end g + 1)" using assms(1,4,5) by (simp add: tiles_snoc)
    moreover have "distinct_adj (map seg_label (merged @ [g]))"
      using False assms(3) m by (auto simp: distinct_adj_append_iff)
    ultimately show ?thesis by simp
  qed
qed

lemma merge_fold_ok:
  "tiles a merged b \<Longrightarrow> merged \<noteq> [] \<Longrightarrow> distinct_adj (map seg_label merged) \<Longrightarrow> tiles b gs c \<Longrightarrow>
   tiles a (fold merge_step gs merged) c \<and> distinct_adj (map seg_label (fold merge_step gs merged)) \<and>
   label_at (fold merge_step gs merged) x = label_at (merged @ gs) x"
proof (induction gs arbitrary: merged b)
  case (Cons g gs)
  from Cons.prems have g: "g_start g = b" "b \<le> g_end g" "tiles (g_end g + 1) gs c" by auto
  from merge_step_ok [OF Cons.prems(1-3) g(1,2), of x] have m: "tiles a (merge_step g merged) (g_end g + 1)"
    "merge_step g merged \<noteq> []" "distinct_adj (map seg_label (merge_step g merged))"
    "label_at (merge_step g merged) x = label_at (merged @ [g]) x" by blast+
  from Cons.IH [OF m(1-3) g(3)] m(4) show ?case by (simp add: label_at_append)
qed simp

lemma merge_segments_ok:
  assumes "tiles a gs b" and "a < b"
  shows "tiles a (merge_segments gs) b \<and> distinct_adj (map seg_label (merge_segments gs)) \<and>
    label_at (merge_segments gs) x = label_at gs x"
proof -
  obtain g hs where gs: "gs = g # hs" using tiles_nonempty [OF assms] by (cases gs) auto
  have "merge_segments gs = fold merge_step hs [g]"
    using tiles_sorted [OF assms(1)] by (simp add: merge_segments_def gs Let_def)
  moreover have "tiles a [g] (g_end g + 1)" "tiles (g_end g + 1) hs b" using assms(1) gs by auto
  ultimately show ?thesis
    using merge_fold_ok [of a "[g]" "g_end g + 1" hs b x] by (simp add: gs)
qed

section \<open>What a device's scan finds\<close>

text \<open>A device that refuses a block with one exception message as soon as one of its addresses is not
  readable, on a network that answers; no other thread interferes with the scan.\<close>

definition device_world :: "(nat \<Rightarrow> bool) \<Rightarrow> pystr \<Rightarrow> 'w scan_world \<Rightarrow> bool" where
  "device_world readable msg W \<longleftrightarrow> startswith msg (lit ''Modbus exception'') \<and>
     (\<forall>start q w. fst (sw_read W start q w) =
        (if \<forall>a \<in> {start..<start + q}. readable a then Good else Bad msg)) \<and>
     (\<forall>s. fst (sw_env W s) = fst s)"

definition address_label :: "(nat \<Rightarrow> bool) \<Rightarrow> pystr \<Rightarrow> nat \<Rightarrow> bool option \<times> pystr option" where
  "address_label readable msg a = (Some (readable a), if readable a then None else Some msg)"

definition labelled :: "(nat \<Rightarrow> bool) \<Rightarrow> pystr \<Rightarrow> segment list \<Rightarrow> bool" where
  "labelled readable msg gs \<longleftrightarrow> (\<forall>g \<in> set gs. \<forall>a. g_start g \<le> a \<and> a \<le> g_end g \<longrightarrow>
     seg_label g = address_label readable msg a)"

lemma labelled_append [simp]: "labelled r m (gs @ hs) \<longleftrightarrow> labelled r m gs \<and> labelled r m hs"
  by (auto simp: labelled_def)

definition advanced :: "nat \<Rightarrow> reg_scan \<Rightarrow> reg_scan \<Rightarrow> bool" where
  "advanced n st st' \<longleftrightarrow> st' = st\<lparr>rs_progress := rs_progress st + n\<rparr>"

lemma advanced_trans: "advanced m st st' \<Longrightarrow> advanced n st' st'' \<Longrightarrow> advanced (m + n) st st''"
  by (simp add: advanced_def add.assoc)

lemma advanced_id: "advanced n st st' \<Longrightarrow> rs_scan_id st' = rs_scan_id st"
  by (simp add: advanced_def)

lemma device_read:
  assumes "device_world readable msg W" and "after_read W start q s = (res, s1)"
  shows "fst s1 = fst s" and "res = (if \<forall>a \<in> {start..<start + q}. readable a then Good else Bad msg)"
proof -
  obtain w where w: "sw_read W start q (snd s) = (res, w)" "s1 = sw_env W (fst s, w)"
    using assms(2) by (auto simp: after_read_def split: prod.splits)
  show "fst s1 = fst s" using assms(1) w by (simp add: device_world_def)
  have "fst (sw_read W start q (snd s)) = (if \<forall>a \<in> {start..<start + q}. readable a then Good else Bad msg)"
    using assms(1) unfolding device_world_def by blast
  then show "res = (if \<forall>a \<in> {start..<start + q}. readable a then Good else Bad msg)" using w by simp
qed

lemma probe_device:
  assumes "device_world readable msg W"
  shows "rs_scan_id (fst s) = scan_id \<longrightarrow> labelled readable msg (fst (probe W fc scan_id start n s)) \<and>
    advanced (n + 1) (fst s) (fst (snd (probe W fc scan_id start n s)))"
proof (rule probe_cases_induct(1) [where P = "\<lambda>start n s gs s'. rs_scan_id (fst s) = scan_id \<longrightarrow>
      labelled readable msg gs \<and> advanced (n + 1) (fst s) (fst s')"
    and Q = "\<lambda>pos r s gs s'. rs_scan_id (fst s) = scan_id \<longrightarrow> labelled readable msg gs \<and> advanced r (fst s) (fst s')"],
    goal_cases)
  case (1 start n s)
  then show ?case by (simp add: rs_stopped_def)
next
  case (2 start n s gs s')
  then show ?case by simp
next
  case (3 start n s res s1)
  have st: "fst s1 = fst s" by (rule device_read(1) [OF assms 3(3)])
  have res: "res = (if \<forall>a \<in> {start..<start + (n + 1)}. readable a then Good else Bad msg)"
    by (rule device_read(2) [OF assms 3(3)])
  have msg: "startswith msg (lit ''Modbus exception'')" using assms by (simp add: device_world_def)
  have "address_label readable msg a = (Some (res = Good), case res of Good \<Rightarrow> None | Bad m \<Rightarrow> Some m)"
    if "start \<le> a" "a \<le> start + n" for a
  proof (cases "\<forall>a \<in> {start..<start + (n + 1)}. readable a")
    case True
    with res that show ?thesis by (simp add: address_label_def)
  next
    case False
    with res have r: "res = Bad msg" by simp
    with 3(4) msg have "n = 0" by simp
    with False that r show ?thesis by (simp add: address_label_def)
  qed
  then have "labelled readable msg [\<lparr>g_start = start, g_end = start + n, g_readable = Some (res = Good),
      g_message = (case res of Good \<Rightarrow> None | Bad m \<Rightarrow> Some m)\<rparr>]"
    by (simp add: labelled_def seg_label_def)
  moreover have "advanced (n + 1) (fst s) (rs_bump_progress scan_id (n + 1) (fst s1))"
    if "rs_scan_id (fst s) = scan_id"
    unfolding st advanced_def rs_bump_progress_def that by simp
  ultimately show ?case unfolding fst_conv by blast
next
  case (4 start n s m s1 h left s2 right s3)
  from device_read(1) [OF assms 4(3)] have s1: "fst s1 = fst s" .
  show ?case
  proof
    assume id: "rs_scan_id (fst s) = scan_id"
    with 4(7) s1 have l: "labelled readable msg left" "advanced (h + 1) (fst s) (fst s2)" by auto
    with id 4(8) advanced_id have r: "labelled readable msg right" "advanced (n - h - 1 + 1) (fst s2) (fst s3)" by auto
    have "h + 1 + (n - h - 1 + 1) = n + 1" using 4(4,6) by simp
    with advanced_trans [OF l(2) r(2)] l(1) r(1)
    show "labelled readable msg (left @ right) \<and> advanced (n + 1) (fst s) (fst s3)" by simp
  qed
next
  case (5 pos s)
  then show ?case by (simp add: labelled_def advanced_def)
next
  case (6 pos r c s gs s1 more s2)
  show ?case
  proof
    assume id: "rs_scan_id (fst s) = scan_id"
    with 6(3) have l: "labelled readable msg gs" "advanced (c - 1 + 1) (fst s) (fst s1)" by auto
    with id 6(4) advanced_id have m: "labelled readable msg more" "advanced (r - c) (fst s1) (fst s2)" by auto
    have "c - 1 + 1 + (r - c) = r" using 6(1,2) RS_MAX_pos [of fc] by simp
    with advanced_trans [OF l(2) m(2)] l(1) m(1)
    show "labelled readable msg (gs @ more) \<and> advanced r (fst s) (fst s2)" by simp
  qed
qed

section \<open>Properties\<close>

lemma distinct_adj_readable:
  assumes "distinct_adj (map seg_label gs)" and "labelled readable msg gs" and "tiles a gs b"
  shows "distinct_adj (map g_readable gs)"
proof -
  have det: "seg_label g = (Some r, if r then None else Some msg)" if "g \<in> set gs" "g_readable g = Some r" for g r
  proof -
    have "seg_label g = address_label readable msg (g_start g)"
      using assms(2) tiles_start [OF assms(3) that(1)] that(1) by (auto simp: labelled_def)
    with that(2) show ?thesis by (auto simp: address_label_def seg_label_def)
  qed
  have some: "\<exists>r. g_readable g = Some r" if "g \<in> set gs" for g
    using assms(2) tiles_start [OF assms(3) that] that
    by (fastforce simp: labelled_def address_label_def seg_label_def)
  have "g_readable (gs ! i) \<noteq> g_readable (gs ! Suc i)" if "Suc i < length gs" for i
  proof
    assume eq: "g_readable (gs ! i) = g_readable (gs ! Suc i)"
    have "gs ! i \<in> set gs" "gs ! Suc i \<in> set gs" using that by simp_all
    with eq det some have "seg_label (gs ! i) = seg_label (gs ! Suc i)" by metis
    moreover have "seg_label (gs ! i) \<noteq> seg_label (gs ! Suc i)"
      using distinct_adj_nth [OF assms(1), of i] that by simp
    ultimately show False by simp
  qed
  then show ?thesis by (simp add: distinct_adj_conv_nth)
qed

lemma rs_checks_ok:
  "rs_checks host rt unit_id sa ea port timeout = None \<Longrightarrow> 0 \<le> sa \<and> sa \<le> ea \<and> ea \<le> 65535 \<and> ea - sa + 1 \<le> 10000"
  by (auto simp: rs_checks_def MAX_RANGE_SIZE_def split: if_splits)

text \<open>C1: a scan finds the readable addresses.  On a device that answers every block holding an
  unreadable address with one Modbus exception, a scan that nobody interrupts ends with segments
  that cover the requested range from first to last address without gap or overlap, in which every
  address has exactly its own readability and message, no two neighbouring segments have the same
  outcome, and the progress has reached the total.\<close>

theorem register_scan_exact:
  assumes "device_world readable msg W"
    and "rs_start host register_type unit_id sa ea port timeout st = Inr (st1, fc, start, n, scan_id)"
  shows "let (st2, w2) = run_scan W fc start n scan_id (st1, w) in
    start = nat sa \<and> start + n = nat ea \<and>
    tiles start (rs_segments st2) (start + n + 1) \<and>
    (\<forall>a. start \<le> a \<and> a \<le> start + n \<longrightarrow> label_at (rs_segments st2) a = {address_label readable msg a}) \<and>
    distinct_adj (map g_readable (rs_segments st2)) \<and>
    \<not> rs_running st2 \<and> rs_progress st2 = rs_total st2"
proof -
  from assms(2) have st1: "rs_scan_id st1 = scan_id" "rs_progress st1 = 0" "rs_total st1 = n + 1"
    "start = nat sa" "start + n = nat ea"
    using rs_checks_ok by (fastforce simp: rs_start_def Let_def split: option.splits)+
  obtain gs s' where p: "probe W fc scan_id start n (st1, w) = (gs, s')"
    by (cases "probe W fc scan_id start n (st1, w)")
  from probe_device [OF assms(1), of "(st1, w)" scan_id fc start n] p st1(1)
  have lab: "labelled readable msg gs" and adv: "advanced (n + 1) st1 (fst s')" by auto
  have tl: "tiles start gs (start + n + 1)" using probe_tiles [of start W fc scan_id n "(st1, w)"] p by simp
  let ?m = "merge_segments gs"
  from merge_segments_ok [OF tl] have m: "tiles start ?m (start + n + 1)" "distinct_adj (map seg_label ?m)"
    "label_at ?m a = label_at gs a" for a by auto
  have la: "label_at gs a = {address_label readable msg a}" if "start \<le> a" "a \<le> start + n" for a
  proof -
    from tiles_cover [OF tl, of a] that have "\<exists>g \<in> set gs. g_start g \<le> a \<and> a \<le> g_end g" by simp
    then obtain g where g: "g \<in> set gs" "g_start g \<le> a \<and> a \<le> g_end g" ..
    have same: "seg_label h = address_label readable msg a" if "h \<in> set gs" "g_start h \<le> a \<and> a \<le> g_end h" for h
      using lab that unfolding labelled_def by blast
    have "seg_label g \<in> label_at gs a" using g by (auto simp: label_at_def)
    with same [OF g] have "address_label readable msg a \<in> label_at gs a" by simp
    moreover have "label_at gs a \<subseteq> {address_label readable msg a}"
    proof
      fix l assume "l \<in> label_at gs a"
      then obtain h where "l = seg_label h" "h \<in> set gs" "g_start h \<le> a \<and> a \<le> g_end h"
        by (auto simp: label_at_def)
      with same show "l \<in> {address_label readable msg a}" by simp
    qed
    ultimately show ?thesis by blast
  qed
  have "labelled readable msg ?m"
    unfolding labelled_def
  proof (intro ballI allI impI)
    fix g a assume g: "g \<in> set ?m" "g_start g \<le> a \<and> a \<le> g_end g"
    then have "seg_label g \<in> label_at ?m a" by (auto simp: label_at_def)
    moreover have "start \<le> a" "a \<le> start + n" using tiles_start [OF m(1) g(1)] g(2) by auto
    ultimately show "seg_label g = address_label readable msg a" using m(3) la by simp
  qed
  from distinct_adj_readable [OF m(2) this m(1)] have "distinct_adj (map g_readable ?m)" .
  moreover obtain st' w' where s': "s' = (st', w')" by (cases s')
  ultimately show ?thesis
    using st1 m la adv p by (simp add: run_scan_def Let_def advanced_def)
qed

definition quiet_device :: "(nat \<Rightarrow> bool) \<Rightarrow> nat scan_world" where
  "quiet_device readable =
     \<lparr>sw_read = (\<lambda>start q n. (if list_all readable [start..<start + q] then Good
          else Bad (lit ''Modbus exception: Illegal Data Address''), n + 1)),
      sw_env = id\<rparr>"

lemma quiet_device_world:
  "device_world readable (lit ''Modbus exception: Illegal Data Address'') (quiet_device readable)"
  by (auto simp: device_world_def quiet_device_def list_all_iff)

theorem register_scan_exact_witness:
  "let (st2, w2) = run_scan (quiet_device even) 3 10 2 1
      (reg_scan0\<lparr>rs_running := True, rs_host := Some (lit ''plc''), rs_register_type := Some (lit ''holding_registers''),
        rs_unit_id := Some 1, rs_start_address := Some 10, rs_end_address := Some 12, rs_scan_id := 1,
        rs_total := 3\<rparr>, 0)
   in tiles 10 (rs_segments st2) 13 \<and> rs_progress st2 = rs_total st2 \<and>
     label_at (rs_segments st2) 11 = {(Some False, Some (lit ''Modbus exception: Illegal Data Address''))}"
proof -
  have c: "rs_checks (strip (lit ''plc'')) (lit ''holding_registers'') 1 10 12 502 1 = None"
    by (simp add: rs_checks_def REGISTER_TYPES_def MAX_RANGE_SIZE_def strip_def lstrip_def rstrip_def
        lit_def is_space_def)
  have h: "strip (lit ''plc'') = lit ''plc''"
    by (simp add: strip_def lstrip_def rstrip_def lit_def is_space_def)
  have "rs_start (lit ''plc'') (lit ''holding_registers'') 1 10 12 502 1 reg_scan0 =
    Inr (reg_scan0\<lparr>rs_running := True, rs_host := Some (lit ''plc''), rs_register_type := Some (lit ''holding_registers''),
        rs_unit_id := Some 1, rs_start_address := Some 10, rs_end_address := Some 12, rs_scan_id := 1,
        rs_total := 3\<rparr>, 3, 10, 2, 1)"
    using c by (simp add: rs_start_def h reg_scan0_def Let_def REGISTER_TYPES_def)
  from register_scan_exact [OF quiet_device_world this, of even 0] show ?thesis
    by (auto simp: Let_def address_label_def)
qed

text \<open>Whatever the device answers and whatever other threads do meanwhile, the scan thread writes
  segments only while its scan id is still the current one, and then they cover the range without gap
  or overlap and no two neighbours are alike; a superseded or stopped scan leaves the state to its
  new owner.\<close>

theorem register_scan_tiles:
  "let (segments, st, w') = probe W fc scan_id start n s; (st', w'') = run_scan W fc start n scan_id s in
     if rs_scan_id st = scan_id
     then tiles start (rs_segments st') (start + n + 1) \<and> distinct_adj (map seg_label (rs_segments st')) \<and>
       st' = st\<lparr>rs_segments := rs_segments st', rs_running := False\<rparr>
     else st' = st"
  using merge_segments_ok [OF probe_tiles [of start W fc scan_id n s]]
  by (auto simp: run_scan_def Let_def split: prod.splits)

lemma probe_cost_unreadable:
  assumes "\<And>a. \<not> readable a" and "n + 1 \<le> RS_MAX_QUANTITY fc" and "rs_scan_id (fst s) = scan_id"
  shows "snd (snd (probe (quiet_device readable) fc scan_id start n s)) = snd s + 2 * n + 1"
proof -
  let ?W = "quiet_device readable"
  have "n + 1 \<le> RS_MAX_QUANTITY fc \<and> rs_scan_id (fst s) = scan_id \<longrightarrow>
      rs_scan_id (fst (snd (probe ?W fc scan_id start n s))) = scan_id \<and>
      snd (snd (probe ?W fc scan_id start n s)) = snd s + 2 * n + 1"
  proof (rule probe_cases_induct(1) [where P = "\<lambda>start n s gs s'. n + 1 \<le> RS_MAX_QUANTITY fc \<and>
        rs_scan_id (fst s) = scan_id \<longrightarrow> rs_scan_id (fst s') = scan_id \<and> snd s' = snd s + 2 * n + 1"
      and Q = "\<lambda>pos r s gs s'. True"], goal_cases)
    case (1 start n s)
    then show ?case by (simp add: rs_stopped_def)
  next
    case (2 start n s gs s')
    then show ?case by simp
  next
    case (3 start n s res s1)
    have "res = Bad (lit ''Modbus exception: Illegal Data Address'')" "s1 = (fst s, snd s + 1)"
      using 3(3) assms(1) by (auto simp: after_read_def quiet_device_def list_all_iff id_def intro!: exI [of _ start])
    with 3(4) show ?case by (auto simp: rs_bump_progress_def)
  next
    case (4 start n s m s1 h left s2 right s3)
    have "s1 = (fst s, snd s + 1)"
      using 4(3) by (auto simp: after_read_def quiet_device_def id_def split: prod.splits)
    moreover have "h + 1 \<le> n" using 4(4,6) by auto
    ultimately show ?case using 4(2,7,8) by auto
  qed simp_all
  with assms show ?thesis by blast
qed

text \<open>The cost of unreadable space.  A block none of whose \<open>q\<close> addresses can be read costs
  \<open>2 q - 1\<close> requests, almost twice as many as asking for each address alone; a readable one costs one.\<close>

theorem register_scan_cost:
  assumes "q \<le> RS_MAX_QUANTITY fc" and "0 < q" and "rs_scan_id st = scan_id"
  shows "snd (snd (probe (quiet_device (\<lambda>_. False)) fc scan_id start (q - 1) (st, 0))) = 2 * q - 1 \<and>
    snd (snd (probe (quiet_device (\<lambda>_. True)) fc scan_id start (q - 1) (st, 0))) = 1"
proof

  show "snd (snd (probe (quiet_device (\<lambda>_. False)) fc scan_id start (q - 1) (st, 0))) = 2 * q - 1"
    using probe_cost_unreadable [of "\<lambda>_. False" "q - 1" fc "(st, 0)" scan_id start] assms by simp
  have "after_read (quiet_device (\<lambda>_. True)) start (q - 1 + 1) (st, 0) = (Good, (st, 1))"
    by (simp add: after_read_def quiet_device_def list_all_iff)
  from probe_leaf [OF _ _ this] assms
  show "snd (snd (probe (quiet_device (\<lambda>_. True)) fc scan_id start (q - 1) (st, 0))) = 1"
    by (simp add: rs_stopped_def)
qed

theorem register_scan_cost_witness:
  "snd (snd (probe (quiet_device (\<lambda>_. False)) 3 0 0 124 (reg_scan0, 0))) = 249"
  using register_scan_cost [of 125 3 reg_scan0 0 0] by (simp add: RS_MAX_QUANTITY_def reg_scan0_def)

end
