(* ===== verification/Sessions.thy ===== *)
theory Sessions
  imports Prelude
begin

text \<open>
  Background tasks and their supersession.  Every long-running tool keeps one module-level state with
  a session number; a new \<open>start\<close> takes the next number, \<open>stop\<close> skips one, and the thread of an older
  session must not touch the state any more.  The contract is stated over the locked sections of a
  module: \<open>work i e\<close> is one locked update by the thread of session \<open>i\<close>, \<open>ctl c\<close> one by a caller of
  \<open>start\<close> or \<open>stop\<close>.  Interleavings are lists of such actions, in any order.
\<close>

datatype ('e, 'c) action = Work nat 'e | Ctl 'c

locale session =
  fixes cur :: "'s \<Rightarrow> nat" and work :: "nat \<Rightarrow> 'e \<Rightarrow> 's \<Rightarrow> 's" and ctl :: "'c \<Rightarrow> 's \<Rightarrow> 's"
  assumes work_stale: "cur s \<noteq> i \<Longrightarrow> work i e s = s"
    and work_cur: "cur (work i e s) = cur s"
    and ctl_cur: "cur s \<le> cur (ctl c s)"
begin

fun act :: "('e, 'c) action \<Rightarrow> 's \<Rightarrow> 's" where
  "act (Work i e) s = work i e s"
| "act (Ctl c) s = ctl c s"

definition interleave :: "('e, 'c) action list \<Rightarrow> 's \<Rightarrow> 's" where
  "interleave acts s = fold act acts s"

lemma act_mono: "cur s \<le> cur (act a s)"
  by (cases a) (auto simp: work_cur ctl_cur)

lemma interleave_mono: "cur s \<le> cur (interleave acts s)"
  unfolding interleave_def by (induction acts arbitrary: s) (auto intro: order_trans [OF act_mono])

text \<open>Threads of earlier sessions have no effect, whenever they run.\<close>

lemma superseded:
  "n \<le> cur s \<Longrightarrow> interleave acts s =
   interleave (filter (\<lambda>a. case a of Work i e \<Rightarrow> n \<le> i | Ctl c \<Rightarrow> True) acts) s"
proof (induction acts arbitrary: s)
  case Nil
  then show ?case by simp
next
  case (Cons a acts)
  have n: "n \<le> cur (act a s)" using Cons.prems act_mono order_trans by blast
  show ?case
  proof (cases "case a of Work i e \<Rightarrow> n \<le> i | Ctl c \<Rightarrow> True")
    case True
    with Cons.IH [OF n] show ?thesis by (simp add: interleave_def)
  next
    case False
    then obtain i e where a: "a = Work i e" "i < n" by (cases a) auto
    with Cons.prems have "act a s = s" by (simp add: work_stale)
    with False Cons.IH [OF Cons.prems] show ?thesis by (simp add: interleave_def)
  qed
qed

text \<open>Without a caller in between, only the current session's own updates count.\<close>

lemma only_current:
  "list_all (\<lambda>a. case a of Work i e \<Rightarrow> True | Ctl c \<Rightarrow> False) acts \<Longrightarrow>
   interleave acts s = interleave (filter (\<lambda>a. case a of Work i e \<Rightarrow> i = cur s | Ctl c \<Rightarrow> False) acts) s"
proof (induction acts arbitrary: s)
  case Nil
  then show ?case by simp
next
  case (Cons a acts)
  then obtain i e where a: "a = Work i e" by (cases a) auto
  from Cons have "interleave acts (act a s) =
      interleave (filter (\<lambda>a. case a of Work i e \<Rightarrow> i = cur s | Ctl c \<Rightarrow> False) acts) (act a s)"
    by (simp add: a work_cur)
  with a show ?case by (cases "i = cur s") (simp_all add: interleave_def work_stale)
qed

end

end
