(* ===== verification/Modbus_Tasks.thy ===== *)
theory Modbus_Tasks
  imports Modbus_Client Sessions Response_Times
begin

text \<open>
  \<open>backend/tools/modbus_unit_scan.py\<close> and \<open>modbus_poll.py\<close>: two background tasks over repeated reads.
  Each thread is modelled twice: as the sequence of its locked sections, which is what interleaves
  with other threads (the locale \<open>session\<close>), and the unit scan also as its whole loop over a world
  that answers reads and may interfere between them.
\<close>

section \<open>Unit scan\<close>

record unit_result =
  ur_unit_id :: nat
  ur_status :: pystr
  ur_detail :: pystr

record unit_scan =
  us_running :: bool
  us_host :: "pystr option"
  us_start_unit :: "int option"
  us_end_unit :: "int option"
  us_scan_id :: nat
  us_results :: "unit_result list"
  us_progress :: nat
  us_total :: nat

definition unit_scan0 :: unit_scan where
  "unit_scan0 = \<lparr>us_running = False, us_host = None, us_start_unit = None, us_end_unit = None,
     us_scan_id = 0, us_results = [], us_progress = 0, us_total = 0\<rparr>"

definition PROBE_FUNCTION_CODE :: int where
  "PROBE_FUNCTION_CODE = 3"

text \<open>\<open>result.get("ok")\<close> and \<open>result.get("message", "") or ""\<close>.\<close>

fun result_ok :: "read_result \<Rightarrow> bool" where
  "result_ok (Read r) = True"
| "result_ok _ = False"

fun result_message :: "read_result \<Rightarrow> pystr" where
  "result_message (Read r) = []"
| "result_message (Refused m) = m"
| "result_message (Failed m _ _ _) = m"

definition us_classify :: "read_result \<Rightarrow> pystr \<times> pystr" where
  "us_classify result =
     (if result_ok result then (lit ''responding'', lit ''FC3 supported'')
      else let message = result_message result in
        if startswith message (lit ''Modbus exception'') then (lit ''responding'', message)
        else (lit ''no_response'', message))"

text \<open>The locked sections of the scan thread.\<close>

definition us_record :: "nat \<Rightarrow> nat \<Rightarrow> read_result \<Rightarrow> unit_scan \<Rightarrow> unit_scan" where
  "us_record scan_id unit_id result st =
     (if us_scan_id st \<noteq> scan_id then st
      else let (status, detail) = us_classify result in
        st\<lparr>us_results := us_results st @ [\<lparr>ur_unit_id = unit_id, ur_status = status, ur_detail = detail\<rparr>],
           us_progress := us_progress st + 1\<rparr>)"

definition us_finish :: "nat \<Rightarrow> unit_scan \<Rightarrow> unit_scan" where
  "us_finish scan_id st = (if us_scan_id st = scan_id then st\<lparr>us_running := False\<rparr> else st)"

text \<open>The world: \<open>modbus.read\<close> with function 3, address 0 and quantity 1, and what other threads do
  while the thread waits for it (the first) and sleeps after it (the second).\<close>

record 'w unit_world =
  uw_read :: "nat \<Rightarrow> 'w \<Rightarrow> read_result \<times> 'w"
  uw_env_read :: "unit_scan \<times> 'w \<Rightarrow> unit_scan \<times> 'w"
  uw_env_sleep :: "unit_scan \<times> 'w \<Rightarrow> unit_scan \<times> 'w"

fun us_run_scan :: "'w unit_world \<Rightarrow> nat \<Rightarrow> nat list \<Rightarrow> unit_scan \<times> 'w \<Rightarrow> unit_scan \<times> 'w" where
  "us_run_scan W scan_id [] s = (us_finish scan_id (fst s), snd s)"
| "us_run_scan W scan_id (unit_id # units) s =
     (if us_scan_id (fst s) \<noteq> scan_id then s
      else let (result, w1) = uw_read W unit_id (snd s);
               s1 = uw_env_read W (fst s, w1)
           in if us_scan_id (fst s1) \<noteq> scan_id then s1
              else us_run_scan W scan_id units
                     (uw_env_sleep W (us_record scan_id unit_id result (fst s1), snd s1)))"

definition us_checks :: "pystr \<Rightarrow> int \<Rightarrow> int \<Rightarrow> int \<Rightarrow> real \<Rightarrow> pystr option" where
  "us_checks host start_unit end_unit port timeout =
     (if host = [] then Some (lit ''host is required'')
      else if \<not> (0 \<le> start_unit \<and> start_unit \<le> 255) \<or> \<not> (0 \<le> end_unit \<and> end_unit \<le> 255)
        then Some (lit ''unit IDs must be 0-255'')
      else if end_unit < start_unit then Some (lit ''start unit ID must be <= end unit ID'')
      else if \<not> (1 \<le> port \<and> port \<le> 65535) then Some (lit ''port must be 1-65535'')
      else if \<not> (1 / 10 \<le> timeout \<and> timeout \<le> 10) then Some (lit ''timeout must be 0.1-10 seconds'')
      else None)"

text \<open>Refused, or the new state, the units to probe and the scan id given to the thread.\<close>

definition us_start ::
  "pystr \<Rightarrow> int \<Rightarrow> int \<Rightarrow> int \<Rightarrow> real \<Rightarrow> unit_scan \<Rightarrow> pystr + unit_scan \<times> nat list \<times> nat" where
  "us_start host start_unit end_unit port timeout st =
     (case us_checks (strip host) start_unit end_unit port timeout of
        Some m \<Rightarrow> Inl m
      | None \<Rightarrow>
          let scan_id = us_scan_id st + 1 in
          Inr (\<lparr>us_running = True, us_host = Some (strip host), us_start_unit = Some start_unit,
                us_end_unit = Some end_unit, us_scan_id = scan_id, us_results = [], us_progress = 0,
                us_total = nat (end_unit - start_unit + 1)\<rparr>,
              [nat start_unit..<nat end_unit + 1], scan_id))"

definition us_stop :: "unit_scan \<Rightarrow> unit_scan \<times> pystr" where
  "us_stop st =
     (if us_running st then (st\<lparr>us_scan_id := us_scan_id st + 1, us_running := False\<rparr>, lit ''scan stopped'')
      else (st, lit ''no scan running''))"

section \<open>Polling\<close>

record poll =
  po_running :: bool
  po_host :: "pystr option"
  po_port :: "int option"
  po_unit_id :: "int option"
  po_function_code :: "int option"
  po_address :: "int option"
  po_quantity :: "int option"
  po_interval_ms :: "int option"
  po_session_id :: nat
  po_value :: "modbus_values option"
  po_values :: "modbus_values option"
  po_last_response_time_ms :: "real option"
  po_last_message :: "pystr option"
  po_requests :: nat
  po_successful :: nat
  po_timeouts :: nat
  po_exceptions :: nat
  po_min_ms :: "real option"
  po_avg_ms :: "real option"
  po_max_ms :: "real option"
  po_sum_ms :: real
  po_ms_count :: nat

definition poll0 :: poll where
  "poll0 = \<lparr>po_running = False, po_host = None, po_port = None, po_unit_id = None, po_function_code = None,
     po_address = None, po_quantity = None, po_interval_ms = None, po_session_id = 0, po_value = None,
     po_values = None, po_last_response_time_ms = None, po_last_message = None, po_requests = 0,
     po_successful = 0, po_timeouts = 0, po_exceptions = 0, po_min_ms = None, po_avg_ms = None,
     po_max_ms = None, po_sum_ms = 0, po_ms_count = 0\<rparr>"

fun result_time :: "read_result \<Rightarrow> real option" where
  "result_time (Read r) = Some (ro_time_ms r)"
| "result_time (Failed _ _ _ t) = Some t"
| "result_time (Refused _) = None"

fun result_last_message :: "read_result \<Rightarrow> pystr option" where
  "result_last_message (Read r) = None"
| "result_last_message r = Some (result_message r)"

text \<open>\<open>result["values"][0] if result.get("values") else None\<close>, a list of one.\<close>

fun first_value :: "modbus_values \<Rightarrow> modbus_values option" where
  "first_value (Bits (b # _)) = Some (Bits [b])"
| "first_value (Registers (n # _)) = Some (Registers [n])"
| "first_value _ = None"

definition po_add_time :: "real \<Rightarrow> poll \<Rightarrow> poll" where
  "po_add_time t st =
     (let sum_ms = po_sum_ms st + t; ms_count = po_ms_count st + 1 in
      st\<lparr>po_sum_ms := sum_ms, po_ms_count := ms_count,
         po_min_ms := Some (case po_min_ms st of None \<Rightarrow> t | Some x \<Rightarrow> min x t),
         po_max_ms := Some (case po_max_ms st of None \<Rightarrow> t | Some x \<Rightarrow> max x t),
         po_avg_ms := Some (round1 (sum_ms / ms_count))\<rparr>)"

text \<open>The locked section after every read.\<close>

definition po_record :: "nat \<Rightarrow> read_result \<Rightarrow> poll \<Rightarrow> poll" where
  "po_record session_id result st =
     (if po_session_id st \<noteq> session_id then st
      else let st1 = st\<lparr>po_requests := po_requests st + 1, po_last_response_time_ms := result_time result,
                        po_last_message := result_last_message result\<rparr>;
               st2 = (case result_time result of None \<Rightarrow> st1 | Some t \<Rightarrow> po_add_time t st1)
           in case result of
                Read r \<Rightarrow> st2\<lparr>po_successful := po_successful st2 + 1, po_values := Some (ro_values r),
                             po_value := first_value (ro_values r)\<rparr>
              | _ \<Rightarrow>
                  let message = result_message result in
                  if startswith message (lit ''Modbus exception'') then st2\<lparr>po_exceptions := po_exceptions st2 + 1\<rparr>
                  else if contains message (lit ''timeout'') then st2\<lparr>po_timeouts := po_timeouts st2 + 1\<rparr>
                  else st2)"

definition po_checks :: "pystr \<Rightarrow> int \<Rightarrow> int \<Rightarrow> int \<Rightarrow> int \<Rightarrow> int \<Rightarrow> int \<Rightarrow> pystr option" where
  "po_checks host port unit_id function_code address quantity interval_ms =
     (if host = [] then Some (lit ''host is required'')
      else if function_code \<notin> {1, 2, 3, 4} then Some (lit ''function code must be 1-4'')
      else if \<not> (0 \<le> unit_id \<and> unit_id \<le> 255) then Some (lit ''unit ID must be 0-255'')
      else if \<not> (0 \<le> address \<and> address \<le> 0xFFFF) then Some (lit ''address must be 0-65535'')
      else if \<not> (1 \<le> quantity \<and> quantity \<le> 125) then Some (lit ''quantity must be 1-125'')
      else if \<not> (1 \<le> port \<and> port \<le> 65535) then Some (lit ''port must be 1-65535'')
      else if \<not> (200 \<le> interval_ms \<and> interval_ms \<le> 60000) then Some (lit ''interval must be 200-60000 ms'')
      else None)"

definition po_start ::
  "pystr \<Rightarrow> int \<Rightarrow> int \<Rightarrow> int \<Rightarrow> int \<Rightarrow> int \<Rightarrow> int \<Rightarrow> poll \<Rightarrow> pystr + poll \<times> nat" where
  "po_start host port unit_id function_code address quantity interval_ms st =
     (case po_checks (strip host) port unit_id function_code address quantity interval_ms of
        Some m \<Rightarrow> Inl m
      | None \<Rightarrow>
          let session_id = po_session_id st + 1 in
          Inr (poll0\<lparr>po_running := True, po_host := Some (strip host), po_port := Some port,
                po_unit_id := Some unit_id, po_function_code := Some function_code,
                po_address := Some address, po_quantity := Some quantity,
                po_interval_ms := Some interval_ms, po_session_id := session_id\<rparr>, session_id))"

definition po_stop :: "poll \<Rightarrow> poll \<times> pystr" where
  "po_stop st =
     (if po_running st then (st\<lparr>po_session_id := po_session_id st + 1, po_running := False\<rparr>, lit ''polling stopped'')
      else (st, lit ''no polling running''))"

definition po_failure_percent :: "poll \<Rightarrow> real option" where
  "po_failure_percent st =
     (if 0 < po_requests st
      then Some (round1 (100 * (real (po_requests st) - real (po_successful st)) / real (po_requests st)))
      else None)"

section \<open>Sessions\<close>

datatype us_section = UsRecord nat read_result | UsFinish

datatype us_call = UsStart pystr int int int real | UsStop

fun us_work :: "nat \<Rightarrow> us_section \<Rightarrow> unit_scan \<Rightarrow> unit_scan" where
  "us_work i (UsRecord unit_id result) st = us_record i unit_id result st"
| "us_work i UsFinish st = us_finish i st"

fun us_ctl :: "us_call \<Rightarrow> unit_scan \<Rightarrow> unit_scan" where
  "us_ctl (UsStart host a b port timeout) st =
     (case us_start host a b port timeout st of Inl _ \<Rightarrow> st | Inr (st', _) \<Rightarrow> st')"
| "us_ctl UsStop st = fst (us_stop st)"

lemma us_record_fields:
  "us_scan_id (us_record i u r st) = us_scan_id st"
  by (simp add: us_record_def split: prod.split)

interpretation us: session us_scan_id us_work us_ctl
proof
  fix s i e
  show "us_scan_id s \<noteq> i \<Longrightarrow> us_work i e s = s"
    by (cases e) (simp_all add: us_record_def us_finish_def)
  show "us_scan_id (us_work i e s) = us_scan_id s"
    by (cases e) (simp_all add: us_record_fields us_finish_def)
next
  fix s c
  show "us_scan_id s \<le> us_scan_id (us_ctl c s)"
    by (cases c) (auto simp: us_start_def us_stop_def Let_def split: option.split)
qed

datatype po_call = PoStart pystr int int int int int int | PoStop

fun po_ctl :: "po_call \<Rightarrow> poll \<Rightarrow> poll" where
  "po_ctl (PoStart host port u fc a q iv) st =
     (case po_start host port u fc a q iv st of Inl _ \<Rightarrow> st | Inr (st', _) \<Rightarrow> st')"
| "po_ctl PoStop st = fst (po_stop st)"

lemma po_add_time_fields [simp]:
  "po_session_id (po_add_time t st) = po_session_id st"
  "po_requests (po_add_time t st) = po_requests st"
  "po_successful (po_add_time t st) = po_successful st"
  "po_exceptions (po_add_time t st) = po_exceptions st"
  "po_timeouts (po_add_time t st) = po_timeouts st"
  "po_values (po_add_time t st) = po_values st"
  "po_ms_count (po_add_time t st) = po_ms_count st + 1"
  by (simp_all add: po_add_time_def Let_def)

lemma po_record_id: "po_session_id (po_record i r st) = po_session_id st"
  by (cases r) (simp_all add: po_record_def Let_def)

interpretation po: session po_session_id po_record po_ctl
proof
  fix s i e
  show "po_session_id s \<noteq> i \<Longrightarrow> po_record i e s = s" by (simp add: po_record_def)
  show "po_session_id (po_record i e s) = po_session_id s" by (rule po_record_id)
next
  fix s c
  show "po_session_id s \<le> po_session_id (po_ctl c s)"
    by (cases c) (auto simp: po_start_def po_stop_def Let_def split: option.split)
qed

section \<open>Statistics of a poll\<close>

definition timed_ok :: "read_result \<Rightarrow> bool" where
  "timed_ok r \<longleftrightarrow> (case result_time r of None \<Rightarrow> True | Some t \<Rightarrow> round1 t = t)"

text \<open>Every result of \<open>modbus.read\<close> has a time already rounded.\<close>

lemma timed_read_error [simp]: "timed_ok (read_error m req elapsed h b)"
  by (simp add: timed_ok_def read_error_def)

lemma timed_body_exchange: "body_exchange req elapsed h b = Early r \<Longrightarrow> timed_ok r"
  by (auto simp: body_exchange_def split: option.splits list.splits)

lemma timed_read_response:
  "yields (\<lambda>x. \<forall>r. x = Early r \<longrightarrow> timed_ok r) (read_response tid req pt elapsed es)"
  unfolding read_response_def Let_def
  by (auto intro!: yields_rbind dest: timed_body_exchange split: sum.split option.split)

lemma timed_decode: "yields timed_ok (decode_response fc a q req elapsed h b)"
  unfolding decode_response_def Let_def
  by (auto intro!: yields_rbind simp: timed_ok_def read_error_def)

lemma timedD:
  "read_response tid req pt elapsed es = Inr (Early r) \<Longrightarrow> timed_ok r"
  "decode_response fc a q req elapsed h b = Inr r \<Longrightarrow> timed_ok r"
  using timed_read_response [of tid req pt elapsed es] timed_decode [of fc a q req elapsed h b] by simp_all

lemma modbus_read_timed:
  "yields (\<lambda>(r, tid'). timed_ok r) (modbus_read host u fc a q port eth0 tid net elapsed)"
  unfolding modbus_read_def Let_def
  by (auto intro!: yields_rbind simp: timed_ok_def [of "Refused _"] split: option.split exchange.split)
    (erule timedD)+

definition poll_ok :: "poll \<Rightarrow> bool" where
  "poll_ok st \<longleftrightarrow> po_successful st + po_exceptions st + po_timeouts st \<le> po_requests st \<and>
     po_ms_count st \<le> po_requests st \<and>
     times_fields_ok (po_ms_count st) (po_sum_ms st) (po_min_ms st) (po_avg_ms st) (po_max_ms st)"

lemma poll_ok_0: "poll_ok (poll0\<lparr>po_running := a, po_host := b, po_port := c, po_unit_id := d,
    po_function_code := e, po_address := f, po_quantity := g, po_interval_ms := h, po_session_id := i\<rparr>)"
  by (simp add: poll_ok_def poll0_def)

lemma poll_ok_add_time:
  assumes "times_fields_ok (po_ms_count st) (po_sum_ms st) (po_min_ms st) (po_avg_ms st) (po_max_ms st)"
    and "round1 t = t"
  shows "times_fields_ok (po_ms_count (po_add_time t st)) (po_sum_ms (po_add_time t st))
    (po_min_ms (po_add_time t st)) (po_avg_ms (po_add_time t st)) (po_max_ms (po_add_time t st))"
  using times_fields_add [OF assms] by (simp add: po_add_time_def Let_def)

lemma poll_ok_record:
  assumes "poll_ok st" and "timed_ok r" and "po_session_id st = i"
  shows "poll_ok (po_record i r st) \<and> po_requests (po_record i r st) = po_requests st + 1 \<and>
    po_successful (po_record i r st) = po_successful st + (if result_ok r then 1 else 0)"
proof -
  let ?st1 = "st\<lparr>po_requests := po_requests st + 1, po_last_response_time_ms := result_time r,
                 po_last_message := result_last_message r\<rparr>"
  let ?st2 = "case result_time r of None \<Rightarrow> ?st1 | Some t \<Rightarrow> po_add_time t ?st1"
  have t: "times_fields_ok (po_ms_count ?st2) (po_sum_ms ?st2) (po_min_ms ?st2) (po_avg_ms ?st2) (po_max_ms ?st2)"
    and n: "po_ms_count ?st2 \<le> po_requests st + 1"
    using assms(1,2) poll_ok_add_time [of ?st1]
    by (auto simp: poll_ok_def timed_ok_def split: option.splits)
  have f: "po_requests ?st2 = po_requests st + 1" "po_successful ?st2 = po_successful st"
    "po_exceptions ?st2 = po_exceptions st" "po_timeouts ?st2 = po_timeouts st"
    by (simp_all split: option.split)
  have c: "po_successful st + po_exceptions st + po_timeouts st \<le> po_requests st"
    using assms(1) by (simp add: poll_ok_def)
  show ?thesis
  proof (cases "result_ok r")
    case True
    then obtain x where r: "r = Read x" by (cases r) auto
    then have "po_record i r st = ?st2\<lparr>po_successful := po_successful ?st2 + 1, po_values := Some (ro_values x),
        po_value := first_value (ro_values x)\<rparr>"
      using assms(3) by (simp add: po_record_def Let_def)
    with t n f c True show ?thesis by (simp add: poll_ok_def)
  next
    case False
    then have "po_record i r st = (let message = result_message r in
        if startswith message (lit ''Modbus exception'') then ?st2\<lparr>po_exceptions := po_exceptions ?st2 + 1\<rparr>
        else if contains message (lit ''timeout'') then ?st2\<lparr>po_timeouts := po_timeouts ?st2 + 1\<rparr> else ?st2)"
      using assms(3) by (cases r) (simp_all add: po_record_def Let_def)
    with t n f c False show ?thesis by (simp add: poll_ok_def Let_def)
  qed
qed

lemma poll_run:
  "poll_ok st \<Longrightarrow> list_all timed_ok rs \<Longrightarrow> po_session_id st = i \<Longrightarrow>
   poll_ok (fold (po_record i) rs st) \<and> po_requests (fold (po_record i) rs st) = po_requests st + length rs \<and>
   po_successful (fold (po_record i) rs st) = po_successful st + length (filter result_ok rs)"
proof (induction rs arbitrary: st)
  case (Cons r rs)
  from poll_ok_record [OF Cons.prems(1) _ Cons.prems(3), of r] Cons.prems(2)
  have "poll_ok (po_record i r st)" "po_requests (po_record i r st) = po_requests st + 1"
    "po_successful (po_record i r st) = po_successful st + (if result_ok r then 1 else 0)" by auto
  with Cons.IH [of "po_record i r st"] Cons.prems(2,3) show ?case by (simp add: po_record_id)
qed simp

section \<open>Properties\<close>

text \<open>The row a unit should get: a unit that sends values or a Modbus exception is there, any other failure is
  silence, and the failure's message is kept.\<close>

definition failure_row :: "pystr \<Rightarrow> unit_result \<Rightarrow> bool" where
  "failure_row m row \<longleftrightarrow> ur_detail row = m \<and>
     ur_status row = (if \<exists>more. m = lit ''Modbus exception'' @ more then lit ''responding'' else lit ''no_response'')"

definition unit_reported :: "(nat \<Rightarrow> read_result) \<Rightarrow> nat \<Rightarrow> unit_result \<Rightarrow> bool" where
  "unit_reported answer u row \<longleftrightarrow> ur_unit_id row = u \<and>
     (case answer u of
        Read x \<Rightarrow> ur_status row = lit ''responding'' \<and> ur_detail row = lit ''FC3 supported''
      | Refused m \<Rightarrow> failure_row m row
      | Failed m a b c \<Rightarrow> failure_row m row)"

lemma classify_reported:
  "unit_reported answer u \<lparr>ur_unit_id = u, ur_status = fst (us_classify (answer u)), ur_detail = snd (us_classify (answer u))\<rparr>"
  by (cases "answer u") (simp_all add: unit_reported_def failure_row_def us_classify_def startswith_iff Let_def)

text \<open>C39: a unit scan finds what answers.  When nobody interrupts it, a scan ends with exactly one entry per
  unit of the requested range, in order: a unit whose probe returns values or a Modbus exception is responding
  (with the exception's message as detail), every other unit is no_response with the message of its failure;
  the progress has reached the total and the scan no longer runs.\<close>

theorem unit_scan_exact:
  assumes "\<And>u w. fst (uw_read W u w) = answer u"
    and "\<And>s. fst (uw_env_read W s) = fst s" and "\<And>s. fst (uw_env_sleep W s) = fst s"
    and "us_start host a b port timeout st = Inr (st1, units, scan_id)"
  shows "let st2 = fst (us_run_scan W scan_id units (st1, w)) in
    units = [nat a..<nat b + 1] \<and> list_all2 (unit_reported answer) units (us_results st2) \<and>
    us_progress st2 = us_total st2 \<and> \<not> us_running st2 \<and> us_scan_id st2 = us_scan_id st + 1"
proof -
  have run: "us_scan_id (fst s) = scan_id \<Longrightarrow>
      fst (us_run_scan W scan_id units s) = (fst s)\<lparr>us_running := False,
        us_results := us_results (fst s) @ map (\<lambda>u. \<lparr>ur_unit_id = u, ur_status = fst (us_classify (answer u)),
          ur_detail = snd (us_classify (answer u))\<rparr>) units,
        us_progress := us_progress (fst s) + length units\<rparr>" for units s
  proof (induction units arbitrary: s)
    case Nil
    then show ?case by (simp add: us_finish_def)
  next
    case (Cons u units)
    obtain w1 where r: "uw_read W u (snd s) = (answer u, w1)"
      using assms(1) [of u "snd s"] by (cases "uw_read W u (snd s)") auto
    let ?s1 = "uw_env_read W (fst s, w1)"
    let ?s2 = "uw_env_sleep W (us_record scan_id u (answer u) (fst ?s1), snd ?s1)"
    have "fst ?s1 = fst s" by (simp add: assms(2))
    then have s2: "fst ?s2 = us_record scan_id u (answer u) (fst s)" by (simp add: assms(3))
    then have "us_scan_id (fst ?s2) = scan_id" using Cons.prems by (simp add: us_record_fields)
    from Cons.IH [OF this] Cons.prems r s2 \<open>fst ?s1 = fst s\<close> show ?case
      by (simp add: Let_def us_record_def split_def)
  qed
  from assms(4) have c: "us_checks (strip host) a b port timeout = None"
    by (auto simp: us_start_def split: option.splits)
  then have ab: "0 \<le> a" "a \<le> b" by (auto simp: us_checks_def split: if_splits)
  then have "length [nat a..<nat b + 1] = nat (b - a + 1)" unfolding length_upt by arith
  moreover from assms(4) c have "scan_id = us_scan_id st + 1" "units = [nat a..<nat b + 1]"
    "us_scan_id st1 = scan_id" "us_results st1 = []" "us_progress st1 = 0" "us_total st1 = nat (b - a + 1)"
    by (auto simp: us_start_def Let_def)
  ultimately show ?thesis using run [of "(st1, w)" units]
    by (simp add: Let_def list_all2_map2 list.rel_refl_strong classify_reported del: upt_Suc)
qed

theorem unit_scan_exact_witness:
  "let W = \<lparr>uw_read = (\<lambda>u w. (if u = 7 then Refused (lit ''Modbus exception: Illegal Function'') else
        Refused (lit ''timeout''), w)), uw_env_read = id, uw_env_sleep = id\<rparr>;
       st2 = fst (us_run_scan W 1 [6, 7] (unit_scan0\<lparr>us_running := True, us_host := Some (lit ''gw''),
         us_start_unit := Some 6, us_end_unit := Some 7, us_scan_id := 1, us_total := 2\<rparr>, ()))
   in map ur_status (us_results st2) = [lit ''no_response'', lit ''responding''] \<and> us_progress st2 = us_total st2"
proof -
  let ?answer = "\<lambda>u :: nat. if u = 7 then Refused (lit ''Modbus exception: Illegal Function'') else Refused (lit ''timeout'')"
  let ?W = "\<lparr>uw_read = (\<lambda>u w. (?answer u, w)), uw_env_read = id, uw_env_sleep = id\<rparr>"
  have h: "strip (lit ''gw'') = lit ''gw''"
    by (simp add: strip_def lstrip_def rstrip_def lit_def is_space_def)
  have start: "us_start (lit ''gw'') 6 7 502 1 unit_scan0 = Inr (unit_scan0\<lparr>us_running := True, us_host := Some (lit ''gw''),
         us_start_unit := Some 6, us_end_unit := Some 7, us_scan_id := 1, us_total := 2\<rparr>, [6, 7], 1)"
    by (simp add: us_start_def us_checks_def h unit_scan0_def Let_def upt_conv_Cons)
  show ?thesis
    using unit_scan_exact [of ?W ?answer, OF _ _ _ start, of "()"]
    by (auto simp: Let_def list_all2_Cons1 unit_reported_def failure_row_def lit_def)
qed

text \<open>C18: an old scan cannot write into a new one.  After a successful \<open>start\<close>, whatever sections of
  earlier scan threads still run, in any interleaving with each other, with the new thread and with
  further calls, the state is the one without them.\<close>

theorem unit_scan_superseded:
  assumes "us_start host a b port timeout st = Inr (st1, units, scan_id)"
  shows "us.interleave acts st1 =
    us.interleave (filter (\<lambda>x. case x of Work i e \<Rightarrow> scan_id \<le> i | Ctl c \<Rightarrow> True) acts) st1"
proof (rule us.superseded)
  show "scan_id \<le> us_scan_id st1"
    using assms by (auto simp: us_start_def Let_def split: option.splits)
qed

theorem unit_scan_superseded_witness:
  "us.interleave [Work 0 UsFinish, Work 0 (UsRecord 3 (Refused []))]
     (unit_scan0\<lparr>us_running := True, us_host := Some (lit ''gw''), us_start_unit := Some 6,
        us_end_unit := Some 7, us_scan_id := 1, us_total := 2\<rparr>) =
   unit_scan0\<lparr>us_running := True, us_host := Some (lit ''gw''), us_start_unit := Some 6,
        us_end_unit := Some 7, us_scan_id := 1, us_total := 2\<rparr>"
proof -
  have h: "strip (lit ''gw'') = lit ''gw''"
    by (simp add: strip_def lstrip_def rstrip_def lit_def is_space_def)
  have "us_start (lit ''gw'') 6 7 502 1 unit_scan0 = Inr (unit_scan0\<lparr>us_running := True, us_host := Some (lit ''gw''),
         us_start_unit := Some 6, us_end_unit := Some 7, us_scan_id := 1, us_total := 2\<rparr>, [6, 7], 1)"
    by (simp add: us_start_def us_checks_def h unit_scan0_def Let_def upt_conv_Cons)
  from unit_scan_superseded [OF this, of "[Work 0 UsFinish, Work 0 (UsRecord 3 (Refused []))]"]
  show ?thesis by (simp add: us.interleave_def)
qed

text \<open>The statistics of a poll.  After any sequence of reads of one session the requests are their
  number and the successes those that returned values; successes, exceptions and timeouts together
  never exceed the requests; minimum, average and maximum time appear together and in order; and the
  failure rate is the rounded share of unsuccessful requests, between 0 and 100.\<close>

theorem poll_statistics:
  assumes "po_start host port u fc a q interval st = Inr (st1, i)" and "list_all timed_ok results"
    and "results \<noteq> []"
  shows "let st2 = fold (po_record i) results st1; n = length results; ok = length (filter result_ok results) in
    po_requests st2 = n \<and> po_successful st2 = ok \<and>
    po_successful st2 + po_exceptions st2 + po_timeouts st2 \<le> n \<and>
    (case (po_min_ms st2, po_avg_ms st2, po_max_ms st2) of
       (None, None, None) \<Rightarrow> True | (Some mn, Some av, Some mx) \<Rightarrow> mn \<le> av \<and> av \<le> mx | _ \<Rightarrow> False) \<and>
    po_failure_percent st2 = Some (round1 (100 * (real n - real ok) / real n)) \<and>
    0 \<le> round1 (100 * (real n - real ok) / real n) \<and> round1 (100 * (real n - real ok) / real n) \<le> 100"
proof -
  let ?st2 = "fold (po_record i) results st1"
  from assms(1) have s: "poll_ok st1" "po_session_id st1 = i" "po_requests st1 = 0" "po_successful st1 = 0"
    by (auto simp: po_start_def Let_def poll_ok_0 split: option.splits) (simp_all add: poll0_def)
  from poll_run [OF s(1) assms(2) s(2)] s(3,4) have r: "poll_ok ?st2" "po_requests ?st2 = length results"
    "po_successful ?st2 = length (filter result_ok results)" by auto
  have p: "0 < length results" "length (filter result_ok results) \<le> length results" using assms(3) by auto
  have t: "case (po_min_ms ?st2, po_avg_ms ?st2, po_max_ms ?st2) of
       (None, None, None) \<Rightarrow> True | (Some mn, Some av, Some mx) \<Rightarrow> mn \<le> av \<and> av \<le> mx | _ \<Rightarrow> False"
    using r(1) by (auto simp: poll_ok_def times_fields_ok_def split: option.splits)
  show ?thesis
    unfolding Let_def using r(2,3) t percent_bounds [OF p(2,1)] p(1) r(1)
    by (simp add: po_failure_percent_def poll_ok_def)
qed

theorem poll_statistics_witness:
  "let st2 = fold (po_record 1) [Failed (lit ''timeout'') None None 3, Failed (lit ''refused'') None None 1]
      (poll0\<lparr>po_running := True, po_host := Some (lit ''gw''), po_port := Some 502, po_unit_id := Some 1,
        po_function_code := Some 3, po_address := Some 0, po_quantity := Some 1,
        po_interval_ms := Some 1000, po_session_id := 1\<rparr>)
   in po_requests st2 = 2 \<and> po_successful st2 = 0 \<and> po_failure_percent st2 = Some 100"
proof -
  let ?rs = "[Failed (lit ''timeout'') None None 3, Failed (lit ''refused'') None None 1]"
  have h: "strip (lit ''gw'') = lit ''gw''"
    by (simp add: strip_def lstrip_def rstrip_def lit_def is_space_def)
  have r: "round1 3 = 3" "round1 1 = 1" "round1 100 = 100"
    using round_even_of_int [of 30] round_even_of_int [of 10] round_even_of_int [of 1000]
    by (simp_all add: round1_def)
  have start: "po_start (lit ''gw'') 502 1 3 0 1 1000 poll0 = Inr (poll0\<lparr>po_running := True, po_host := Some (lit ''gw''),
        po_port := Some 502, po_unit_id := Some 1, po_function_code := Some 3, po_address := Some 0,
        po_quantity := Some 1, po_interval_ms := Some 1000, po_session_id := 1\<rparr>, 1)"
    by (simp add: po_start_def po_checks_def h Let_def) (simp add: poll0_def)
  have "list_all timed_ok ?rs" by (simp add: timed_ok_def r)
  from poll_statistics [OF start this] r show ?thesis by (simp add: Let_def)
qed

text \<open>Likewise, no late answer of an earlier polling session reaches the statistics of a new one.\<close>

theorem poll_superseded:
  assumes "po_start host port u fc a q interval st = Inr (st1, i)"
  shows "po.interleave acts st1 =
    po.interleave (filter (\<lambda>x. case x of Work j r \<Rightarrow> i \<le> j | Ctl c \<Rightarrow> True) acts) st1"
proof (rule po.superseded)
  show "i \<le> po_session_id st1"
    using assms by (auto simp: po_start_def Let_def split: option.splits)
qed

theorem poll_superseded_witness:
  "po.interleave [Work 0 (Failed (lit ''timeout'') None None 3)] (poll0\<lparr>po_running := True,
     po_host := Some (lit ''gw''), po_port := Some 502, po_unit_id := Some 1, po_function_code := Some 3,
     po_address := Some 0, po_quantity := Some 1, po_interval_ms := Some 1000, po_session_id := 1\<rparr>) =
   poll0\<lparr>po_running := True, po_host := Some (lit ''gw''), po_port := Some 502, po_unit_id := Some 1,
     po_function_code := Some 3, po_address := Some 0, po_quantity := Some 1,
     po_interval_ms := Some 1000, po_session_id := 1\<rparr>"
proof -
  have h: "strip (lit ''gw'') = lit ''gw''"
    by (simp add: strip_def lstrip_def rstrip_def lit_def is_space_def)
  have start: "po_start (lit ''gw'') 502 1 3 0 1 1000 poll0 = Inr (poll0\<lparr>po_running := True, po_host := Some (lit ''gw''),
        po_port := Some 502, po_unit_id := Some 1, po_function_code := Some 3, po_address := Some 0,
        po_quantity := Some 1, po_interval_ms := Some 1000, po_session_id := 1\<rparr>, 1)"
    by (simp add: po_start_def po_checks_def h Let_def) (simp add: poll0_def)
  from poll_superseded [OF start, of "[Work 0 (Failed (lit ''timeout'') None None 3)]"]
  show ?thesis by (simp add: po.interleave_def)
qed

end
