(* ===== verification/Poll_Thread.thy ===== *)
theory Poll_Thread
  imports Modbus_Tasks
begin

text \<open>
  The thread of \<open>backend/tools/modbus_poll.py\<close> as a whole loop, and the reports of the polling and of the
  unit scan.  \<open>Modbus_Tasks\<close> has the locked sections; here they are put together with the reads and
  with what other threads do while the thread waits for an answer and sleeps.  The loop has no end of
  its own: its value is \<open>None\<close> when it runs forever.
\<close>

record 'w poll_world =
  pw_read :: "'w \<Rightarrow> (exn + read_result) \<times> 'w"
  pw_env_read :: "poll \<times> 'w \<Rightarrow> poll \<times> 'w"
  pw_env_sleep :: "poll \<times> 'w \<Rightarrow> poll \<times> 'w"

text \<open>An exception of \<open>modbus.read\<close> is not caught and ends the thread.\<close>

partial_function (option) poll_loop :: "'w poll_world \<Rightarrow> nat \<Rightarrow> poll \<times> 'w \<Rightarrow> (poll \<times> 'w) option" where
  "poll_loop W session_id s =
     (if po_session_id (fst s) \<noteq> session_id then Some s
      else case pw_read W (snd s) of
             (Inl e, w1) \<Rightarrow> Some (pw_env_read W (fst s, w1))
           | (Inr result, w1) \<Rightarrow>
               let s1 = pw_env_read W (fst s, w1) in
               if po_session_id (fst s1) \<noteq> session_id then Some s1
               else poll_loop W session_id (pw_env_sleep W (po_record session_id result (fst s1), snd s1)))"

section \<open>status()\<close>

record poll_report =
  pr_running :: bool
  pr_target :: "pystr option \<times> int option \<times> int option"
  pr_function_code :: "int option"
  pr_address :: "int option"
  pr_quantity :: "int option"
  pr_interval_ms :: "int option"
  pr_value :: "modbus_values option"
  pr_values :: "modbus_values option"
  pr_last_response_time_ms :: "real option"
  pr_last_message :: "pystr option"
  pr_requests :: nat
  pr_successful :: nat
  pr_timeouts :: nat
  pr_exceptions :: nat
  pr_failure_percent :: "real option"
  pr_min_avg_max_ms :: "real option \<times> real option \<times> real option"

definition po_status :: "poll \<Rightarrow> poll_report" where
  "po_status st =
     \<lparr>pr_running = po_running st, pr_target = (po_host st, po_port st, po_unit_id st),
      pr_function_code = po_function_code st, pr_address = po_address st, pr_quantity = po_quantity st,
      pr_interval_ms = po_interval_ms st, pr_value = po_value st, pr_values = po_values st,
      pr_last_response_time_ms = po_last_response_time_ms st, pr_last_message = po_last_message st,
      pr_requests = po_requests st, pr_successful = po_successful st, pr_timeouts = po_timeouts st,
      pr_exceptions = po_exceptions st, pr_failure_percent = po_failure_percent st,
      pr_min_avg_max_ms = (po_min_ms st, po_avg_ms st, po_max_ms st)\<rparr>"

record unit_report =
  up_running :: bool
  up_host :: "pystr option"
  up_start_unit :: "int option"
  up_end_unit :: "int option"
  up_results :: "unit_result list"
  up_progress :: nat
  up_total :: nat

definition us_status :: "unit_scan \<Rightarrow> unit_report" where
  "us_status st =
     \<lparr>up_running = us_running st, up_host = us_host st, up_start_unit = us_start_unit st,
      up_end_unit = us_end_unit st, up_results = us_results st, up_progress = us_progress st,
      up_total = us_total st\<rparr>"

section \<open>When the thread ends\<close>

text \<open>The thread is over in a state in which it returns before the next recorded result: another session is
  current, or the read raises.  \<open>poll_round\<close> is one pass of the loop, with everything other threads do
  during it.\<close>

definition poll_over :: "'w poll_world \<Rightarrow> nat \<Rightarrow> poll \<times> 'w \<Rightarrow> bool" where
  "poll_over W session_id s \<longleftrightarrow>
     po_session_id (fst s) \<noteq> session_id \<or> (case fst (pw_read W (snd s)) of Inl e \<Rightarrow> True | Inr r \<Rightarrow> False)"

definition poll_round :: "'w poll_world \<Rightarrow> nat \<Rightarrow> poll \<times> 'w \<Rightarrow> poll \<times> 'w" where
  "poll_round W session_id s =
     (case pw_read W (snd s) of
        (Inl e, w1) \<Rightarrow> s
      | (Inr result, w1) \<Rightarrow>
          let s1 = pw_env_read W (fst s, w1) in
          if po_session_id (fst s1) \<noteq> session_id then s1
          else pw_env_sleep W (po_record session_id result (fst s1), snd s1))"

lemma poll_loop_over: "poll_over W i s \<Longrightarrow> poll_loop W i s \<noteq> None"
  by (subst poll_loop.simps) (auto simp: poll_over_def split: prod.split sum.splits)

lemma poll_loop_round:
  "\<not> poll_over W i s \<Longrightarrow> poll_loop W i s = poll_loop W i (poll_round W i s)"
proof -
  assume "\<not> poll_over W i s"
  then obtain r w1 where i: "po_session_id (fst s) = i" and r: "pw_read W (snd s) = (Inr r, w1)"
    by (cases "pw_read W (snd s)") (auto simp: poll_over_def split: sum.splits)
  let ?s1 = "pw_env_read W (fst s, w1)"
  have step: "poll_loop W i s = (if po_session_id (fst ?s1) \<noteq> i then Some ?s1
      else poll_loop W i (pw_env_sleep W (po_record i r (fst ?s1), snd ?s1)))"
    by (subst poll_loop.simps) (simp add: i r Let_def)
  show ?thesis
  proof (cases "po_session_id (fst ?s1) = i")
    case True
    then show ?thesis by (simp add: step poll_round_def r Let_def)
  next
    case False
    then have "poll_loop W i ?s1 = Some ?s1" by (subst poll_loop.simps) simp
    with False show ?thesis by (simp add: step poll_round_def r Let_def)
  qed
qed

lemma poll_loop_rounds:
  "(\<And>k. k < n \<Longrightarrow> \<not> poll_over W i ((poll_round W i ^^ k) s)) \<Longrightarrow>
    poll_loop W i s = poll_loop W i ((poll_round W i ^^ n) s)"
  by (induction n) (simp_all add: poll_loop_round)

text \<open>A value of the loop needs a state in which the thread is over.\<close>

lemma poll_loop_value:
  assumes "poll_loop W i s = Some s'"
  shows "\<exists>n. poll_over W i ((poll_round W i ^^ n) s)"
  using assms
proof (rule poll_loop.raw_induct [where P = "\<lambda>W i s s'. \<exists>n. poll_over W i ((poll_round W i ^^ n) s)", rotated])
  fix loop and W :: "'a poll_world" and i s s'
  assume IH: "\<And>W i s s'. loop W i s = Some s' \<Longrightarrow> \<exists>n. poll_over W i ((poll_round W i ^^ n) s)"
    and body: "(if po_session_id (fst s) \<noteq> i then Some s
      else case pw_read W (snd s) of
             (Inl e, w1) \<Rightarrow> Some (pw_env_read W (fst s, w1))
           | (Inr result, w1) \<Rightarrow>
               let s1 = pw_env_read W (fst s, w1) in
               if po_session_id (fst s1) \<noteq> i then Some s1
               else loop W i (pw_env_sleep W (po_record i result (fst s1), snd s1))) = Some s'"
  show "\<exists>n. poll_over W i ((poll_round W i ^^ n) s)"
  proof (cases "poll_over W i s")
    case True
    then show ?thesis by (intro exI [of _ 0]) simp
  next
    case False
    then obtain r w1 where i: "po_session_id (fst s) = i" and r: "pw_read W (snd s) = (Inr r, w1)"
      by (cases "pw_read W (snd s)") (auto simp: poll_over_def split: sum.splits)
    let ?s1 = "pw_env_read W (fst s, w1)"
    show ?thesis
    proof (cases "po_session_id (fst ?s1) = i")
      case False
      then have "poll_over W i ((poll_round W i ^^ 1) s)" by (simp add: poll_over_def poll_round_def r Let_def)
      then show ?thesis by blast
    next
      case True
      then have "loop W i (poll_round W i s) = Some s'"
        using body by (simp add: i r poll_round_def Let_def)
      then obtain n where "poll_over W i ((poll_round W i ^^ n) (poll_round W i s))" using IH by blast
      then have "poll_over W i ((poll_round W i ^^ Suc n) s)" by (simp add: funpow_swap1)
      then show ?thesis by blast
    qed
  qed
qed

section \<open>What other threads do\<close>

text \<open>While the thread waits for an answer and while it sleeps, other threads call \<open>start\<close> and \<open>stop\<close>; which
  calls, and what becomes of the world, the world decides.  (A section of a thread of an earlier session changes
  nothing, by \<open>po.work_stale\<close>; one of a later session comes only when this session is over.)\<close>

type_synonym 'w callers = "'w \<Rightarrow> po_call list \<times> 'w"

definition makes_calls :: "'w callers \<Rightarrow> poll \<times> 'w \<Rightarrow> poll \<times> 'w" where
  "makes_calls env s = (fold po_ctl (fst (env (snd s))) (fst s), snd (env (snd s)))"

text \<open>The worlds before the passes of the loop, which do not depend on the state of the module; the results of
  the reads.\<close>

fun world_before :: "'w poll_world \<Rightarrow> 'w callers \<Rightarrow> 'w callers \<Rightarrow> 'w \<Rightarrow> nat \<Rightarrow> 'w" where
  "world_before W waiting sleeping w 0 = w"
| "world_before W waiting sleeping w (Suc n) =
     snd (sleeping (snd (waiting (snd (pw_read W (world_before W waiting sleeping w n))))))"

definition result_of_pass :: "'w poll_world \<Rightarrow> 'w callers \<Rightarrow> 'w callers \<Rightarrow> 'w \<Rightarrow> nat \<Rightarrow> exn + read_result" where
  "result_of_pass W waiting sleeping w n = fst (pw_read W (world_before W waiting sleeping w n))"

definition calls_of_pass :: "'w poll_world \<Rightarrow> 'w callers \<Rightarrow> 'w callers \<Rightarrow> 'w \<Rightarrow> nat \<Rightarrow> po_call list \<times> po_call list" where
  "calls_of_pass W waiting sleeping w n =
     (let w1 = snd (pw_read W (world_before W waiting sleeping w n)) in (fst (waiting w1), fst (sleeping (snd (waiting w1)))))"

text \<open>A call that ends a poll that is running: every \<open>stop\<close>, and every \<open>start\<close> that is not refused.\<close>

fun ends_poll :: "po_call \<Rightarrow> bool" where
  "ends_poll PoStop = True"
| "ends_poll (PoStart host port u fc a q iv) \<longleftrightarrow>
     strip host \<noteq> [] \<and> fc \<in> {1, 2, 3, 4} \<and> 0 \<le> u \<and> u \<le> 255 \<and> 0 \<le> a \<and> a \<le> 65535 \<and>
     1 \<le> q \<and> q \<le> 125 \<and> 1 \<le> port \<and> port \<le> 65535 \<and> 200 \<le> iv \<and> iv \<le> 60000"

definition pass_ends :: "'w poll_world \<Rightarrow> 'w callers \<Rightarrow> 'w callers \<Rightarrow> 'w \<Rightarrow> nat \<Rightarrow> bool" where
  "pass_ends W waiting sleeping w n \<longleftrightarrow>
     (\<exists>e. result_of_pass W waiting sleeping w n = Inl e) \<or>
     list_ex ends_poll (fst (calls_of_pass W waiting sleeping w n)) \<or>
     list_ex ends_poll (snd (calls_of_pass W waiting sleeping w n))"

text \<open>The module after some results have been recorded.\<close>

definition after_results :: "nat \<Rightarrow> (exn + read_result) list \<Rightarrow> poll \<Rightarrow> poll" where
  "after_results session_id results st = fold (po_record session_id) (map projr results) st"

lemma ends_poll_checks:
  "ends_poll (PoStart host port u fc a q iv) \<longleftrightarrow> po_checks (strip host) port u fc a q iv = None"
  by (auto simp: po_checks_def)

declare ends_poll.simps(2) [simp del]

lemma record_running: "po_running (po_record i r p) = po_running p"
  by (cases r) (simp_all add: po_record_def po_add_time_def Let_def split: option.split)

lemma after_results_fields [simp]:
  "po_session_id (after_results i rs st) = po_session_id st" "po_running (after_results i rs st) = po_running st"
  unfolding after_results_def by (induction rs arbitrary: st) (simp_all add: po_record_id record_running)

lemma after_results_snoc: "after_results i (rs @ [r]) st = po_record i (projr r) (after_results i rs st)"
  by (simp add: after_results_def)

lemma quiet_calls: "\<not> list_ex ends_poll cs \<Longrightarrow> fold po_ctl cs p = p"
proof (induction cs)
  case (Cons c cs)
  then have "po_ctl c p = p" by (cases c) (auto simp: po_start_def ends_poll_checks split: option.split)
  with Cons show ?case by simp
qed simp

lemma ctl_mono: "po_session_id p \<le> po_session_id (fold po_ctl cs p)"
  by (induction cs arbitrary: p) (auto intro: order_trans [OF po.ctl_cur])

lemma ending_calls: "list_ex ends_poll cs \<Longrightarrow> po_running p \<Longrightarrow> po_session_id p < po_session_id (fold po_ctl cs p)"
proof (induction cs)
  case (Cons c cs)
  show ?case
  proof (cases "ends_poll c")
    case True
    then have "po_session_id p < po_session_id (po_ctl c p)"
      using Cons.prems(2) by (cases c) (auto simp: po_start_def po_stop_def ends_poll_checks Let_def)
    then show ?thesis using ctl_mono [of "po_ctl c p" cs] by simp
  next
    case False
    then have "po_ctl c p = p" using quiet_calls [of "[c]" p] by simp
    with False Cons show ?thesis by simp
  qed
qed simp

text \<open>As long as no pass ends the poll, every pass records its result and nothing else.\<close>

lemma rounds_record:
  assumes "pw_env_read W = makes_calls waiting" and "pw_env_sleep W = makes_calls sleeping"
    and "po_session_id st = i" and "\<And>k. k < n \<Longrightarrow> \<not> pass_ends W waiting sleeping w k"
  shows "(poll_round W i ^^ n) (st, w) =
    (after_results i (map (result_of_pass W waiting sleeping w) [0..<n]) st, world_before W waiting sleeping w n)"
  using assms(4)
proof (induction n)
  case (Suc n)
  let ?w = "world_before W waiting sleeping w n"
  have quiet: "\<not> pass_ends W waiting sleeping w n" using Suc.prems by simp
  then obtain r w1 where r: "pw_read W ?w = (Inr r, w1)"
    by (cases "pw_read W ?w"; cases "fst (pw_read W ?w)") (auto simp: pass_ends_def result_of_pass_def)
  have "\<not> list_ex ends_poll (fst (waiting w1))" "\<not> list_ex ends_poll (fst (sleeping (snd (waiting w1))))"
    using quiet by (simp_all add: pass_ends_def calls_of_pass_def r Let_def)
  then have "poll_round W i (p, ?w) = (po_record i r p, world_before W waiting sleeping w (Suc n))"
    if "po_session_id p = i" for p
    using that by (simp add: poll_round_def makes_calls_def assms(1,2) quiet_calls r Let_def)
  moreover have "projr (result_of_pass W waiting sleeping w n) = r" by (simp add: result_of_pass_def r)
  ultimately show ?case using Suc assms(3) by (simp add: after_results_snoc)
qed (simp add: after_results_def)

lemma quiet_not_over:
  assumes "po_session_id st = i" and "\<not> pass_ends W waiting sleeping w n"
  shows "\<not> poll_over W i (after_results i rs st, world_before W waiting sleeping w n)"
  using assms by (cases "fst (pw_read W (world_before W waiting sleeping w n))")
    (auto simp: poll_over_def pass_ends_def result_of_pass_def)

text \<open>The last pass: its result is recorded only when the poll ends while the thread sleeps.\<close>

lemma last_pass:
  assumes "pw_env_read W = makes_calls waiting" and "pw_env_sleep W = makes_calls sleeping"
    and "po_session_id p = i" and "po_running p" and "pass_ends W waiting sleeping w n"
  shows "\<exists>w'. poll_loop W i (p, world_before W waiting sleeping w n) = Some (
    (let (first, later) = calls_of_pass W waiting sleeping w n; r = result_of_pass W waiting sleeping w n in
     if isl r \<or> list_ex ends_poll first then fold po_ctl first p
     else fold po_ctl later (after_results i [r] p)), w')"
proof -
  obtain r w1 where r: "pw_read W (world_before W waiting sleeping w n) = (r, w1)" by fastforce
  show ?thesis
  proof (cases r)
    case (Inl e)
    then show ?thesis
      by (subst poll_loop.simps)
        (simp add: assms(1,3) r makes_calls_def result_of_pass_def calls_of_pass_def Let_def)
  next
    case (Inr x)
    let ?first = "fst (waiting w1)" and ?later = "fst (sleeping (snd (waiting w1)))"
    show ?thesis
    proof (cases "list_ex ends_poll ?first")
      case True
      then have "po_session_id (fold po_ctl ?first p) \<noteq> i" using ending_calls assms(3,4) by fastforce
      with True Inr show ?thesis
        by (subst poll_loop.simps)
          (simp add: assms(1,3) r makes_calls_def result_of_pass_def calls_of_pass_def Let_def)
    next
      case False
      then have "list_ex ends_poll ?later"
        using assms(5) Inr by (simp add: pass_ends_def result_of_pass_def calls_of_pass_def r Let_def)
      moreover have "po_running (po_record i x p)" using assms(4) by (simp add: record_running)
      ultimately have "po_session_id (fold po_ctl ?later (po_record i x p)) \<noteq> i"
        using ending_calls [of ?later "po_record i x p"] assms(3) by (simp add: po_record_id)
      then have over: "poll_loop W i (fold po_ctl ?later (po_record i x p), w') =
          Some (fold po_ctl ?later (po_record i x p), w')" for w'
        by (subst poll_loop.simps) simp
      have "poll_loop W i (p, world_before W waiting sleeping w n) =
          poll_loop W i (fold po_ctl ?later (po_record i x p), snd (sleeping (snd (waiting w1))))"
        using False Inr by (subst poll_loop.simps) (simp add: assms(1-3) r makes_calls_def quiet_calls Let_def)
      with over False Inr show ?thesis
        by (simp add: r result_of_pass_def calls_of_pass_def after_results_def Let_def)
    qed
  qed
qed

section \<open>Properties\<close>

text \<open>C19: Polling goes on until it is stopped.  The thread that a \<open>start\<close> has made, among any reads and any
  calls of \<open>start\<close> and \<open>stop\<close> by others while it waits for answers and sleeps: if in some pass somebody calls
  \<open>stop\<close>, or a \<open>start\<close> that is not refused, or the read raises an exception, then the thread returns in the first
  such pass, with the results of all passes before recorded in order, that of the last pass only if
  the poll was ended while the thread slept, and nothing after; otherwise, refused calls of \<open>start\<close> or none, it
  polls forever.\<close>

theorem poll_until_superseded:
  assumes "po_start host port unit_id function_code address quantity interval_ms st0 = Inr (st, session_id)"
    and "pw_env_read W = makes_calls waiting" and "pw_env_sleep W = makes_calls sleeping"
  shows "if \<exists>n. pass_ends W waiting sleeping w n
    then \<exists>n w'. pass_ends W waiting sleeping w n \<and> (\<forall>k<n. \<not> pass_ends W waiting sleeping w k) \<and>
      poll_loop W session_id (st, w) = Some (
        (let recorded = after_results session_id (map (result_of_pass W waiting sleeping w) [0..<n]) st;
             r = result_of_pass W waiting sleeping w n; (first, later) = calls_of_pass W waiting sleeping w n
         in if isl r \<or> list_ex ends_poll first then fold po_ctl first recorded
            else fold po_ctl later (after_results session_id [r] recorded)), w')
    else poll_loop W session_id (st, w) = None"
proof -
  have st: "po_session_id st = session_id" "po_running st"
    using assms(1) by (auto simp: po_start_def Let_def split: option.splits)
  note rounds = rounds_record [OF assms(2,3) st(1)]
  show ?thesis
  proof (cases "\<exists>n. pass_ends W waiting sleeping w n")
    case True
    define n where "n = (LEAST n. pass_ends W waiting sleeping w n)"
    have n: "pass_ends W waiting sleeping w n" "\<And>k. k < n \<Longrightarrow> \<not> pass_ends W waiting sleeping w k"
      using True unfolding n_def by (auto intro: LeastI_ex dest: not_less_Least)
    let ?p = "after_results session_id (map (result_of_pass W waiting sleeping w) [0..<n]) st"
    have "poll_loop W session_id (st, w) = poll_loop W session_id (?p, world_before W waiting sleeping w n)"
    proof -
      have "(poll_round W session_id ^^ k) (st, w) = (after_results session_id (map (result_of_pass W waiting sleeping w)
          [0..<k]) st, world_before W waiting sleeping w k)" if "k \<le> n" for k
        by (rule rounds) (use n(2) that in simp)
      moreover from this have "\<not> poll_over W session_id ((poll_round W session_id ^^ k) (st, w))" if "k < n" for k
        using quiet_not_over [OF st(1) n(2) [OF that]] that by simp
      ultimately show ?thesis using poll_loop_rounds [of n W session_id "(st, w)"] by simp
    qed
    moreover obtain w' where "poll_loop W session_id (?p, world_before W waiting sleeping w n) = Some (
        (let (first, later) = calls_of_pass W waiting sleeping w n; r = result_of_pass W waiting sleeping w n in
         if isl r \<or> list_ex ends_poll first then fold po_ctl first ?p
         else fold po_ctl later (after_results session_id [r] ?p)), w')"
      using last_pass [OF assms(2,3), of ?p session_id w n] st n(1) by auto
    ultimately show ?thesis
      unfolding if_P [OF True] using n by (intro exI [of _ n] exI [of _ w']) (simp add: Let_def split_def)
  next
    case False
    then have "\<not> poll_over W session_id ((poll_round W session_id ^^ n) (st, w))" for n
      using rounds [of n w] quiet_not_over [OF st(1), of W waiting sleeping w n] by simp
    then have "poll_loop W session_id (st, w) = None"
      using poll_loop_value [of W session_id "(st, w)"] by (cases "poll_loop W session_id (st, w)") auto
    with False show ?thesis by simp
  qed
qed

text \<open>Three reads are answered; while the thread sleeps after the second, somebody stops.\<close>

definition read_sample :: read_result where
  "read_sample = Failed (lit ''x'') None None 1"

definition poll_world_stopped :: "nat poll_world" where
  "poll_world_stopped = \<lparr>pw_read = (\<lambda>w. (Inr read_sample, w)), pw_env_read = makes_calls (\<lambda>w. ([], w)),
     pw_env_sleep = makes_calls (\<lambda>w. (if w = 1 then [PoStop] else [], Suc w))\<rparr>"

theorem poll_until_superseded_witness:
  "\<exists>st p w'. po_start (lit ''plc'') 502 1 3 0 1 1000 poll0 = Inr (st, 1) \<and>
    poll_loop poll_world_stopped 1 (st, 0) = Some (p, w')"
proof -
  have "\<exists>st'. po_start (lit ''plc'') 502 1 3 0 1 1000 poll0 = Inr (st', 1)"
    by (simp add: po_start_def po_checks_def poll0_def lit_def strip_def lstrip_def rstrip_def is_space_def)
  then obtain st where st: "po_start (lit ''plc'') 502 1 3 0 1 1000 poll0 = Inr (st, 1)" ..
  let ?sleeping = "\<lambda>w. (if w = 1 then [PoStop] else [], Suc w)"
  have "pass_ends poll_world_stopped (\<lambda>w. ([], w)) ?sleeping 0 1"
    by (simp add: pass_ends_def calls_of_pass_def poll_world_stopped_def)
  then have "\<exists>n. pass_ends poll_world_stopped (\<lambda>w. ([], w)) ?sleeping 0 n" ..
  with st poll_until_superseded [OF st, of poll_world_stopped "\<lambda>w. ([], w)" ?sleeping 0] show ?thesis
    by (auto simp: poll_world_stopped_def)
qed

text \<open>A read that raises ends the thread, and nothing records it: the module still reports that it polls,
  with the numbers of the last result, until somebody stops it.\<close>

theorem poll_dead_still_running:
  assumes "po_start host port unit_id function_code address quantity interval_ms st = Inr (st', session_id)"
    and "fst (pw_read W w) = Inl e" and "pw_env_read W = id"
  shows "\<exists>w'. poll_loop W session_id (st', w) = Some (st', w') \<and> pr_running (po_status st') \<and>
    pr_requests (po_status st') = 0"
proof -
  have st': "po_session_id st' = session_id" "po_running st'" "po_requests st' = 0"
    using assms(1) by (auto simp: po_start_def poll0_def Let_def split: option.splits)
  obtain w1 where "pw_read W w = (Inl e, w1)" using assms(2) by (cases "pw_read W w") auto
  then have "poll_loop W session_id (st', w) = Some (st', w1)"
    by (subst poll_loop.simps) (simp add: st' assms(3))
  with st' show ?thesis by (simp add: po_status_def)
qed

definition poll_world_bad_name :: "unit poll_world" where
  "poll_world_bad_name = \<lparr>pw_read = (\<lambda>w. (Inl UnicodeError, w)), pw_env_read = id, pw_env_sleep = id\<rparr>"

theorem poll_dead_still_running_witness:
  "\<exists>st' w'. poll_loop poll_world_bad_name 1 (st', ()) = Some (st', w') \<and> pr_running (po_status st')"
proof -
  have "\<exists>st'. po_start (lit ''plc'') 502 1 3 0 1 1000 poll0 = Inr (st', 1)"
    by (simp add: po_start_def po_checks_def poll0_def lit_def strip_def lstrip_def rstrip_def is_space_def)
  then obtain st' where "po_start (lit ''plc'') 502 1 3 0 1 1000 poll0 = Inr (st', 1)" ..
  from poll_dead_still_running [OF this, of poll_world_bad_name "()" UnicodeError] show ?thesis
    by (auto simp: poll_world_bad_name_def)
qed

end
