(* ===== verification/Struct_Numbers.thy ===== *)
theory Struct_Numbers
  imports Prelude
begin

text \<open>
  \<open>struct.unpack\<close> with \<open>!h\<close>, \<open>!I\<close>, \<open>!i\<close> and \<open>!f\<close>: big-endian integers and IEEE single-precision
  floats from bytes, here as the numbers 0-255.  Floats are modelled on their bits; both zeros are the
  real number 0.  The signed readings agree with the two's complement reading of HOL's words.
\<close>

datatype float32 = Finite real | Infinity bool | NaN

text \<open>\<open>struct.unpack\<close> with \<open>!I\<close>, \<open>!i\<close> and \<open>!f\<close> on four bytes.\<close>

definition unpack_u32 :: "nat list \<Rightarrow> nat" where
  "unpack_u32 bs = foldl (\<lambda>acc b. 256 * acc + b) 0 bs"

definition unpack_i32 :: "nat list \<Rightarrow> int" where
  "unpack_i32 bs = (let u = unpack_u32 bs in if u < 2147483648 then int u else int u - 4294967296)"

definition float_of_bits :: "nat \<Rightarrow> float32" where
  "float_of_bits u =
     (let negative = (2147483648 \<le> u); e = (u div 8388608) mod 256; m = u mod 8388608;
          sign = (if negative then - 1 else 1)
      in if e = 255 then (if m = 0 then Infinity negative else NaN)
         else if e = 0 then Finite (sign * real m / 2 ^ 149)
         else Finite (sign * real (8388608 + m) * 2 ^ e / 2 ^ 150))"

definition unpack_f32 :: "nat list \<Rightarrow> float32" where
  "unpack_f32 bs = float_of_bits (unpack_u32 bs)"

fun isfinite :: "float32 \<Rightarrow> bool" where
  "isfinite (Finite x) = True"
| "isfinite _ = False"

definition unpack_i16 :: "nat list \<Rightarrow> int" where
  "unpack_i16 bs = (let u = unpack_u32 bs in if u < 32768 then int u else int u - 65536)"

definition split32 :: "nat \<Rightarrow> nat list" where
  "split32 u = [u div 16777216 mod 256, u div 65536 mod 256, u div 256 mod 256, u mod 256]"

lemma split32_join: "u < 4294967296 \<Longrightarrow> unpack_u32 (split32 u) = u"
proof -
  assume u: "u < 4294967296"
  have "u div 16777216 < 256" using u by (simp add: div_less_iff_less_mult)
  moreover have "u div 65536 = 256 * (u div 16777216) + u div 65536 mod 256"
    using div_mult2_eq [of u 65536 256] by simp
  moreover have "u div 256 = 256 * (u div 65536) + u div 256 mod 256"
    using div_mult2_eq [of u 256 256] by simp
  moreover have "u = 256 * (u div 256) + u mod 256" by simp
  ultimately show ?thesis unfolding unpack_u32_def split32_def by simp
qed

text \<open>Two's complement.\<close>

lemma sint_of_nat:
  assumes "u < 2 ^ LENGTH('a)"
  shows "sint (word_of_nat u :: 'a :: len word) =
    (if u < 2 ^ (LENGTH('a) - 1) then int u else int u - 2 ^ LENGTH('a))"
proof -
  have l: "(2 :: int) ^ LENGTH('a) = 2 * 2 ^ (LENGTH('a) - 1)"
    using len_gt_0 [where 'a = 'a] by (metis Suc_pred' power_Suc)
  have u: "int u < 2 ^ LENGTH('a)" using assms by (metis of_nat_less_iff of_nat_numeral of_nat_power)
  have "sint (word_of_nat u :: 'a word) = signed_take_bit (LENGTH('a) - 1) (int u)"
    by (simp add: signed_of_nat)
  also have "\<dots> = (if u < 2 ^ (LENGTH('a) - 1) then int u else int u - 2 ^ LENGTH('a))"
  proof (cases "u < 2 ^ (LENGTH('a) - 1)")
    case True
    then have "int u < 2 ^ (LENGTH('a) - 1)" by (metis of_nat_less_iff of_nat_numeral of_nat_power)
    then have "signed_take_bit (LENGTH('a) - 1) (int u) = int u"
      by (intro signed_take_bit_int_eq_self) (simp_all add: order_trans [of _ 0])
    with True show ?thesis by simp
  next
    case False
    then have "2 ^ (LENGTH('a) - 1) \<le> int u" by (metis not_less of_nat_le_iff of_nat_numeral of_nat_power)
    define p :: int where "p = 2 ^ (LENGTH('a) - 1)"
    have "p \<le> int u" "int u < 2 * p"
      using u l \<open>2 ^ (LENGTH('a) - 1) \<le> int u\<close> by (simp_all add: p_def)
    moreover have "int u + p = (int u - p) + 2 * p" by simp
    ultimately have "(int u + p) mod (2 * p) = int u - p"
      using mod_pos_pos_trivial [of "int u - p" "2 * p"] by (simp only: mod_add_self2)
    with False l show ?thesis by (simp add: p_def signed_take_bit_eq_take_bit_shift take_bit_eq_mod)
  qed
  finally show ?thesis .
qed

lemma unpack_u32_bytes [simp]:
  "unpack_u32 [a] = a" "unpack_u32 [a, b] = 256 * a + b"
  by (simp_all add: unpack_u32_def)

lemma unpack_i16_sint: "a < 256 \<Longrightarrow> b < 256 \<Longrightarrow> unpack_i16 [a, b] = sint (word_of_nat (256 * a + b) :: 16 word)"
  using sint_of_nat [of "256 * a + b", where 'a = 16] by (simp add: unpack_i16_def Let_def)

lemma unpack_u32_less: "length bs \<le> k \<Longrightarrow> \<forall>b \<in> set bs. b < 256 \<Longrightarrow> unpack_u32 bs < 256 ^ k"
proof (induction bs arbitrary: k rule: rev_induct)
  case (snoc b bs)
  then obtain j where k: "k = Suc j" by (cases k) auto
  with snoc have "unpack_u32 bs < 256 ^ j" "b < 256" by auto
  then have "256 * unpack_u32 bs + b < 256 * 256 ^ j" by linarith
  then show ?case by (simp add: unpack_u32_def k)
qed (simp add: unpack_u32_def)

lemma unpack_i32_sint:
  "length bs = 4 \<Longrightarrow> \<forall>b \<in> set bs. b < 256 \<Longrightarrow> unpack_i32 bs = sint (word_of_nat (unpack_u32 bs) :: 32 word)"
  using unpack_u32_less [of bs 4] by (simp add: unpack_i32_def Let_def sint_of_nat)

end
