(* ===== verification/Modbus_Decode.thy ===== *)
theory Modbus_Decode
  imports Modbus_Client Struct_Numbers
begin

text \<open>
  \<open>backend/tools/modbus_decode.py\<close>: raw registers as 16- and 32-bit numbers and as IEEE single-precision
  floats.
\<close>

datatype byte_order = ABCD | BADC | CDAB | DCBA

definition BYTE_ORDERS :: "(pystr, byte_order) dict" where
  "BYTE_ORDERS = [(lit ''ABCD'', ABCD), (lit ''BADC'', BADC), (lit ''CDAB'', CDAB), (lit ''DCBA'', DCBA)]"

definition register_bytes :: "nat \<Rightarrow> nat \<times> nat" where
  "register_bytes v = ((v div 256) mod 256, v mod 256)"

definition combine_32bit :: "nat \<Rightarrow> nat \<Rightarrow> byte_order \<Rightarrow> nat list" where
  "combine_32bit reg0 reg1 order =
     (let (a, b) = register_bytes reg0; (c, d) = register_bytes reg1 in
      case order of ABCD \<Rightarrow> [a, b, c, d] | BADC \<Rightarrow> [b, a, d, c] | CDAB \<Rightarrow> [c, d, a, b] | DCBA \<Rightarrow> [d, c, b, a])"

record decoded32 =
  e_uint32 :: nat
  e_int32 :: int
  e_float32 :: "float32 option"
  e_hex32 :: pystr
  e_byte_order :: byte_order

record decoded =
  e_uint16 :: nat
  e_int16 :: int
  e_hex16 :: pystr
  e_binary16 :: pystr
  e_32 :: "decoded32 option"

definition decode_registers :: "int list \<Rightarrow> pystr \<Rightarrow> pystr + decoded" where
  "decode_registers values byte_order =
     (case values of
        [] \<Rightarrow> Inl (lit ''no register values given'')
      | v0 # rest \<Rightarrow>
          (case map_of BYTE_ORDERS byte_order of
             None \<Rightarrow> Inl (lit ''byte order must be one of '' @ join (lit '', '') (map fst BYTE_ORDERS))
           | Some order \<Rightarrow>
               let reg0 = nat (v0 mod 0x10000) in
               Inr \<lparr>e_uint16 = reg0, e_int16 = (if reg0 div 0x8000 mod 2 = 1 then int reg0 - 0x10000 else int reg0),
                    e_hex16 = lit ''0x'' @ hex4_upper reg0, e_binary16 = bin16 reg0,
                    e_32 = (case rest of
                        [] \<Rightarrow> None
                      | v1 # _ \<Rightarrow>
                          let reg1 = nat (v1 mod 0x10000);
                              raw32 = combine_32bit reg0 reg1 order;
                              uint32 = unpack_u32 raw32;
                              float32 = unpack_f32 raw32
                          in Some \<lparr>e_uint32 = uint32, e_int32 = unpack_i32 raw32,
                               e_float32 = (if isfinite float32 then Some float32 else None),
                               e_hex32 = lit ''0x'' @ hex8_upper uint32, e_byte_order = order\<rparr>)\<rparr>))"

section \<open>Encoding\<close>

text \<open>A device stores a 32-bit number in two registers, its bytes in one of the four orders.\<close>

definition encode_32bit :: "nat \<Rightarrow> byte_order \<Rightarrow> int list" where
  "encode_32bit u order =
     (case split32 u of
        [a, b, c, d] \<Rightarrow>
          (case order of
             ABCD \<Rightarrow> [int (256 * a + b), int (256 * c + d)] | BADC \<Rightarrow> [int (256 * b + a), int (256 * d + c)]
           | CDAB \<Rightarrow> [int (256 * c + d), int (256 * a + b)] | DCBA \<Rightarrow> [int (256 * d + c), int (256 * b + a)]))"

lemma combine_encoded:
  assumes "a < 256" "b < 256"
  shows "register_bytes (nat ((256 * int a + int b) mod 65536)) = (a, b)"
proof -
  have "(256 * int a + int b) mod 65536 = int (256 * a + b)" using assms by simp
  then have "nat ((256 * int a + int b) mod 65536) = 256 * a + b" by simp
  then show ?thesis using assms by (simp add: register_bytes_def)
qed

lemma combine_encode:
  assumes "encode_32bit u order = [v0, v1]"
  shows "combine_32bit (nat (v0 mod 65536)) (nat (v1 mod 65536)) order = split32 u"
proof -
  obtain a b c d where s: "split32 u = [a, b, c, d]" and l: "a < 256" "b < 256" "c < 256" "d < 256"
    unfolding split32_def by simp
  note r = combine_encoded [OF l(1) l(2)] combine_encoded [OF l(2) l(1)]
    combine_encoded [OF l(3) l(4)] combine_encoded [OF l(4) l(3)]
  show ?thesis
  proof (cases order)
    case ABCD
    then have "v0 = 256 * int a + int b" "v1 = 256 * int c + int d"
      using assms by (simp_all add: encode_32bit_def s)
    then show ?thesis by (simp only: ABCD combine_32bit_def Let_def r s prod.case byte_order.case)
  next
    case BADC
    then have "v0 = 256 * int b + int a" "v1 = 256 * int d + int c"
      using assms by (simp_all add: encode_32bit_def s)
    then show ?thesis by (simp only: BADC combine_32bit_def Let_def r s prod.case byte_order.case)
  next
    case CDAB
    then have "v0 = 256 * int c + int d" "v1 = 256 * int a + int b"
      using assms by (simp_all add: encode_32bit_def s)
    then show ?thesis by (simp only: CDAB combine_32bit_def Let_def r s prod.case byte_order.case)
  next
    case DCBA
    then have "v0 = 256 * int d + int c" "v1 = 256 * int b + int a"
      using assms by (simp_all add: encode_32bit_def s)
    then show ?thesis by (simp only: DCBA combine_32bit_def Let_def r s prod.case byte_order.case)
  qed
qed

section \<open>Properties\<close>

text \<open>Round trip.  A 32-bit number stored in two registers in any of the four byte orders is decoded,
  under that order, to itself: as unsigned, as the signed number congruent to it, and as the float
  its bits denote, which is withheld exactly when it is not finite.\<close>

theorem decode_32bit_roundtrip:
  assumes "u < 4294967296" and "map_of BYTE_ORDERS name = Some order"
  shows "\<exists>r x. decode_registers (encode_32bit u order) name = Inr r \<and> e_32 r = Some x \<and>
    e_uint32 x = u \<and> e_int32 x = (if u < 2147483648 then int u else int u - 4294967296) \<and>
    e_hex32 x = lit ''0x'' @ hex8_upper u \<and>
    e_float32 x = (if isfinite (float_of_bits u) then Some (float_of_bits u) else None)"
proof -
  obtain v0 v1 where e: "encode_32bit u order = [v0, v1]"
    by (cases order) (auto simp: encode_32bit_def split32_def)
  show ?thesis
    using assms(2) split32_join [OF assms(1)] combine_encode [OF e]
    by (simp add: e decode_registers_def Let_def unpack_i32_def unpack_f32_def)
qed

theorem decode_32bit_roundtrip_witness:
  "\<exists>r x. decode_registers (encode_32bit 0x42F6E979 CDAB) (lit ''CDAB'') = Inr r \<and> e_32 r = Some x \<and>
    e_uint32 x = 1123477881"
  using decode_32bit_roundtrip [of "0x42F6E979" "lit ''CDAB''" CDAB] by (auto simp: BYTE_ORDERS_def)

text \<open>Every key of a result has values of its own type: 16- and 32-bit words read unsigned and signed, texts
  of fixed length, and a float that is a number (or none).\<close>

definition decoded32_ok :: "decoded32 \<Rightarrow> bool" where
  "decoded32_ok x \<longleftrightarrow>
     e_uint32 x < 2 ^ 32 \<and> e_int32 x = sint (word_of_nat (e_uint32 x) :: 32 word) \<and> length (e_hex32 x) = 10 \<and>
     (case e_float32 x of None \<Rightarrow> True | Some f \<Rightarrow> isfinite f)"

definition decoded_ok :: "int \<Rightarrow> decoded \<Rightarrow> bool" where
  "decoded_ok v r \<longleftrightarrow>
     e_uint16 r = unat (word_of_int v :: 16 word) \<and> e_int16 r = sint (word_of_int v :: 16 word) \<and>
     length (e_hex16 r) = 6 \<and> length (e_binary16 r) = 16 \<and> set (e_binary16 r) \<subseteq> {48, 49} \<and>
     (case e_32 r of None \<Rightarrow> True | Some x \<Rightarrow> decoded32_ok x)"

lemma unat16_of_int: "unat (word_of_int v :: 16 word) = nat (v mod 65536)"
  by (simp add: unsigned_of_int take_bit_eq_mod)

lemma int16_of_register:
  "(if nat (v mod 65536) div 32768 mod 2 = 1 then int (nat (v mod 65536)) - 65536 else int (nat (v mod 65536))) =
   sint (word_of_int v :: 16 word)"
proof -
  define reg0 where "reg0 = nat (v mod 65536)"
  have l: "reg0 < 65536" by (simp add: reg0_def nat_less_iff)
  have w: "(word_of_int v :: 16 word) = word_of_nat reg0"
    by (simp add: reg0_def flip: unat16_of_int)
  have "reg0 div 32768 < 2" using l by (simp add: div_less_iff_less_mult)
  moreover have "reg0 div 32768 = 0 \<longleftrightarrow> reg0 < 32768" by (simp add: div_eq_0_iff)
  ultimately have "reg0 div 32768 mod 2 = 1 \<longleftrightarrow> \<not> reg0 < 32768" by (cases "reg0 div 32768") auto
  with l show ?thesis
    using sint_of_nat [of reg0, where 'a = 16] unfolding w reg0_def [symmetric] by simp
qed

lemma combine_bytes: "length (combine_32bit a b order) = 4 \<and> (\<forall>x \<in> set (combine_32bit a b order). x < 256)"
  by (cases order) (auto simp: combine_32bit_def register_bytes_def)

text \<open>C20: typing.  Whatever integers are given as registers (also negative ones and ones beyond 16 bits) and
  whatever byte order is named, a result that is not an error is well typed: the 16-bit values are those of
  the first register's low 16 bits, unsigned and in two's complement, the 32-bit values are below 2^32 and
  agree with each other in two's complement, the texts have their fixed lengths, and a float is never NaN or
  infinite, so that every value has a JSON representation; the 32-bit part is there exactly from two registers on.\<close>

theorem decode_registers_typed:
  assumes "decode_registers values name = Inr r"
  shows "decoded_ok (hd values) r \<and> (e_32 r = None \<longleftrightarrow> length values = 1)"
proof -
  obtain v0 rest order where v: "values = v0 # rest" and o: "map_of BYTE_ORDERS name = Some order"
    using assms by (auto simp: decode_registers_def split: list.splits option.splits)
  note w = int16_of_register [of v0] unat16_of_int [of v0]
  have bin: "set (bin16 n) \<subseteq> {48, 49}" for n
    by (auto simp: bin16_def dest!: set_digits_fixed)
  have ok32: "decoded32_ok \<lparr>e_uint32 = unpack_u32 raw, e_int32 = unpack_i32 raw,
      e_float32 = (if isfinite (unpack_f32 raw) then Some (unpack_f32 raw) else None),
      e_hex32 = lit ''0x'' @ hex8_upper (unpack_u32 raw), e_byte_order = order\<rparr>"
    if "raw = combine_32bit a b order" for raw a b
    using combine_bytes [of a b order] unpack_u32_less [of raw 4] unpack_i32_sint [of raw] that
    by (simp add: decoded32_ok_def hex8_upper_def)
  let ?reg = "\<lambda>v. nat (v mod 65536)"
  have 1: "e_uint16 r = ?reg v0" "e_hex16 r = lit ''0x'' @ hex4_upper (?reg v0)" "e_binary16 r = bin16 (?reg v0)"
    "e_int16 r = (if ?reg v0 div 32768 mod 2 = 1 then int (?reg v0) - 65536 else int (?reg v0))"
    using assms by (auto simp only: v o decode_registers_def list.case option.case Let_def sum.inject decoded.simps)
  show ?thesis
  proof (cases rest)
    case Nil
    then have "e_32 r = None"
      using assms by (auto simp only: v o decode_registers_def list.case option.case Let_def sum.inject decoded.simps)
    then show ?thesis using bin by (simp add: Nil v decoded_ok_def 1(1-3) w 1(4) [unfolded w(1)] hex4_upper_def)
      (simp add: bin16_def)
  next
    case (Cons v1 vs)
    let ?raw = "combine_32bit (?reg v0) (?reg v1) order"
    have "e_32 r = Some \<lparr>e_uint32 = unpack_u32 ?raw, e_int32 = unpack_i32 ?raw,
        e_float32 = (if isfinite (unpack_f32 ?raw) then Some (unpack_f32 ?raw) else None),
        e_hex32 = lit ''0x'' @ hex8_upper (unpack_u32 ?raw), e_byte_order = order\<rparr>"
      using assms by (auto simp only: v Cons o decode_registers_def list.case option.case Let_def sum.inject decoded.simps)
    then show ?thesis
      using bin ok32 [OF refl] by (simp add: Cons v decoded_ok_def 1(1-3) w 1(4) [unfolded w(1)] hex4_upper_def)
        (simp add: bin16_def)
  qed
qed

theorem decode_registers_typed_witness:
  "\<exists>r. decode_registers [-1, 0x17FC0] (lit ''BADC'') = Inr r \<and> e_int16 r = -1 \<and> e_32 r \<noteq> None"
proof -
  obtain r where "decode_registers [-1, 0x17FC0] (lit ''BADC'') = Inr r"
    by (simp add: decode_registers_def BYTE_ORDERS_def)
  then show ?thesis using decode_registers_typed [of "[-1, 0x17FC0]"] by (auto simp: decoded_ok_def)
qed

end
