(* ===== verification/Regex.thy ===== *)
theory Regex
  imports Py_Text
begin

text \<open>
  The regular expressions that the tools match against the output of system programs, as Python's
  \<open>re\<close> evaluates them: by backtracking, alternatives in order.  \<open>rmatch r s\<close> lists the matches of \<open>r\<close>
  at the start of \<open>s\<close> in the order in which they are tried, each as the rest of the text and the
  groups; \<open>re_match\<close> and \<open>re_search\<close> take the first.  A group that takes no part in the match is
  \<open>None\<close>.  Character classes are those of ASCII text.
\<close>

datatype re =
    Txt pystr
  | TxtI pystr
  | Many "nat \<Rightarrow> bool"
  | Star "nat \<Rightarrow> bool"
  | Lazy "nat \<Rightarrow> bool"
  | Times nat "nat \<Rightarrow> bool"
  | Maybe re
  | Group re
  | Then re re
  | Or re re
  | AtEnd

definition is_digit :: "nat \<Rightarrow> bool" where
  "is_digit c \<longleftrightarrow> 48 \<le> c \<and> c \<le> 57"

definition is_dot_digit :: "nat \<Rightarrow> bool" where
  "is_dot_digit c \<longleftrightarrow> is_digit c \<or> c = 46"

definition is_hex_colon :: "nat \<Rightarrow> bool" where
  "is_hex_colon c \<longleftrightarrow> is_digit c \<or> (65 \<le> c \<and> c \<le> 70) \<or> (97 \<le> c \<and> c \<le> 102) \<or> c = 58"

definition is_word_char :: "nat \<Rightarrow> bool" where
  "is_word_char c \<longleftrightarrow> is_digit c \<or> (65 \<le> c \<and> c \<le> 90) \<or> (97 \<le> c \<and> c \<le> 122) \<or> c = 95"

definition is_not_space :: "nat \<Rightarrow> bool" where
  "is_not_space c \<longleftrightarrow> \<not> is_space c"

text \<open>The dot.\<close>

definition is_any :: "nat \<Rightarrow> bool" where
  "is_any c \<longleftrightarrow> c \<noteq> 10"

definition lower_ascii :: "pystr \<Rightarrow> pystr" where
  "lower_ascii s = map (\<lambda>c. if 65 \<le> c \<and> c \<le> 90 then c + 32 else c) s"

primrec groups :: "re \<Rightarrow> nat" where
  "groups (Txt p) = 0"
| "groups (TxtI p) = 0"
| "groups (Many c) = 0"
| "groups (Star c) = 0"
| "groups (Lazy c) = 0"
| "groups (Times n c) = 0"
| "groups (Maybe r) = groups r"
| "groups (Group r) = Suc (groups r)"
| "groups (Then a b) = groups a + groups b"
| "groups (Or a b) = groups a + groups b"
| "groups AtEnd = 0"

type_synonym match = "pystr \<times> pystr option list"

primrec rmatch :: "re \<Rightarrow> pystr \<Rightarrow> match list" where
  "rmatch (Txt p) s = (if startswith s p then [(drop (length p) s, [])] else [])"
| "rmatch (TxtI p) s = (if startswith (lower_ascii s) (lower_ascii p) then [(drop (length p) s, [])] else [])"
| "rmatch (Many c) s = map (\<lambda>k. (drop k s, [])) (rev [1..<Suc (length (takeWhile c s))])"
| "rmatch (Star c) s = map (\<lambda>k. (drop k s, [])) (rev [0..<Suc (length (takeWhile c s))])"
| "rmatch (Lazy c) s = map (\<lambda>k. (drop k s, [])) [0..<Suc (length (takeWhile c s))]"
| "rmatch (Times n c) s = (if n \<le> length s \<and> list_all c (take n s) then [(drop n s, [])] else [])"
| "rmatch (Maybe r) s = rmatch r s @ [(s, replicate (groups r) None)]"
| "rmatch (Group r) s = map (\<lambda>(rest, g). (rest, Some (take (length s - length rest) s) # g)) (rmatch r s)"
| "rmatch (Then a b) s =
     concat (map (\<lambda>(rest, g). map (\<lambda>(rest', g'). (rest', g @ g')) (rmatch b rest)) (rmatch a s))"
| "rmatch (Or a b) s =
     map (\<lambda>(rest, g). (rest, g @ replicate (groups b) None)) (rmatch a s) @
     map (\<lambda>(rest, g). (rest, replicate (groups a) None @ g)) (rmatch b s)"
| "rmatch AtEnd s = (if s = [] \<or> s = [10] then [(s, [])] else [])"

definition rfirst :: "re \<Rightarrow> pystr \<Rightarrow> match option" where
  "rfirst r s = (case rmatch r s of [] \<Rightarrow> None | m # _ \<Rightarrow> Some m)"

definition re_match :: "re \<Rightarrow> pystr \<Rightarrow> pystr option list option" where
  "re_match r s = map_option snd (rfirst r s)"

fun re_search :: "re \<Rightarrow> pystr \<Rightarrow> pystr option list option" where
  "re_search r [] = re_match r []"
| "re_search r (c # s) =
     (case re_match r (c # s) of Some g \<Rightarrow> Some g | None \<Rightarrow> re_search r s)"

section \<open>First matches\<close>

named_theorems first_match \<open>the first match of an expression, part by part\<close>

lemma rfirst_Some: "rfirst r s = Some m \<longleftrightarrow> (\<exists>ms. rmatch r s = m # ms)"
  by (simp add: rfirst_def split: list.split)

lemma rfirst_None: "rfirst r s = None \<longleftrightarrow> rmatch r s = []"
  by (simp add: rfirst_def split: list.split)

lemma rfirst_Txt [first_match]: "rfirst (Txt p) (p @ s) = Some (s, [])"
  by (simp add: rfirst_def)

lemma is_digit_dec: "list_all is_digit (dec n)"
  using dec_digits by (force simp: list_all_iff is_digit_def)

text \<open>A greedy run of a class takes all of it when the next character is outside.\<close>

definition stops :: "(nat \<Rightarrow> bool) \<Rightarrow> pystr \<Rightarrow> bool" where
  "stops c s \<longleftrightarrow> s = [] \<or> \<not> c (hd s)"

lemma takeWhile_stops: "list_all c w \<Longrightarrow> stops c s \<Longrightarrow> takeWhile c (w @ s) = w"
  by (cases s) (auto simp: stops_def list_all_iff takeWhile_append)

lemma rfirst_Many [first_match]:
  "list_all c w \<Longrightarrow> w \<noteq> [] \<Longrightarrow> stops c s \<Longrightarrow> rfirst (Many c) (w @ s) = Some (s, [])"
  by (simp add: rfirst_def takeWhile_stops upt_conv_Cons [of 1] del: upt_Suc split: list.split)
     (simp add: map_eq_Cons_conv rev_map [symmetric] upt_Suc_append)

lemma rfirst_Star [first_match]:
  "list_all c w \<Longrightarrow> stops c s \<Longrightarrow> rfirst (Star c) (w @ s) = Some (s, [])"
  by (simp add: rfirst_def takeWhile_stops)

lemma rfirst_Times [first_match]:
  "list_all c w \<Longrightarrow> length w = n \<Longrightarrow> rfirst (Times n c) (w @ s) = Some (s, [])"
  by (simp add: rfirst_def)

lemma rfirst_Group [first_match]:
  "rfirst r (w @ s) = Some (s, g) \<Longrightarrow> rfirst (Group r) (w @ s) = Some (s, Some w # g)"
  by (auto simp: rfirst_Some)

lemma rfirst_Then:
  "rfirst a s = Some (t, g) \<Longrightarrow> rfirst b t = Some (u, g') \<Longrightarrow> rfirst (Then a b) s = Some (u, g @ g')"
  by (auto simp: rfirst_Some)

text \<open>A greedy run that has to give back one character.\<close>

lemma rfirst_give_back:
  assumes "list_all c w" and "w \<noteq> []" and "c x" and "stops c s" and "rfirst b s = None"
    and "rfirst b (x # s) = Some (t, g)"
  shows "rfirst (Then (Group (Many c)) b) (w @ x # s) = Some (t, Some w # g)"
proof -
  have all: "takeWhile c (w @ x # s) = w @ [x]"
    using takeWhile_stops [of c "w @ [x]" s] assms(1,3,4) by simp
  have "rev [1..<Suc (length (w @ [x]))] = Suc (length w) # length w # rev [1..<length w]"
    using assms(2) by (cases w) (simp_all add: upt_Suc_append)
  then have "rmatch (Many c) (w @ x # s) = (s, []) # (x # s, []) # map (\<lambda>k. (drop k (w @ x # s), [])) (rev [1..<length w])"
    by (simp add: all)
  moreover have "rmatch b s = []" using assms(5) by (simp add: rfirst_None)
  moreover obtain ms where "rmatch b (x # s) = (t, g) # ms" using assms(6) by (auto simp: rfirst_Some)
  ultimately show ?thesis by (simp add: rfirst_Some)
qed

lemma rfirst_Maybe_None: "rfirst r s = None \<Longrightarrow> rfirst (Maybe r) s = Some (s, replicate (groups r) None)"
  by (simp add: rfirst_None rfirst_Some)

lemma rfirst_Then_None: "rmatch a s = [m] \<Longrightarrow> rfirst b (fst m) = None \<Longrightarrow> rfirst (Then a b) s = None"
  by (cases m) (simp add: rfirst_None)

lemma rfirst_Maybe: "rfirst r s = Some m \<Longrightarrow> rfirst (Maybe r) s = Some m"
  by (auto simp: rfirst_Some)

lemma rfirst_AtEnd [first_match]: "rfirst AtEnd [] = Some ([], [])"
  by (simp add: rfirst_def)

lemma re_match_first: "rfirst r s = Some (t, g) \<Longrightarrow> re_match r s = Some g"
  by (simp add: re_match_def)

lemma re_search_match: "re_match r s = Some g \<Longrightarrow> re_search r s = Some g"
  by (cases s) simp_all

text \<open>What any match consists of.\<close>

lemma in_rmatch_Then:
  "(u, g) \<in> set (rmatch (Then a b) s) \<longleftrightarrow>
   (\<exists>t g1 g2. (t, g1) \<in> set (rmatch a s) \<and> (u, g2) \<in> set (rmatch b t) \<and> g = g1 @ g2)"
  by force

lemma in_rmatch_Many:
  "(u, g) \<in> set (rmatch (Many c) s) \<Longrightarrow> \<exists>w. s = w @ u \<and> w \<noteq> [] \<and> list_all c w \<and> g = []"
proof -
  assume "(u, g) \<in> set (rmatch (Many c) s)"
  then obtain k where k: "1 \<le> k" "k \<le> length (takeWhile c s)" "u = drop k s" "g = []"
    by (auto simp: less_Suc_eq_le)
  have "take k s = take k (takeWhile c s)" using k(2) by (metis takeWhile_eq_take take_take min.absorb1)
  then have "list_all c (take k s)"
    by (auto simp: list_all_iff dest!: in_set_takeD set_takeWhileD)
  moreover have "take k s \<noteq> []" using k(1,2) length_takeWhile_le [of c s] by (cases s) auto
  ultimately show ?thesis using k by (intro exI [of _ "take k s"]) simp
qed

lemma in_rmatch_Txt: "(u, g) \<in> set (rmatch (Txt p) s) \<Longrightarrow> s = p @ u \<and> g = []"
  by (auto simp: startswith_iff split: if_splits)

lemma in_rmatch_Group:
  "(u, g) \<in> set (rmatch (Group r) s) \<Longrightarrow>
   \<exists>g'. (u, g') \<in> set (rmatch r s) \<and> g = Some (take (length s - length u) s) # g'"
  by auto

end
