(* ===== verification/Json.thy ===== *)
theory Json
  imports Regex Py_Dict
begin

text \<open>
  \<open>json.loads\<close> as the tools use it on the output of \<open>ip\<close> and \<open>mtr\<close>: the decoder of Python's standard
  library, with its error as \<open>None\<close>.  An object is a dict in insertion order (a repeated key keeps its
  place and takes the last value), a number is an integer or a float (a real here); the constants that
  Python accepts beyond the standard are \<open>JConst\<close>.  The scanner is bounded by fuel; \<open>loads_fuel\<close> shows that the
  fuel given by \<open>loads\<close> is never used up.
\<close>

datatype json =
    JNull
  | JBool bool
  | JInt int
  | JReal real
  | JConst pystr
  | JStr pystr
  | JList "json list"
  | JDict "(pystr \<times> json) list"

section \<open>Tokens\<close>

definition json_ws :: "pystr \<Rightarrow> pystr" where
  "json_ws s = dropWhile (\<lambda>c. c \<in> {32, 9, 10, 13}) s"

definition hex_value :: "nat \<Rightarrow> nat option" where
  "hex_value c = (if 48 \<le> c \<and> c \<le> 57 then Some (c - 48) else if 97 \<le> c \<and> c \<le> 102 then Some (c - 87)
     else if 65 \<le> c \<and> c \<le> 70 then Some (c - 55) else None)"

fun scan_hex4 :: "pystr \<Rightarrow> (nat \<times> pystr) option" where
  "scan_hex4 (a # b # c # d # s) =
     (case (hex_value a, hex_value b, hex_value c, hex_value d) of
        (Some w, Some x, Some y, Some z) \<Rightarrow> Some (((w * 16 + x) * 16 + y) * 16 + z, s)
      | _ \<Rightarrow> None)"
| "scan_hex4 _ = None"

text \<open>After \<open>\u\<close>: a pair of surrogates is one character.\<close>

definition scan_unicode :: "pystr \<Rightarrow> (nat \<times> pystr) option" where
  "scan_unicode s =
     (case scan_hex4 s of
        None \<Rightarrow> None
      | Some (u, r) \<Rightarrow>
          if 0xd800 \<le> u \<and> u \<le> 0xdbff \<and> startswith r [92, 117]
          then (case scan_hex4 (drop 2 r) of
                  None \<Rightarrow> None
                | Some (u2, r2) \<Rightarrow>
                    if 0xdc00 \<le> u2 \<and> u2 \<le> 0xdfff
                    then Some (0x10000 + (u - 0xd800) * 1024 + (u2 - 0xdc00), r2) else Some (u, r))
          else Some (u, r))"

definition json_escape :: "nat \<Rightarrow> nat option" where
  "json_escape e = map_of [(34, 34), (92, 92), (47, 47), (98, 8), (102, 12), (110, 10), (114, 13), (116, 9)] e"

definition scanned :: "nat \<Rightarrow> (pystr \<times> pystr) option \<Rightarrow> (pystr \<times> pystr) option" where
  "scanned c r = map_option (\<lambda>(t, s). (c # t, s)) r"

lemma scan_hex4_shorter: "scan_hex4 s = Some (u, r) \<Longrightarrow> length r < length s"
  by (cases s rule: scan_hex4.cases) (auto split: option.splits)

lemma scan_unicode_shorter: "scan_unicode s = Some (u, r) \<Longrightarrow> length r < length s"
  by (auto simp: scan_unicode_def dest!: scan_hex4_shorter split: option.splits if_splits)

text \<open>The text after an opening quote.\<close>

function scan_string :: "pystr \<Rightarrow> (pystr \<times> pystr) option" where
  "scan_string s =
     (case s of
        [] \<Rightarrow> None
      | c # t \<Rightarrow>
          if c = 34 then Some ([], t)
          else if c < 32 then None
          else if c \<noteq> 92 then scanned c (scan_string t)
          else (case t of
                  [] \<Rightarrow> None
                | e # t' \<Rightarrow>
                    if e = 117
                    then (case scan_unicode t' of None \<Rightarrow> None | Some (u, r) \<Rightarrow> scanned u (scan_string r))
                    else (case json_escape e of None \<Rightarrow> None | Some d \<Rightarrow> scanned d (scan_string t'))))"
  by pat_completeness auto

termination
  by (relation "measure length") (auto dest: scan_unicode_shorter)

declare scan_string.simps [simp del]

lemma scan_string_shorter: "scan_string s = Some (v, r) \<Longrightarrow> length r < length s"
proof (induction s arbitrary: v r rule: scan_string.induct)
  case (1 s)
  show ?case
  proof (cases s)
    case Nil
    with 1(4) show ?thesis by (simp add: scan_string.simps [of "[]"])
  next
    case (Cons c t)
    note IH = 1(1) [OF Cons] 1(2) [OF Cons] 1(3) [OF Cons]
    from 1(4) show ?thesis
      unfolding scan_string.simps [of s] using IH scan_unicode_shorter
      by (auto simp: Cons scanned_def split: if_splits list.splits option.splits prod.splits)
        (meson less_SucI less_trans)+
  qed
qed

text \<open>\<open>(-?(?:0|[1-9]\d*))(\.\d+)?([eE][-+]?\d+)?\<close>\<close>

definition ten_to :: "int \<Rightarrow> real" where
  "ten_to e = (if 0 \<le> e then 10 ^ nat e else 1 / 10 ^ nat (- e))"

definition scan_fraction :: "pystr \<Rightarrow> pystr \<times> pystr" where
  "scan_fraction s =
     (case s of
        c # t \<Rightarrow> if c = 46 \<and> takeWhile is_digit t \<noteq> [] then (takeWhile is_digit t, dropWhile is_digit t) else ([], s)
      | [] \<Rightarrow> ([], s))"

definition scan_exponent :: "pystr \<Rightarrow> int option \<times> pystr" where
  "scan_exponent s =
     (case s of
        c # t \<Rightarrow>
          let sign = (case t of [] \<Rightarrow> 1 | d # _ \<Rightarrow> if d = 45 then -1 else 1);
              t' = (case t of [] \<Rightarrow> t | d # u \<Rightarrow> if d = 45 \<or> d = 43 then u else t);
              ds = takeWhile is_digit t'
          in if (c = 101 \<or> c = 69) \<and> ds \<noteq> [] then (Some (sign * int (undec ds)), dropWhile is_digit t') else (None, s)
      | [] \<Rightarrow> (None, s))"

definition scan_number :: "pystr \<Rightarrow> (json \<times> pystr) option" where
  "scan_number s =
     (let neg = startswith s [45]; t = (if neg then tl s else s);
          ds = (if startswith t [48] then [48] else takeWhile is_digit t);
          (fr, t1) = scan_fraction (drop (length ds) t); (ex, t2) = scan_exponent t1;
          sign = (if neg then -1 else 1)
      in if ds = [] then None
         else if fr = [] \<and> ex = None then Some (JInt (sign * int (undec ds)), t2)
         else Some (JReal (of_int sign * (real (undec ds) + real (undec fr) / 10 ^ length fr) *
                (case ex of None \<Rightarrow> 1 | Some e \<Rightarrow> ten_to e)), t2))"

section \<open>Values\<close>

datatype parsed = Out | Bad | Got json pystr

definition json_word :: "pystr \<Rightarrow> json option" where
  "json_word s = (if startswith s (lit ''null'') then Some JNull
     else if startswith s (lit ''true'') then Some (JBool True)
     else if startswith s (lit ''false'') then Some (JBool False) else None)"

definition json_const :: "pystr \<Rightarrow> pystr option" where
  "json_const s = find (startswith s) [lit ''NaN'', lit ''Infinity'', lit ''-Infinity'']"

definition json_atom :: "pystr \<Rightarrow> parsed" where
  "json_atom s =
     (case json_word s of
        Some v \<Rightarrow> Got v (drop (if v = JBool False then 5 else 4) s)
      | None \<Rightarrow>
          (case scan_number s of
             Some (v, r) \<Rightarrow> Got v r
           | None \<Rightarrow> (case json_const s of Some c \<Rightarrow> Got (JConst c) (drop (length c) s) | None \<Rightarrow> Bad)))"

fun json_value :: "nat \<Rightarrow> pystr \<Rightarrow> parsed"
  and json_members :: "nat \<Rightarrow> pystr \<Rightarrow> (pystr, json) dict \<Rightarrow> parsed"
  and json_items :: "nat \<Rightarrow> pystr \<Rightarrow> json list \<Rightarrow> parsed" where
  "json_value 0 s = Out"
| "json_value (Suc n) s =
     (case s of
        [] \<Rightarrow> Bad
      | c # t \<Rightarrow>
          if c = 34 then (case scan_string t of None \<Rightarrow> Bad | Some (v, r) \<Rightarrow> Got (JStr v) r)
          else if c = 123
          then (if startswith (json_ws t) [125] then Got (JDict []) (tl (json_ws t)) else json_members n (json_ws t) [])
          else if c = 91
          then (if startswith (json_ws t) [93] then Got (JList []) (tl (json_ws t)) else json_items n (json_ws t) [])
          else json_atom s)"
| "json_members 0 s d = Out"
| "json_members (Suc n) s d =
     (case s of
        [] \<Rightarrow> Bad
      | c # t \<Rightarrow>
          if c \<noteq> 34 then Bad
          else (case scan_string t of
                  None \<Rightarrow> Bad
                | Some (key, r) \<Rightarrow>
                    if \<not> startswith (json_ws r) [58] then Bad
                    else (case json_value n (json_ws (tl (json_ws r))) of
                            Out \<Rightarrow> Out
                          | Bad \<Rightarrow> Bad
                          | Got v r2 \<Rightarrow>
                              if startswith (json_ws r2) [125]
                              then Got (JDict (AList.update key v d)) (tl (json_ws r2))
                              else if startswith (json_ws r2) [44]
                              then json_members n (json_ws (tl (json_ws r2))) (AList.update key v d)
                              else Bad)))"
| "json_items 0 s xs = Out"
| "json_items (Suc n) s xs =
     (case json_value n s of
        Out \<Rightarrow> Out
      | Bad \<Rightarrow> Bad
      | Got v r \<Rightarrow>
          if startswith (json_ws r) [93] then Got (JList (xs @ [v])) (tl (json_ws r))
          else if startswith (json_ws r) [44] then json_items n (json_ws (tl (json_ws r))) (xs @ [v])
          else Bad)"

definition json_document :: "pystr \<Rightarrow> parsed" where
  "json_document s = json_value (2 * length s + 1) (json_ws s)"

text \<open>\<open>json.loads\<close>; \<open>None\<close> is \<open>JSONDecodeError\<close>.\<close>

definition loads :: "pystr \<Rightarrow> json option" where
  "loads s =
     (case json_document s of Got v r \<Rightarrow> if json_ws r = [] then Some v else None | _ \<Rightarrow> None)"

text \<open>\<open>d.get(key)\<close>: a missing key reads as null.\<close>

definition dict_get :: "pystr \<Rightarrow> (pystr \<times> json) list \<Rightarrow> json" where
  "dict_get key d = (case map_of d key of None \<Rightarrow> JNull | Some v \<Rightarrow> v)"

text \<open>\<open>v.get(key, default)\<close> of a value that may be anything\<close>

fun json_get :: "pystr \<Rightarrow> json \<Rightarrow> json \<Rightarrow> exn + json" where
  "json_get key dflt (JDict d) = Inr (case map_of d key of None \<Rightarrow> dflt | Some v \<Rightarrow> v)"
| "json_get key dflt v = Inl AttributeError"

text \<open>\<open>for x in v\<close>\<close>

fun json_iterate :: "json \<Rightarrow> exn + json list" where
  "json_iterate (JList xs) = Inr xs"
| "json_iterate (JDict d) = Inr (map (\<lambda>(k, v). JStr k) d)"
| "json_iterate (JStr s) = Inr (map (\<lambda>c. JStr [c]) s)"
| "json_iterate v = Inl TypeError"

section \<open>The fuel\<close>

lemma json_ws_le: "length (json_ws s) \<le> length s"
  by (simp add: json_ws_def length_dropWhile_le)

lemma json_ws_tl: "startswith (json_ws s) (c # p) \<Longrightarrow> length (json_ws (tl (json_ws s))) < length s"
  using json_ws_le [of s] json_ws_le [of "tl (json_ws s)"] by (auto simp: startswith_iff)

lemma json_tl: "startswith (json_ws s) (c # p) \<Longrightarrow> length (tl (json_ws s)) < length s"
  using json_ws_le [of s] by (auto simp: startswith_iff)

lemma scan_fraction_le: "length (snd (scan_fraction s)) \<le> length s"
  by (cases s) (auto simp: scan_fraction_def intro: le_trans [OF length_dropWhile_le])

lemma scan_exponent_le: "length (snd (scan_exponent s)) \<le> length s"
  by (cases s; cases "tl s")
     (auto simp: scan_exponent_def Let_def intro: le_trans [OF length_dropWhile_le])

lemma scan_number_shorter: "scan_number s = Some (v, r) \<Longrightarrow> length r < length s"
proof -
  assume n: "scan_number s = Some (v, r)"
  define t where "t = (if startswith s [45] then tl s else s)"
  define ds where "ds = (if startswith t [48] then [48] else takeWhile is_digit t)"
  obtain fr t1 where fr: "scan_fraction (drop (length ds) t) = (fr, t1)" by (rule prod.exhaust)
  obtain ex t2 where ex: "scan_exponent t1 = (ex, t2)" by (rule prod.exhaust)
  have r: "ds \<noteq> []" "r = t2"
    using n fr ex by (simp_all add: scan_number_def Let_def t_def ds_def split: if_splits)
  have "length t2 \<le> length t1" "length t1 \<le> length t - length ds" "length t \<le> length s"
    using scan_exponent_le [of t1] scan_fraction_le [of "drop (length ds) t"] fr ex by (simp_all add: t_def)
  moreover have "t \<noteq> []" using r(1) by (auto simp: ds_def startswith_def)
  ultimately show "length r < length s" using r by (cases t; cases ds) simp_all
qed

lemma json_const_nonempty: "json_const s = Some c \<Longrightarrow> startswith s c \<and> c \<noteq> []"
  by (auto simp: json_const_def split: if_splits)

lemma json_atom_shorter: "json_atom s = Got v r \<Longrightarrow> length r < length s"
  by (cases s) (auto simp: json_atom_def json_word_def startswith_def lit_def dest: scan_number_shorter
      json_const_nonempty split: if_splits option.splits)

lemma json_shorter:
  "json_value n s = Got v r \<Longrightarrow> length r < length s"
  "json_members n s d = Got v r \<Longrightarrow> length r < length s"
  "json_items n s xs = Got v r \<Longrightarrow> length r < length s"
proof (induction n s and n s d and n s xs arbitrary: v r and v r and v r
    rule: json_value_json_members_json_items.induct)
  case (2 n s)
  then show ?case
    using json_atom_shorter [of s v r] json_ws_le [of "tl s"] json_tl [of "tl s"]
    by (fastforce split: list.splits if_splits option.splits dest: scan_string_shorter)
next
  case (4 n s d)
  from 4(3) obtain c t key r1 where s: "s = c # t" "c = 34" "scan_string t = Some (key, r1)"
    and colon: "startswith (json_ws r1) [58]"
    by (auto split: list.splits if_splits option.splits)
  then obtain v2 r2 where v: "json_value n (json_ws (tl (json_ws r1))) = Got v2 r2"
    using 4(3) by (auto split: parsed.splits)
  have "length r2 < length s"
    using 4(1) [OF s(1) _ s(3) refl _ v] colon s json_ws_tl [OF colon] scan_string_shorter [OF s(3)] by simp
  moreover have "length r < length r2"
    using 4(3) 4(2) [OF s(1) _ s(3) refl _ v] s colon v json_tl [of r2] json_ws_tl [of r2]
    by (fastforce split: if_splits)
  ultimately show ?case by simp
next
  case (6 n s xs)
  from 6(3) obtain v2 r2 where v: "json_value n s = Got v2 r2" by (auto split: parsed.splits)
  then have "length r2 < length s" by (rule 6(1))
  moreover have "length r < length r2"
    using 6(3) 6(2) [OF v] v json_tl [of r2] json_ws_tl [of r2] by (fastforce split: if_splits)
  ultimately show ?case by simp
qed simp_all

lemma json_fuel:
  "2 * length s < n \<Longrightarrow> json_value n s \<noteq> Out"
  "2 * length s < n \<Longrightarrow> json_members n s d \<noteq> Out"
  "2 * length s + 1 < n \<Longrightarrow> json_items n s xs \<noteq> Out"
proof (induction n s and n s d and n s xs rule: json_value_json_members_json_items.induct)
  case (2 n s)
  show ?case
  proof (cases s)
    case Nil
    then show ?thesis by simp
  next
    case (Cons c t)
    moreover have "json_atom s \<noteq> Out" by (simp add: json_atom_def split: option.split)
    moreover have "length (json_ws t) \<le> length t" by (rule json_ws_le)
    ultimately show ?thesis using 2 by (auto split: option.split)
  qed
next
  case (4 n s d)
  show ?case
  proof (cases s)
    case Nil
    then show ?thesis by simp
  next
    case (Cons c t)
    show ?thesis
    proof (cases "c = 34 \<and> (\<exists>key r. scan_string t = Some (key, r) \<and> startswith (json_ws r) [58])")
      case True
      then obtain key r where t: "c = 34" "scan_string t = Some (key, r)" "startswith (json_ws r) [58]" by blast
      let ?s1 = "json_ws (tl (json_ws r))"
      have s1: "length ?s1 < length t" using json_ws_tl [OF t(3)] scan_string_shorter [OF t(2)] by simp
      have v: "json_value n ?s1 \<noteq> Out"
        using 4(1) [OF Cons _ t(2) refl] t s1 4(3) Cons by simp
      have m: "json_members n (json_ws (tl (json_ws r2))) (AList.update key v d) \<noteq> Out"
        if "json_value n ?s1 = Got v r2" "startswith (json_ws r2) [44]" "\<not> startswith (json_ws r2) [125]" for v r2
        using 4(2) [OF Cons _ t(2) refl _ that(1)] t that(2,3) json_ws_tl [OF that(2)] json_shorter(1) [OF that(1)]
          s1 4(3) Cons by simp
      show ?thesis using v m by (simp add: Cons t split: parsed.split)
    next
      case False
      then show ?thesis by (auto simp: Cons split: option.split)
    qed
  qed
next
  case (6 n s xs)
  have v: "json_value n s \<noteq> Out" using 6(1) 6(3) by simp
  have "json_items n (json_ws (tl (json_ws r))) (xs @ [v]) \<noteq> Out"
    if "json_value n s = Got v r" "startswith (json_ws r) [44]" "\<not> startswith (json_ws r) [93]" for v r
    using 6(2) [OF that(1)] that json_ws_tl [OF that(2)] json_shorter(1) [OF that(1)] 6(3) by simp
  then show ?case using v by (simp split: parsed.split)
qed simp_all

lemma loads_fuel: "json_document s \<noteq> Out"
  unfolding json_document_def using json_ws_le [of s] by (intro json_fuel) simp

text \<open>Reading a document that is given: its text is unfolded with \<open>lit_def\<close> first.\<close>

lemmas json_numeral = json_value.simps(2) [of "pred_numeral k" for k, folded numeral_eq_Suc]
  json_members.simps(2) [of "pred_numeral k" for k, folded numeral_eq_Suc]
  json_items.simps(2) [of "pred_numeral k" for k, folded numeral_eq_Suc]

lemmas json_eval = json_numeral json_ws_def startswith_def scan_string.simps scanned_def json_atom_def json_word_def
  lit_def scan_number_def is_digit_def scan_fraction_def scan_exponent_def Let_def

end
