(* ===== verification/Modbus_Templates.thy ===== *)
theory Modbus_Templates
  imports Modbus_Decode Json
begin

text \<open>
  \<open>backend/tools/modbus_templates.py\<close>: device templates from a JSON file, and the reads they stand for.  The
  file is read on every call and its values are used as they are, so the operations work on JSON values and
  raise where a value does not have the shape they expect.
\<close>

section \<open>The file\<close>

text \<open>What opening and reading a path gives; \<open>Unreadable\<close> is an \<open>OSError\<close> or bytes that are not UTF-8.\<close>

datatype file_read = Missing | Unreadable | Content pystr

definition list_templates :: "file_read \<Rightarrow> file_read \<Rightarrow> exn + json" where
  "list_templates templates_file example_file =
     (case (if templates_file \<noteq> Missing then templates_file else example_file) of
        Content content \<Rightarrow>
          (case loads content of
             None \<Rightarrow> Inr (JList [])
           | Some data \<Rightarrow> json_get (lit ''templates'') (JList []) data)
      | _ \<Rightarrow> Inr (JList []))"

fun find_template :: "pystr \<Rightarrow> json list \<Rightarrow> exn + json option" where
  "find_template template_id [] = Inr None"
| "find_template template_id (template # templates) =
     rbind (json_get (lit ''id'') JNull template) (\<lambda>v.
       if v = JStr template_id then Inr (Some template) else find_template template_id templates)"

section \<open>Reading\<close>

text \<open>\<open>_decode\<close>: two registers packed with \<open>!HH\<close> (which raises \<open>struct.error\<close>, caught, outside 0-65535).\<close>

definition template_decode :: "json \<Rightarrow> int list \<Rightarrow> float32 option" where
  "template_decode data_type values =
     (if data_type = JStr (lit ''float32'') \<and> length values = 2 then
        (if \<forall>v \<in> set values. 0 \<le> v \<and> v \<le> 65535
         then let (a, b) = register_bytes (nat (values ! 0)); (c, d) = register_bytes (nat (values ! 1))
              in Some (unpack_f32 [a, b, c, d])
         else None)
      else None)"

fun value_list :: "modbus_values \<Rightarrow> int list" where
  "value_list (Bits bs) = map (\<lambda>b. if b then 1 else 0) bs"
| "value_list (Registers ns) = map int ns"

record template_result =
  tq_label :: json
  tq_note :: json
  tq_function_code :: json
  tq_address :: json
  tq_quantity :: json
  tq_data_type :: json
  tq_ok :: bool
  tq_message :: "pystr option"
  tq_values :: "modbus_values option"
  tq_decoded_value :: "float32 option"

text \<open>One row; \<open>None\<close> for the values is the empty list of a result without any.\<close>

definition template_row :: "(pystr \<times> json) list \<Rightarrow> read_result \<Rightarrow> template_result" where
  "template_row reg result =
     (let (ok, message, values) = (case result of
            Read r \<Rightarrow> (True, None, Some (ro_values r))
          | Refused m \<Rightarrow> (False, Some m, None)
          | Failed m _ _ _ \<Rightarrow> (False, Some m, None))
      in \<lparr>tq_label = (case map_of reg (lit ''label'') of None \<Rightarrow> JStr [] | Some v \<Rightarrow> v),
          tq_note = (case map_of reg (lit ''note'') of None \<Rightarrow> JStr [] | Some v \<Rightarrow> v),
          tq_function_code = dict_get (lit ''function_code'') reg, tq_address = dict_get (lit ''address'') reg,
          tq_quantity = dict_get (lit ''quantity'') reg, tq_data_type = dict_get (lit ''data_type'') reg,
          tq_ok = ok, tq_message = message, tq_values = values,
          tq_decoded_value = (case values of None \<Rightarrow> None
            | Some vs \<Rightarrow> template_decode (dict_get (lit ''data_type'') reg) (value_list vs))\<rparr>)"

text \<open>The reads change the world also when they raise: a call gives its result or exception with the world after
  it, and \<open>and_then\<close> goes on unless it has raised.\<close>

definition and_then :: "(exn + 'a) \<times> 'w \<Rightarrow> ('a \<Rightarrow> 'w \<Rightarrow> (exn + 'b) \<times> 'w) \<Rightarrow> (exn + 'b) \<times> 'w" where
  "and_then m f = (case fst m of Inl e \<Rightarrow> (Inl e, snd m) | Inr x \<Rightarrow> f x (snd m))"

lemma and_then_simps [simp]: "and_then (Inl e, w) f = (Inl e, w)" "and_then (Inr x, w) f = f x w"
  by (simp_all add: and_then_def)

text \<open>The loop over the registers; \<open>rd unit function address quantity\<close> is \<open>modbus.read\<close> at the given host
  and port, called with the values the file has.\<close>

type_synonym 'w json_reader = "json \<Rightarrow> json \<Rightarrow> json \<Rightarrow> json \<Rightarrow> 'w \<Rightarrow> (exn + read_result) \<times> 'w"

fun read_template_rows ::
  "'w json_reader \<Rightarrow> json \<Rightarrow> json list \<Rightarrow> 'w \<Rightarrow> (exn + template_result list) \<times> 'w" where
  "read_template_rows rd unit_id [] w = (Inr [], w)"
| "read_template_rows rd unit_id (JDict reg # regs) w =
     and_then (rd unit_id (dict_get (lit ''function_code'') reg) (dict_get (lit ''address'') reg)
              (dict_get (lit ''quantity'') reg) w) (\<lambda>result w1.
     and_then (read_template_rows rd unit_id regs w1) (\<lambda>rows w2.
       (Inr (template_row reg result # rows), w2)))"
| "read_template_rows rd unit_id (reg # regs) w = (Inl AttributeError, w)"

definition read_found_template ::
  "'w json_reader \<Rightarrow> json \<Rightarrow> 'w \<Rightarrow> (exn + json \<times> template_result list) \<times> 'w" where
  "read_found_template rd template w =
     and_then (json_get (lit ''unit_id'') (JInt 1) template, w) (\<lambda>unit_id w.
     and_then (rbind (json_get (lit ''registers'') (JList []) template) json_iterate, w) (\<lambda>regs w.
     and_then (read_template_rows rd unit_id regs w) (\<lambda>rows w1.
     and_then (json_get (lit ''name'') JNull template, w1) (\<lambda>name w1. (Inr (name, rows), w1)))))"

text \<open>Refused with a message, or the template's name and the rows.\<close>

definition read_template ::
  "'w json_reader \<Rightarrow> exn + json \<Rightarrow> pystr \<Rightarrow> 'w \<Rightarrow> (exn + (pystr + json \<times> template_result list)) \<times> 'w" where
  "read_template rd listing template_id w =
     and_then (rbind (rbind listing json_iterate) (find_template template_id), w) (\<lambda>found w.
       case found of
         None \<Rightarrow> (Inr (Inl (lit ''template not found'')), w)
       | Some template \<Rightarrow>
           and_then (read_found_template rd template w) (\<lambda>r w1. (Inr (Inr r), w1)))"

section \<open>Well-formed templates\<close>

text \<open>A template as the documentation of the file describes it.\<close>

record template_register =
  tr_label :: pystr
  tr_note :: pystr
  tr_function_code :: int
  tr_address :: int
  tr_quantity :: int
  tr_data_type :: "pystr option"

record template =
  tp_id :: pystr
  tp_name :: pystr
  tp_unit_id :: int
  tp_registers :: "template_register list"

text \<open>A JSON object that describes a register or a template: the keys the program reads have the values of
  the record; it may have any other keys (the files have \<open>description\<close>), in any order, and the note may be
  left out.\<close>

fun describes_register :: "json \<Rightarrow> template_register \<Rightarrow> bool" where
  "describes_register (JDict d) r \<longleftrightarrow>
     map_of d (lit ''label'') = Some (JStr (tr_label r)) \<and>
     map_of d (lit ''function_code'') = Some (JInt (tr_function_code r)) \<and>
     map_of d (lit ''address'') = Some (JInt (tr_address r)) \<and>
     map_of d (lit ''quantity'') = Some (JInt (tr_quantity r)) \<and>
     map_of d (lit ''data_type'') = map_option JStr (tr_data_type r) \<and>
     (map_of d (lit ''note'') = Some (JStr (tr_note r)) \<or> map_of d (lit ''note'') = None \<and> tr_note r = [])"
| "describes_register _ r = False"

fun describes_template :: "json \<Rightarrow> template \<Rightarrow> bool" where
  "describes_template (JDict d) t \<longleftrightarrow>
     map_of d (lit ''id'') = Some (JStr (tp_id t)) \<and> map_of d (lit ''name'') = Some (JStr (tp_name t)) \<and>
     map_of d (lit ''unit_id'') = Some (JInt (tp_unit_id t)) \<and>
     (\<exists>regs. map_of d (lit ''registers'') = Some (JList regs) \<and> list_all2 describes_register regs (tp_registers t))"
| "describes_template _ t = False"

text \<open>The first template with an id is found, with its record.\<close>

lemma find_described:
  "list_all2 describes_template js ts \<Longrightarrow> find (\<lambda>t. tp_id t = i) ts = Some t \<Longrightarrow>
    \<exists>d. find_template i js = Inr (Some (JDict d)) \<and> describes_template (JDict d) t"
proof (induction rule: list_all2_induct)
  case (Cons j js u ts)
  then obtain d where "j = JDict d" by (cases j) simp_all
  with Cons show ?case by (auto split: if_splits)
qed simp

text \<open>Reads of a template's registers, one after the other, threading the world.\<close>

fun register_reads ::
  "(int \<Rightarrow> int \<Rightarrow> int \<Rightarrow> int \<Rightarrow> 'w \<Rightarrow> read_result \<times> 'w) \<Rightarrow> int \<Rightarrow> template_register list \<Rightarrow> 'w \<Rightarrow>
    (template_register \<times> read_result) list \<times> 'w" where
  "register_reads read_at u [] w = ([], w)"
| "register_reads read_at u (r # rs) w =
     (let (result, w1) = read_at u (tr_function_code r) (tr_address r) (tr_quantity r) w;
          (more, w2) = register_reads read_at u rs w1
      in ((r, result) # more, w2))"

definition reads_integers ::
  "'w json_reader \<Rightarrow> (int \<Rightarrow> int \<Rightarrow> int \<Rightarrow> int \<Rightarrow> 'w \<Rightarrow> read_result \<times> 'w) \<Rightarrow> bool" where
  "reads_integers rd read_at \<longleftrightarrow>
     (\<forall>u f a q w. rd (JInt u) (JInt f) (JInt a) (JInt q) w = (Inr (fst (read_at u f a q w)), snd (read_at u f a q w)))"

text \<open>The value of a row: the float of its two registers.\<close>

lemma template_decode_pair:
  assumes "n0 < 65536" and "n1 < 65536"
  shows "template_decode (JStr (lit ''float32'')) [int n0, int n1] = Some (float_of_bits (n0 * 65536 + n1))"
proof -
  have "unpack_u32 [n0 div 256, n0 mod 256, n1 div 256, n1 mod 256] = n0 * 65536 + n1"
    unfolding unpack_u32_def by simp
  then show ?thesis
    using assms by (simp add: template_decode_def register_bytes_def unpack_f32_def Let_def div_less_iff_less_mult)
qed

section \<open>Properties\<close>

text \<open>What one row says of a register and of the result of its read: the fields of the register, whether the
  read succeeded, its values or its message, and for a \<open>float32\<close> register with two registers read, the
  number their 32 bits are.\<close>

definition row_reports :: "template_register \<Rightarrow> read_result \<Rightarrow> template_result \<Rightarrow> bool" where
  "row_reports r result row \<longleftrightarrow>
     tq_label row = JStr (tr_label r) \<and> tq_note row = JStr (tr_note r) \<and>
     tq_function_code row = JInt (tr_function_code r) \<and> tq_address row = JInt (tr_address r) \<and>
     tq_quantity row = JInt (tr_quantity r) \<and>
     (case result of
        Read x \<Rightarrow> tq_ok row \<and> tq_message row = None \<and> tq_values row = Some (ro_values x) \<and>
          (\<forall>n0 n1. tr_data_type r = Some (lit ''float32'') \<and> ro_values x = Registers [n0, n1] \<and> n0 < 65536 \<and> n1 < 65536
             \<longrightarrow> tq_decoded_value row = Some (float_of_bits (n0 * 65536 + n1))) \<and>
          (tr_data_type r \<noteq> Some (lit ''float32'') \<longrightarrow> tq_decoded_value row = None)
      | Refused m \<Rightarrow> \<not> tq_ok row \<and> tq_message row = Some m \<and> tq_values row = None \<and> tq_decoded_value row = None
      | Failed m _ _ _ \<Rightarrow> \<not> tq_ok row \<and> tq_message row = Some m \<and> tq_values row = None \<and> tq_decoded_value row = None)"

lemma template_row_reports:
  assumes "describes_register (JDict d) r"
  shows "row_reports r result (template_row d result)"
proof (cases result)
  case (Read x)
  with assms show ?thesis
    by (auto simp: row_reports_def template_row_def dict_get_def template_decode_pair Let_def split: option.split)
      (auto simp: template_decode_def)
qed (use assms in \<open>auto simp: row_reports_def template_row_def dict_get_def Let_def\<close>)

lemma read_rows_described:
  "list_all2 describes_register js rs \<Longrightarrow> reads_integers rd read_at \<Longrightarrow>
    \<exists>rows. read_template_rows rd (JInt u) js w = (Inr rows, snd (register_reads read_at u rs w)) \<and>
      list_all2 (\<lambda>(r, result) row. row_reports r result row) (fst (register_reads read_at u rs w)) rows"
proof (induction arbitrary: w rule: list_all2_induct)
  case (Cons j js r rs)
  then obtain d where d: "j = JDict d" by (cases j) simp_all
  have get: "dict_get (lit ''function_code'') d = JInt (tr_function_code r)"
    "dict_get (lit ''address'') d = JInt (tr_address r)" "dict_get (lit ''quantity'') d = JInt (tr_quantity r)"
    using Cons.hyps d by (simp_all add: dict_get_def)
  let ?first = "read_at u (tr_function_code r) (tr_address r) (tr_quantity r) w"
  obtain rows where
    "read_template_rows rd (JInt u) js (snd ?first) = (Inr rows, snd (register_reads read_at u rs (snd ?first)))"
    "list_all2 (\<lambda>(r, result) row. row_reports r result row) (fst (register_reads read_at u rs (snd ?first))) rows"
    using Cons.IH [OF Cons.prems] by blast
  moreover have "row_reports r (fst ?first) (template_row d (fst ?first))"
    using template_row_reports Cons.hyps(1) d by simp
  ultimately show ?case using Cons.prems by (simp add: d get reads_integers_def Let_def split_def)
qed simp

text \<open>C13: A template is read as the file has it.  If the templates file (or, when it is missing, the example)
  is a JSON document whose templates are described with the keys the program reads, and any others, then reading a template by its id gives the name of
  the first template with that id and one row per register, in the file's order; each row is what \<open>modbus.read\<close>
  answered for the template's unit and the register's function, address and quantity, and the decoded value
  of a \<open>float32\<close> register is the number of its 32 bits.  A failed read does not end the others.\<close>

theorem template_read_exact:
  assumes "(if templates_file \<noteq> Missing then templates_file else example_file) = Content content"
    and "loads content = Some (JDict d)" and "map_of d (lit ''templates'') = Some (JList js)"
    and "list_all2 describes_template js ts"
    and "find (\<lambda>t. tp_id t = template_id) ts = Some t" and "reads_integers rd read_at"
  shows "\<exists>rows. read_template rd (list_templates templates_file example_file) template_id w =
      (Inr (Inr (JStr (tp_name t), rows)), snd (register_reads read_at (tp_unit_id t) (tp_registers t) w)) \<and>
    list_all2 (\<lambda>(r, result) row. row_reports r result row)
      (fst (register_reads read_at (tp_unit_id t) (tp_registers t) w)) rows"
proof -
  have "list_templates templates_file example_file = Inr (JList js)"
    unfolding list_templates_def assms(1) by (simp add: assms(2,3))
  moreover obtain e where e: "find_template template_id js = Inr (Some (JDict e))" "describes_template (JDict e) t"
    using find_described [OF assms(4,5)] by blast
  moreover obtain regs where regs: "map_of e (lit ''registers'') = Some (JList regs)"
    "list_all2 describes_register regs (tp_registers t)" using e(2) by auto
  ultimately show ?thesis
    using read_rows_described [OF regs(2) assms(6), of "tp_unit_id t" w]
    by (auto simp: read_template_def read_found_template_def)
qed

definition template_sample :: template where
  "template_sample = \<lparr>tp_id = lit ''m'', tp_name = lit ''Meter'', tp_unit_id = 1, tp_registers =
     [\<lparr>tr_label = lit ''W'', tr_note = [], tr_function_code = 3, tr_address = 10, tr_quantity = 2,
       tr_data_type = Some (lit ''float32'')\<rparr>]\<rparr>"

definition quoted :: "string \<Rightarrow> pystr" where
  "quoted s = [34] @ lit s @ [34]"

definition member :: "string \<Rightarrow> pystr \<Rightarrow> pystr" where
  "member key v = quoted key @ lit '': '' @ v"

text \<open>A file in the form of the repository's: a comment beside the templates, and a description in the template.\<close>

definition template_file_sample :: pystr where
  "template_file_sample = lit ''{'' @ member ''_comment'' (quoted ''c'') @ lit '', '' @ quoted ''templates'' @ lit '': [{'' @
     member ''id'' (quoted ''m'') @ lit '', '' @ member ''name'' (quoted ''Meter'') @ lit '', '' @
     member ''description'' (quoted ''A meter'') @ lit '', '' @ member ''unit_id'' (lit ''1'') @ lit '', '' @
     quoted ''registers'' @ lit '': [{'' @ member ''label'' (quoted ''W'') @ lit '', '' @
     member ''function_code'' (lit ''3'') @ lit '', '' @ member ''address'' (lit ''10'') @ lit '', '' @
     member ''quantity'' (lit ''2'') @ lit '', '' @ member ''data_type'' (quoted ''float32'') @ lit '', '' @
     member ''note'' (quoted []) @ lit ''}]}]}''"

definition template_json_sample :: json where
  "template_json_sample = JDict [(lit ''id'', JStr (lit ''m'')), (lit ''name'', JStr (lit ''Meter'')),
     (lit ''description'', JStr (lit ''A meter'')), (lit ''unit_id'', JInt 1),
     (lit ''registers'', JList [JDict [(lit ''label'', JStr (lit ''W'')), (lit ''function_code'', JInt 3),
        (lit ''address'', JInt 10), (lit ''quantity'', JInt 2), (lit ''data_type'', JStr (lit ''float32'')),
        (lit ''note'', JStr [])]])]"

definition file_json_sample :: "(pystr \<times> json) list" where
  "file_json_sample = [(lit ''_comment'', JStr (lit ''c'')), (lit ''templates'', JList [template_json_sample])]"

lemma template_file_loads: "loads template_file_sample = Some (JDict file_json_sample)"
  by (simp add: template_file_sample_def member_def quoted_def file_json_sample_def template_json_sample_def loads_def
      json_document_def lit_def json_ws_def startswith_def) (simp add: json_eval)

lemma template_json_describes: "describes_template template_json_sample template_sample"
  by (simp add: template_json_sample_def template_sample_def lit_def)

theorem template_read_exact_witness:
  "let x = \<lparr>ro_function = lit ''read_holding_registers'', ro_address = 10, ro_quantity = 2,
       ro_values = Registers [0x42C8, 0], ro_request = [], ro_response = [], ro_time_ms = 1\<rparr>;
       rd = (\<lambda>u f a q (w :: unit). (Inr (Read x), w))
    in \<exists>row. read_template rd (list_templates Missing (Content template_file_sample)) (lit ''m'') () =
         (Inr (Inr (JStr (lit ''Meter''), [row])), ()) \<and> tq_decoded_value row = Some (float_of_bits 0x42C80000)"
proof -
  let ?x = "\<lparr>ro_function = lit ''read_holding_registers'', ro_address = 10, ro_quantity = 2,
       ro_values = Registers [0x42C8, 0], ro_request = [], ro_response = [], ro_time_ms = 1\<rparr>"
  let ?rd = "\<lambda>u f a q (w :: unit). (Inr (Read ?x), w)"
  have "map_of file_json_sample (lit ''templates'') = Some (JList [template_json_sample])"
    by (simp add: file_json_sample_def lit_def)
  moreover have "list_all2 describes_template [template_json_sample] [template_sample]"
    by (simp add: template_json_describes)
  moreover have "find (\<lambda>t. tp_id t = lit ''m'') [template_sample] = Some template_sample"
    by (simp add: template_sample_def)
  moreover have "reads_integers ?rd (\<lambda>u f a q w. (Read ?x, w))" by (simp add: reads_integers_def)
  ultimately obtain rows where
    "read_template ?rd (list_templates Missing (Content template_file_sample)) (lit ''m'') () =
      (Inr (Inr (JStr (tp_name template_sample), rows)), ())"
    "list_all2 (\<lambda>(r, result) row. row_reports r result row)
      (fst (register_reads (\<lambda>u f a q w. (Read ?x, w)) 1 (tp_registers template_sample) ())) rows"
    using template_read_exact [OF _ template_file_loads, of Missing "Content template_file_sample" "[template_json_sample]" "[template_sample]"
      "lit ''m''" template_sample ?rd "\<lambda>u f a q w. (Read ?x, w)" "()"]
    by (auto simp: template_sample_def Let_def split_def)
  then show ?thesis
    by (auto simp: template_sample_def list_all2_Cons1 row_reports_def)
qed

text \<open>The template reader and the decoding helper disagree on non-finite readings.  For any two registers the
  template's \<open>float32\<close> value is the float of their bits; the helper shows the same value when it is finite
  and none otherwise, the template hands the NaN or infinity on.\<close>

theorem template_float_not_filtered:
  assumes "n0 < 65536" and "n1 < 65536"
  shows "let f = float_of_bits (n0 * 65536 + n1) in
    template_decode (JStr (lit ''float32'')) [int n0, int n1] = Some f \<and>
    (\<exists>r x. decode_registers [int n0, int n1] (lit ''ABCD'') = Inr r \<and> e_32 r = Some x \<and>
      e_float32 x = (if isfinite f then Some f else None))"
proof -
  have "register_bytes (nat (int n mod 65536)) = (n div 256, n mod 256)" if "n < 65536" for n
    using that by (simp add: register_bytes_def div_less_iff_less_mult)
  moreover have "unpack_u32 [n0 div 256, n0 mod 256, n1 div 256, n1 mod 256] = n0 * 65536 + n1"
    unfolding unpack_u32_def by simp
  ultimately show ?thesis
    using assms template_decode_pair [OF assms]
    by (simp add: decode_registers_def BYTE_ORDERS_def combine_32bit_def unpack_f32_def Let_def)
qed

theorem template_float_not_filtered_witness:
  "template_decode (JStr (lit ''float32'')) [0x7FC0, 0] = Some NaN"
  using template_float_not_filtered [of "0x7FC0" 0] by (simp add: Let_def float_of_bits_def)

end
