(* ===== verification/S7_Frames.thy ===== *)
theory S7_Frames
  imports Byte_Stream Py_Text Py_Dict Struct_Numbers
begin

text \<open>
  The wire formats of \<open>backend/tools/s7_diag.py\<close>: TPKT frames, the Read Var request and response, the
  decoding of a tag's bytes, and the identification records (SZL) of a CPU.
\<close>

definition COTP_CR_PRIMARY :: bytes where
  "COTP_CR_PRIMARY = [0x03, 0x00, 0x00, 0x16, 0x11, 0xe0, 0x00, 0x00, 0x00, 0x14, 0x00, 0xc1, 0x02, 0x01, 0x00,
     0xc2, 0x02, 0x01, 0x02, 0xc0, 0x01, 0x0a]"

definition COTP_CR_FALLBACK :: bytes where
  "COTP_CR_FALLBACK = [0x03, 0x00, 0x00, 0x16, 0x11, 0xe0, 0x00, 0x00, 0x00, 0x05, 0x00, 0xc1, 0x02, 0x01, 0x00,
     0xc2, 0x02, 0x02, 0x00, 0xc0, 0x01, 0x0a]"

text \<open>The Setup Communication job and the two Read SZL requests, whose SZL ids are 0x0011 and 0x001c.\<close>

definition SETUP_COMMUNICATION :: bytes where
  "SETUP_COMMUNICATION = [0x03, 0x00, 0x00, 0x19, 0x02, 0xf0, 0x80, 0x32, 0x01, 0x00, 0x00, 0x00, 0x00, 0x00, 0x08,
     0x00, 0x00, 0xf0, 0x00, 0x00, 0x01, 0x00, 0x01, 0x01, 0xe0]"

definition READ_SZL_MODULE_IDENTIFICATION :: bytes where
  "READ_SZL_MODULE_IDENTIFICATION = [0x03, 0x00, 0x00, 0x21, 0x02, 0xf0, 0x80, 0x32, 0x07, 0x00, 0x00, 0x00, 0x00,
     0x00, 0x08, 0x00, 0x08, 0x00, 0x01, 0x12, 0x04, 0x11, 0x44, 0x01, 0x00, 0xff, 0x09, 0x00, 0x04, 0x00, 0x11, 0x00, 0x01]"

definition READ_SZL_COMPONENT_IDENTIFICATION :: bytes where
  "READ_SZL_COMPONENT_IDENTIFICATION = [0x03, 0x00, 0x00, 0x21, 0x02, 0xf0, 0x80, 0x32, 0x07, 0x00, 0x00, 0x00, 0x00,
     0x00, 0x08, 0x00, 0x08, 0x00, 0x01, 0x12, 0x04, 0x11, 0x44, 0x01, 0x00, 0xff, 0x09, 0x00, 0x04, 0x00, 0x1c, 0x00, 0x01]"

definition COTP_CONNECT_CONFIRM :: byte where
  "COTP_CONNECT_CONFIRM = 0xD0"

definition S7_PROTOCOL_ID :: byte where
  "S7_PROTOCOL_ID = 0x32"

definition S7_AREA_CODES :: "(pystr, byte) dict" where
  "S7_AREA_CODES = [(lit ''I'', 0x81), (lit ''Q'', 0x82), (lit ''M'', 0x83), (lit ''DB'', 0x84)]"

definition S7_TYPE_SIZES :: "(pystr, nat) dict" where
  "S7_TYPE_SIZES = [(lit ''BIT'', 1), (lit ''BYTE'', 1), (lit ''WORD'', 2), (lit ''INT'', 2), (lit ''DWORD'', 4),
     (lit ''DINT'', 4), (lit ''REAL'', 4)]"

section \<open>TPKT frames\<close>

definition recv_tpkt_frame :: "event list \<Rightarrow> exn + bytes option \<times> event list" where
  "recv_tpkt_frame es =
     rbind (recv_exact 4 es) (\<lambda>(header, es1).
       case header of
         None \<Rightarrow> Inr (None, es1)
       | Some h \<Rightarrow>
           rbind (unpack_H (py_slice h 2 4)) (\<lambda>total_len.
             if total_len < 4 then Inr (None, es1)
             else rbind (recv_exact (int total_len - 4) es1) (\<lambda>(rest, es2).
               case rest of None \<Rightarrow> Inr (None, es2) | Some r \<Rightarrow> Inr (Some (h @ r), es2))))"

section \<open>Read Var\<close>

text \<open>\<open>struct.pack\<close> with \<open>!H\<close> of a Python integer.\<close>

definition pack_H :: "int \<Rightarrow> exn + bytes" where
  "pack_H v = (if 0 \<le> v \<and> v \<le> 65535 then Inr (be16 (nat v)) else Inl StructError)"

definition type_size :: "pystr \<Rightarrow> nat" where
  "type_size data_type = (case map_of S7_TYPE_SIZES data_type of Some n \<Rightarrow> n | None \<Rightarrow> 0)"

definition build_read_var_request :: "byte \<Rightarrow> int \<Rightarrow> int \<Rightarrow> int \<Rightarrow> pystr \<Rightarrow> exn + bytes" where
  "build_read_var_request area_code db_number byte_offset bit_offset data_type =
     (let is_bit = (data_type = lit ''BIT'');
          transport_size = (if is_bit then 0x01 else 0x02);
          item_count = (if is_bit then 1 else type_size data_type);
          bit_address = byte_offset * 8 + (if is_bit then bit_offset else 0)
      in rbind (pack_H db_number) (\<lambda>db.
        let item = [0x12, 0x0A, 0x10, transport_size] @ be16 item_count @ db @
              [area_code, byte_of (nat (bit_address div 65536 mod 256)), byte_of (nat (bit_address div 256 mod 256)),
               byte_of (nat (bit_address mod 256))];
            parameter = [0x04, 1] @ item;
            header = [S7_PROTOCOL_ID, 0x01] @ be16 0 @ be16 1 @ be16 (length parameter) @ be16 0;
            cotp = [0x02, 0xF0, 0x80];
            s7_pdu = header @ parameter;
            tpkt = [0x03, 0x00] @ be16 (4 + length cotp + length s7_pdu)
        in Inr (tpkt @ cotp @ s7_pdu)))"

definition SZL_RETURN_CODE_SUCCESS :: byte where
  "SZL_RETURN_CODE_SUCCESS = 0xFF"

definition SZL_RETURN_CODE_MESSAGES :: "(byte, pystr) dict" where
  "SZL_RETURN_CODE_MESSAGES = [(0x01, lit ''hardware fault''), (0x03, lit ''accessing object not allowed''),
     (0x05, lit ''invalid address''), (0x06, lit ''data type not supported''),
     (0x07, lit ''data type inconsistent''), (0x0A, lit ''object does not exist -- SZL not implemented by this CPU'')]"

definition read_failure :: "byte \<Rightarrow> pystr" where
  "read_failure return_code =
     (case map_of SZL_RETURN_CODE_MESSAGES return_code of
        Some m \<Rightarrow> m | None \<Rightarrow> lit ''read failed (return code 0x'' @ hex2 return_code @ lit '')'')"

text \<open>The pair \<open>(raw, error)\<close>, of which exactly one is None, is \<open>Inr raw\<close> or \<open>Inl error\<close>.\<close>

definition parse_read_var_response :: "bytes \<Rightarrow> nat \<Rightarrow> exn + (pystr + bytes)" where
  "parse_read_var_response frame expected_bytes =
     (if length frame < 19 then Inr (Inl (lit ''invalid or no response''))
      else rbind (byte_at frame 7) (\<lambda>protocol.
        if protocol \<noteq> S7_PROTOCOL_ID then Inr (Inl (lit ''invalid or no response''))
        else rbind (byte_at frame 8) (\<lambda>rosctr.
          if rosctr \<noteq> 0x02 \<and> rosctr \<noteq> 0x03 then
            Inr (Inl (lit ''unexpected response type (rosctr 0x'' @ hex2 rosctr @ lit '')''))
          else rbind (byte_at frame 17) (\<lambda>error_class. rbind (byte_at frame 18) (\<lambda>error_code.
            if error_class \<noteq> 0 \<or> error_code \<noteq> 0 then
              Inr (Inl (lit ''S7 PDU error (class 0x'' @ hex2 error_class @ lit '', code 0x'' @ hex2 error_code @ lit '')''))
            else rbind (unpack_H (py_slice frame 13 15)) (\<lambda>param_len.
              let item_offset = 19 + param_len in
              if length frame < item_offset + 4 then Inr (Inl (lit ''short response''))
              else rbind (byte_at frame item_offset) (\<lambda>return_code.
                if return_code \<noteq> SZL_RETURN_CODE_SUCCESS then Inr (Inl (read_failure return_code))
                else
                  let data = py_slice frame (item_offset + 4) (item_offset + 4 + expected_bytes) in
                  if length data < expected_bytes then Inr (Inl (lit ''truncated data in response''))
                  else Inr (Inr data))))))))"

datatype tag_value = TagBool bool | TagInt int | TagReal float32

text \<open>\<open>struct.unpack\<close> raises when the data has another length than the format.\<close>

definition unpack_n :: "nat \<Rightarrow> (nat list \<Rightarrow> 'a) \<Rightarrow> bytes \<Rightarrow> exn + 'a" where
  "unpack_n n f raw = (if length raw = n then Inr (f (map unat raw)) else Inl StructError)"

definition decode_tag_value :: "pystr \<Rightarrow> bytes \<Rightarrow> exn + tag_value" where
  "decode_tag_value data_type raw =
     (if data_type = lit ''BIT'' then rbind (byte_at raw 0) (\<lambda>b. Inr (TagBool (bit b 0)))
      else if data_type = lit ''BYTE'' then rbind (byte_at raw 0) (\<lambda>b. Inr (TagInt (uint b)))
      else if data_type = lit ''WORD'' then rbind (unpack_n 2 unpack_u32 raw) (\<lambda>v. Inr (TagInt (int v)))
      else if data_type = lit ''INT'' then rbind (unpack_n 2 unpack_i16 raw) (\<lambda>v. Inr (TagInt v))
      else if data_type = lit ''DWORD'' then rbind (unpack_n 4 unpack_u32 raw) (\<lambda>v. Inr (TagInt (int v)))
      else if data_type = lit ''DINT'' then rbind (unpack_n 4 unpack_i32 raw) (\<lambda>v. Inr (TagInt v))
      else rbind (unpack_n 4 unpack_f32 raw) (\<lambda>v. Inr (TagReal v)))"

section \<open>CPU identification\<close>

definition cstring :: "bytes \<Rightarrow> nat \<Rightarrow> pystr option" where
  "cstring data offset =
     (if length data \<le> offset then None
      else if 0 \<notin> set (drop offset data) then None
      else let text = strip (ascii_decode (takeWhile (\<lambda>b. b \<noteq> 0) (drop offset data)))
           in if text = [] then None else Some text)"

record module_info =
  mi_module :: "pystr option"
  mi_basic_hardware :: "pystr option"
  mi_version :: "pystr option"

definition parse_module_identification :: "bytes \<Rightarrow> exn + module_info" where
  "parse_module_identification frame =
     (let result = \<lparr>mi_module = None, mi_basic_hardware = None, mi_version = None\<rparr> in
      if length frame < 8 then Inr result
      else rbind (byte_at frame 7) (\<lambda>protocol.
        if protocol \<noteq> S7_PROTOCOL_ID \<or> length frame < 125 then Inr result
        else rbind (byte_at frame 122) (\<lambda>v1. rbind (byte_at frame 123) (\<lambda>v2. rbind (byte_at frame 124) (\<lambda>v3.
          Inr \<lparr>mi_module = cstring frame 43, mi_basic_hardware = cstring frame 71,
               mi_version = Some (dec (unat v1) @ lit ''.'' @ dec (unat v2) @ lit ''.'' @ dec (unat v3))\<rparr>)))))"

definition szl_return_code :: "bytes \<Rightarrow> exn + byte option" where
  "szl_return_code frame =
     (if length frame < 17 then Inr None
      else rbind (unpack_H (py_slice frame 13 15)) (\<lambda>param_len.
        let data_offset = 17 + param_len in
        if length frame \<le> data_offset then Inr None
        else rbind (byte_at frame data_offset) (\<lambda>b. Inr (Some b))))"

definition szl_failure_message :: "bytes \<Rightarrow> exn + pystr option" where
  "szl_failure_message frame =
     rbind (szl_return_code frame) (\<lambda>code.
       case code of
         None \<Rightarrow> Inr None
       | Some c \<Rightarrow>
           if c = SZL_RETURN_CODE_SUCCESS then Inr None
           else Inr (Some (case map_of SZL_RETURN_CODE_MESSAGES c of
               Some m \<Rightarrow> m | None \<Rightarrow> lit ''SZL request failed (return code 0x'' @ hex2 c @ lit '')'')))"

record component_info =
  ci_system_name :: "pystr option"
  ci_module_type :: "pystr option"
  ci_serial_number :: "pystr option"
  ci_plant_identification :: "pystr option"
  ci_copyright :: "pystr option"

definition parse_component_identification :: "bytes \<Rightarrow> exn + component_info" where
  "parse_component_identification frame =
     (let result = \<lparr>ci_system_name = None, ci_module_type = None, ci_serial_number = None,
            ci_plant_identification = None, ci_copyright = None\<rparr> in
      if length frame < 31 then Inr result
      else rbind (byte_at frame 7) (\<lambda>protocol.
        if protocol \<noteq> S7_PROTOCOL_ID then Inr result
        else rbind (byte_at frame 30) (\<lambda>szl_id.
          let offset = (if szl_id = 0x1C then 0 else 4) in
          Inr \<lparr>ci_system_name = cstring frame (39 + offset), ci_module_type = cstring frame (73 + offset),
               ci_serial_number = cstring frame (175 + offset),
               ci_plant_identification = cstring frame (107 + offset), ci_copyright = cstring frame (141 + offset)\<rparr>)))"

section \<open>Receiving and parsing\<close>

lemma recv_tpkt_clean:
  assumes "clean es" and "stream_bytes es = [a, b] @ be16 (4 + length body) @ body @ rest"
    and "4 + length body < 65536"
  shows "\<exists>es'. recv_tpkt_frame es = Inr (Some ([a, b] @ be16 (4 + length body) @ body), es') \<and> clean es' \<and>
    stream_bytes es' = rest"
proof -
  let ?h = "[a, b] @ be16 (4 + length body)"
  have "take (nat 4) (stream_bytes es) = ?h" "drop (nat 4) (stream_bytes es) = body @ rest"
    using assms(2) by (simp_all add: be16_def)
  then obtain es1 where 1: "recv_exact 4 es = Inr (Some ?h, es1)" "clean es1" "stream_bytes es1 = body @ rest"
    using recv_exact_enough [OF assms(1), of 4] assms(2) by (auto simp: be16_def)
  then obtain es2 where 2: "recv_exact (int (length body)) es1 = Inr (Some body, es2)" "clean es2" "stream_bytes es2 = rest"
    using recv_exact_enough [OF 1(2), of "int (length body)"] by auto
  have "py_slice ?h 2 4 = be16 (4 + length body)" by (simp add: py_slice_def be16_def)
  with 1 2 assms(3) show ?thesis by (simp add: recv_tpkt_frame_def)
qed

lemma recv_tpkt_raises:
  "recv_tpkt_frame es = Inl e \<Longrightarrow> e \<in> raises es"
  "recv_tpkt_frame es = Inr (f, es') \<Longrightarrow> raises es' \<subseteq> raises es"
proof -
  have h: "unpack_H (py_slice h 2 4) \<noteq> Inl x" if "recv_exact 4 es = Inr (Some h, es1)" for h es1 x
    using recv_exact_length [OF that] by (intro notI) (simp)
  show "recv_tpkt_frame es = Inl e \<Longrightarrow> e \<in> raises es"
    by (auto simp: recv_tpkt_frame_def rbind_eq_Inl h split: option.splits if_splits
        dest: recv_exact_raises dest!: recv_exact_raises(2) [THEN subsetD, rotated])
  show "recv_tpkt_frame es = Inr (f, es') \<Longrightarrow> raises es' \<subseteq> raises es"
    by (auto simp: recv_tpkt_frame_def rbind_eq_Inr split: option.splits if_splits
        dest!: recv_exact_raises(2)) blast+
qed

lemma parse_read_var_returns: "returns (parse_read_var_response frame n)"
  unfolding parse_read_var_response_def
  by (intro returns_intros returns_reads returns_simps) auto

lemma parse_read_var_length: "parse_read_var_response frame n = Inr (Inr raw) \<Longrightarrow> length raw = n"
  by (auto simp: parse_read_var_response_def rbind_eq_Inr Let_def split: if_splits)

lemma identification_returns:
  "returns (parse_module_identification frame)" "returns (parse_component_identification frame)"
  "returns (szl_failure_message frame)"
  unfolding parse_module_identification_def parse_component_identification_def szl_failure_message_def
    szl_return_code_def
  by ((intro returns_intros returns_reads returns_simps; auto split: option.splits)+)

lemma type_size_cases:
  "map_of S7_TYPE_SIZES ty \<noteq> None \<longleftrightarrow> ty \<in> {lit ''BIT'', lit ''BYTE'', lit ''WORD'', lit ''INT'',
     lit ''DWORD'', lit ''DINT'', lit ''REAL''}"
  by (auto simp: S7_TYPE_SIZES_def)

lemma decode_tag_returns:
  "map_of S7_TYPE_SIZES ty \<noteq> None \<Longrightarrow> length raw = type_size ty \<Longrightarrow> returns (decode_tag_value ty raw)"
  unfolding type_size_cases
  by (auto simp: decode_tag_value_def type_size_def S7_TYPE_SIZES_def unpack_n_def)

end
