(* ===== verification/S7_Diag.thy ===== *)
theory S7_Diag
  imports S7_Frames Modbus_Client
begin

text \<open>
  \<open>backend/tools/s7_diag.py\<close>: the read-only S7 client.  \<open>identify\<close> and \<open>read_tag\<close> open a connection
  (with a second TSAP if the first is not confirmed), set up the S7 session and exchange one or two
  requests.  The network is what the \<open>k\<close>-th connection is: whether \<open>bind\<close> or \<open>connect\<close> raises, and, given
  the frames sent on it so far, whether sending the last one raises and what then arrives.
\<close>

record s7_socket =
  sk_connect :: "exn option"
  sk_answers :: "bytes list \<Rightarrow> exn + event list"

text \<open>\<open>sendall\<close> of a frame and \<open>_recv_tpkt_frame\<close>, after the frames \<open>sent\<close> and with \<open>es\<close> not yet read.\<close>

definition exchange :: "s7_socket \<Rightarrow> bytes list \<Rightarrow> bytes \<Rightarrow> event list \<Rightarrow> exn + bytes option \<times> event list" where
  "exchange sk sent frame es =
     rbind (sk_answers sk (sent @ [frame])) (\<lambda>arriving. recv_tpkt_frame (es @ arriving))"

section \<open>Connecting\<close>

definition cotp_attempt :: "s7_socket \<Rightarrow> bytes \<Rightarrow> exn + bytes option \<times> event list" where
  "cotp_attempt sk request = (case sk_connect sk of Some e \<Rightarrow> Inl e | None \<Rightarrow> exchange sk [] request [])"

definition confirmed :: "bytes option \<Rightarrow> bool" where
  "confirmed response = (case response of None \<Rightarrow> False | Some f \<Rightarrow> 6 \<le> length f \<and> f ! 5 = COTP_CONNECT_CONFIRM)"

text \<open>A connection comes with the frames sent on it, the confirmed request, and what is not yet read.\<close>

fun cotp_loop ::
  "exn option \<Rightarrow> (s7_socket \<times> bytes) list \<Rightarrow> exn + (s7_socket \<times> bytes list \<times> event list) option" where
  "cotp_loop last_exc [] = (case last_exc of Some e \<Rightarrow> Inl e | None \<Rightarrow> Inr None)"
| "cotp_loop last_exc ((sk, request) # attempts) =
     (case cotp_attempt sk request of
        Inl e \<Rightarrow> if socket_exn e then cotp_loop (Some e) attempts else Inl e
      | Inr (response, es) \<Rightarrow>
          if confirmed response then Inr (Some (sk, [request], es)) else cotp_loop last_exc attempts)"

definition open_and_negotiate_cotp :: "(nat \<Rightarrow> s7_socket) \<Rightarrow> exn + (s7_socket \<times> bytes list \<times> event list) option" where
  "open_and_negotiate_cotp net = cotp_loop None [(net 0, COTP_CR_PRIMARY), (net 1, COTP_CR_FALLBACK)]"

definition valid_setup :: "bytes option \<Rightarrow> bool" where
  "valid_setup response = (case response of None \<Rightarrow> False | Some f \<Rightarrow> 8 \<le> length f \<and> f ! 7 = S7_PROTOCOL_ID)"

definition no_cotp :: pystr where
  "no_cotp = lit ''COTP connection not confirmed -- not an S7-compatible device, or a different rack/slot than the two defaults tried''"

definition no_setup :: pystr where
  "no_setup = lit ''no valid S7comm response to Setup Communication''"

text \<open>The \<open>except\<close> clauses around a session.\<close>

definition s7_catch :: "int \<Rightarrow> (pystr \<Rightarrow> 'r) \<Rightarrow> exn + 'r \<Rightarrow> exn + 'r" where
  "s7_catch port failed body =
     (case body of Inr r \<Rightarrow> Inr r | Inl e \<Rightarrow> rbind (socket_error (str_int port) e) (\<lambda>m. Inr (failed m)))"

section \<open>Identification\<close>

datatype identify_result =
    IdRefused pystr
  | IdFailed bool pystr real
  | Identified "module_info option" "pystr option" "component_info option" "pystr option" real

text \<open>\<open>info = parse(frame) if frame else {}\<close> and its error message.\<close>

definition szl_info :: "(bytes \<Rightarrow> exn + 'i) \<Rightarrow> bytes option \<Rightarrow> exn + 'i option \<times> pystr option" where
  "szl_info parse frame =
     (case frame of
        None \<Rightarrow> Inr (None, Some (lit ''no response''))
      | Some f \<Rightarrow> rbind (parse f) (\<lambda>i. rbind (szl_failure_message f) (\<lambda>m. Inr (Some i, m))))"

definition id_session :: "(nat \<Rightarrow> s7_socket) \<Rightarrow> real \<Rightarrow> exn + identify_result" where
  "id_session net ms =
     rbind (open_and_negotiate_cotp net) (\<lambda>conn.
       case conn of
         None \<Rightarrow> Inr (IdFailed False no_cotp ms)
       | Some (sk, sent, es) \<Rightarrow>
           rbind (exchange sk sent SETUP_COMMUNICATION es) (\<lambda>(setup_response, es1).
             if \<not> valid_setup setup_response then Inr (IdFailed True no_setup ms)
             else
               rbind (exchange sk (sent @ [SETUP_COMMUNICATION]) READ_SZL_MODULE_IDENTIFICATION es1) (\<lambda>(module_frame, es2).
               rbind (szl_info parse_module_identification module_frame) (\<lambda>(mod_info, mod_error).
               rbind (exchange sk (sent @ [SETUP_COMMUNICATION, READ_SZL_MODULE_IDENTIFICATION])
                   READ_SZL_COMPONENT_IDENTIFICATION es2) (\<lambda>(component_frame, es3).
               rbind (szl_info parse_component_identification component_frame) (\<lambda>(comp_info, comp_error).
                 Inr (Identified mod_info mod_error comp_info comp_error ms)))))))"

definition identify :: "pystr \<Rightarrow> int \<Rightarrow> pystr option \<Rightarrow> (nat \<Rightarrow> s7_socket) \<Rightarrow> real \<Rightarrow> exn + identify_result" where
  "identify host port eth0_address net elapsed =
     (if strip host = [] then Inr (IdRefused (lit ''host is required''))
      else if \<not> (1 \<le> port \<and> port \<le> 65535) then Inr (IdRefused (lit ''port must be 1-65535''))
      else (case eth0_source_ip eth0_address of
          None \<Rightarrow> Inr (IdRefused no_source_ip)
        | Some source_ip \<Rightarrow>
            if source_ip = [] then Inr (IdRefused no_source_ip)
            else let ms = round1 (elapsed * 1000)
                 in s7_catch port (\<lambda>m. IdFailed False m ms) (id_session net ms)))"

section \<open>Reading a tag\<close>

text \<open>\<open>str.upper()\<close>, exact on the characters whose upper case is an ASCII letter (the dotless i and the
  long s are the two outside ASCII); others are left alone, which no test below can tell.\<close>

definition upper1 :: "nat \<Rightarrow> nat" where
  "upper1 c = (if 97 \<le> c \<and> c \<le> 122 then c - 32 else if c = 305 then 73 else if c = 383 then 83 else c)"

definition upper :: "pystr \<Rightarrow> pystr" where
  "upper s = map upper1 s"

record tag =
  tg_value :: tag_value
  tg_area :: pystr
  tg_db_number :: "int option"
  tg_byte_offset :: int
  tg_bit_offset :: "int option"
  tg_type :: pystr
  tg_raw_hex :: pystr
  tg_time_ms :: real

datatype tag_result = TagRefused pystr | TagFailed pystr real | TagRead tag

definition read_tag_checks :: "pystr \<Rightarrow> int \<Rightarrow> pystr \<Rightarrow> int \<Rightarrow> int \<Rightarrow> pystr \<Rightarrow> int \<Rightarrow> pystr option" where
  "read_tag_checks host port area db_number byte_offset data_type bit_offset =
     (if host = [] then Some (lit ''host is required'')
      else if \<not> (1 \<le> port \<and> port \<le> 65535) then Some (lit ''port must be 1-65535'')
      else if map_of S7_AREA_CODES area = None then
        Some (lit ''area must be one of '' @ join (lit '', '') (map fst S7_AREA_CODES))
      else if map_of S7_TYPE_SIZES data_type = None then
        Some (lit ''type must be one of '' @ join (lit '', '') (map fst S7_TYPE_SIZES))
      else if area = lit ''DB'' \<and> db_number < 1 then Some (lit ''db_number is required (>= 1) when area is DB'')
      else if byte_offset < 0 then Some (lit ''byte_offset must be >= 0'')
      else if data_type = lit ''BIT'' \<and> \<not> (0 \<le> bit_offset \<and> bit_offset \<le> 7) then
        Some (lit ''bit_offset must be 0-7'')
      else None)"

text \<open>Inside the \<open>try\<close>: the message of a returned failure, or the response to the Read Var request.\<close>

definition tag_session ::
  "(nat \<Rightarrow> s7_socket) \<Rightarrow> exn + bytes \<Rightarrow> exn + (pystr + bytes option)" where
  "tag_session net request =
     rbind (open_and_negotiate_cotp net) (\<lambda>conn.
       case conn of
         None \<Rightarrow> Inr (Inl no_cotp)
       | Some (sk, sent, es) \<Rightarrow>
           rbind (exchange sk sent SETUP_COMMUNICATION es) (\<lambda>(setup_response, es1).
             if \<not> valid_setup setup_response then Inr (Inl no_setup)
             else rbind request (\<lambda>frame.
               rbind (exchange sk (sent @ [SETUP_COMMUNICATION]) frame es1) (\<lambda>(response, es2). Inr (Inr response)))))"

definition area_code :: "pystr \<Rightarrow> byte" where
  "area_code area = (case map_of S7_AREA_CODES area of Some c \<Rightarrow> c | None \<Rightarrow> 0)"

definition tag_result_of :: "pystr \<Rightarrow> int \<Rightarrow> int \<Rightarrow> pystr \<Rightarrow> int \<Rightarrow> real \<Rightarrow> bytes option \<Rightarrow> exn + tag_result" where
  "tag_result_of area db_number byte_offset data_type bit_offset ms response =
     (case response of
        None \<Rightarrow> Inr (TagFailed (lit ''no response to Read Var request'') ms)
      | Some frame \<Rightarrow>
          rbind (parse_read_var_response frame (type_size data_type)) (\<lambda>parsed.
            case parsed of
              Inl error \<Rightarrow> Inr (TagFailed error ms)
            | Inr raw \<Rightarrow>
                rbind (decode_tag_value data_type raw) (\<lambda>v.
                  Inr (TagRead \<lparr>tg_value = v, tg_area = area,
                    tg_db_number = (if area = lit ''DB'' then Some db_number else None),
                    tg_byte_offset = byte_offset,
                    tg_bit_offset = (if data_type = lit ''BIT'' then Some bit_offset else None),
                    tg_type = data_type, tg_raw_hex = bytes_hex raw, tg_time_ms = ms\<rparr>))))"

definition read_tag ::
  "pystr \<Rightarrow> pystr \<Rightarrow> int \<Rightarrow> pystr \<Rightarrow> int \<Rightarrow> int \<Rightarrow> int \<Rightarrow> pystr option \<Rightarrow> (nat \<Rightarrow> s7_socket) \<Rightarrow> real \<Rightarrow>
    exn + tag_result" where
  "read_tag host area0 byte_offset type0 port db_number bit_offset eth0_address net elapsed =
     (let area = upper (strip area0); data_type = upper (strip type0) in
      case read_tag_checks (strip host) port area db_number byte_offset data_type bit_offset of
        Some message \<Rightarrow> Inr (TagRefused message)
      | None \<Rightarrow>
          (case eth0_source_ip eth0_address of
             None \<Rightarrow> Inr (TagRefused no_source_ip)
           | Some source_ip \<Rightarrow>
               if source_ip = [] then Inr (TagRefused no_source_ip)
               else
                 let ms = round1 (elapsed * 1000);
                     request = build_read_var_request (area_code area) db_number byte_offset bit_offset data_type
                 in rbind (s7_catch port Inl (tag_session net request)) (\<lambda>x.
                      case x of
                        Inl m \<Rightarrow> Inr (TagFailed m ms)
                      | Inr response \<Rightarrow>
                          tag_result_of area db_number byte_offset data_type bit_offset ms response)))"

end
