(* ===== verification/S7_Plc.thy ===== *)
theory S7_Plc
  imports S7_Diag
begin

text \<open>
  The S7 client against a PLC.  The PLC is the other end of the connection: a memory of areas, data
  blocks and bytes, and the return code, if any, with which it refuses an address.  It decodes the
  S7ANY address from the bytes of the request.  The values a tag should have are given by HOL's words.
\<close>

record plc =
  plc_mem :: "byte \<Rightarrow> nat \<Rightarrow> nat \<Rightarrow> byte"
  plc_refuse :: "byte \<Rightarrow> nat \<Rightarrow> nat \<Rightarrow> byte option"

definition tpkt :: "bytes \<Rightarrow> bytes" where
  "tpkt body = [3, 0] @ be16 (4 + length body) @ body"

definition plc_item :: "plc \<Rightarrow> byte \<Rightarrow> byte \<Rightarrow> nat \<Rightarrow> nat \<Rightarrow> nat \<Rightarrow> bytes" where
  "plc_item plc ts area n db addr =
     (case plc_refuse plc area db addr of
        Some c \<Rightarrow> [c, 0, 0, 0]
      | None \<Rightarrow>
          let m = plc_mem plc area db;
              data = (if ts = 1 then [of_bool (bit (m (addr div 8)) (addr mod 8))]
                      else map m [addr div 8..<addr div 8 + n])
          in [0xFF, 4] @ be16 (8 * length data) @ data)"

definition plc_body :: "bytes \<Rightarrow> bytes" where
  "plc_body item = [2, 0xF0, 0x80] @ [0x32, 3, 0, 0, 0, 1, 0, 2] @ be16 (length item) @ [0, 0] @ [4, 1] @ item"

definition plc_reply :: "plc \<Rightarrow> bytes \<Rightarrow> bytes" where
  "plc_reply plc request =
     tpkt (plc_body (plc_item plc (request ! 22) (request ! 27) (nat16 (py_slice request 23 25))
       (nat16 (py_slice request 25 27)) (unpack_u32 (map unat (py_slice request 28 31)))))"

text \<open>The frames that are Read Var jobs with one S7ANY item; only these does the PLC answer so.\<close>

definition read_var_job :: "bytes \<Rightarrow> bool" where
  "read_var_job frame \<longleftrightarrow> length frame = 31 \<and> take 9 frame = [3, 0, 0, 31, 2, 0xF0, 0x80, 0x32, 1] \<and>
     py_slice frame 17 22 = [4, 1, 0x12, 0x0A, 0x10]"

definition bit_address :: "int \<Rightarrow> int \<Rightarrow> pystr \<Rightarrow> nat" where
  "bit_address byte_offset bit_offset ty = nat (byte_offset * 8 + (if ty = lit ''BIT'' then bit_offset else 0))"

definition plc_bytes :: "plc \<Rightarrow> byte \<Rightarrow> nat \<Rightarrow> nat \<Rightarrow> nat \<Rightarrow> pystr \<Rightarrow> bytes" where
  "plc_bytes plc area db a k ty =
     (if ty = lit ''BIT'' then [of_bool (bit (plc_mem plc area db a) k)]
      else map (plc_mem plc area db) [a..<a + type_size ty])"

definition plc_value :: "plc \<Rightarrow> byte \<Rightarrow> nat \<Rightarrow> nat \<Rightarrow> nat \<Rightarrow> pystr \<Rightarrow> tag_value" where
  "plc_value plc area db a k ty =
     (let m = plc_mem plc area db;
          w16 = (word_rcat [m a, m (a + 1)] :: 16 word);
          w32 = (word_rcat [m a, m (a + 1), m (a + 2), m (a + 3)] :: 32 word)
      in if ty = lit ''BIT'' then TagBool (bit (m a) k)
         else if ty = lit ''BYTE'' then TagInt (uint (m a))
         else if ty = lit ''WORD'' then TagInt (uint w16)
         else if ty = lit ''INT'' then TagInt (sint w16)
         else if ty = lit ''DWORD'' then TagInt (uint w32)
         else if ty = lit ''DINT'' then TagInt (sint w32)
         else TagReal (float_of_bits (unat w32)))"

section \<open>The PLC sees what the client meant\<close>

lemma byte_of_nat_mod: "n mod 256 = k mod 256 \<Longrightarrow> byte_of n = byte_of k"
  by (simp add: word_unat_eq_iff)

lemma word_rcat_of_nat: "word_rcat bs = word_of_nat (unpack_u32 (map unat bs))" for bs :: bytes
proof -
  have "horner_sum uint 256 (rev bs) = int (unpack_u32 (map unat bs))"
    by (induction bs rule: rev_induct) (simp_all add: unpack_u32_def)
  then show ?thesis by (simp add: word_rcat_def)
qed

lemma build_request:
  assumes "0 \<le> db" and "db \<le> 65535"
  shows "\<exists>request. build_read_var_request area db off k ty = Inr request \<and>
    (let a = (off * 8 + (if ty = lit ''BIT'' then k else 0)) in
     request = [3, 0, 0, 31, 2, 0xF0, 0x80, 0x32, 1, 0, 0, 0, 1, 0, 14, 0, 0, 4, 1, 0x12, 0x0A, 0x10,
       if ty = lit ''BIT'' then 1 else 2] @ be16 (if ty = lit ''BIT'' then 1 else type_size ty) @ be16 (nat db) @
       [area, byte_of (nat (a div 65536 mod 256)), byte_of (nat (a div 256 mod 256)), byte_of (nat (a mod 256))])"
  using assms by (simp add: build_read_var_request_def pack_H_def Let_def be16_def S7_PROTOCOL_ID_def byte_of_def)

lemma build_read_var_job:
  assumes "build_read_var_request area db off k ty = Inr request"
  shows "read_var_job request"
proof -
  have "0 \<le> db" "db \<le> 65535"
    using assms by (auto simp: build_read_var_request_def pack_H_def Let_def split: if_splits)
  with build_request [OF this, of area off k ty] assms show ?thesis
    by (auto simp: Let_def read_var_job_def be16_def py_slice_def)
qed

lemma split24:
  assumes "n < 16777216"
  shows "unpack_u32 [n div 65536 mod 256, n div 256 mod 256, n mod 256] = n"
proof -
  have "n div 65536 < 256" using assms by (simp add: div_less_iff_less_mult)
  moreover have "n div 256 = 256 * (n div 65536) + n div 256 mod 256"
    using div_mult2_eq [of n 256 256] by simp
  moreover have "n = 256 * (n div 256) + n mod 256" by simp
  ultimately show ?thesis unfolding unpack_u32_def by simp
qed

lemma type_size_le: "type_size ty \<le> 4"
  by (auto simp: type_size_def S7_TYPE_SIZES_def)

lemma plc_reply_request:
  assumes "0 \<le> db" and "db \<le> 65535" and "0 \<le> off" and "off < 2097152" and "ty = lit ''BIT'' \<Longrightarrow> 0 \<le> k \<and> k \<le> 7"
    and "build_read_var_request area db off k ty = Inr request"
  shows "plc_reply plc request = tpkt (plc_body (plc_item plc (if ty = lit ''BIT'' then 1 else 2) area
    (if ty = lit ''BIT'' then 1 else type_size ty) (nat db) (bit_address off k ty)))"
proof -
  let ?n = "if ty = lit ''BIT'' then 1 else type_size ty"
  let ?a = "off * 8 + (if ty = lit ''BIT'' then k else 0)"
  have a: "0 \<le> ?a" "?a < 16777216" using assms by auto
  have b: "nat ?a < 16777216" using a by linarith
  have n: "?n < 65536" using type_size_le [of ty] by auto
  have r: "request = [3, 0, 0, 31, 2, 0xF0, 0x80, 0x32, 1, 0, 0, 0, 1, 0, 14, 0, 0, 4, 1, 0x12, 0x0A, 0x10,
       if ty = lit ''BIT'' then 1 else 2] @ be16 ?n @ be16 (nat db) @
       [area, byte_of (nat (?a div 65536 mod 256)), byte_of (nat (?a div 256 mod 256)), byte_of (nat (?a mod 256))]"
    using build_request [OF assms(1,2), of area off k ty] assms(6) unfolding Let_def by auto
  have "request ! 22 = (if ty = lit ''BIT'' then 1 else 2)" "request ! 27 = area"
    "py_slice request 23 25 = be16 ?n" "py_slice request 25 27 = be16 (nat db)"
    "map unat (py_slice request 28 31) = [nat ?a div 65536 mod 256, nat ?a div 256 mod 256, nat ?a mod 256]"
    unfolding r using a by (simp_all add: be16_def py_slice_def nat_mod_distrib nat_div_distrib)
  moreover have "nat db < 65536" using assms(2) by linarith
  ultimately show ?thesis
    using split24 [OF b] n by (simp add: plc_reply_def bit_address_def nat16_be16)
qed

section \<open>The client reads what the PLC sent\<close>

lemma byte_at_pos: "i = length pre + j \<Longrightarrow> j < length post \<Longrightarrow> byte_at (pre @ post) i = Inr (post ! j)"
  by (simp add: byte_at_def nth_append)

lemma parse_plc_body:
  assumes "length item < 1000" and "item = c # x # y # z # data"
  shows "parse_read_var_response (tpkt (plc_body item)) n =
    Inr (if c \<noteq> 0xFF then Inl (read_failure c)
      else if length data < n then Inl (lit ''truncated data in response'') else Inr (take n data))"
proof -
  let ?pre = "[3, 0] @ be16 (21 + length item - 4 + 4) @ [2, 0xF0, 0x80, 0x32, 3, 0, 0, 0, 1, 0, 2] @
    be16 (length item) @ [0, 0, 4, 1]"
  have f: "tpkt (plc_body item) = ?pre @ item" by (simp add: tpkt_def plc_body_def)
  have len: "length ?pre = 21" by simp
  have p: "?pre ! 7 = 0x32" "?pre ! 8 = 3" "?pre ! 17 = 0" "?pre ! 18 = 0" "py_slice ?pre 13 15 = [0, 2]"
    by (simp_all add: be16_def py_slice_def)
  have q: "byte_at (?pre @ item) 7 = Inr 0x32" "byte_at (?pre @ item) 8 = Inr 3"
    "byte_at (?pre @ item) 17 = Inr 0" "byte_at (?pre @ item) 18 = Inr 0"
    by (simp_all only: byte_at_def nth_append length_append len p) simp_all
  have "15 \<le> length ?pre" by (simp only: len)
  then have sl: "py_slice (?pre @ item) 13 15 = [0, 2]" by (simp only: slice_append_left p)
  have i: "byte_at (?pre @ item) 21 = Inr c"
    using byte_at_pos [of 21 ?pre 0 item] len assms(2) by simp
  have d: "py_slice (?pre @ item) 25 (25 + n) = take n data"
    using len assms(2) by (simp add: py_slice_def)
  have l: "25 \<le> length (?pre @ item)" using len assms(2) by simp
  show ?thesis
    unfolding f parse_read_var_response_def
    using q i d l sl by (simp add: S7_PROTOCOL_ID_def SZL_RETURN_CODE_SUCCESS_def Let_def)
qed

lemma rcat_values:
  fixes a b c d :: byte
  shows "uint (word_rcat [a, b] :: 16 word) = int (unpack_u32 [unat a, unat b])"
    "sint (word_rcat [a, b] :: 16 word) = unpack_i16 [unat a, unat b]"
    "uint (word_rcat [a, b, c, d] :: 32 word) = int (unpack_u32 [unat a, unat b, unat c, unat d])"
    "sint (word_rcat [a, b, c, d] :: 32 word) = unpack_i32 [unat a, unat b, unat c, unat d]"
    "unat (word_rcat [a, b, c, d] :: 32 word) = unpack_u32 [unat a, unat b, unat c, unat d]"
proof -
  have u: "unat (word_rcat [a, b] :: 16 word) = unpack_u32 [unat a, unat b]"
    using unpack_u32_less [of "[unat a, unat b]" 2]
    by (simp only: word_rcat_of_nat list.map unat_of_nat) simp
  show v: "unat (word_rcat [a, b, c, d] :: 32 word) = unpack_u32 [unat a, unat b, unat c, unat d]"
    using unpack_u32_less [of "[unat a, unat b, unat c, unat d]" 4]
    by (simp only: word_rcat_of_nat list.map unat_of_nat) simp
  show "uint (word_rcat [a, b] :: 16 word) = int (unpack_u32 [unat a, unat b])"
    "uint (word_rcat [a, b, c, d] :: 32 word) = int (unpack_u32 [unat a, unat b, unat c, unat d])"
    by (simp_all only: uint_nat u v)
  show "sint (word_rcat [a, b] :: 16 word) = unpack_i16 [unat a, unat b]"
    by (simp only: word_rcat_of_nat list.map unpack_u32_bytes unpack_i16_sint unat_byte_less)
  show "sint (word_rcat [a, b, c, d] :: 32 word) = unpack_i32 [unat a, unat b, unat c, unat d]"
    by (subst unpack_i32_sint) (simp_all add: word_rcat_of_nat)
qed

lemma decode_plc:
  assumes "map_of S7_TYPE_SIZES ty \<noteq> None"
  shows "decode_tag_value ty (plc_bytes plc area db a k ty) = Inr (plc_value plc area db a k ty)"
proof -
  have four: "a + 4 = Suc (Suc (Suc (Suc a)))" by simp
  have upt4: "[a..<a + 4] = [a, a + 1, a + 2, a + 3]" by (simp only: four upt_Suc) simp
  have upt2: "[a..<a + 2] = [a, a + 1]" by simp
  have upt1: "[a..<a + 1] = [a]" by simp
  from assms have "ty = lit ''BIT'' \<or> ty = lit ''BYTE'' \<or> ty = lit ''WORD'' \<or> ty = lit ''INT'' \<or>
      ty = lit ''DWORD'' \<or> ty = lit ''DINT'' \<or> ty = lit ''REAL''"
    unfolding type_size_cases by blast
  then show ?thesis
    unfolding decode_tag_value_def plc_bytes_def plc_value_def Let_def rcat_values unpack_f32_def unpack_n_def
    by (elim disjE)
      (simp_all add: type_size_def S7_TYPE_SIZES_def upt4 byte_at_def del: unpack_u32_bytes)
qed

section \<open>Sessions with a PLC\<close>

text \<open>A connection that is not confirmed: it breaks at connection level or answers something else.\<close>

definition rejects :: "s7_socket \<Rightarrow> bytes \<Rightarrow> bool" where
  "rejects sk request =
     (case cotp_attempt sk request of Inl e \<Rightarrow> socket_exn e | Inr (response, es) \<Rightarrow> \<not> confirmed response)"

text \<open>After these frames the peer sends these bytes, in any pieces.\<close>

definition delivers :: "s7_socket \<Rightarrow> bytes list \<Rightarrow> bytes \<Rightarrow> bool" where
  "delivers sk sent bs \<longleftrightarrow> (\<exists>es. sk_answers sk sent = Inr es \<and> clean es \<and> stream_bytes es = bs)"

text \<open>A connection to a PLC: it confirms the connection request, accepts the Setup Communication job, and then
  answers whatever Read Var job it gets.  The client reaches it by its first request, or by the second after
  the first was rejected.\<close>

definition plc_socket :: "plc \<Rightarrow> s7_socket \<Rightarrow> bytes \<Rightarrow> bool" where
  "plc_socket plc sk request \<longleftrightarrow> sk_connect sk = None \<and>
     (\<exists>c. length c < 1000 \<and> 2 \<le> length c \<and> c ! 1 = COTP_CONNECT_CONFIRM \<and> delivers sk [request] (tpkt c)) \<and>
     (\<exists>s. length s < 1000 \<and> 4 \<le> length s \<and> s ! 3 = S7_PROTOCOL_ID \<and>
        delivers sk [request, SETUP_COMMUNICATION] (tpkt s)) \<and>
     (\<forall>frame. read_var_job frame \<longrightarrow>
        (\<exists>rest. delivers sk [request, SETUP_COMMUNICATION, frame] (plc_reply plc frame @ rest)))"

definition plc_net :: "plc \<Rightarrow> (nat \<Rightarrow> s7_socket) \<Rightarrow> bool" where
  "plc_net plc net \<longleftrightarrow> plc_socket plc (net 0) COTP_CR_PRIMARY \<or>
     rejects (net 0) COTP_CR_PRIMARY \<and> plc_socket plc (net 1) COTP_CR_FALLBACK"

lemma recv_tpkt:
  assumes "clean es" and "stream_bytes es = tpkt body @ rest" and "length body < 65532"
  obtains es' where "recv_tpkt_frame es = Inr (Some (tpkt body), es')" "clean es'" "stream_bytes es' = rest"
  using recv_tpkt_clean [of es 3 0 body rest] assms by (auto simp: tpkt_def)

lemma exchange_delivers:
  assumes "delivers sk (sent @ [frame]) (tpkt body @ rest)" and "length body < 65532"
  obtains es where "exchange sk sent frame [] = Inr (Some (tpkt body), es)" "clean es" "stream_bytes es = rest"
proof -
  obtain new where n: "sk_answers sk (sent @ [frame]) = Inr new" "clean new" "stream_bytes new = tpkt body @ rest"
    using assms(1) unfolding delivers_def by blast
  from n(2,3) assms(2) obtain es where "recv_tpkt_frame new = Inr (Some (tpkt body), es)" "clean es" "stream_bytes es = rest"
    by (rule recv_tpkt)
  with n(1) that show thesis by (simp add: exchange_def)
qed

text \<open>An answer without anything after it leaves nothing to read.\<close>

lemma exchange_exact:
  assumes "delivers sk (sent @ [frame]) (tpkt body)" and "length body < 1000"
  shows "exchange sk sent frame [] = Inr (Some (tpkt body), [])"
proof -
  have "length body < 65532" using assms(2) by simp
  with assms(1) obtain es where "exchange sk sent frame [] = Inr (Some (tpkt body), es)" "clean es" "stream_bytes es = []"
    using exchange_delivers [of sk sent frame body "[]"] by auto
  then show ?thesis by (simp add: stream_bytes_Nil)
qed

lemma tpkt_nth: "4 \<le> i \<Longrightarrow> tpkt body ! i = body ! (i - 4)"
  using nth_append [of "[3, 0] @ be16 (4 + length body)" body i] by (simp add: tpkt_def)

lemma length_tpkt [simp]: "length (tpkt body) = 4 + length body"
  by (simp add: tpkt_def)

lemma plc_attempt:
  assumes "plc_socket plc sk request"
  obtains c where "cotp_attempt sk request = Inr (Some c, [])" "confirmed (Some c)"
proof -
  from assms obtain c where sk: "sk_connect sk = None" "delivers sk ([] @ [request]) (tpkt c)"
    and c: "length c < 1000" "2 \<le> length c" "c ! 1 = COTP_CONNECT_CONFIRM"
    unfolding plc_socket_def by auto
  have "cotp_attempt sk request = Inr (Some (tpkt c), [])"
    using exchange_exact [OF sk(2) c(1)] sk(1) by (simp add: cotp_attempt_def)
  moreover have "confirmed (Some (tpkt c))" using c by (simp add: confirmed_def tpkt_nth)
  ultimately show thesis by (rule that)
qed

lemma plc_open:
  assumes "plc_net plc net"
  obtains sk request where "open_and_negotiate_cotp net = Inr (Some (sk, [request], []))" "plc_socket plc sk request"
proof (cases "plc_socket plc (net 0) COTP_CR_PRIMARY")
  case True
  obtain c where "cotp_attempt (net 0) COTP_CR_PRIMARY = Inr (Some c, [])" "confirmed (Some c)"
    by (rule plc_attempt [OF True])
  with True that show thesis by (simp add: open_and_negotiate_cotp_def)
next
  case False
  with assms have r: "rejects (net 0) COTP_CR_PRIMARY" and sk: "plc_socket plc (net 1) COTP_CR_FALLBACK"
    by (auto simp: plc_net_def)
  obtain c where "cotp_attempt (net 1) COTP_CR_FALLBACK = Inr (Some c, [])" "confirmed (Some c)"
    by (rule plc_attempt [OF sk])
  with r sk that show thesis
    by (auto simp: open_and_negotiate_cotp_def rejects_def split: sum.splits)
qed

lemma plc_setup:
  assumes "plc_socket plc sk request"
  obtains f where "exchange sk [request] SETUP_COMMUNICATION [] = Inr (Some f, [])" "valid_setup (Some f)"
proof -
  from assms obtain s where s: "length s < 1000" "4 \<le> length s" "s ! 3 = S7_PROTOCOL_ID"
      "delivers sk ([request] @ [SETUP_COMMUNICATION]) (tpkt s)"
    unfolding plc_socket_def by auto
  have "valid_setup (Some (tpkt s))" using s by (simp add: valid_setup_def tpkt_nth)
  with exchange_exact [OF s(4,1)] that show thesis by blast
qed

lemma tag_session_plc:
  assumes "plc_net plc net" and "read_var_job frame" and "plc_reply plc frame = tpkt body" and "length body < 65532"
  shows "tag_session net (Inr frame) = Inr (Inr (Some (tpkt body)))"
proof -
  obtain sk request where o: "open_and_negotiate_cotp net = Inr (Some (sk, [request], []))" "plc_socket plc sk request"
    by (rule plc_open [OF assms(1)])
  obtain f where f: "exchange sk [request] SETUP_COMMUNICATION [] = Inr (Some f, [])" "valid_setup (Some f)"
    by (rule plc_setup [OF o(2)])
  obtain rest where "delivers sk ([request, SETUP_COMMUNICATION] @ [frame]) (tpkt body @ rest)"
    using o(2) assms(2,3) by (auto simp: plc_socket_def)
  then obtain es where "exchange sk [request, SETUP_COMMUNICATION] frame [] = Inr (Some (tpkt body), es)"
    using assms(4) by (rule exchange_delivers)
  with o(1) f show ?thesis by (simp add: tag_session_def)
qed

lemma tag_session_error:
  assumes "plc_net plc net"
  shows "tag_session net (Inl e) = Inl e"
proof -
  obtain sk request where o: "open_and_negotiate_cotp net = Inr (Some (sk, [request], []))" "plc_socket plc sk request"
    by (rule plc_open [OF assms])
  obtain f where "exchange sk [request] SETUP_COMMUNICATION [] = Inr (Some f, [])" "valid_setup (Some f)"
    by (rule plc_setup [OF o(2)])
  with o(1) show ?thesis by (simp add: tag_session_def)
qed

lemma bit_address_split:
  assumes "0 \<le> off" and "ty = lit ''BIT'' \<Longrightarrow> 0 \<le> k \<and> k \<le> 7"
  shows "bit_address off k ty div 8 = nat off" "ty = lit ''BIT'' \<Longrightarrow> bit_address off k ty mod 8 = nat k"
  using assms by (auto simp: bit_address_def nat_add_distrib nat_mult_distrib)

lemma plc_item_data:
  assumes "plc_refuse plc area db (bit_address off k ty) = None" and "0 \<le> off"
    and "ty = lit ''BIT'' \<Longrightarrow> 0 \<le> k \<and> k \<le> 7"
  shows "plc_item plc (if ty = lit ''BIT'' then 1 else 2) area (if ty = lit ''BIT'' then 1 else type_size ty) db
      (bit_address off k ty) =
    [0xFF, 4] @ be16 (8 * length (plc_bytes plc area db (nat off) (nat k) ty)) @ plc_bytes plc area db (nat off) (nat k) ty"
  using assms(1) bit_address_split [OF assms(2,3)] by (simp add: plc_item_def plc_bytes_def Let_def)

lemma length_plc_bytes: "length (plc_bytes plc area db a k ty) = type_size ty" if "map_of S7_TYPE_SIZES ty \<noteq> None"
  by (simp add: plc_bytes_def type_size_def S7_TYPE_SIZES_def)

text \<open>What the client makes of the PLC's answer.\<close>

lemma parse_plc_reply:
  assumes "0 \<le> db" and "db \<le> 65535" and "0 \<le> off" and "off < 2097152" and "ty = lit ''BIT'' \<Longrightarrow> 0 \<le> k \<and> k \<le> 7"
    and "build_read_var_request area db off k ty = Inr request" and "map_of S7_TYPE_SIZES ty \<noteq> None"
    and "plc_refuse plc area (nat db) (bit_address off k ty) \<noteq> Some 0xFF"
  shows "\<exists>body. plc_reply plc request = tpkt body \<and> length body < 65532 \<and>
    parse_read_var_response (tpkt body) (type_size ty) =
      Inr (case plc_refuse plc area (nat db) (bit_address off k ty) of
          Some c \<Rightarrow> Inl (read_failure c)
        | None \<Rightarrow> Inr (plc_bytes plc area (nat db) (nat off) (nat k) ty))"
proof -
  let ?item = "plc_item plc (if ty = lit ''BIT'' then 1 else 2) area (if ty = lit ''BIT'' then 1 else type_size ty)
    (nat db) (bit_address off k ty)"
  have r: "plc_reply plc request = tpkt (plc_body ?item)"
    using assms(1-6) by (rule plc_reply_request)
  show ?thesis
  proof (cases "plc_refuse plc area (nat db) (bit_address off k ty)")
    case (Some c)
    then have i: "?item = [c, 0, 0, 0]" by (simp add: plc_item_def)
    have "parse_read_var_response (tpkt (plc_body ?item)) (type_size ty) = Inr (Inl (read_failure c))"
      using parse_plc_body [of ?item c 0 0 0 "[]" "type_size ty"] assms(8) Some i by simp
    with r i Some show ?thesis by (intro exI [of _ "plc_body ?item"]) (simp add: plc_body_def)
  next
    case None
    let ?d = "plc_bytes plc area (nat db) (nat off) (nat k) ty"
    have len: "length ?d = type_size ty" using assms(7) by (rule length_plc_bytes)
    have i: "?item = 0xFF # 4 # byte_of (8 * length ?d div 256) # byte_of (8 * length ?d) # ?d"
      using plc_item_data [OF None assms(3,5)] by (simp add: be16_def)
    have small: "length ?item < 1000" using len type_size_le [of ty] by (simp only: i list.size)
    have "parse_read_var_response (tpkt (plc_body ?item)) (type_size ty) = Inr (Inr ?d)"
      using parse_plc_body [OF small i, of "type_size ty"] len by simp
    moreover have "length (plc_body ?item) < 65532" using small by (simp add: plc_body_def del: i)
    ultimately show ?thesis using r None by (intro exI [of _ "plc_body ?item"]) simp
  qed
qed

lemma tag_result_plc:
  assumes "map_of S7_TYPE_SIZES ty \<noteq> None"
    and "parse_read_var_response frame (type_size ty) =
      Inr (case refusal of Some c \<Rightarrow> Inl (read_failure c) | None \<Rightarrow> Inr (plc_bytes plc ac n a j ty))"
  shows "tag_result_of area db off ty k ms (Some frame) = Inr (case refusal of
       Some c \<Rightarrow> TagFailed (read_failure c) ms
     | None \<Rightarrow> TagRead \<lparr>tg_value = plc_value plc ac n a j ty, tg_area = area,
         tg_db_number = (if area = lit ''DB'' then Some db else None), tg_byte_offset = off,
         tg_bit_offset = (if ty = lit ''BIT'' then Some k else None), tg_type = ty,
         tg_raw_hex = bytes_hex (plc_bytes plc ac n a j ty), tg_time_ms = ms\<rparr>)"
proof (cases refusal)
  case None
  then have "parse_read_var_response frame (type_size ty) = Inr (Inr (plc_bytes plc ac n a j ty))"
    using assms(2) by simp
  then show ?thesis
    by (simp only: tag_result_of_def option.case rbind_simps sum.case decode_plc [OF assms(1)] None)
next
  case (Some c)
  with assms(2) show ?thesis by (simp add: tag_result_of_def)
qed

text \<open>The offset asked for is only a label of the result.\<close>

lemma tag_result_relabel:
  "tag_result_of area db off ty k ms r = Inr (TagRead t) \<Longrightarrow>
   tag_result_of area db off' ty k ms r = Inr (TagRead (t\<lparr>tg_byte_offset := off'\<rparr>))"
  by (auto simp: tag_result_of_def rbind_def split: option.splits sum.splits)

lemma read_tag_plc:
  fixes area0 type0 :: pystr
  defines "area \<equiv> upper (strip area0)" and "ty \<equiv> upper (strip type0)"
  assumes checks: "read_tag_checks (strip host) port area db off ty k = None"
    and ip: "eth0_source_ip eth0_address = Some ip" "ip \<noteq> []"
    and range: "0 \<le> db" "db \<le> 65535" "off < 2097152"
    and net: "plc_net plc net"
    and plc: "plc_refuse plc (area_code area) (nat db) (bit_address off k ty) \<noteq> Some 0xFF"
  shows "read_tag host area0 off type0 port db k eth0_address net elapsed = Inr
    (case plc_refuse plc (area_code area) (nat db) (bit_address off k ty) of
       Some c \<Rightarrow> TagFailed (read_failure c) (round1 (elapsed * 1000))
     | None \<Rightarrow> TagRead \<lparr>tg_value = plc_value plc (area_code area) (nat db) (nat off) (nat k) ty, tg_area = area,
         tg_db_number = (if area = lit ''DB'' then Some db else None), tg_byte_offset = off,
         tg_bit_offset = (if ty = lit ''BIT'' then Some k else None), tg_type = ty,
         tg_raw_hex = bytes_hex (plc_bytes plc (area_code area) (nat db) (nat off) (nat k) ty),
         tg_time_ms = round1 (elapsed * 1000)\<rparr>)"
proof -
  have off: "0 \<le> off" and k: "ty = lit ''BIT'' \<Longrightarrow> 0 \<le> k \<and> k \<le> 7" and t: "map_of S7_TYPE_SIZES ty \<noteq> None"
    using checks by (auto simp: read_tag_checks_def split: if_splits)
  obtain request where request: "build_read_var_request (area_code area) db off k ty = Inr request"
    using build_request [OF range(1,2)] by blast
  obtain body where b: "plc_reply plc request = tpkt body" "length body < 65532"
    "parse_read_var_response (tpkt body) (type_size ty) =
      Inr (case plc_refuse plc (area_code area) (nat db) (bit_address off k ty) of
          Some c \<Rightarrow> Inl (read_failure c)
        | None \<Rightarrow> Inr (plc_bytes plc (area_code area) (nat db) (nat off) (nat k) ty))"
    using parse_plc_reply [OF range(1,2) off range(3) k request t plc] by blast
  have "tag_session net (Inr request) = Inr (Inr (Some (tpkt body)))"
    by (rule tag_session_plc [OF net build_read_var_job [OF request] b(1,2)])
  then show ?thesis
    using checks ip request tag_result_plc [OF t b(3)]
    by (simp add: read_tag_def s7_catch_def Let_def area_def [symmetric] ty_def [symmetric])
qed

section \<open>No answer makes the client raise\<close>

definition s7_socket_ok :: "s7_socket \<Rightarrow> bool" where
  "s7_socket_ok sk \<longleftrightarrow> (case sk_connect sk of Some e \<Rightarrow> socket_exn e | None \<Rightarrow> True) \<and>
     (\<forall>sent. case sk_answers sk sent of Inl e \<Rightarrow> socket_exn e | Inr es \<Rightarrow> \<forall>e \<in> raises es. socket_exn e)"

text \<open>A computation whose exceptions are those of a socket.\<close>

definition socketly :: "exn + 'a \<Rightarrow> bool" where
  "socketly m = (case m of Inl e \<Rightarrow> socket_exn e | Inr x \<Rightarrow> True)"

lemma socketly_simps [simp]: "socketly (Inr x)" "socketly (Inl e) = socket_exn e"
  by (simp_all add: socketly_def)

lemma socketly_rbind: "socketly m \<Longrightarrow> (\<And>x. m = Inr x \<Longrightarrow> socketly (f x)) \<Longrightarrow> socketly (rbind m f)"
  by (cases m) auto

lemma socketly_returns: "returns m \<Longrightarrow> socketly m"
  by (auto simp: returns_iff)

lemma socketly_catch: "socketly m \<Longrightarrow> returns (s7_catch port failed m)"
  by (cases m) (auto simp: s7_catch_def intro!: returns_rbind socket_error_returns)

lemma raises_append [simp]: "raises (es @ es') = raises es \<union> raises es'"
  by (auto simp: raises_def)

lemma socketly_exchange:
  assumes "s7_socket_ok sk" and "\<forall>e \<in> raises es. socket_exn e"
  shows "socketly (exchange sk sent frame es)"
    and "exchange sk sent frame es = Inr (f, es') \<Longrightarrow> \<forall>e \<in> raises es'. socket_exn e"
proof -
  have a: "case sk_answers sk (sent @ [frame]) of Inl e \<Rightarrow> socket_exn e | Inr new \<Rightarrow> \<forall>e \<in> raises (es @ new). socket_exn e"
    using assms by (auto simp: s7_socket_ok_def split: sum.splits)
  show "socketly (exchange sk sent frame es)"
  proof (cases "exchange sk sent frame es")
    case (Inl e)
    then have "socket_exn e" using a by (auto simp: exchange_def rbind_eq_Inl dest!: recv_tpkt_raises(1))
    with Inl show ?thesis by simp
  qed simp
  show "\<forall>e \<in> raises es'. socket_exn e" if "exchange sk sent frame es = Inr (f, es')"
    using a that by (fastforce simp: exchange_def rbind_eq_Inr dest!: recv_tpkt_raises(2))
qed

lemma cotp_attempt_socketly:
  assumes "s7_socket_ok sk"
  shows "socketly (cotp_attempt sk request)"
    and "cotp_attempt sk request = Inr (f, es) \<Longrightarrow> \<forall>e \<in> raises es. socket_exn e"
  using assms socketly_exchange [OF assms, of "[]" "[]" request]
  by (auto simp: cotp_attempt_def s7_socket_ok_def raises_def split: option.splits)

lemma cotp_loop_socketly:
  assumes "list_all (\<lambda>(sk, request). s7_socket_ok sk) attempts" and "\<forall>e. last_exc = Some e \<longrightarrow> socket_exn e"
  shows "socketly (cotp_loop last_exc attempts) \<and>
    (\<forall>sk sent es. cotp_loop last_exc attempts = Inr (Some (sk, sent, es)) \<longrightarrow>
      s7_socket_ok sk \<and> (\<forall>e \<in> raises es. socket_exn e))"
  using assms
proof (induction last_exc attempts rule: cotp_loop.induct)
  case (1 last_exc)
  then show ?case by (simp split: option.split)
next
  case (2 last_exc sk request attempts)
  have ok: "s7_socket_ok sk" using "2.prems"(1) by simp
  show ?case
  proof (cases "cotp_attempt sk request")
    case (Inl e)
    with cotp_attempt_socketly(1) [OF ok, of request] have "socket_exn e" by simp
    with Inl "2.IH"(1) [OF Inl] "2.prems"(1) show ?thesis by simp
  next
    case (Inr r)
    obtain response es where r: "r = (response, es)" by (cases r)
    with Inr have a: "cotp_attempt sk request = Inr (response, es)" by simp
    show ?thesis
    proof (cases "confirmed response")
      case True
      with a ok cotp_attempt_socketly(2) [OF ok a] show ?thesis by simp
    next
      case False
      with a "2.IH"(2) [OF Inr r [symmetric] False] "2.prems" show ?thesis by simp
    qed
  qed
qed

lemma open_socketly:
  assumes "\<And>k. s7_socket_ok (net k)"
  shows "socketly (open_and_negotiate_cotp net)"
    "open_and_negotiate_cotp net = Inr (Some (sk, sent, es)) \<Longrightarrow> s7_socket_ok sk \<and> (\<forall>e \<in> raises es. socket_exn e)"
  using cotp_loop_socketly [of "[(net 0, COTP_CR_PRIMARY), (net 1, COTP_CR_FALLBACK)]" None] assms
  by (auto simp: open_and_negotiate_cotp_def)

lemma szl_info_returns:
  "(\<And>f. returns (parse f)) \<Longrightarrow> returns (szl_info parse frame)"
  unfolding szl_info_def by (auto split: option.split intro!: returns_rbind identification_returns)

lemma socketly_szl:
  "socketly (szl_info parse_module_identification f)" "socketly (szl_info parse_component_identification f)"
  by (intro socketly_returns szl_info_returns identification_returns)+

lemma socketly_prod: "(\<And>a b. p = (a, b) \<Longrightarrow> socketly (f a b)) \<Longrightarrow> socketly (case p of (a, b) \<Rightarrow> f a b)"
  by (cases p) simp

lemma socketly_if: "(b \<Longrightarrow> socketly m) \<Longrightarrow> (\<not> b \<Longrightarrow> socketly m') \<Longrightarrow> socketly (if b then m else m')"
  by simp

lemmas socketly_intros = socketly_rbind socketly_prod socketly_if socketly_szl socketly_simps(1)

lemma id_session_socketly:
  assumes "\<And>k. s7_socket_ok (net k)"
  shows "socketly (id_session net ms)"
proof -
  have opt: "socketly (case conn of None \<Rightarrow> Inr (IdFailed False no_cotp ms) | Some (sk, sent, es) \<Rightarrow> f sk sent es)"
    if "\<And>sk sent es. conn = Some (sk, sent, es) \<Longrightarrow> socketly (f sk sent es)" for conn f
    using that by (auto split: option.split)
  show ?thesis
    unfolding id_session_def
    apply (rule socketly_rbind [OF open_socketly(1) [OF assms]], rule opt)
    apply (clarsimp dest!: open_socketly(2) [OF assms])
    apply (intro socketly_intros socketly_exchange(1); (clarsimp; blast dest: socketly_exchange(2))?)
    done
qed

lemma tag_session_socketly:
  assumes "\<And>k. s7_socket_ok (net k)" and "socketly request"
  shows "socketly (tag_session net request)"
proof -
  have opt: "socketly (case conn of None \<Rightarrow> Inr (Inl no_cotp) | Some (sk, sent, es) \<Rightarrow> f sk sent es)"
    if "\<And>sk sent es. conn = Some (sk, sent, es) \<Longrightarrow> socketly (f sk sent es)" for conn f
    using that by (auto split: option.split)
  show ?thesis
    unfolding tag_session_def
    apply (rule socketly_rbind [OF open_socketly(1) [OF assms(1)]], rule opt)
    apply (clarsimp dest!: open_socketly(2) [OF assms(1)])
    apply (intro socketly_intros socketly_exchange(1) assms(2); (clarsimp; blast dest: socketly_exchange(2))?)
    done
qed

lemma identify_returns:
  assumes "\<And>k. s7_socket_ok (net k)"
  shows "returns (identify host port eth0_address net elapsed)"
  unfolding identify_def
  by (auto split: option.split intro!: socketly_catch id_session_socketly assms simp: Let_def)

lemma read_tag_returns:
  assumes "\<And>k. s7_socket_ok (net k)" and "0 \<le> db" and "db \<le> 65535"
  shows "returns (read_tag host area0 off type0 port db k eth0_address net elapsed)"
proof -
  have b: "socketly (build_read_var_request ac db off k ty)" for ac ty
    using assms(2,3) by (intro socketly_returns) (simp add: build_read_var_request_def pack_H_def Let_def)
  have t: "returns (tag_result_of ar db off ty k ms r)" if "map_of S7_TYPE_SIZES ty \<noteq> None" for ar ty ms r
    unfolding tag_result_of_def using that
    by (auto split: option.split sum.split intro!: returns_rbind parse_read_var_returns decode_tag_returns
        dest: parse_read_var_length)
  have c: "map_of S7_TYPE_SIZES ty \<noteq> None" if "read_tag_checks h port ar db off ty k = None" for h ar ty
    using that by (auto simp: read_tag_checks_def split: if_splits)
  show ?thesis
    unfolding read_tag_def Let_def
    by (auto split: option.split sum.split intro!: returns_rbind socketly_catch tag_session_socketly assms(1) b t
        dest!: c)
qed

section \<open>Properties\<close>

text \<open>C16: reading a tag.  For every PLC, every accepted request whose data block number fits 16 bits and
  whose byte offset lies below 2 MiB, over the first or, after its rejection, the second connection
  attempt, and however the network cuts the answers into pieces, \<open>read_tag\<close> returns the value of the
  addressed bytes (two's complement for INT and DINT), or the PLC's refusal as its message.  The PLC answers
  to the frames it is sent, and reads the address from the job's bytes.\<close>

theorem s7_read_tag_device:
  fixes area0 type0 :: pystr
  defines "area \<equiv> upper (strip area0)" and "ty \<equiv> upper (strip type0)"
  assumes checks: "read_tag_checks (strip host) port area db off ty k = None"
    and ip: "eth0_source_ip eth0_address = Some ip" "ip \<noteq> []"
    and range: "0 \<le> db" "db \<le> 65535" "off < 2097152"
    and net: "plc_net plc net"
    and plc: "plc_refuse plc (area_code area) (nat db) (bit_address off k ty) \<noteq> Some 0xFF"
  shows "read_tag host area0 off type0 port db k eth0_address net elapsed = Inr
    (case plc_refuse plc (area_code area) (nat db) (bit_address off k ty) of
       Some c \<Rightarrow> TagFailed (read_failure c) (round1 (elapsed * 1000))
     | None \<Rightarrow> TagRead \<lparr>tg_value = plc_value plc (area_code area) (nat db) (nat off) (nat k) ty, tg_area = area,
         tg_db_number = (if area = lit ''DB'' then Some db else None), tg_byte_offset = off,
         tg_bit_offset = (if ty = lit ''BIT'' then Some k else None), tg_type = ty,
         tg_raw_hex = bytes_hex (plc_bytes plc (area_code area) (nat db) (nat off) (nat k) ty),
         tg_time_ms = round1 (elapsed * 1000)\<rparr>)"
  using assms unfolding area_def ty_def by (intro read_tag_plc)

text \<open>Addresses wrap.  The byte offset is not bounded, and its address is masked to 24 bits: reading
  2 MiB further on sends the same request, so the value of the lower address is returned, labelled with
  the offset that was asked for.\<close>

theorem s7_offset_wraps:
  assumes "read_tag host area0 off type0 port db k eth0_address net elapsed = Inr (TagRead t)"
  shows "read_tag host area0 (off + 2097152) type0 port db k eth0_address net elapsed =
    Inr (TagRead (t\<lparr>tg_byte_offset := off + 2097152\<rparr>))"
proof -
  let ?area = "upper (strip area0)" and ?ty = "upper (strip type0)"
  have w1: "(x + 16777216) div 65536 mod 256 = x div 65536 mod 256" for x :: int
  proof -
    have "(x + 16777216) div 65536 = x div 65536 + 256" using div_mult_self1 [of 65536 x 256] by simp
    then show ?thesis by (simp only: mod_add_self2)
  qed
  have w2: "(x + 16777216) div 256 mod 256 = x div 256 mod 256" for x :: int
  proof -
    have "(x + 16777216) div 256 = x div 256 + 256 * 256" using div_mult_self1 [of 256 x 65536] by simp
    then show ?thesis by (simp only: mod_mult_self1)
  qed
  have w3: "(x + 16777216) mod 256 = x mod 256" for x :: int
    using mod_mult_self1 [of x 65536 256] by simp
  have m: "(off + 2097152) * 8 + b = (off * 8 + b) + 16777216" for b by simp
  have req: "build_read_var_request (area_code ?area) db (off + 2097152) k ?ty =
      build_read_var_request (area_code ?area) db off k ?ty"
    unfolding build_read_var_request_def Let_def m w1 w2 w3 by (rule refl)
  have checks: "read_tag_checks (strip host) port ?area db off ?ty k = None"
    using assms by (auto simp: read_tag_def Let_def split: option.splits)
  then have checks': "read_tag_checks (strip host) port ?area db (off + 2097152) ?ty k = None"
    by (auto simp: read_tag_checks_def split: if_splits)
  show ?thesis
    using assms checks checks'
    by (auto simp: read_tag_def req Let_def rbind_def dest: tag_result_relabel split: option.splits if_splits sum.splits)
qed

text \<open>A data block number above 65535 is accepted by the checks and then raises \<open>struct.error\<close> out of
  \<open>read_tag\<close>, once a PLC has confirmed the connection and the session.\<close>

theorem s7_db_number_raises:
  assumes "read_tag_checks (strip host) port (upper (strip area0)) db off (upper (strip type0)) k = None"
    and "eth0_source_ip eth0_address = Some ip" and "ip \<noteq> []" and "65535 < db" and "plc_net plc net"
  shows "read_tag host area0 off type0 port db k eth0_address net elapsed = Inl StructError"
  using assms tag_session_error [OF assms(5)]
  by (simp add: read_tag_def Let_def build_read_var_request_def pack_H_def s7_catch_def socket_error_def)

text \<open>Nothing a peer does makes the client raise.  Whatever the sockets deliver, in whatever pieces, and
  wherever they time out, are refused or break, \<open>identify\<close> returns a result, and so does \<open>read_tag\<close> for
  a data block number of 16 bits.\<close>

theorem s7_total:
  assumes "\<And>k. s7_socket_ok (net k)"
  shows "(\<exists>r. identify host port eth0_address net elapsed = Inr r) \<and>
    (0 \<le> db \<and> db \<le> 65535 \<longrightarrow>
      (\<exists>r. read_tag host area off ty port db k eth0_address net elapsed = Inr r))"
  using identify_returns [OF assms] read_tag_returns [OF assms]
  by (simp add: returns_iff)

section \<open>Examples\<close>

definition example_plc :: plc where
  "example_plc = \<lparr>plc_mem = (\<lambda>_ _ a. if a = 10 then 0xFF else 0xFE), plc_refuse = (\<lambda>_ _ _. None)\<rparr>"

text \<open>A PLC that resets the first connection and is reached by the second.\<close>

definition example_net :: "plc \<Rightarrow> nat \<Rightarrow> s7_socket" where
  "example_net plc k =
     \<lparr>sk_connect = None, sk_answers = (\<lambda>sent. Inr
        (if k = 0 then [Raise (OsError [])]
         else if length sent = 1 then [Chunk (tpkt [6, 0xD0])]
         else if length sent = 2 then [Chunk (tpkt [2, 0xF0, 0x80, 0x32])]
         else [Chunk (plc_reply plc (last sent)), Chunk [7]]))\<rparr>"

lemma example_net: "plc_net plc (example_net plc)"
proof -
  have "plc_reply plc frame \<noteq> []" for frame by (simp add: plc_reply_def tpkt_def)
  then have "plc_socket plc (example_net plc 1) COTP_CR_FALLBACK"
    unfolding plc_socket_def
    by (intro conjI exI [of _ "[6, 0xD0]"] exI [of _ "[2, 0xF0, 0x80, 0x32]"] allI impI exI [of _ "[7]"])
      (simp_all add: example_net_def delivers_def COTP_CONNECT_CONFIRM_def S7_PROTOCOL_ID_def tpkt_def)
  moreover have "rejects (example_net plc 0) COTP_CR_PRIMARY"
    by (simp add: rejects_def example_net_def cotp_attempt_def exchange_def recv_tpkt_frame_def recv_exact_def
        recv_loop.simps)
  ultimately show ?thesis by (simp add: plc_net_def)
qed

lemma example_words:
  "strip (lit ''10.0.0.5'') = lit ''10.0.0.5''" "upper (strip (lit '' db'')) = lit ''DB''"
  "upper (strip (lit ''int'')) = lit ''INT''"
  "eth0_source_ip (Some (lit ''10.0.0.2/24'')) = Some (lit ''10.0.0.2'')"
  by (simp_all add: strip_def lstrip_def rstrip_def lit_def is_space_def upper_def upper1_def eth0_source_ip_def)

lemma example_checks:
  "1 \<le> db \<Longrightarrow> read_tag_checks (lit ''10.0.0.5'') 102 (lit ''DB'') db 10 (lit ''INT'') 0 = None"
  by (simp add: read_tag_checks_def S7_AREA_CODES_def S7_TYPE_SIZES_def)

lemma example_value: "plc_value example_plc 0x84 5 10 0 (lit ''INT'') = TagInt (- 2)"
  by (simp add: plc_value_def example_plc_def Let_def rcat_values unpack_i16_def del: unpack_u32_bytes)
    (simp add: unpack_u32_def)

lemma example_refuse [simp]: "plc_refuse example_plc area db addr = None"
  by (simp add: example_plc_def)

lemma example_code: "area_code (lit ''DB'') = 0x84"
  by (simp add: area_code_def S7_AREA_CODES_def)

lemma example_read:
  "\<exists>t. read_tag (lit ''10.0.0.5'') (lit '' db'') 10 (lit ''int'') 102 5 0 (Some (lit ''10.0.0.2/24''))
       (example_net example_plc) 0 = Inr (TagRead t) \<and> tg_value t = TagInt (- 2)"
  using read_tag_plc [of "lit ''10.0.0.5''" 102 "lit '' db''" 5 10 "lit ''int''" 0
      "Some (lit ''10.0.0.2/24'')" "lit ''10.0.0.2''" example_plc "example_net example_plc" 0]
    example_value example_code example_net example_checks [of 5]
  by (simp add: example_words)

theorem s7_read_tag_device_witness:
  "\<exists>t. read_tag (lit ''10.0.0.5'') (lit '' db'') 10 (lit ''int'') 102 5 0 (Some (lit ''10.0.0.2/24''))
       (example_net example_plc) 0 = Inr (TagRead t) \<and> tg_value t = TagInt (- 2)"
  using s7_read_tag_device [of "lit ''10.0.0.5''" 102 "lit '' db''" 5 10 "lit ''int''" 0
      "Some (lit ''10.0.0.2/24'')" "lit ''10.0.0.2''" example_plc "example_net example_plc" 0]
    example_value example_code example_net example_checks [of 5]
  by (simp add: example_words)

theorem s7_offset_wraps_witness:
  "\<exists>net t. read_tag (lit ''10.0.0.5'') (lit '' db'') (10 + 2097152) (lit ''int'') 102 5 0 (Some (lit ''10.0.0.2/24''))
       net 0 = Inr (TagRead t) \<and> tg_value t = TagInt (- 2) \<and> tg_byte_offset t = 2097162"
proof -
  obtain net t where "read_tag (lit ''10.0.0.5'') (lit '' db'') 10 (lit ''int'') 102 5 0 (Some (lit ''10.0.0.2/24''))
       net 0 = Inr (TagRead t)" "tg_value t = TagInt (- 2)"
    using example_read by blast
  with s7_offset_wraps [OF this(1)] show ?thesis
    by (intro exI [of _ net] exI [of _ "t\<lparr>tg_byte_offset := 2097162\<rparr>"]) simp
qed

theorem s7_db_number_raises_witness:
  "read_tag (lit ''10.0.0.5'') (lit '' db'') 10 (lit ''int'') 102 70000 0 (Some (lit ''10.0.0.2/24''))
     (example_net example_plc) 0 = Inl StructError"
  by (rule s7_db_number_raises [OF _ example_words(4)])
    (use example_checks [of 70000] example_net in \<open>simp_all add: example_words\<close>)

theorem s7_total_witness:
  "\<exists>r. identify (lit ''10.0.0.5'') 102 (Some (lit ''10.0.0.2/24'')) (example_net example_plc) 0 = Inr r"
proof -
  have "s7_socket_ok (example_net example_plc k)" for k
    by (simp add: s7_socket_ok_def example_net_def raises_def)
  from s7_total [of "example_net example_plc", OF this] show ?thesis by blast
qed

end
