(* ===== verification/Siemens_Names.thy ===== *)
theory Siemens_Names
  imports Py_Text
begin

text \<open>
  The station names of \<open>backend/tools/profinet_scan.py\<close>: CRC-16/ARC, and the decoding of names that TIA
  Portal has converted (each character outside the PROFINET alphabet replaced by \<open>x\<close> and a token, four
  hex digits of the CRC appended).  IDNA labels are decoded by Python's codec, a parameter here.
\<close>

unbundle bit_operations_syntax

section \<open>CRC-16/ARC\<close>

text \<open>The remainder never exceeds 16 bits, so it is a 16-bit word.\<close>

definition crc_shift :: "16 word \<Rightarrow> 16 word" where
  "crc_shift crc = (if bit crc 0 then drop_bit 1 crc XOR 0xA001 else drop_bit 1 crc)"

definition crc_byte :: "byte \<Rightarrow> 16 word \<Rightarrow> 16 word" where
  "crc_byte b crc = (crc_shift ^^ 8) (crc XOR ucast b)"

definition crc16_arc :: "bytes \<Rightarrow> 16 word" where
  "crc16_arc data = fold crc_byte data 0"

section \<open>Converted names\<close>

text \<open>\<open>str.replace(old, new)\<close> for a non-empty \<open>old\<close>.\<close>

function replace_str :: "pystr \<Rightarrow> pystr \<Rightarrow> pystr \<Rightarrow> pystr" where
  "replace_str old new s =
     (if s = [] then []
      else if old \<noteq> [] \<and> startswith s old then new @ replace_str old new (drop (length old) s)
      else hd s # replace_str old new (tl s))"
  by pat_completeness auto
termination
  by (relation "measure (\<lambda>(old, new, s). length s)") auto

declare replace_str.simps [simp del]

definition SIEMENS_ESCAPE_TO_CHAR :: "(pystr \<times> pystr) list" where
  "SIEMENS_ESCAPE_TO_CHAR = [(lit ''xa'', lit '' ''), (lit ''xb'', lit ''_''), (lit ''xd'', lit ''.''), (lit ''xh'', lit ''~''),
     (lit ''xm'', lit ''*''), (lit ''xn'', lit ''+''), (lit ''xr'', lit ''/''), (lit ''xu'', [92]), (lit ''xv'', lit ''=''),
     (lit ''x2'', lit ''['')]"

definition SIEMENS_SUFFIX_LEN :: nat where
  "SIEMENS_SUFFIX_LEN = 4"

definition unescape :: "pystr \<Rightarrow> pystr" where
  "unescape body = fold (\<lambda>(token, char) decoded. replace_str token char decoded) SIEMENS_ESCAPE_TO_CHAR body"

text \<open>A suffix that equals four hex digits also passes \<open>int(suffix, 16)\<close>, so the comparison subsumes it.\<close>

definition decode_siemens_escape_label :: "pystr \<Rightarrow> pystr option" where
  "decode_siemens_escape_label label =
     (if length label \<le> SIEMENS_SUFFIX_LEN then None
      else
        let body = take (length label - SIEMENS_SUFFIX_LEN) label;
            suffix = drop (length label - SIEMENS_SUFFIX_LEN) label
        in if \<not> (\<forall>c \<in> set body. c < 128) then None
           else if hex4 (unat (crc16_arc (map byte_of body))) \<noteq> suffix then None
           else Some (unescape body))"

definition decode_idna_label :: "(pystr \<Rightarrow> pystr option) \<Rightarrow> pystr \<Rightarrow> pystr option" where
  "decode_idna_label idna label =
     (if \<not> startswith label (lit ''xn--'') then None
      else if \<not> (\<forall>c \<in> set label. c < 128) then None else idna label)"

definition decode_label :: "(pystr \<Rightarrow> pystr option) \<Rightarrow> pystr \<Rightarrow> pystr option" where
  "decode_label idna label =
     (case decode_idna_label idna label of Some d \<Rightarrow> Some d | None \<Rightarrow> decode_siemens_escape_label label)"

definition decode_siemens_station_name :: "(pystr \<Rightarrow> pystr option) \<Rightarrow> pystr option \<Rightarrow> pystr option" where
  "decode_siemens_station_name idna raw_name =
     (case raw_name of
        None \<Rightarrow> None
      | Some raw \<Rightarrow>
          if raw = [] then None
          else
            let labels = split_on 46 raw;
                decoded_labels = map (\<lambda>l. case decode_label idna l of Some d \<Rightarrow> d | None \<Rightarrow> l) labels
            in if \<exists>l \<in> set labels. decode_label idna l \<noteq> None then Some (join [46] decoded_labels) else None)"

section \<open>The checksum against a bit-serial reference\<close>

text \<open>CRC-16/ARC as a shift register fed bit by bit, least significant bit first, with the reflected
  polynomial.\<close>

definition crc_bit :: "bool \<Rightarrow> 16 word \<Rightarrow> 16 word" where
  "crc_bit b crc = drop_bit 1 crc XOR (if bit crc 0 \<noteq> b then 0xA001 else 0)"

definition byte_bits :: "byte \<Rightarrow> bool list" where
  "byte_bits b = map (bit b) [0..<8]"

definition crc16_serial :: "bytes \<Rightarrow> 16 word" where
  "crc16_serial data = fold crc_bit (concat (map byte_bits data)) 0"

lemma crc_shift_xor: "crc_shift (a XOR b) = crc_shift a XOR crc_shift b"
  by (auto simp: crc_shift_def bit_xor_iff drop_bit_xor xor.assoc xor.left_commute xor.commute)

lemma crc_bit_shift: "crc_bit b crc = crc_shift (crc XOR of_bool b)"
  by (cases b) (auto simp: crc_bit_def crc_shift_def bit_xor_iff drop_bit_xor bit_1_iff)

lemma crc_shift_power_xor: "(crc_shift ^^ n) (a XOR b) = (crc_shift ^^ n) a XOR (crc_shift ^^ n) b"
  by (induction n) (simp_all add: crc_shift_xor)

text \<open>A bit that enters \<open>k\<close> positions up is shifted down to position 0 first.\<close>

lemma crc_shift_high: "k < 16 \<Longrightarrow> \<not> bit w 0 \<Longrightarrow> crc_shift w = drop_bit 1 w"
  by (simp add: crc_shift_def)

lemma fold_bits:
  "m + n \<le> 16 \<Longrightarrow> fold crc_bit (map (bit w) [m..<m + n]) crc =
   (crc_shift ^^ n) (crc XOR take_bit n (drop_bit m w))" for w :: "16 word"
proof (induction n arbitrary: m crc)
  case 0
  then show ?case by simp
next
  case (Suc n)
  let ?r = "take_bit n (drop_bit (Suc m) w)"
  define q where "q = push_bit 1 ?r"
  have r: "bit ?r j = (j < n \<and> bit w (Suc m + j))" for j
    by (auto simp: bit_take_bit_iff bit_drop_bit_eq)
  have q: "bit q j = (0 < j \<and> j < 16 \<and> bit ?r (j - 1))" for j
    unfolding q_def by (auto simp only: bit_push_bit_iff word_size semiring_bit_operations_class.bit_push_bit_iff
        possible_bit_word len_of_numeral_defs)
  have split: "take_bit (Suc n) (drop_bit m w) = of_bool (bit w m) XOR q"
  proof (rule bit_word_eqI)
    fix j assume "j < LENGTH(16)"
    then show "bit (take_bit (Suc n) (drop_bit m w)) j = bit (of_bool (bit w m) XOR q) j"
      by (cases j) (auto simp: q r bit_take_bit_iff bit_drop_bit_eq bit_xor_iff bit_of_bool_iff)
  qed
  have low: "crc_shift q = ?r"
  proof -
    have "\<not> bit q 0" by (simp add: q)
    moreover have "drop_bit 1 q = ?r"
      by (rule bit_word_eqI) (use Suc.prems in \<open>auto simp: q r bit_drop_bit_eq\<close>)
    ultimately show ?thesis by (simp add: crc_shift_def)
  qed
  have u: "[m..<m + Suc n] = m # [Suc m..<Suc m + n]"
    by (simp add: upt_conv_Cons del: upt_Suc)
  have "fold crc_bit (map (bit w) [m..<m + Suc n]) crc
      = fold crc_bit (map (bit w) [Suc m..<Suc m + n]) (crc_shift (crc XOR of_bool (bit w m)))"
    by (simp only: u list.map fold.simps o_apply crc_bit_shift)
  also have "\<dots> = (crc_shift ^^ n) (crc_shift (crc XOR of_bool (bit w m)) XOR ?r)"
    using Suc.prems by (intro Suc.IH) simp
  also have "\<dots> = (crc_shift ^^ n) (crc_shift (crc XOR take_bit (Suc n) (drop_bit m w)))"
    by (simp only: split crc_shift_xor low xor.assoc)
  finally show ?case by (simp only: funpow_Suc_right o_apply)
qed

lemma crc_byte_serial: "crc_byte b crc = fold crc_bit (byte_bits b) crc"
proof -
  have "map (bit b) [0..<8] = map (bit (ucast b :: 16 word)) [0..<0 + 8]"
    by (simp add: bit_simps)
  moreover have "take_bit 8 (drop_bit 0 (ucast b :: 16 word)) = ucast b"
    by (rule bit_word_eqI) (auto simp: bit_simps dest: bit_imp_le_length)
  ultimately show ?thesis
    using fold_bits [of 0 8 "ucast b :: 16 word" crc] by (simp only: crc_byte_def byte_bits_def)
qed

lemma crc16_serial_eq: "crc16_arc data = crc16_serial data"
proof -
  have "fold crc_byte data crc = fold crc_bit (concat (map byte_bits data)) crc" for crc
    by (induction data arbitrary: crc) (simp_all add: crc_byte_serial)
  then show ?thesis by (simp add: crc16_arc_def crc16_serial_def)
qed

section \<open>Every changed byte is noticed\<close>

lemma crc_shift_inj: "crc_shift a = crc_shift b \<Longrightarrow> a = b"
proof -
  assume eq: "crc_shift a = crc_shift b"
  have top: "bit (crc_shift w) 15 = bit w 0" for w
    using bit_imp_le_length [of w 16] by (auto simp: crc_shift_def bit_simps)
  have low: "bit (crc_shift w) n = (bit w (Suc n) \<noteq> (bit w 0 \<and> bit (0xA001 :: 16 word) n))" if "n < 15" for w n
    using that by (simp add: crc_shift_def bit_simps)
  have "bit a 0 = bit b 0" using eq top by metis
  moreover have "bit a (Suc n) = bit b (Suc n)" if "n < 15" for n
    using eq low [OF that, of a] low [OF that, of b] \<open>bit a 0 = bit b 0\<close> by auto
  ultimately have "bit a n = bit b n" if "n < 16" for n
    using that by (cases n) auto
  then show "a = b" by (intro bit_word_eqI) simp
qed

lemma crc_shift_power_inj: "(crc_shift ^^ n) a = (crc_shift ^^ n) b \<Longrightarrow> a = b"
  by (induction n) (auto dest: crc_shift_inj)

lemma ucast_byte_inj: "(ucast a :: 16 word) = ucast b \<Longrightarrow> a = b" for a b :: byte
proof -
  assume eq: "(ucast a :: 16 word) = ucast b"
  have "bit (ucast w :: 16 word) n = bit w n" if "n < 8" for w :: byte and n
    using that by (simp add: bit_simps)
  then have "bit a n = bit b n" if "n < 8" for n using eq that by metis
  then show "a = b" by (intro bit_word_eqI) simp
qed

lemma xor_cancel: "a XOR c = b XOR c \<Longrightarrow> a = b" for a b c :: "16 word"
proof -
  assume "a XOR c = b XOR c"
  then have "(a XOR c) XOR c = (b XOR c) XOR c" by (rule arg_cong)
  then show "a = b" by (simp only: xor.assoc xor_self_eq xor.right_neutral)
qed

lemma crc_byte_inj: "crc_byte b x = crc_byte b y \<Longrightarrow> x = y"
  unfolding crc_byte_def by (rule xor_cancel, rule crc_shift_power_inj)

lemma fold_crc_inj: "fold crc_byte data x = fold crc_byte data y \<Longrightarrow> x = y"
proof (induction data arbitrary: x y)
  case (Cons b data)
  have "crc_byte b x = crc_byte b y" using Cons.IH [of "crc_byte b x" "crc_byte b y"] Cons.prems by simp
  then show ?case by (rule crc_byte_inj)
qed simp

lemma crc_byte_differs: "crc_byte a x = crc_byte b x \<Longrightarrow> a = b"
proof -
  assume "crc_byte a x = crc_byte b x"
  then have "x XOR ucast a = x XOR ucast b" unfolding crc_byte_def by (rule crc_shift_power_inj)
  then have "ucast a XOR x = ucast b XOR x" by (simp only: xor.commute)
  then have "(ucast a :: 16 word) = ucast b" by (rule xor_cancel)
  then show "a = b" by (rule ucast_byte_inj)
qed

lemma crc16_one_byte: "crc16_arc (p @ a # q) = crc16_arc (p @ b # q) \<Longrightarrow> a = b"
proof -
  assume "crc16_arc (p @ a # q) = crc16_arc (p @ b # q)"
  then have "fold crc_byte q (crc_byte a (fold crc_byte p 0)) = fold crc_byte q (crc_byte b (fold crc_byte p 0))"
    by (simp add: crc16_arc_def)
  then have "crc_byte a (fold crc_byte p 0) = crc_byte b (fold crc_byte p 0)" by (rule fold_crc_inj)
  then show "a = b" by (rule crc_byte_differs)
qed

section \<open>Converting names\<close>

text \<open>The inverse of the table of the code: each character in it becomes its token, the CRC is appended.\<close>

definition escape_char :: "nat \<Rightarrow> pystr" where
  "escape_char c = (case find (\<lambda>(token, char). char = [c]) SIEMENS_ESCAPE_TO_CHAR of Some (token, _) \<Rightarrow> token | None \<Rightarrow> [c])"

definition escape :: "pystr \<Rightarrow> pystr" where
  "escape name = concat (map escape_char name)"

definition converted_name :: "pystr \<Rightarrow> pystr" where
  "converted_name name = (let body = escape name in body @ hex4 (unat (crc16_arc (map byte_of body))))"

text \<open>Pieces of an escaped text: a character other than \<open>x\<close>, or \<open>x\<close> and another one.\<close>

fun token_ok :: "pystr \<Rightarrow> bool" where
  "token_ok [c, t] = (c = 120 \<and> t \<noteq> 120)"
| "token_ok _ = False"

fun piece :: "pystr \<Rightarrow> bool" where
  "piece [c] = (c \<noteq> 120)"
| "piece p = token_ok p"

lemma replace_pieces:
  "list_all piece ps \<Longrightarrow>
   replace_str [120, t] new (concat ps) = concat (map (\<lambda>p. if p = [120, t] then new else p) ps)"
proof (induction ps)
  case Nil
  then show ?case by (simp add: replace_str.simps)
next
  case (Cons p ps)
  from Cons.prems consider (one) c where "p = [c]" "c \<noteq> 120" | (two) u where "p = [120, u]" "u \<noteq> 120"
    by (cases p rule: piece.cases) (auto elim: token_ok.elims)
  then show ?case
  proof cases
    case one
    with Cons show ?thesis by (simp add: replace_str.simps [of _ _ "c # concat ps"] startswith_def)
  next
    case two
    have tail: "replace_str [120, t] new (u # concat ps) = u # replace_str [120, t] new (concat ps)"
      using two by (simp add: replace_str.simps [of _ _ "u # concat ps"] startswith_def)
    show ?thesis
    proof (cases "u = t")
      case True
      with two Cons show ?thesis
        by (simp add: replace_str.simps [of _ _ "120 # t # concat ps"] startswith_def)
    next
      case False
      with two Cons tail show ?thesis
        by (simp add: replace_str.simps [of _ _ "120 # u # concat ps"] startswith_def)
    qed
  qed
qed

lemma unescape_pieces:
  assumes "list_all piece ps"
    and "list_all (\<lambda>(token, char). token_ok token \<and> piece char) table"
  shows "fold (\<lambda>(token, char) s. replace_str token char s) table (concat ps) =
    concat (map (\<lambda>p. fold (\<lambda>(token, char) q. if q = token then char else q) table p) ps)"
  using assms
proof (induction table arbitrary: ps)
  case Nil
  then show ?case by simp
next
  case (Cons e table)
  obtain token char where e: "e = (token, char)" by (cases e)
  with Cons.prems(2) obtain t where t: "token = [120, t]" "piece char"
    by (auto elim: token_ok.elims)
  let ?ps = "map (\<lambda>p. if p = token then char else p) ps"
  have ps: "list_all piece ?ps" using Cons.prems(1) t by (auto simp: list_all_iff)
  have table: "list_all (\<lambda>(token, char). token_ok token \<and> piece char) table" using Cons.prems(2) by simp
  have "fold (\<lambda>(token, char) s. replace_str token char s) (e # table) (concat ps) =
      fold (\<lambda>(token, char) s. replace_str token char s) table (concat ?ps)"
    using replace_pieces [OF Cons.prems(1), of t char] t e by simp
  also have "\<dots> = concat (map (\<lambda>p. fold (\<lambda>(token, char) q. if q = token then char else q) table p) ?ps)"
    using ps table by (rule Cons.IH)
  finally show ?case using e by (simp add: o_def)
qed

lemma table_tokens: "list_all (\<lambda>(token, char). token_ok token \<and> piece char) SIEMENS_ESCAPE_TO_CHAR"
  by (simp add: SIEMENS_ESCAPE_TO_CHAR_def lit_def)

lemma escape_char_cases:
  obtains "c \<in> {32, 95, 46, 126, 42, 43, 47, 92, 61, 91}"
  | "find (\<lambda>(token, char). char = [c]) SIEMENS_ESCAPE_TO_CHAR = None" "escape_char c = [c]"
  by (cases "c \<in> {32, 95, 46, 126, 42, 43, 47, 92, 61, 91}")
    (auto simp: escape_char_def SIEMENS_ESCAPE_TO_CHAR_def lit_def)

lemma escape_char_piece: "c \<noteq> 120 \<Longrightarrow> piece (escape_char c)"
  by (cases c rule: escape_char_cases)
    (auto simp: escape_char_def SIEMENS_ESCAPE_TO_CHAR_def lit_def)

lemma fold_no_token:
  "list_all (\<lambda>(token, char). token_ok token) table \<Longrightarrow>
   fold (\<lambda>(token, char) q. if q = token then char else q) table [c] = [c]"
  by (induction table) (auto elim!: token_ok.elims)

lemma unescape_char:
  "fold (\<lambda>(token, char) q. if q = token then char else q) SIEMENS_ESCAPE_TO_CHAR (escape_char c) = [c]"
proof (cases c rule: escape_char_cases)
  case 1
  then show ?thesis
    by (elim insertE emptyE) (simp_all add: escape_char_def SIEMENS_ESCAPE_TO_CHAR_def lit_def)
next
  case 2
  have "list_all (\<lambda>(token, char). token_ok token) SIEMENS_ESCAPE_TO_CHAR"
    using table_tokens by (auto simp: list_all_iff)
  with 2(2) show ?thesis by (simp only: fold_no_token)
qed

lemma unescape_escape: "120 \<notin> set name \<Longrightarrow> unescape (escape name) = name"
proof -
  assume x: "120 \<notin> set name"
  have pieces: "list_all piece (map escape_char name)"
    unfolding list_all_iff set_map using x by (metis escape_char_piece imageE)
  have "unescape (escape name) = concat (map (\<lambda>p. fold (\<lambda>(token, char) q. if q = token then char else q)
      SIEMENS_ESCAPE_TO_CHAR p) (map escape_char name))"
    unfolding unescape_def escape_def by (intro unescape_pieces table_tokens pieces)
  also have "\<dots> = concat (map (\<lambda>c. [c]) name)"
    by (simp only: list.map_comp o_def unescape_char)
  finally show ?thesis by simp
qed

lemma escape_char_ascii: "c < 128 \<Longrightarrow> d \<in> set (escape_char c) \<Longrightarrow> d < 128"
  by (auto simp: escape_char_def SIEMENS_ESCAPE_TO_CHAR_def lit_def split: if_splits)

lemma decode_converted:
  assumes "name \<noteq> []" and "\<forall>c \<in> set name. c < 128 \<and> c \<noteq> 120"
  shows "decode_siemens_escape_label (converted_name name) = Some name"
proof -
  let ?body = "escape name" and ?s = "hex4 (unat (crc16_arc (map byte_of (escape name))))"
  have len: "length ?s = 4" by (simp add: hex4_def)
  have "escape_char c \<noteq> []" for c by (auto simp: escape_char_def SIEMENS_ESCAPE_TO_CHAR_def)
  then have ne: "?body \<noteq> []" using assms(1) by (cases name) (auto simp: escape_def)
  have ascii: "\<forall>c \<in> set ?body. c < 128"
    using assms(2) escape_char_ascii by (auto simp: escape_def)
  have "unescape ?body = name" using assms(2) by (intro unescape_escape) auto
  with len ne ascii show ?thesis
    by (simp add: decode_siemens_escape_label_def converted_name_def SIEMENS_SUFFIX_LEN_def Let_def)
qed

lemma digits_fixed_inj:
  assumes "inj_on dig {..<base}" and "1 < base"
  shows "m < base ^ k \<Longrightarrow> n < base ^ k \<Longrightarrow> digits_fixed dig base k m = digits_fixed dig base k n \<Longrightarrow> m = n"
proof (induction k arbitrary: m n)
  case (Suc k)
  then have "m div base < base ^ k" "n div base < base ^ k"
    using assms(2) by (auto simp: div_less_iff_less_mult mult.commute)
  with Suc have "m div base = n div base" by auto
  moreover have "m mod base = n mod base"
    using Suc.prems(3) assms by (auto simp: inj_on_def)
  ultimately show ?case by (metis div_mult_mod_eq)
qed simp

lemma hex4_inj: "m < 65536 \<Longrightarrow> n < 65536 \<Longrightarrow> hex4 m = hex4 n \<Longrightarrow> m = n"
  using digits_fixed_inj [of hexdigit 16 m 4 n] hexdigit_inj by (auto simp: hex4_def inj_on_def)

lemma decode_label_iff:
  assumes "length suffix = 4"
  shows "decode_siemens_escape_label (body @ suffix) =
    (if body \<noteq> [] \<and> (\<forall>c \<in> set body. c < 128) \<and> hex4 (unat (crc16_arc (map byte_of body))) = suffix
     then Some (unescape body) else None)"
  using assms by (auto simp: decode_siemens_escape_label_def SIEMENS_SUFFIX_LEN_def Let_def)

lemma converted_no_dot: "46 \<notin> set (converted_name name)"
proof -
  have "46 \<notin> set (escape_char c)" for c
    by (cases c rule: escape_char_cases) (auto simp: escape_char_def SIEMENS_ESCAPE_TO_CHAR_def lit_def)
  moreover have "46 \<notin> set (digits_fixed hexdigit 16 k n)" for k n
    using hexdigit_range by (induction k arbitrary: n) (auto simp: hexdigit_def)
  ultimately show ?thesis by (auto simp: converted_name_def escape_def hex4_def Let_def)
qed

lemma decode_converted_labels:
  assumes "labels \<noteq> []" and "\<forall>l \<in> set labels. l \<noteq> [] \<and> (\<forall>c \<in> set l. c < 128 \<and> c \<noteq> 120)"
    and "\<forall>l \<in> set labels. \<not> startswith (converted_name l) (lit ''xn--'')"
  shows "decode_siemens_station_name idna (Some (join [46] (map converted_name labels))) = Some (join [46] labels)"
proof -
  let ?raw = "join [46] (map converted_name labels)"
  have split: "split_on 46 ?raw = map converted_name labels"
    using assms(1) converted_no_dot by (intro split_on_join) auto
  have d: "decode_label idna (converted_name l) = Some l" if "l \<in> set labels" for l
    using assms(2,3) that decode_converted [of l] by (auto simp: decode_label_def decode_idna_label_def)
  have "?raw \<noteq> []"
  proof
    assume "?raw = []"
    then have "map converted_name labels = [[]]" using split by simp
    then obtain l where "l \<in> set labels" "converted_name l = []" using assms(1) by (cases labels) auto
    with d [of l] show False by (simp add: decode_label_def decode_idna_label_def startswith_def
      decode_siemens_escape_label_def split: if_splits)
  qed
  moreover have "map (\<lambda>l. case decode_label idna l of Some d \<Rightarrow> d | None \<Rightarrow> l) (map converted_name labels) = labels"
    using d by (simp add: map_idI)
  moreover have "\<exists>l \<in> set labels. decode_label idna (converted_name l) \<noteq> None"
    using assms(1) d by (cases labels) auto
  ultimately show ?thesis by (simp add: decode_siemens_station_name_def split Let_def)
qed

section \<open>TIA Portal's conversion\<close>

text \<open>The conversion as the source documents it: the name is lowercased, each disallowed character (a label has
  the letters a to z, digits and the hyphen) becomes \<open>x\<close> and a second character, and the CRC-16/ARC of the
  result is appended as four hex digits.  The second characters of ten characters are known; those of the others,
  \<open>other\<close>, are not.\<close>

definition tia_lower :: "nat \<Rightarrow> nat" where
  "tia_lower c = (if 65 \<le> c \<and> c \<le> 90 then c + 32 else c)"

definition tia_legal :: "nat \<Rightarrow> bool" where
  "tia_legal c \<longleftrightarrow> 97 \<le> c \<and> c \<le> 122 \<or> 48 \<le> c \<and> c \<le> 57 \<or> c = 45"

definition tia_tokens :: "(nat \<times> nat) list" where
  "tia_tokens = zip (lit '' _.~*+/'' @ [92] @ lit ''=['') (lit ''abdhmnruv2'')"

definition tia_char :: "(nat \<Rightarrow> nat) \<Rightarrow> nat \<Rightarrow> pystr" where
  "tia_char other c =
     (let l = tia_lower c in
      if tia_legal l then [l] else [120, case map_of tia_tokens l of Some t \<Rightarrow> t | None \<Rightarrow> other l])"

definition tia_converted :: "(nat \<Rightarrow> nat) \<Rightarrow> pystr \<Rightarrow> pystr" where
  "tia_converted other label =
     (let body = concat (map (tia_char other) label) in body @ hex4 (unat (crc16_serial (map byte_of body))))"

text \<open>The characters whose conversion is known, without the letter x, which the conversion uses but does not
  escape.\<close>

definition tia_known :: "nat \<Rightarrow> bool" where
  "tia_known c \<longleftrightarrow>
     (tia_legal (tia_lower c) \<or> c \<in> set (lit '' _.~*+/'' @ [92] @ lit ''='' @ lit ''['')) \<and> tia_lower c \<noteq> 120"

lemma tia_known_cases:
  assumes "tia_known c"
  obtains "tia_legal (tia_lower c)" "tia_lower c \<noteq> 120" | "c \<in> {32, 95, 46, 126, 42, 43, 47, 92, 61, 91}"
  using assms by (auto simp: tia_known_def lit_def)

lemma tia_char_escape:
  assumes "tia_known c"
  shows "tia_char other c = escape_char (tia_lower c)" and "tia_lower c < 128" and "tia_lower c \<noteq> 120"
proof -
  have "tia_char other c = escape_char (tia_lower c) \<and> tia_lower c < 128 \<and> tia_lower c \<noteq> 120"
    using assms
  proof (cases rule: tia_known_cases)
    case 1
    then have "tia_lower c \<notin> {32, 95, 46, 126, 42, 43, 47, 92, 61, 91}" by (auto simp: tia_legal_def)
    then have "escape_char (tia_lower c) = [tia_lower c]" by (cases "tia_lower c" rule: escape_char_cases) auto
    with 1 show ?thesis by (auto simp: tia_char_def tia_legal_def Let_def)
  next
    case 2
    then show ?thesis
      by (elim insertE emptyE) (simp_all add: tia_char_def tia_lower_def tia_legal_def tia_tokens_def escape_char_def
          SIEMENS_ESCAPE_TO_CHAR_def lit_def)
  qed
  then show "tia_char other c = escape_char (tia_lower c)" "tia_lower c < 128" "tia_lower c \<noteq> 120" by simp_all
qed

lemma tia_converted_name:
  assumes "\<forall>c \<in> set label. tia_known c"
  shows "tia_converted other label = converted_name (map tia_lower label)"
proof -
  have "concat (map (tia_char other) label) = escape (map tia_lower label)"
    using assms by (induction label) (simp_all add: escape_def tia_char_escape)
  then show ?thesis by (simp add: tia_converted_def converted_name_def crc16_serial_eq Let_def)
qed

text \<open>A converted name looks like an IDNA label only if the name begins with \<open>+--\<close>.\<close>

lemma hex4_chars: "45 \<notin> set (hex4 n)" "120 \<notin> set (hex4 n)"
proof -
  have "45 \<notin> set (digits_fixed hexdigit 16 k n) \<and> 120 \<notin> set (digits_fixed hexdigit 16 k n)" for k
    by (induction k arbitrary: n) (auto simp: hexdigit_def)
  then show "45 \<notin> set (hex4 n)" "120 \<notin> set (hex4 n)" by (simp_all add: hex4_def)
qed

lemma tia_char_x:
  assumes "tia_known c" and "tia_char other c @ r = 120 # 110 # r'"
  shows "c = 43 \<and> r = r'"
  using assms(1)
proof (cases rule: tia_known_cases)
  case 1
  then show ?thesis using assms(2) by (simp add: tia_char_def)
next
  case 2
  then show ?thesis
    using assms(2) by (elim insertE emptyE) (simp_all add: tia_char_def tia_lower_def tia_legal_def tia_tokens_def lit_def)
qed

lemma tia_char_hyphen:
  assumes "tia_known c" and "tia_char other c @ r = 45 # r'"
  shows "c = 45 \<and> r = r'"
  using assms by (auto simp: tia_char_def tia_lower_def Let_def split: if_splits)

lemma not_idna:
  assumes "\<forall>c \<in> set l. tia_known c" and "\<not> startswith l (lit ''+--'')"
  shows "\<not> startswith (tia_converted other l) (lit ''xn--'')"
proof
  define h where "h = hex4 (unat (crc16_serial (map byte_of (concat (map (tia_char other) l)))))"
  have h: "45 \<notin> set h" "120 \<notin> set h"
    unfolding h_def by (rule hex4_chars)+
  assume "startswith (tia_converted other l) (lit ''xn--'')"
  then obtain r where r: "concat (map (tia_char other) l) @ h = 120 # 110 # 45 # 45 # r"
    by (auto simp: tia_converted_def startswith_iff lit_def h_def Let_def)
  obtain c l1 where l: "l = c # l1" using r h by (cases l) auto
  have 1: "c = 43" "concat (map (tia_char other) l1) @ h = 45 # 45 # r"
    using tia_char_x [of c other "concat (map (tia_char other) l1) @ h" "45 # 45 # r"] r assms(1) l by auto
  obtain d l2 where l1: "l1 = d # l2" using 1(2) h by (cases l1) auto
  have 2: "d = 45" "concat (map (tia_char other) l2) @ h = 45 # r"
    using tia_char_hyphen [of d other "concat (map (tia_char other) l2) @ h" "45 # r"] 1(2) assms(1) l l1 by auto
  obtain e l3 where l2: "l2 = e # l3" using 2(2) h by (cases l2) auto
  have "e = 45"
    using tia_char_hyphen [of e other "concat (map (tia_char other) l3) @ h" r] 2(2) assms(1) l l1 l2 by auto
  with l l1 l2 1 2 assms(2) show False by (simp add: startswith_def lit_def)
qed

section \<open>Properties\<close>

text \<open>C25: the byte-wise CRC loop computes CRC-16/ARC: for every data it equals the shift register that is
  fed bit by bit, least significant bit first.\<close>

theorem crc16_bit_serial: "crc16_arc data = crc16_serial data"
  by (rule crc16_serial_eq)

text \<open>C24: Converted names are recovered.  A station name whose labels TIA Portal has converted, as the source
  documents the conversion (lowercasing included), is decoded to the lowercased labels, if the labels have only
  characters whose conversion is known, not the letter x, and do not begin with \<open>+--\<close>, whose conversion is an
  IDNA label.  The case of the letters is lost, whatever the conversion of the other characters is.\<close>

theorem station_name_roundtrip:
  assumes "labels \<noteq> []" and "\<forall>l \<in> set labels. l \<noteq> [] \<and> (\<forall>c \<in> set l. tia_known c) \<and> \<not> startswith l (lit ''+--'')"
  shows "decode_siemens_station_name idna (Some (join [46] (map (tia_converted other) labels))) =
    Some (join [46] (map (map tia_lower) labels))"
proof -
  let ?lower = "map (map tia_lower) labels"
  have conv: "map (tia_converted other) labels = map converted_name ?lower"
    using assms(2) tia_converted_name by simp
  have "\<forall>l \<in> set ?lower. l \<noteq> [] \<and> (\<forall>c \<in> set l. c < 128 \<and> c \<noteq> 120)"
    using assms(2) tia_char_escape(2,3) by auto
  moreover have "\<forall>l \<in> set ?lower. \<not> startswith (converted_name l) (lit ''xn--'')"
    using assms(2) not_idna tia_converted_name by fastforce
  ultimately show ?thesis
    using decode_converted_labels [of ?lower idna] assms(1) by (simp only: conv) simp
qed

text \<open>A changed character is noticed.  If a label is accepted as a converted name, the same label with
  any one character before its suffix changed is not.\<close>

theorem converted_name_one_char:
  assumes "length suffix = 4" and "decode_siemens_escape_label ((p @ a # q) @ suffix) \<noteq> None" and "a \<noteq> b"
  shows "decode_siemens_escape_label ((p @ b # q) @ suffix) = None"
proof -
  have a: "a < 128" "hex4 (unat (crc16_arc (map byte_of (p @ a # q)))) = suffix"
    using assms(2) unfolding decode_label_iff [OF assms(1)] by (auto split: if_splits)
  have small: "unat (w :: 16 word) < 65536" for w
  proof -
    have "unat w < 2 ^ LENGTH(16)" by (rule unsigned_less)
    then show ?thesis by simp
  qed
  have "hex4 (unat (crc16_arc (map byte_of (p @ b # q)))) \<noteq> suffix" if "b < 128"
  proof
    assume "hex4 (unat (crc16_arc (map byte_of (p @ b # q)))) = suffix"
    with a(2) have "unat (crc16_arc (map byte_of (p @ a # q))) = unat (crc16_arc (map byte_of (p @ b # q)))"
      by (intro hex4_inj small) simp
    then have "crc16_arc (map byte_of p @ byte_of a # map byte_of q) = crc16_arc (map byte_of p @ byte_of b # map byte_of q)"
      by (simp add: word_unat_eq_iff)
    then have "byte_of a = byte_of b" by (rule crc16_one_byte)
    then have "a mod 256 = b mod 256" by (metis unat_byte_of)
    with a(1) that assms(3) show False by simp
  qed
  then show ?thesis unfolding decode_label_iff [OF assms(1)] by auto
qed

lemma hex4_unfold:
  "hex4 n = [hexdigit (n div 4096 mod 16), hexdigit (n div 256 mod 16), hexdigit (n div 16 mod 16), hexdigit (n mod 16)]"
proof -
  have "digits_fixed hexdigit 16 (Suc (Suc (Suc (Suc 0)))) n =
    [hexdigit (n div 16 div 16 div 16 mod 16), hexdigit (n div 16 div 16 mod 16), hexdigit (n div 16 mod 16), hexdigit (n mod 16)]"
    by simp
  moreover have four: "4 = Suc (Suc (Suc (Suc 0)))" by simp
  ultimately show ?thesis unfolding hex4_def four by (simp add: div_mult2_eq [symmetric])
qed

lemma example_crc:
  "hex4 (unat (crc16_arc (map byte_of (lit ''k1cjf11xbcpu1'')))) = lit ''a19e''"
  by (simp add: crc16_serial_eq crc16_serial_def lit_def byte_bits_def byte_of_def upt_rec crc_bit_def hex4_unfold hexdigit_def)

lemma example_converted: "converted_name (lit ''k1cjf11_cpu1'') = lit ''k1cjf11xbcpu1a19e''"
proof -
  have "escape (lit ''k1cjf11_cpu1'') = lit ''k1cjf11xbcpu1''"
    by (simp add: escape_def escape_char_def SIEMENS_ESCAPE_TO_CHAR_def lit_def)
  then show ?thesis using example_crc by (simp add: converted_name_def lit_def)
qed

text \<open>The example of the source's comment, as an engineer may have written it.\<close>

theorem station_name_roundtrip_witness:
  "decode_siemens_station_name (\<lambda>l. None) (Some (lit ''k1cjf11xbcpu1a19e'')) = Some (lit ''k1cjf11_cpu1'')"
proof -
  let ?l = "lit ''K1CJF11_CPU1''"
  have known: "\<forall>c \<in> set ?l. tia_known c" by (simp add: tia_known_def tia_legal_def tia_lower_def lit_def)
  have lower: "map tia_lower ?l = lit ''k1cjf11_cpu1''" by (simp add: tia_lower_def lit_def)
  have "tia_converted id ?l = lit ''k1cjf11xbcpu1a19e''"
    unfolding tia_converted_name [OF known] lower by (rule example_converted)
  moreover have "\<not> startswith ?l (lit ''+--'')" by (simp add: startswith_def lit_def)
  ultimately show ?thesis
    using station_name_roundtrip [of "[?l]" "\<lambda>l. None" id] known lower by (simp add: lit_def)
qed

theorem converted_name_one_char_witness:
  "decode_siemens_escape_label (lit ''k1cjf12xbcpu1a19e'') = None"
proof -
  have "decode_siemens_escape_label (lit ''k1cjf11xbcpu1a19e'') = Some (lit ''k1cjf11_cpu1'')"
    using decode_converted [of "lit ''k1cjf11_cpu1''"] by (simp add: example_converted) (simp add: lit_def)
  then show ?thesis
    using converted_name_one_char [of "lit ''a19e''" "lit ''k1cjf1''" 49 "lit ''xbcpu1''" 50] by (simp add: lit_def)
qed

end
