(* ===== verification/Profinet.thy ===== *)
theory Profinet
  imports Siemens_Names Tlv Py_Dict
begin

text \<open>
  \<open>backend/tools/profinet_scan.py\<close>: the DCP Identify request, the parser of responses, and the scan loop.
  The random transaction id, the file with the interface's MAC, what the socket calls do and Python's IDNA
  codec are arguments.
\<close>

record pn_device =
  pd_mac :: pystr
  pd_ip :: "pystr option"
  pd_subnet_mask :: "pystr option"
  pd_gateway :: "pystr option"
  pd_ip_info :: "pystr option"
  pd_name_of_station :: "pystr option"
  pd_name_of_station_decoded :: "pystr option"
  pd_vendor_value :: "pystr option"
  pd_vendor_id :: "pystr option"
  pd_device_id :: "pystr option"
  pd_device_role :: "pystr option"

definition pn_empty :: "pystr \<Rightarrow> pn_device" where
  "pn_empty mac = \<lparr>pd_mac = mac, pd_ip = None, pd_subnet_mask = None, pd_gateway = None, pd_ip_info = None,
     pd_name_of_station = None, pd_name_of_station_decoded = None, pd_vendor_value = None,
     pd_vendor_id = None, pd_device_id = None, pd_device_role = None\<rparr>"

definition ETHERTYPE_PROFINET :: nat where
  "ETHERTYPE_PROFINET = 0x8892"

definition DCP_MULTICAST_MAC :: bytes where
  "DCP_MULTICAST_MAC = [0x01, 0x0e, 0xcf, 0x00, 0x00, 0x00]"

definition DEVICE_ROLE_FLAGS :: "(nat \<times> pystr) list" where
  "DEVICE_ROLE_FLAGS = [(0, lit ''IO-Device''), (1, lit ''IO-Controller''), (2, lit ''IO-Multidevice''), (3, lit ''PN-Supervisor'')]"

definition IP_INFO_TEXT :: "(nat, pystr) dict" where
  "IP_INFO_TEXT = [(0, lit ''no IP set''), (1, lit ''IP set''), (2, lit ''IP set via DHCP'')]"

section \<open>Request\<close>

fun hexval :: "nat \<Rightarrow> nat option" where
  "hexval c = (if 48 \<le> c \<and> c \<le> 57 then Some (c - 48) else if 97 \<le> c \<and> c \<le> 102 then Some (c - 87)
     else if 65 \<le> c \<and> c \<le> 70 then Some (c - 55) else None)"

text \<open>\<open>bytes.fromhex\<close>: pairs of hex digits, ASCII white space between the pairs skipped.\<close>

fun fromhex :: "pystr \<Rightarrow> exn + bytes" where
  "fromhex [] = Inr []"
| "fromhex [c] = (if c = 32 \<or> (9 \<le> c \<and> c \<le> 13) then Inr [] else Inl ValueError)"
| "fromhex (c # d # s) =
     (if c = 32 \<or> (9 \<le> c \<and> c \<le> 13) then fromhex (d # s)
      else (case (hexval c, hexval d) of
          (Some x, Some y) \<Rightarrow> rbind (fromhex s) (\<lambda>bs. Inr (byte_of (16 * x + y) # bs))
        | _ \<Rightarrow> Inl ValueError))"

definition interface_mac :: "pystr option \<Rightarrow> bytes option" where
  "interface_mac file =
     (case file of
        None \<Rightarrow> None
      | Some text \<Rightarrow>
          (case fromhex (filter (\<lambda>c. c \<noteq> 58) (strip text)) of
             Inl e \<Rightarrow> None
           | Inr mac \<Rightarrow> if length mac = 6 then Some mac else None))"

definition build_request :: "nat \<Rightarrow> bytes \<Rightarrow> bytes" where
  "build_request xid src_mac =
     (let header = be16 0xFEFE @ [0x05, 0x00] @ be32 xid @ be16 100 @ be16 0x0004;
          all_selector = [0xFF, 0xFF] @ be16 0;
          frame = DCP_MULTICAST_MAC @ src_mac @ be16 ETHERTYPE_PROFINET @ header @ all_selector
      in if length frame < 60 then frame @ replicate (60 - length frame) 0 else frame)"

section \<open>Response\<close>

definition role_text :: "byte \<Rightarrow> pystr option" where
  "role_text role =
     (let names = map snd (filter (\<lambda>(flag, name). bit role flag) DEVICE_ROLE_FLAGS) in
      if names \<noteq> [] then Some (join (lit '', '') names) else if role = 0 then Some (lit ''None'') else None)"

definition parse_device_block :: "byte \<Rightarrow> bytes \<Rightarrow> pn_device \<Rightarrow> exn + pn_device" where
  "parse_device_block suboption data device =
     (if suboption = 0x01 then Inr (device\<lparr>pd_vendor_value := Some (utf8_decode (drop 2 data))\<rparr>)
      else if suboption = 0x02 then Inr (device\<lparr>pd_name_of_station := Some (utf8_decode (drop 2 data))\<rparr>)
      else if suboption = 0x03 \<and> 6 \<le> length data then
        rbind (unpack_H (py_slice data 2 4)) (\<lambda>vendor_id. rbind (unpack_H (py_slice data 4 6)) (\<lambda>device_id.
          Inr (device\<lparr>pd_vendor_id := Some (lit ''0x'' @ hex4 vendor_id), pd_device_id := Some (lit ''0x'' @ hex4 device_id)\<rparr>)))
      else if suboption = 0x04 \<and> 3 \<le> length data then
        rbind (byte_at data 2) (\<lambda>role. Inr (device\<lparr>pd_device_role := role_text role\<rparr>))
      else Inr device)"

definition ip_or_none :: "nat \<Rightarrow> pystr option" where
  "ip_or_none raw = (if raw \<noteq> 0 then Some (ip_str (be32 raw)) else None)"

definition parse_ip_block :: "byte \<Rightarrow> bytes \<Rightarrow> pn_device \<Rightarrow> exn + pn_device" where
  "parse_ip_block suboption data device =
     (if suboption = 0x02 \<and> 14 \<le> length data then
        rbind (unpack_H (py_slice data 0 2)) (\<lambda>block_info. rbind (unpack_I (py_slice data 2 6)) (\<lambda>ip_raw.
        rbind (unpack_I (py_slice data 6 10)) (\<lambda>mask_raw. rbind (unpack_I (py_slice data 10 14)) (\<lambda>gw_raw.
          Inr (device\<lparr>pd_ip := ip_or_none ip_raw, pd_subnet_mask := ip_or_none mask_raw,
            pd_gateway := ip_or_none gw_raw, pd_ip_info := map_of IP_INFO_TEXT (block_info mod 16)\<rparr>)))))
      else Inr device)"

definition parse_block :: "byte \<Rightarrow> byte \<Rightarrow> bytes \<Rightarrow> pn_device \<Rightarrow> exn + pn_device" where
  "parse_block opt suboption data device =
     (if opt = 0x02 then parse_device_block suboption data device
      else if opt = 0x01 then parse_ip_block suboption data device
      else Inr device)"

function blocks_loop :: "nat \<Rightarrow> bytes \<Rightarrow> nat \<Rightarrow> pn_device \<Rightarrow> exn + pn_device" where
  "blocks_loop end_offset frame offset device =
     (if offset + 4 \<le> end_offset then
        rbind (byte_at frame offset) (\<lambda>opt. rbind (byte_at frame (offset + 1)) (\<lambda>suboption.
        rbind (unpack_H (py_slice frame (offset + 2) (offset + 4))) (\<lambda>block_len.
          let block_start = offset + 4; block_end = block_start + block_len in
          if length frame < block_end then Inr device
          else rbind (parse_block opt suboption (py_slice frame block_start block_end) device) (\<lambda>device'.
            blocks_loop end_offset frame (block_end + block_len mod 2) device'))))
      else Inr device)"
  by pat_completeness auto
termination
  by (relation "measure (\<lambda>(end_offset, frame, offset, device). end_offset - offset)") auto

declare blocks_loop.simps [simp del]

definition parse_response :: "(pystr \<Rightarrow> pystr option) \<Rightarrow> bytes \<Rightarrow> exn + pn_device option" where
  "parse_response idna frame =
     (if length frame < 14 + 12 then Inr None
      else rbind (unpack_H (py_slice frame 12 14)) (\<lambda>ethertype.
        if ethertype \<noteq> ETHERTYPE_PROFINET then Inr None
        else
          rbind (unpack_H (py_slice frame 14 16)) (\<lambda>frame_id. rbind (byte_at frame 16) (\<lambda>service_id.
          rbind (byte_at frame 17) (\<lambda>service_type. rbind (unpack_H (py_slice frame 24 26)) (\<lambda>data_len.
            if frame_id \<noteq> 0xFEFF \<or> service_id \<noteq> 0x05 then Inr None
            else if service_type \<noteq> 0x01 then Inr None
            else
              rbind (blocks_loop (min (26 + data_len) (length frame)) frame 26 (pn_empty (mac_str (py_slice frame 6 12))))
                (\<lambda>device. Inr (Some (device\<lparr>pd_name_of_station_decoded :=
                   decode_siemens_station_name idna (pd_name_of_station device)\<rparr>)))))))))"

section \<open>Scan\<close>

text \<open>The loop of \<open>scan\<close>.  \<open>clock k\<close> is what the \<open>k\<close>-th iteration reads from \<open>time.monotonic()\<close> and
  \<open>recv k\<close> what its \<open>recvfrom\<close> yields; with a clock that stands still it may run forever.\<close>

partial_function (option) scan_loop ::
  "(pystr \<Rightarrow> pystr option) \<Rightarrow> real \<Rightarrow> (nat \<Rightarrow> real) \<Rightarrow> (nat \<Rightarrow> exn + bytes) \<Rightarrow> nat \<Rightarrow> (pystr, pn_device) dict \<Rightarrow>
    (exn + (pystr, pn_device) dict) option" where
  "scan_loop idna deadline clock recv k devices =
     (if deadline - clock k \<le> 0 then Some (Inr devices)
      else (case recv k of
          Inl e \<Rightarrow> if e = SocketTimeout then scan_loop idna deadline clock recv (Suc k) devices else Some (Inl e)
        | Inr frame \<Rightarrow>
            (case parse_response idna frame of
               Inl e \<Rightarrow> Some (Inl e)
             | Inr None \<Rightarrow> scan_loop idna deadline clock recv (Suc k) devices
             | Inr (Some device) \<Rightarrow>
                 scan_loop idna deadline clock recv (Suc k) (AList.update (pd_mac device) device devices))))"

datatype scan_result = ScanFailed pystr | Scanned "pn_device list"

text \<open>How opening and binding the raw socket may fail, after the three \<open>except\<close> clauses.\<close>

datatype open_error = PermissionError | AttributeError | OpenError pystr

fun open_message :: "open_error \<Rightarrow> pystr" where
  "open_message PermissionError = lit ''not permitted to open a raw socket (need CAP_NET_RAW)''"
| "open_message AttributeError = lit ''raw AF_PACKET sockets aren't available on this platform (Linux only)''"
| "open_message (OpenError m) = m"

record scan_env =
  se_mac_file :: "pystr option"
  se_open :: "open_error option"
  se_send :: "exn option"
  se_xid :: nat
  se_start :: real
  se_clock :: "nat \<Rightarrow> real"
  se_recv :: "nat \<Rightarrow> exn + bytes"

text \<open>\<open>scan\<close>: the request that is sent, if one is, and the result.\<close>

definition pn_scan ::
  "(pystr \<Rightarrow> pystr option) \<Rightarrow> pystr \<Rightarrow> real \<Rightarrow> scan_env \<Rightarrow> bytes option \<times> (exn + scan_result) option" where
  "pn_scan idna interface timeout env =
     (case interface_mac (se_mac_file env) of
        None \<Rightarrow> (None, Some (Inr (ScanFailed (lit ''no MAC address for '' @ interface))))
      | Some src_mac \<Rightarrow>
          (case se_open env of
             Some e \<Rightarrow> (None, Some (Inr (ScanFailed (open_message e))))
           | None \<Rightarrow>
               (Some (build_request (se_xid env) src_mac),
                case se_send env of
                  Some e \<Rightarrow> Some (Inl e)
                | None \<Rightarrow>
                    map_option (\<lambda>r. rbind r (\<lambda>devices. Inr (Scanned (map snd devices))))
                      (scan_loop idna (se_start env + timeout) (se_clock env) (se_recv env) 0 []))))"

section \<open>Nothing raises\<close>

lemma parse_block_returns: "returns (parse_block opt sub data device)"
  unfolding parse_block_def parse_device_block_def parse_ip_block_def
  by (intro returns_intros returns_reads returns_simps) (auto simp: unpack_I_slice)

lemma blocks_loop_returns: "end_offset \<le> length frame \<Longrightarrow> returns (blocks_loop end_offset frame offset device)"
proof (induction end_offset frame offset device rule: blocks_loop.induct)
  case (1 end_offset frame offset device)
  show ?case
  proof (cases "offset + 4 \<le> end_offset")
    case False
    then show ?thesis by (simp add: blocks_loop.simps [of end_offset frame offset])
  next
    case True
    let ?n = "256 * unat (frame ! (offset + 2)) + unat (frame ! Suc (offset + 2))"
    have b: "byte_at frame offset = Inr (frame ! offset)" "byte_at frame (offset + 1) = Inr (frame ! (offset + 1))"
      using True "1.prems" by simp_all
    have u: "unpack_H (py_slice frame (offset + 2) (offset + 4)) = Inr ?n"
      using True "1.prems" by (intro unpack_H_slice; simp)
    note h = b u
    obtain d where d: "parse_block (frame ! offset) (frame ! (offset + 1))
        (py_slice frame (offset + 4) (offset + 4 + ?n)) device = Inr d"
      by (meson parse_block_returns returns_iff)
    have "blocks_loop end_offset frame offset device =
        (if length frame < offset + 4 + ?n then Inr device
         else blocks_loop end_offset frame (offset + 4 + ?n + ?n mod 2) d)"
      by (subst blocks_loop.simps) (simp only: True if_True h rbind_simps Let_def d)
    moreover have "\<not> length frame < offset + 4 + ?n \<Longrightarrow>
        returns (blocks_loop end_offset frame (offset + 4 + ?n + ?n mod 2) d)"
      using "1.IH" [OF True h refl refl _ d "1.prems"] .
    ultimately show ?thesis by (simp split: if_split)
  qed
qed

lemma parse_response_returns: "returns (parse_response idna frame)"
  unfolding parse_response_def
  by (intro returns_intros returns_reads returns_simps blocks_loop_returns) auto

section \<open>Decoding encoded blocks\<close>

text \<open>A block as the standard has it: option, suboption, length, data, and a pad byte after odd data.\<close>

type_synonym dcp_block = "(byte \<times> byte) \<times> bytes"

definition dcp_enc :: "dcp_block \<Rightarrow> bytes" where
  "dcp_enc b = [fst (fst b), snd (fst b)] @ be16 (length (snd b)) @ snd b @ (if odd (length (snd b)) then [0] else [])"

definition dcp_ok :: "dcp_block \<Rightarrow> bool" where
  "dcp_ok b \<longleftrightarrow> length (snd b) < 65536"

definition dcp_app :: "dcp_block \<Rightarrow> pn_device \<Rightarrow> pn_device" where
  "dcp_app b device = (case parse_block (fst (fst b)) (snd (fst b)) (snd b) device of Inr d \<Rightarrow> d | Inl e \<Rightarrow> device)"

lemma dcp_app_eq: "parse_block opt sub data device = Inr (dcp_app ((opt, sub), data) device)"
  using parse_block_returns [of opt sub data device] by (auto simp: dcp_app_def returns_iff)

interpretation dcp: tlv_window blocks_loop dcp_enc dcp_ok dcp_app
proof
  fix b :: dcp_block and pre rest :: bytes and limit :: nat and device
  assume ok: "dcp_ok b" and lim: "length pre + length (dcp_enc b) \<le> limit"
  obtain opt sub data where b: "b = ((opt, sub), data)" by (metis prod.collapse)
  let ?pad = "if odd (length data) then [0] else [] :: bytes"
  let ?f = "pre @ dcp_enc b @ rest" and ?l = "length pre"
  have f: "?f = pre @ [opt, sub] @ be16 (length data) @ data @ ?pad @ rest"
    by (simp add: dcp_enc_def b)
  have h: "byte_at ?f ?l = Inr opt" "byte_at ?f (?l + 1) = Inr sub"
    unfolding f by (simp_all add: byte_at_def nth_append)
  have c: "py_slice ?f (?l + 2) (?l + 4) = be16 (length data)"
    unfolding f using slice_mid [of "?l + 2" "pre @ [opt, sub]" "?l + 4" "be16 (length data)"] by simp
  have d: "py_slice ?f (?l + 4) (?l + 4 + length data) = data"
    unfolding f using slice_mid [of "?l + 4" "pre @ [opt, sub] @ be16 (length data)" "?l + 4 + length data" data] by simp
  have u: "unpack_H (be16 (length data)) = Inr (length data)" using ok by (simp add: dcp_ok_def b)
  have len: "length (dcp_enc b) = 4 + length data + length data mod 2"
    by (simp add: dcp_enc_def b odd_iff_mod_2_eq_one)
  have app: "parse_block opt sub data device = Inr (dcp_app b device)" by (simp add: dcp_app_eq b)
  have "?l + 4 \<le> limit" using lim len by simp
  moreover have "\<not> length ?f < ?l + 4 + length data" by (simp add: len)
  ultimately have "blocks_loop limit ?f ?l device =
      blocks_loop limit ?f (?l + 4 + length data + length data mod 2) (dcp_app b device)"
    by (subst blocks_loop.simps) (simp only: if_True if_False h rbind_simps c u Let_def d app)
  then show "blocks_loop limit ?f ?l device = blocks_loop limit ?f (?l + length (dcp_enc b)) (dcp_app b device)"
    by (simp only: len add.assoc)
qed

lemma blocks_decode:
  assumes "list_all dcp_ok bs" and "length pre = 26" and "frame = pre @ concat (map dcp_enc bs) @ rest"
    and "end_offset = 26 + length (concat (map dcp_enc bs))"
  shows "blocks_loop end_offset frame 26 device = Inr (fold dcp_app bs device)"
proof -
  have "blocks_loop end_offset frame 26 device =
      blocks_loop end_offset frame (26 + length (concat (map dcp_enc bs))) (fold dcp_app bs device)"
    using dcp.window_run [of bs pre end_offset rest device] assms by simp
  also have "\<dots> = Inr (fold dcp_app bs device)"
    by (subst blocks_loop.simps) (simp add: assms(4))
  finally show ?thesis .
qed

text \<open>What a device announces, and the Identify response that carries it.\<close>

record pn_message =
  pm_vendor :: pystr
  pm_name :: pystr
  pm_vendor_id :: nat
  pm_device_id :: nat
  pm_role :: byte
  pm_ip_info :: nat
  pm_ip :: nat
  pm_mask :: nat
  pm_gateway :: nat

definition pn_message_ok :: "pn_message \<Rightarrow> bool" where
  "pn_message_ok m \<longleftrightarrow> list_all scalar_value (pm_vendor m) \<and> length (utf8 (pm_vendor m)) < 240 \<and>
     list_all scalar_value (pm_name m) \<and> length (utf8 (pm_name m)) < 1000 \<and>
     pm_vendor_id m < 65536 \<and> pm_device_id m < 65536 \<and> pm_ip_info m < 65536 \<and>
     pm_ip m < 4294967296 \<and> pm_mask m < 4294967296 \<and> pm_gateway m < 4294967296"

definition pn_message_blocks :: "pn_message \<Rightarrow> dcp_block list" where
  "pn_message_blocks m = [((2, 1), [0, 0] @ utf8 (pm_vendor m)), ((2, 2), [0, 0] @ utf8 (pm_name m)),
     ((2, 3), [0, 0] @ be16 (pm_vendor_id m) @ be16 (pm_device_id m)), ((2, 4), [0, 0, pm_role m, 0]),
     ((2, 5), [0, 0, 1, 2]),
     ((1, 2), be16 (pm_ip_info m) @ be32 (pm_ip m) @ be32 (pm_mask m) @ be32 (pm_gateway m))]"

definition dcp_response :: "bytes \<Rightarrow> bytes \<Rightarrow> nat \<Rightarrow> nat \<Rightarrow> pn_message \<Rightarrow> bytes \<Rightarrow> bytes" where
  "dcp_response dst mac xid delay m padding =
     (let blocks = concat (map dcp_enc (pn_message_blocks m)) in
      dst @ mac @ be16 0x8892 @ be16 0xFEFF @ [5, 1] @ be32 xid @ be16 delay @ be16 (length blocks) @ blocks @ padding)"

definition pn_message_device :: "(pystr \<Rightarrow> pystr option) \<Rightarrow> bytes \<Rightarrow> pn_message \<Rightarrow> pn_device" where
  "pn_message_device idna mac m =
     \<lparr>pd_mac = mac_str mac, pd_ip = ip_or_none (pm_ip m), pd_subnet_mask = ip_or_none (pm_mask m),
      pd_gateway = ip_or_none (pm_gateway m), pd_ip_info = map_of IP_INFO_TEXT (pm_ip_info m mod 16),
      pd_name_of_station = Some (pm_name m),
      pd_name_of_station_decoded = decode_siemens_station_name idna (Some (pm_name m)),
      pd_vendor_value = Some (pm_vendor m), pd_vendor_id = Some (lit ''0x'' @ hex4 (pm_vendor_id m)),
      pd_device_id = Some (lit ''0x'' @ hex4 (pm_device_id m)), pd_device_role = role_text (pm_role m)\<rparr>"

lemma app_vendor: "list_all scalar_value s \<Longrightarrow> dcp_app ((2, 1), [0, 0] @ utf8 s) d = d\<lparr>pd_vendor_value := Some s\<rparr>"
  by (simp add: dcp_app_def parse_block_def parse_device_block_def)

lemma app_name: "list_all scalar_value s \<Longrightarrow> dcp_app ((2, 2), [0, 0] @ utf8 s) d = d\<lparr>pd_name_of_station := Some s\<rparr>"
  by (simp add: dcp_app_def parse_block_def parse_device_block_def)

lemma app_ids: "v < 65536 \<Longrightarrow> i < 65536 \<Longrightarrow> dcp_app ((2, 3), [0, 0] @ be16 v @ be16 i) d =
    d\<lparr>pd_vendor_id := Some (lit ''0x'' @ hex4 v), pd_device_id := Some (lit ''0x'' @ hex4 i)\<rparr>"
proof -
  assume "v < 65536" "i < 65536"
  moreover have "py_slice ([0, 0] @ be16 v @ be16 i) 2 4 = be16 v" "py_slice ([0, 0] @ be16 v @ be16 i) 4 6 = be16 i"
    by (simp_all add: be16_def py_slice_def)
  ultimately show ?thesis by (simp add: dcp_app_def parse_block_def parse_device_block_def)
qed

lemma app_role: "dcp_app ((2, 4), [0, 0, r, 0]) d = d\<lparr>pd_device_role := role_text r\<rparr>"
  by (simp add: dcp_app_def parse_block_def parse_device_block_def byte_at_def)

lemma app_other: "dcp_app ((2, 5), data) d = d"
  by (simp add: dcp_app_def parse_block_def parse_device_block_def)

lemma app_ip:
  assumes "info < 65536" "a < 4294967296" "b < 4294967296" "c < 4294967296"
  shows "dcp_app ((1, 2), be16 info @ be32 a @ be32 b @ be32 c) d =
    d\<lparr>pd_ip := ip_or_none a, pd_subnet_mask := ip_or_none b, pd_gateway := ip_or_none c,
      pd_ip_info := map_of IP_INFO_TEXT (info mod 16)\<rparr>"
proof -
  let ?d = "be16 info @ be32 a @ be32 b @ be32 c"
  have "py_slice ?d 0 2 = be16 info" "py_slice ?d 2 6 = be32 a" "py_slice ?d 6 10 = be32 b" "py_slice ?d 10 14 = be32 c"
    using slice_mid [of 0 "[]" 2 "be16 info"] slice_mid [of 2 "be16 info" 6 "be32 a"]
      slice_mid [of 6 "be16 info @ be32 a" 10 "be32 b"] slice_mid [of 10 "be16 info @ be32 a @ be32 b" 14 "be32 c" "[]"]
    by simp_all
  with assms show ?thesis by (simp add: dcp_app_def parse_block_def parse_ip_block_def)
qed

lemma fold_message:
  assumes "pn_message_ok m"
  shows "(fold dcp_app (pn_message_blocks m) (pn_empty (mac_str mac)))
      \<lparr>pd_name_of_station_decoded := decode_siemens_station_name idna (Some (pm_name m))\<rparr> = pn_message_device idna mac m"
    "pd_name_of_station (fold dcp_app (pn_message_blocks m) (pn_empty (mac_str mac))) = Some (pm_name m)"
  using assms
  by (simp_all only: pn_message_blocks_def pn_message_ok_def fold_simps app_vendor app_name app_ids app_role app_other
      app_ip pn_empty_def) (simp_all add: pn_message_device_def)

section \<open>The scan loop\<close>

definition response_at :: "(pystr \<Rightarrow> pystr option) \<Rightarrow> exn + bytes \<Rightarrow> (pystr \<times> pn_device) list" where
  "response_at idna r =
     (case r of Inl e \<Rightarrow> [] | Inr frame \<Rightarrow>
        (case parse_response idna frame of Inr (Some d) \<Rightarrow> [(pd_mac d, d)] | _ \<Rightarrow> []))"

text \<open>The responses received in the iterations \<open>k, ..., n - 1\<close>, in order.\<close>

definition responses :: "(pystr \<Rightarrow> pystr option) \<Rightarrow> (nat \<Rightarrow> exn + bytes) \<Rightarrow> nat \<Rightarrow> nat \<Rightarrow> (pystr \<times> pn_device) list" where
  "responses idna recv k n = concat (map (\<lambda>j. response_at idna (recv j)) [k..<n])"

lemma scan_loop_step:
  assumes "clock k < deadline" and "\<And>e. recv k = Inl e \<Longrightarrow> e = SocketTimeout"
  shows "scan_loop idna deadline clock recv k devices =
    scan_loop idna deadline clock recv (Suc k) (fold (\<lambda>(m, d). AList.update m d) (response_at idna (recv k)) devices)"
proof (cases "recv k")
  case (Inl e)
  with assms show ?thesis by (subst scan_loop.simps) (simp add: response_at_def)
next
  case (Inr frame)
  obtain d where d: "parse_response idna frame = Inr d" by (meson parse_response_returns returns_iff)
  from Inr d assms(1) show ?thesis
    by (subst scan_loop.simps) (cases d; simp add: response_at_def)
qed

lemma scan_loop_run:
  assumes "k \<le> n" and "deadline \<le> clock n"
    and "\<And>j. k \<le> j \<Longrightarrow> j < n \<Longrightarrow> clock j < deadline \<and> (\<forall>e. recv j = Inl e \<longrightarrow> e = SocketTimeout)"
  shows "scan_loop idna deadline clock recv k devices =
    Some (Inr (fold (\<lambda>(m, d). AList.update m d) (responses idna recv k n) devices))"
  using assms
proof (induction "n - k" arbitrary: k devices)
  case 0
  then show ?case by (subst scan_loop.simps) (simp add: responses_def)
next
  case (Suc x)
  then have k: "k < n" by simp
  then have r: "responses idna recv k n = response_at idna (recv k) @ responses idna recv (Suc k) n"
    by (simp add: responses_def upt_conv_Cons)
  have "scan_loop idna deadline clock recv k devices =
      scan_loop idna deadline clock recv (Suc k) (fold (\<lambda>(m, d). AList.update m d) (response_at idna (recv k)) devices)"
    using Suc.prems(3) [of k] k by (intro scan_loop_step) simp_all
  also have "\<dots> = Some (Inr (fold (\<lambda>(m, d). AList.update m d) (responses idna recv (Suc k) n)
      (fold (\<lambda>(m, d). AList.update m d) (response_at idna (recv k)) devices)))"
  proof (rule Suc.hyps(1))
    show "x = n - Suc k" "Suc k \<le> n" "deadline \<le> clock n" using Suc.hyps(2) Suc.prems(2) k by simp_all
    show "clock j < deadline \<and> (\<forall>e. recv j = Inl e \<longrightarrow> e = SocketTimeout)" if "Suc k \<le> j" "j < n" for j
      using Suc.prems(3) [of j] that by simp
  qed
  finally show ?case by (simp add: r)
qed

lemma fold_update_map:
  "map_of (fold (\<lambda>(m, d). AList.update m d) rs ds) = map_of ds ++ map_of (rev rs)"
  by (induction rs arbitrary: ds) (auto simp: update_conv' map_add_def fun_eq_iff split: option.splits)

lemma fold_update_wf: "wf_dict ds \<Longrightarrow> wf_dict (fold (\<lambda>(m, d). AList.update m d) rs ds)"
  by (induction rs arbitrary: ds) (auto simp: wf_intros)

lemma responses_mac: "(m, d) \<in> set (responses idna recv k n) \<Longrightarrow> pd_mac d = m"
  by (auto simp: responses_def response_at_def split: sum.splits option.splits)

text \<open>A dict whose keys are a function of its values.\<close>

lemma keyed_values:
  assumes "\<forall>(k, d) \<in> set ds. f d = k"
  shows "map f (map snd ds) = keys ds" "d \<in> set (map snd ds) \<longleftrightarrow> (f d, d) \<in> set ds"
  using assms by (induction ds) (auto simp: keys_def)

section \<open>Properties\<close>

text \<open>C23: an Identify response that a device builds from its vendor, station name, ids, role and addresses,
  each block padded to an even length and a block of another kind among them, is decoded to exactly these
  fields under the frame's source MAC, whatever padding follows the frame.\<close>

theorem profinet_roundtrip:
  assumes "pn_message_ok m" and "length dst = 6" and "length mac = 6"
  shows "parse_response idna (dcp_response dst mac xid delay m padding) = Inr (Some (pn_message_device idna mac m))"
proof -
  let ?blocks = "concat (map dcp_enc (pn_message_blocks m))"
  let ?pre = "dst @ mac @ be16 0x8892 @ be16 0xFEFF @ [5, 1] @ be32 xid @ be16 delay @ be16 (length ?blocks)"
  let ?f = "dcp_response dst mac xid delay m padding"
  have f: "?f = ?pre @ ?blocks @ padding" by (simp add: dcp_response_def Let_def)
  have ok: "list_all dcp_ok (pn_message_blocks m)"
    using assms(1) by (simp add: pn_message_blocks_def dcp_ok_def pn_message_ok_def)
  have len: "length ?blocks < 65536"
    using assms(1) by (auto simp: pn_message_blocks_def dcp_enc_def pn_message_ok_def)
  have p: "length ?pre = 26" using assms(2,3) by simp
  have h: "py_slice ?f 12 14 = be16 0x8892" "py_slice ?f 14 16 = be16 0xFEFF" "byte_at ?f 16 = Inr 5" "byte_at ?f 17 = Inr 1"
    "py_slice ?f 24 26 = be16 (length ?blocks)" "py_slice ?f 6 12 = mac"
    unfolding f using assms(2,3)
      slice_mid [of 12 "dst @ mac" 14 "be16 0x8892"] slice_mid [of 14 "dst @ mac @ be16 0x8892" 16 "be16 0xFEFF"]
      slice_mid [of 24 "dst @ mac @ be16 0x8892 @ be16 0xFEFF @ [5, 1] @ be32 xid @ be16 delay" 26 "be16 (length ?blocks)"]
      slice_mid [of 6 dst 12 mac]
    by (simp_all add: byte_at_def nth_append)
  have loop: "blocks_loop (min (26 + length ?blocks) (length ?f)) ?f 26 device = Inr (fold dcp_app (pn_message_blocks m) device)" for device
    using ok p by (intro blocks_decode [where pre = ?pre]) (simp_all add: f)
  have "\<not> length ?f < 14 + 12" using p by (simp add: f)
  then show ?thesis
    using h len loop fold_message [OF assms(1)]
    by (simp add: parse_response_def ETHERTYPE_PROFINET_def)
qed

theorem profinet_roundtrip_witness:
  "parse_response (\<lambda>l. None) (dcp_response [0, 1, 2, 3, 4, 5] [6, 7, 8, 9, 10, 11] 99 0
     \<lparr>pm_vendor = lit ''S7'', pm_name = lit ''plc'', pm_vendor_id = 42, pm_device_id = 257, pm_role = 2, pm_ip_info = 1,
      pm_ip = 3232235777, pm_mask = 4294967040, pm_gateway = 0\<rparr> [0, 0]) =
   Inr (Some (pn_message_device (\<lambda>l. None) [6, 7, 8, 9, 10, 11]
     \<lparr>pm_vendor = lit ''S7'', pm_name = lit ''plc'', pm_vendor_id = 42, pm_device_id = 257, pm_role = 2, pm_ip_info = 1,
      pm_ip = 3232235777, pm_mask = 4294967040, pm_gateway = 0\<rparr>))"
  by (rule profinet_roundtrip) (simp_all add: pn_message_ok_def lit_def scalar_value_def utf8_def utf8_encode1_def)

text \<open>C37: a scan ends and reports what answered.  If the clock reaches the deadline in some iteration and
  the reads before it time out or deliver frames, \<open>scan\<close> has sent the Identify request from the
  interface's address and returns, with one entry per responding MAC: its last response.\<close>

theorem profinet_scan_returns:
  assumes "interface_mac (se_mac_file env) = Some mac" and "se_open env = None" and "se_send env = None"
    and "se_start env + timeout \<le> se_clock env n"
    and "\<forall>j < n. se_clock env j < se_start env + timeout \<and> (\<forall>e. se_recv env j = Inl e \<longrightarrow> e = SocketTimeout)"
  shows "\<exists>devs. pn_scan idna interface timeout env = (Some (build_request (se_xid env) mac), Some (Inr (Scanned devs))) \<and>
    distinct (map pd_mac devs) \<and>
    (\<forall>d. d \<in> set devs \<longleftrightarrow> map_of (rev (responses idna (se_recv env) 0 n)) (pd_mac d) = Some d)"
proof -
  let ?rs = "responses idna (se_recv env) 0 n"
  let ?ds = "fold (\<lambda>(m, d). AList.update m d) ?rs []"
  have "scan_loop idna (se_start env + timeout) (se_clock env) (se_recv env) 0 [] = Some (Inr ?ds)"
    by (rule scan_loop_run) (use assms(4,5) in simp_all)
  then have scan: "pn_scan idna interface timeout env =
      (Some (build_request (se_xid env) mac), Some (Inr (Scanned (map snd ?ds))))"
    using assms(1-3) by (simp add: pn_scan_def)
  have wf: "wf_dict ?ds" by (rule fold_update_wf) simp
  have m: "map_of ?ds = map_of (rev ?rs)" using fold_update_map [of ?rs "[]"] by simp
  have mac: "pd_mac d = k" if "(k, d) \<in> set ?ds" for k d
  proof -
    from that wf have "map_of (rev ?rs) k = Some d" unfolding m [symmetric] by (simp add: map_of_in_set)
    then have "(k, d) \<in> set ?rs" by (auto dest: map_of_SomeD)
    then show ?thesis by (rule responses_mac)
  qed
  then have keyed: "\<forall>(k, d) \<in> set ?ds. pd_mac d = k" by blast
  have "map pd_mac (map snd ?ds) = keys ?ds" by (rule keyed_values(1) [OF keyed])
  moreover have "d \<in> set (map snd ?ds) \<longleftrightarrow> map_of (rev ?rs) (pd_mac d) = Some d" for d
    by (simp only: keyed_values(2) [OF keyed] map_of_in_set [OF wf] m)
  ultimately show ?thesis using scan wf unfolding wf_dict_def by (intro exI [of _ "map snd ?ds"]) simp
qed

theorem profinet_scan_returns_witness:
  "\<exists>devs. snd (pn_scan (\<lambda>l. None) (lit ''eth0'') 3
     \<lparr>se_mac_file = Some (lit ''b8:27:eb:00:00:01''), se_open = None, se_send = None, se_xid = 5, se_start = 10,
      se_clock = (\<lambda>k. 10 + real k), se_recv = (\<lambda>k. if k = 1 then Inl SocketTimeout else Inr [1, 2, 3])\<rparr>) =
     Some (Inr (Scanned devs))"
proof -
  let ?env = "\<lparr>se_mac_file = Some (lit ''b8:27:eb:00:00:01''), se_open = None, se_send = None, se_xid = 5, se_start = 10,
      se_clock = (\<lambda>k. 10 + real k), se_recv = (\<lambda>k. if k = 1 then Inl SocketTimeout else Inr [1, 2, 3])\<rparr> :: scan_env"
  have "interface_mac (se_mac_file ?env) = Some [0xb8, 0x27, 0xeb, 0, 0, 1]"
    by (simp add: interface_mac_def lit_def strip_def lstrip_def rstrip_def is_space_def byte_of_def)
  then have "\<exists>devs. pn_scan (\<lambda>l. None) (lit ''eth0'') 3 ?env =
      (Some (build_request (se_xid ?env) [0xb8, 0x27, 0xeb, 0, 0, 1]), Some (Inr (Scanned devs))) \<and>
    distinct (map pd_mac devs) \<and>
    (\<forall>d. d \<in> set devs \<longleftrightarrow> map_of (rev (responses (\<lambda>l. None) (se_recv ?env) 0 3)) (pd_mac d) = Some d)"
    by (rule profinet_scan_returns) simp_all
  then obtain devs where "pn_scan (\<lambda>l. None) (lit ''eth0'') 3 ?env =
      (Some (build_request (se_xid ?env) [0xb8, 0x27, 0xeb, 0, 0, 1]), Some (Inr (Scanned devs)))"
    by blast
  then show ?thesis by simp
qed

end
