(* ===== verification/Capture_System.thy ===== *)
theory Capture_System
  imports Lldp Cdp Mndp Dispatcher Ip_Conflict Dhcp_Monitor Modbus_Traffic Traffic_Stats
begin

text \<open>
  The passive listeners together: the seven modules that \<open>backend/main.py\<close> registers with the capture
  dispatcher at startup, their \<open>start_listener\<close> functions, and the API calls that read or reset them
  while frames arrive.

  The state of the system is the dispatcher, whose handlers act on the record \<open>listeners\<close> of all
  module states, and the \<open>_started\<close> variables of the modules.  A module's handler is its own handler
  lifted to its field.  The contract of a field is the locale \<open>part\<close>, interpreted for each module; it
  gives the independence of the modules.
\<close>

record listeners =
  y_lldp :: "lldp_info cache"
  y_cdp :: "cdp_info cache"
  y_mndp :: "mndp_info cache"
  y_traffic :: traffic
  y_modbus :: modbus_traffic
  y_conflict :: owners
  y_dhcp :: servers

record started =
  g_lldp :: "pystr list"
  g_cdp :: "pystr list"
  g_mndp :: "pystr list"
  g_traffic :: "pystr list"
  g_modbus :: bool
  g_conflict :: bool
  g_dhcp :: bool

record capture_system =
  z_dispatcher :: "listeners dispatcher"
  z_started :: started

definition listeners0 :: "timestamp \<Rightarrow> listeners" where
  "listeners0 now = \<lparr>y_lldp = [], y_cdp = [], y_mndp = [], y_traffic = traffic0 now,
     y_modbus = modbus_traffic0, y_conflict = [], y_dhcp = []\<rparr>"

definition started0 :: started where
  "started0 = \<lparr>g_lldp = [], g_cdp = [], g_mndp = [], g_traffic = [], g_modbus = False,
     g_conflict = False, g_dhcp = False\<rparr>"

definition system0 :: "timestamp \<Rightarrow> capture_system" where
  "system0 now = \<lparr>z_dispatcher = dispatcher0 (listeners0 now), z_started = started0\<rparr>"

section \<open>Handlers on their own field\<close>

definition lift_handler :: "('s \<Rightarrow> 'c) \<Rightarrow> ('c \<Rightarrow> 's \<Rightarrow> 's) \<Rightarrow> 'c handler \<Rightarrow> 's handler" where
  "lift_handler get put h now packet s =
     (case h now packet (get s) of Inl e \<Rightarrow> Inl e | Inr c \<Rightarrow> Inr (put c s))"

locale part =
  fixes get :: "'s \<Rightarrow> 'c" and put :: "'c \<Rightarrow> 's \<Rightarrow> 's"
  assumes get_put: "get (put c s) = c" and put_get: "put (get s) s = s"
begin

lemma run_lifted: "run_handler (lift_handler get put h) tp s = put (run_handler h tp (get s)) s"
  by (simp add: run_handler_def lift_handler_def put_get split: sum.split)

lemma run_own: "get (run_handler (lift_handler get put h) tp s) = run_handler h tp (get s)"
  by (simp add: run_lifted get_put)

lemma run_other: "(\<And>c s. other (put c s) = other s) \<Longrightarrow>
  other (run_handler (lift_handler get put h) tp s) = other s"
  by (simp add: run_lifted)

end

interpretation lldp_part: part y_lldp "\<lambda>c s. s\<lparr>y_lldp := c\<rparr>" by unfold_locales simp_all
interpretation cdp_part: part y_cdp "\<lambda>c s. s\<lparr>y_cdp := c\<rparr>" by unfold_locales simp_all
interpretation mndp_part: part y_mndp "\<lambda>c s. s\<lparr>y_mndp := c\<rparr>" by unfold_locales simp_all
interpretation traffic_part: part y_traffic "\<lambda>c s. s\<lparr>y_traffic := c\<rparr>" by unfold_locales simp_all
interpretation modbus_part: part y_modbus "\<lambda>c s. s\<lparr>y_modbus := c\<rparr>" by unfold_locales simp_all
interpretation conflict_part: part y_conflict "\<lambda>c s. s\<lparr>y_conflict := c\<rparr>" by unfold_locales simp_all
interpretation dhcp_part: part y_dhcp "\<lambda>c s. s\<lparr>y_dhcp := c\<rparr>" by unfold_locales simp_all

definition lldp_handler :: "listeners handler" where
  "lldp_handler = lift_handler y_lldp (\<lambda>c s. s\<lparr>y_lldp := c\<rparr>) lldp_handle_packet"

definition cdp_handler :: "listeners handler" where
  "cdp_handler = lift_handler y_cdp (\<lambda>c s. s\<lparr>y_cdp := c\<rparr>) cdp_handle_packet"

definition mndp_handler :: "listeners handler" where
  "mndp_handler = lift_handler y_mndp (\<lambda>c s. s\<lparr>y_mndp := c\<rparr>) mndp_handle_packet"

text \<open>\<open>addr_file\<close> is what \<open>traffic_stats\<close> reads as the MAC address of the port.\<close>

definition traffic_handler :: "pystr option \<Rightarrow> listeners handler" where
  "traffic_handler addr_file =
     lift_handler y_traffic (\<lambda>c s. s\<lparr>y_traffic := c\<rparr>) (classify_and_record addr_file)"

definition modbus_handler :: "listeners handler" where
  "modbus_handler = lift_handler y_modbus (\<lambda>c s. s\<lparr>y_modbus := c\<rparr>) modbus_handle_packet"

definition conflict_handler :: "listeners handler" where
  "conflict_handler = lift_handler y_conflict (\<lambda>c s. s\<lparr>y_conflict := c\<rparr>) conflict_handle_packet"

definition dhcp_handler :: "listeners handler" where
  "dhcp_handler = lift_handler y_dhcp (\<lambda>c s. s\<lparr>y_dhcp := c\<rparr>) dhcp_handle_packet"

section \<open>start_listener of the modules, and startup\<close>

text \<open>\<open>dispatcher.start_listener(interface)\<close>, then \<open>dispatcher.register_handler\<close>.\<close>

definition subscribe :: "listeners handler \<Rightarrow> capture_system \<Rightarrow> capture_system" where
  "subscribe h z = z\<lparr>z_dispatcher := register_handler h (snd (start_listener (z_dispatcher z)))\<rparr>"

definition lldp_start :: "pystr \<Rightarrow> capture_system \<Rightarrow> capture_system" where
  "lldp_start interface z =
     (let g = z_started z in
      if interface \<in> set (g_lldp g) then z
      else subscribe lldp_handler (z\<lparr>z_started := g\<lparr>g_lldp := interface # g_lldp g\<rparr>\<rparr>))"

definition cdp_start :: "pystr \<Rightarrow> capture_system \<Rightarrow> capture_system" where
  "cdp_start interface z =
     (let g = z_started z in
      if interface \<in> set (g_cdp g) then z
      else subscribe cdp_handler (z\<lparr>z_started := g\<lparr>g_cdp := interface # g_cdp g\<rparr>\<rparr>))"

definition mndp_start :: "pystr \<Rightarrow> capture_system \<Rightarrow> capture_system" where
  "mndp_start interface z =
     (let g = z_started z in
      if interface \<in> set (g_mndp g) then z
      else subscribe mndp_handler (z\<lparr>z_started := g\<lparr>g_mndp := interface # g_mndp g\<rparr>\<rparr>))"

definition traffic_start :: "pystr option \<Rightarrow> pystr \<Rightarrow> capture_system \<Rightarrow> capture_system" where
  "traffic_start addr_file interface z =
     (let g = z_started z in
      if interface \<in> set (g_traffic g) then z
      else subscribe (traffic_handler addr_file) (z\<lparr>z_started := g\<lparr>g_traffic := interface # g_traffic g\<rparr>\<rparr>))"

definition modbus_traffic_start :: "pystr \<Rightarrow> capture_system \<Rightarrow> capture_system" where
  "modbus_traffic_start interface z =
     (let g = z_started z in
      if g_modbus g then z else subscribe modbus_handler (z\<lparr>z_started := g\<lparr>g_modbus := True\<rparr>\<rparr>))"

definition conflict_start :: "pystr \<Rightarrow> capture_system \<Rightarrow> capture_system" where
  "conflict_start interface z =
     (let g = z_started z in
      if g_conflict g then z else subscribe conflict_handler (z\<lparr>z_started := g\<lparr>g_conflict := True\<rparr>\<rparr>))"

definition dhcp_start :: "pystr \<Rightarrow> capture_system \<Rightarrow> capture_system" where
  "dhcp_start interface z =
     (let g = z_started z in
      if g_dhcp g then z else subscribe dhcp_handler (z\<lparr>z_started := g\<lparr>g_dhcp := True\<rparr>\<rparr>))"

text \<open>\<open>_start_background_listeners\<close>, without the link history, which is not a capture listener.\<close>

definition start_background_listeners :: "pystr option \<Rightarrow> pystr \<Rightarrow> capture_system \<Rightarrow> capture_system" where
  "start_background_listeners addr_file interface z =
     dhcp_start interface (conflict_start interface (modbus_traffic_start interface
       (traffic_start addr_file interface (mndp_start interface (cdp_start interface (lldp_start interface z))))))"

section \<open>API calls\<close>

definition map_state :: "('s \<Rightarrow> 's) \<Rightarrow> 's dispatcher \<Rightarrow> 's dispatcher" where
  "map_state f d = d\<lparr>d_state := f (d_state d)\<rparr>"

definition with_state :: "(listeners \<Rightarrow> listeners \<times> 'r) \<Rightarrow> capture_system \<Rightarrow> capture_system \<times> 'r" where
  "with_state f z =
     (let (s, r) = f (d_state (z_dispatcher z))
      in (z\<lparr>z_dispatcher := (z_dispatcher z)\<lparr>d_state := s\<rparr>\<rparr>, r))"

definition lldp_get_neighbors ::
  "pystr \<Rightarrow> timestamp \<Rightarrow> real \<Rightarrow> capture_system \<Rightarrow> capture_system \<times> lldp_info report" where
  "lldp_get_neighbors interface now stale_after z =
     with_state (\<lambda>s. let (c, r) = cache_get interface now stale_after (y_lldp s) in (s\<lparr>y_lldp := c\<rparr>, r))
       (lldp_start interface z)"

definition cdp_get_neighbors ::
  "pystr \<Rightarrow> timestamp \<Rightarrow> real \<Rightarrow> capture_system \<Rightarrow> capture_system \<times> cdp_info report" where
  "cdp_get_neighbors interface now stale_after z =
     with_state (\<lambda>s. let (c, r) = cache_get interface now stale_after (y_cdp s) in (s\<lparr>y_cdp := c\<rparr>, r))
       (cdp_start interface z)"

definition mndp_get_neighbors ::
  "pystr \<Rightarrow> timestamp \<Rightarrow> real \<Rightarrow> capture_system \<Rightarrow> capture_system \<times> mndp_info report" where
  "mndp_get_neighbors interface now stale_after z =
     with_state (\<lambda>s. let (c, r) = cache_get interface now stale_after (y_mndp s) in (s\<lparr>y_mndp := c\<rparr>, r))
       (mndp_start interface z)"

text \<open>The route \<open>/traffic\<close> calls \<open>start_listener\<close> before \<open>get_stats\<close>.\<close>

definition traffic_route ::
  "pystr option \<Rightarrow> pystr \<Rightarrow> timestamp \<Rightarrow> capture_system \<Rightarrow> capture_system \<times> traffic_report" where
  "traffic_route addr_file interface now z =
     with_state (\<lambda>s. let (c, r) = traffic_get_stats now (y_traffic s) in (s\<lparr>y_traffic := c\<rparr>, r))
       (traffic_start addr_file interface z)"

text \<open>What can happen to the system: a frame, and the API calls of \<open>backend/api/routes\<close>, all on the
  test port and with the default purge age.\<close>

datatype system_event =
    Frame timestamp bytes
  | Get_Lldp timestamp
  | Get_Cdp timestamp
  | Get_Mndp timestamp
  | Get_Traffic timestamp
  | Reset_Traffic timestamp
  | Get_Modbus timestamp
  | Reset_Modbus
  | Get_Conflicts timestamp
  | Reset_Conflicts
  | Get_Dhcp
  | Reset_Dhcp

definition TEST_PORT_INTERFACE :: pystr where
  "TEST_PORT_INTERFACE = lit ''eth0''"

definition DEFAULT_STALE_AFTER :: real where
  "DEFAULT_STALE_AFTER = 60"

definition on_listeners :: "(listeners \<Rightarrow> listeners) \<Rightarrow> capture_system \<Rightarrow> capture_system" where
  "on_listeners f z = z\<lparr>z_dispatcher := map_state f (z_dispatcher z)\<rparr>"

fun system_step :: "pystr option \<Rightarrow> system_event \<Rightarrow> capture_system \<Rightarrow> capture_system" where
  "system_step a (Frame t p) z = z\<lparr>z_dispatcher := dispatch t p (z_dispatcher z)\<rparr>"
| "system_step a (Get_Lldp t) z = fst (lldp_get_neighbors TEST_PORT_INTERFACE t DEFAULT_STALE_AFTER z)"
| "system_step a (Get_Cdp t) z = fst (cdp_get_neighbors TEST_PORT_INTERFACE t DEFAULT_STALE_AFTER z)"
| "system_step a (Get_Mndp t) z = fst (mndp_get_neighbors TEST_PORT_INTERFACE t DEFAULT_STALE_AFTER z)"
| "system_step a (Get_Traffic t) z = fst (traffic_route a TEST_PORT_INTERFACE t z)"
| "system_step a (Reset_Traffic t) z = on_listeners (\<lambda>s. s\<lparr>y_traffic := traffic_reset t (y_traffic s)\<rparr>) z"
| "system_step a (Get_Modbus t) z = on_listeners (\<lambda>s. s\<lparr>y_modbus := fst (modbus_get_stats t (y_modbus s))\<rparr>) z"
| "system_step a Reset_Modbus z = on_listeners (\<lambda>s. s\<lparr>y_modbus := modbus_traffic_reset (y_modbus s)\<rparr>) z"
| "system_step a (Get_Conflicts t) z = on_listeners (\<lambda>s. s\<lparr>y_conflict := fst (get_conflicts t (y_conflict s))\<rparr>) z"
| "system_step a Reset_Conflicts z = on_listeners (\<lambda>s. s\<lparr>y_conflict := conflict_reset (y_conflict s)\<rparr>) z"
| "system_step a Get_Dhcp z = z"
| "system_step a Reset_Dhcp z = on_listeners (\<lambda>s. s\<lparr>y_dhcp := dhcp_reset (y_dhcp s)\<rparr>) z"

definition system_run :: "pystr option \<Rightarrow> system_event list \<Rightarrow> capture_system \<Rightarrow> capture_system" where
  "system_run a evs z = fold (system_step a) evs z"

section \<open>Specification: seven independent modules\<close>

text \<open>What each module alone does with an event.\<close>

fun lldp_alone :: "system_event \<Rightarrow> lldp_info cache \<Rightarrow> lldp_info cache" where
  "lldp_alone (Frame t p) c = run_handler lldp_handle_packet (t, p) c"
| "lldp_alone (Get_Lldp t) c = purge_stale t 60 c"
| "lldp_alone _ c = c"

fun cdp_alone :: "system_event \<Rightarrow> cdp_info cache \<Rightarrow> cdp_info cache" where
  "cdp_alone (Frame t p) c = run_handler cdp_handle_packet (t, p) c"
| "cdp_alone (Get_Cdp t) c = purge_stale t 60 c"
| "cdp_alone _ c = c"

fun mndp_alone :: "system_event \<Rightarrow> mndp_info cache \<Rightarrow> mndp_info cache" where
  "mndp_alone (Frame t p) c = run_handler mndp_handle_packet (t, p) c"
| "mndp_alone (Get_Mndp t) c = purge_stale t 60 c"
| "mndp_alone _ c = c"

fun traffic_alone :: "pystr option \<Rightarrow> system_event \<Rightarrow> traffic \<Rightarrow> traffic" where
  "traffic_alone a (Frame t p) c = run_handler (classify_and_record a) (t, p) c"
| "traffic_alone a (Get_Traffic t) c = fst (traffic_get_stats t c)"
| "traffic_alone a (Reset_Traffic t) c = traffic_reset t c"
| "traffic_alone a _ c = c"

fun modbus_alone :: "system_event \<Rightarrow> modbus_traffic \<Rightarrow> modbus_traffic" where
  "modbus_alone (Frame t p) c = run_handler modbus_handle_packet (t, p) c"
| "modbus_alone (Get_Modbus t) c = prune_stale_pending t c"
| "modbus_alone Reset_Modbus c = modbus_traffic0"
| "modbus_alone _ c = c"

fun conflict_alone :: "system_event \<Rightarrow> owners \<Rightarrow> owners" where
  "conflict_alone (Frame t p) c = run_handler conflict_handle_packet (t, p) c"
| "conflict_alone (Get_Conflicts t) c = prune_stale_macs t c"
| "conflict_alone Reset_Conflicts c = []"
| "conflict_alone _ c = c"

fun dhcp_alone :: "system_event \<Rightarrow> servers \<Rightarrow> servers" where
  "dhcp_alone (Frame t p) c = run_handler dhcp_handle_packet (t, p) c"
| "dhcp_alone Reset_Dhcp c = []"
| "dhcp_alone _ c = c"

text \<open>The abstract state is the tuple of the modules, and an event acts on each.\<close>

definition alone :: "pystr option \<Rightarrow> system_event \<Rightarrow> listeners \<Rightarrow> listeners" where
  "alone a e s = \<lparr>y_lldp = lldp_alone e (y_lldp s), y_cdp = cdp_alone e (y_cdp s),
     y_mndp = mndp_alone e (y_mndp s), y_traffic = traffic_alone a e (y_traffic s),
     y_modbus = modbus_alone e (y_modbus s), y_conflict = conflict_alone e (y_conflict s),
     y_dhcp = dhcp_alone e (y_dhcp s)\<rparr>"

section \<open>Refinement\<close>

definition registered :: "pystr option \<Rightarrow> capture_system \<Rightarrow> bool" where
  "registered a z \<longleftrightarrow>
     d_handlers (z_dispatcher z) = [lldp_handler, cdp_handler, mndp_handler, traffic_handler a, modbus_handler,
       conflict_handler, dhcp_handler] \<and> d_started (z_dispatcher z) \<and>
     TEST_PORT_INTERFACE \<in> set (g_lldp (z_started z)) \<and> TEST_PORT_INTERFACE \<in> set (g_cdp (z_started z)) \<and>
     TEST_PORT_INTERFACE \<in> set (g_mndp (z_started z)) \<and> TEST_PORT_INTERFACE \<in> set (g_traffic (z_started z)) \<and>
     g_modbus (z_started z) \<and> g_conflict (z_started z) \<and> g_dhcp (z_started z)"

lemmas start_defs = lldp_start_def cdp_start_def mndp_start_def traffic_start_def modbus_traffic_start_def
  conflict_start_def dhcp_start_def subscribe_def start_listener_def register_handler_def

lemma startup_registered: "registered a (start_background_listeners a TEST_PORT_INTERFACE (system0 t0))"
  by (simp add: registered_def start_background_listeners_def start_defs system0_def started0_def
      dispatcher0_def Let_def)

lemma startup_state [simp]:
  "d_state (z_dispatcher (start_background_listeners a interface (system0 t0))) = listeners0 t0"
  "d_count (z_dispatcher (start_background_listeners a interface (system0 t0))) = 0"
  by (simp_all add: start_background_listeners_def start_defs system0_def started0_def dispatcher0_def Let_def)

text \<open>Starting again is a no-op.\<close>

lemma start_again:
  assumes "registered a z"
  shows "lldp_start TEST_PORT_INTERFACE z = z" "cdp_start TEST_PORT_INTERFACE z = z"
    "mndp_start TEST_PORT_INTERFACE z = z" "traffic_start a TEST_PORT_INTERFACE z = z"
  using assms by (simp_all add: registered_def start_defs Let_def)

lemmas run_lifted_parts = lldp_part.run_lifted cdp_part.run_lifted mndp_part.run_lifted traffic_part.run_lifted
  modbus_part.run_lifted conflict_part.run_lifted dhcp_part.run_lifted

lemmas handler_defs = lldp_handler_def cdp_handler_def mndp_handler_def traffic_handler_def modbus_handler_def
  conflict_handler_def dhcp_handler_def

text \<open>One frame through the registered handlers is one frame through every module.\<close>

lemma fan_out_alone:
  "fan_out [lldp_handler, cdp_handler, mndp_handler, traffic_handler a, modbus_handler, conflict_handler,
     dhcp_handler] (t, p) s = alone a (Frame t p) s"
  by (simp add: fan_out_def handler_defs run_lifted_parts alone_def)

lemma system_step_alone:
  assumes "registered a z"
  shows "registered a (system_step a e z) \<and>
    d_state (z_dispatcher (system_step a e z)) = alone a e (d_state (z_dispatcher z))"
proof (cases e)
  case (Frame t p)
  with assms fan_out_alone show ?thesis by (simp add: registered_def)
qed (use assms start_again [OF assms] in
  \<open>simp_all add: registered_def with_state_def on_listeners_def map_state_def lldp_get_neighbors_def
     cdp_get_neighbors_def mndp_get_neighbors_def traffic_route_def cache_get_def Let_def split_def
     DEFAULT_STALE_AFTER_def modbus_get_stats_def modbus_traffic_reset_def modbus_traffic0_def
     get_conflicts_def conflict_reset_def dhcp_reset_def alone_def\<close>)

lemma system_run_alone:
  "registered a z \<Longrightarrow> registered a (system_run a evs z) \<and>
   d_state (z_dispatcher (system_run a evs z)) = fold (alone a) evs (d_state (z_dispatcher z))"
proof (induction evs arbitrary: z)
  case Nil
  then show ?case by (simp add: system_run_def)
next
  case (Cons e evs)
  from Cons.IH [of "system_step a e z"] system_step_alone [OF Cons.prems, of e] show ?case
    by (simp add: system_run_def)
qed

lemma fold_alone:
  "fold (alone a) evs s = \<lparr>y_lldp = fold lldp_alone evs (y_lldp s), y_cdp = fold cdp_alone evs (y_cdp s),
     y_mndp = fold mndp_alone evs (y_mndp s), y_traffic = fold (traffic_alone a) evs (y_traffic s),
     y_modbus = fold modbus_alone evs (y_modbus s), y_conflict = fold conflict_alone evs (y_conflict s),
     y_dhcp = fold dhcp_alone evs (y_dhcp s)\<rparr>"
  by (induction evs arbitrary: s) (simp_all add: alone_def)

text \<open>C3: The listeners started by the program are independent.  After startup, whatever frames arrive
  and whatever status and reset calls the API makes in between, in any order, every module has exactly
  the state it would have alone: every frame reaches it exactly once, however often start_listener is
  called again, and neither another module's calls nor an exception of another module's parser changes
  what it holds.\<close>

theorem listeners_refine_modules:
  "let z = system_run a evs (start_background_listeners a TEST_PORT_INTERFACE (system0 t0));
       s = d_state (z_dispatcher z)
   in y_lldp s = fold lldp_alone evs [] \<and> y_cdp s = fold cdp_alone evs [] \<and>
      y_mndp s = fold mndp_alone evs [] \<and> y_traffic s = fold (traffic_alone a) evs (traffic0 t0) \<and>
      y_modbus s = fold modbus_alone evs modbus_traffic0 \<and> y_conflict s = fold conflict_alone evs [] \<and>
      y_dhcp s = fold dhcp_alone evs [] \<and> length (d_handlers (z_dispatcher z)) = 7"
  using system_run_alone [OF startup_registered [of a t0], of evs]
  by (simp add: fold_alone listeners0_def registered_def Let_def)

text \<open>From the bytes of the tcpdump pipe to the modules.\<close>

lemma fold_fan_out_alone:
  "fold (fan_out [lldp_handler, cdp_handler, mndp_handler, traffic_handler a, modbus_handler, conflict_handler,
     dhcp_handler]) ps s = \<lparr>y_lldp = listen lldp_handle_packet ps (y_lldp s),
     y_cdp = listen cdp_handle_packet ps (y_cdp s), y_mndp = listen mndp_handle_packet ps (y_mndp s),
     y_traffic = listen (classify_and_record a) ps (y_traffic s),
     y_modbus = listen modbus_handle_packet ps (y_modbus s),
     y_conflict = listen conflict_handle_packet ps (y_conflict s),
     y_dhcp = listen dhcp_handle_packet ps (y_dhcp s)\<rparr>"
proof (induction ps arbitrary: s)
  case Nil
  then show ?case by simp
next
  case (Cons tp ps)
  with fan_out_alone [of a "fst tp" "snd tp"] show ?case by (simp add: alone_def)
qed

text \<open>C2: End to end.  After startup, a tcpdump run whose pipe carries a pcap header, the records \<open>rs\<close>
  and possibly a cut-off last record, in whatever pieces, leaves every module in the state of its own
  handler run over exactly the frames of \<open>rs\<close>, timed by the dispatcher's clock.\<close>

theorem capture_bytes_to_listeners:
  assumes "clean es" and "stream_bytes es = hdr @ concat (map record_bytes rs) @ b"
    and "length hdr = 24" and "list_all pcap_record_ok rs" and "record_cut b"
  shows "let z = start_background_listeners a TEST_PORT_INTERFACE (system0 t0);
      s = d_state (fst (capture_run clock (Inr es) (z_dispatcher z)));
      ps = timed clock 0 (map pr_frame rs) in
    s = \<lparr>y_lldp = listen lldp_handle_packet ps [], y_cdp = listen cdp_handle_packet ps [],
      y_mndp = listen mndp_handle_packet ps [], y_traffic = listen (classify_and_record a) ps (traffic0 t0),
      y_modbus = listen modbus_handle_packet ps modbus_traffic0,
      y_conflict = listen conflict_handle_packet ps [], y_dhcp = listen dhcp_handle_packet ps []\<rparr>"
proof -
  have "d_handlers (z_dispatcher (start_background_listeners a TEST_PORT_INTERFACE (system0 t0))) =
    [lldp_handler, cdp_handler, mndp_handler, traffic_handler a, modbus_handler, conflict_handler, dhcp_handler]"
    using startup_registered by (simp add: registered_def)
  with capture_run_framing [OF assms, of clock
      "z_dispatcher (start_background_listeners a TEST_PORT_INTERFACE (system0 t0))"] show ?thesis
    by (auto simp: Let_def split_def fold_fan_out_alone listeners0_def)
qed

theorem capture_bytes_to_listeners_witness:
  "let r = \<lparr>pr_time = replicate 8 0, pr_frame = [1, 2, 3], pr_orig = [3, 0, 0, 0]\<rparr>;
      z = start_background_listeners None TEST_PORT_INTERFACE (system0 0);
      es = [Chunk (replicate 20 7), Chunk (replicate 4 7 @ record_bytes r)]
   in y_lldp (d_state (fst (capture_run real (Inr es) (z_dispatcher z)))) =
      listen lldp_handle_packet [(0, [1, 2, 3])] []"
proof -
  let ?r = "\<lparr>pr_time = replicate 8 0, pr_frame = [1, 2, 3], pr_orig = [3, 0, 0, 0]\<rparr>"
  let ?es = "[Chunk (replicate 20 7), Chunk (replicate 4 7 @ record_bytes ?r)]"
  have ok: "pcap_record_ok ?r" by (simp add: pcap_record_ok_def)
  have "stream_bytes ?es = replicate 24 7 @ concat (map record_bytes [?r]) @ []"
    using replicate_add [of 20 4 "7 :: byte"] by simp
  moreover have "clean ?es" "length (replicate 24 (7 :: byte)) = 24" "list_all pcap_record_ok [?r]"
    using ok by simp_all
  ultimately show ?thesis
    using capture_bytes_to_listeners [of ?es "replicate 24 7" "[?r]" "[]" None 0 real] record_cut_Nil
    by (simp add: Let_def)
qed

end
