(* ===== verification/Pcap_Files.thy ===== *)
theory Pcap_Files
  imports Py_Dict Py_Text
begin

text \<open>
  The capture directory of \<open>backend/capture/pcap.py\<close>: the guard on file names, the total storage
  cap \<open>_prune_oldest\<close>, and the list, download and delete operations.

  The directory is the list of its entries in the order the file system yields them, or \<open>None\<close> while
  it does not exist.  What the operating system answers, other than the entries themselves, is the
  record \<open>os_answers\<close>: a \<open>stat\<close> or \<open>unlink\<close> may fail for any name (another caller removed the file,
  the name is a directory, permissions), and every \<open>except OSError\<close> of the code is a branch on it.
\<close>

record entry =
  e_name :: pystr
  e_mtime :: real
  e_size :: nat
  e_is_file :: bool

type_synonym capture_dir = "entry list option"

text \<open>The \<open>stat\<close> of the sort key, the \<open>stat\<close> of the sum, the \<open>stat\<close> and \<open>unlink\<close> of the pruning
  loop, the error, if any, of the \<open>unlink\<close> of \<open>delete_capture\<close> on an existing entry, and what is at a path
  outside the capture directory.\<close>

record os_answers =
  os_sort_stat :: "pystr \<Rightarrow> bool"
  os_sum_stat :: "pystr \<Rightarrow> bool"
  os_unlink :: "pystr \<Rightarrow> bool"
  os_delete_error :: "pystr \<Rightarrow> pystr option"
  os_elsewhere :: "pystr list \<Rightarrow> entry option"

definition MAX_TOTAL_BYTES :: int where
  "MAX_TOTAL_BYTES = 1000000000"

section \<open>File names\<close>

definition safe_filename :: "pystr \<Rightarrow> bool" where
  "safe_filename name \<longleftrightarrow>
     name \<noteq> [] \<and> 47 \<notin> set name \<and> 92 \<notin> set name \<and> name \<noteq> lit ''.'' \<and> name \<noteq> lit ''..''"

text \<open>\<open>glob("*.pcap")\<close>\<close>

definition is_pcap :: "entry \<Rightarrow> bool" where
  "is_pcap e \<longleftrightarrow> startswith (rev (e_name e)) (rev (lit ''.pcap''))"

text \<open>\<open>base / name\<close> of \<open>pathlib\<close>, as path components: an absolute name replaces the base, empty
  components and single dots disappear, double dots stay.\<close>

definition path_join :: "pystr list \<Rightarrow> pystr \<Rightarrow> pystr list" where
  "path_join base name =
     (if startswith name [47] then [] else base) @ filter (\<lambda>p. p \<noteq> [] \<and> p \<noteq> lit ''.'') (split_on 47 name)"

text \<open>\<open>f"lanpi-{session_start}-{part:03d}.pcap"\<close>\<close>

definition dec3 :: "nat \<Rightarrow> pystr" where
  "dec3 n = replicate (3 - length (dec n)) 48 @ dec n"

definition part_name :: "pystr \<Rightarrow> nat \<Rightarrow> pystr" where
  "part_name session_start part = lit ''lanpi-'' @ session_start @ lit ''-'' @ dec3 part @ lit ''.pcap''"

section \<open>Storage cap\<close>

definition pcap_files :: "entry list \<Rightarrow> entry list" where
  "pcap_files d = sort_key e_mtime (filter is_pcap d)"

definition unlink :: "pystr \<Rightarrow> entry list \<Rightarrow> entry list" where
  "unlink name d = filter (\<lambda>e. e_name e \<noteq> name) d"

fun prune_loop :: "os_answers \<Rightarrow> pystr option \<Rightarrow> int \<Rightarrow> entry list \<Rightarrow> entry list \<Rightarrow> entry list" where
  "prune_loop os protect total_bytes [] d = d"
| "prune_loop os protect total_bytes (f # fs) d =
     (if total_bytes \<le> MAX_TOTAL_BYTES then d
      else if Some (e_name f) = protect then prune_loop os protect total_bytes fs d
      else if os_unlink os (e_name f)
      then prune_loop os protect (total_bytes - int (e_size f)) fs (unlink (e_name f) d)
      else prune_loop os protect total_bytes fs d)"

definition prune_oldest :: "os_answers \<Rightarrow> pystr option \<Rightarrow> capture_dir \<Rightarrow> capture_dir" where
  "prune_oldest os protect dir =
     (case dir of
        None \<Rightarrow> None
      | Some d \<Rightarrow>
          if \<not> list_all (\<lambda>e. os_sort_stat os (e_name e)) (filter is_pcap d) then Some d
          else let files = pcap_files d;
                   total_bytes = sum_list (map (int \<circ> e_size) (filter (\<lambda>e. os_sum_stat os (e_name e)) files))
               in Some (prune_loop os protect total_bytes files d))"

section \<open>List, download, delete\<close>

record capture_row =
  cr_filename :: pystr
  cr_size_bytes :: nat
  cr_modified :: int

text \<open>A \<open>stat\<close> that fails while the list is sorted is not caught.\<close>

definition list_captures :: "os_answers \<Rightarrow> capture_dir \<Rightarrow> exn + capture_row list" where
  "list_captures os dir =
     (case dir of
        None \<Rightarrow> Inr []
      | Some d \<Rightarrow>
          if list_all (\<lambda>e. os_sort_stat os (e_name e)) (filter is_pcap d)
          then Inr (map (\<lambda>e. \<lparr>cr_filename = e_name e, cr_size_bytes = e_size e, cr_modified = py_int (e_mtime e)\<rparr>)
                     (sort_desc e_mtime (filter is_pcap d)))
          else Inl (OsError (lit ''No such file or directory'')))"

definition lookup_entry :: "capture_dir \<Rightarrow> pystr \<Rightarrow> entry option" where
  "lookup_entry dir name = (case dir of None \<Rightarrow> None | Some d \<Rightarrow> find (\<lambda>e. e_name e = name) d)"

text \<open>What is at a path: an entry of the capture directory \<open>base\<close>, or something elsewhere.\<close>

definition inside :: "pystr list \<Rightarrow> pystr list \<Rightarrow> bool" where
  "inside base path \<longleftrightarrow> path \<noteq> [] \<and> butlast path = base \<and> last path \<noteq> lit ''..''"

definition at_path :: "os_answers \<Rightarrow> pystr list \<Rightarrow> capture_dir \<Rightarrow> pystr list \<Rightarrow> entry option" where
  "at_path os base dir path =
     (if inside base path then lookup_entry dir (last path) else os_elsewhere os path)"

definition get_capture_path :: "os_answers \<Rightarrow> pystr list \<Rightarrow> capture_dir \<Rightarrow> pystr \<Rightarrow> pystr list option" where
  "get_capture_path os base dir filename =
     (if \<not> safe_filename filename then None
      else let path = path_join base filename
        in case at_path os base dir path of
             Some e \<Rightarrow> if e_is_file e then Some path else None
           | None \<Rightarrow> None)"

text \<open>The reply is \<open>ok\<close> and the message; with it comes the path that has been unlinked, if any.  \<open>unlink\<close> of a name
  with a null character raises a \<open>ValueError\<close>, which no clause catches.\<close>

definition delete_capture ::
  "os_answers \<Rightarrow> pystr list \<Rightarrow> pystr \<Rightarrow> capture_dir \<Rightarrow> exn + (bool \<times> pystr) \<times> pystr list option \<times> capture_dir" where
  "delete_capture os base filename dir =
     (if \<not> safe_filename filename then Inr ((False, lit ''invalid filename''), None, dir)
      else if 0 \<in> set filename then Inl ValueError
      else let path = path_join base filename
        in case at_path os base dir path of
             None \<Rightarrow> Inr ((False, lit ''capture not found''), None, dir)
           | Some e \<Rightarrow>
               (case os_delete_error os filename of
                  Some m \<Rightarrow> Inr ((False, m), None, dir)
                | None \<Rightarrow> Inr ((True, lit ''deleted''), Some path,
                    if inside base path then map_option (unlink (last path)) dir else dir)))"

section \<open>What the guard and the cap give\<close>

lemma path_join_safe:
  assumes "safe_filename name"
  shows "path_join base name = base @ [name]"
proof -
  have "split_on 47 name = [name]" using assms by (intro split_on_no_sep) (simp add: safe_filename_def)
  moreover have "\<not> startswith name [47]"
    using assms by (cases name) (auto simp: safe_filename_def startswith_def)
  ultimately show ?thesis using assms by (simp add: path_join_def safe_filename_def)
qed

lemma at_path_safe:
  assumes "safe_filename name"
  shows "at_path os base dir (base @ [name]) = lookup_entry dir name" and "inside base (base @ [name])"
  using assms by (simp_all add: at_path_def inside_def safe_filename_def)

lemma lookup_entryD: "lookup_entry dir name = Some e \<Longrightarrow> \<exists>d. dir = Some d \<and> e \<in> set d \<and> e_name e = name"
  by (auto simp: lookup_entry_def find_Some_iff split: option.splits)

definition size_of :: "entry list \<Rightarrow> int" where
  "size_of es = sum_list (map (int \<circ> e_size) es)"

lemma size_of_simps [simp]: "size_of [] = 0" "size_of (e # es) = int (e_size e) + size_of es"
  by (simp_all add: size_of_def)

definition newest_within_cap :: "entry list \<Rightarrow> nat \<Rightarrow> bool" where
  "newest_within_cap files n \<longleftrightarrow> n \<le> length files \<and> size_of (drop n files) \<le> MAX_TOTAL_BYTES \<and>
     (\<forall>m < n. MAX_TOTAL_BYTES < size_of (drop m files))"

lemma prune_loop_newest:
  "(\<And>f. f \<in> set fs \<Longrightarrow> os_unlink os (e_name f)) \<Longrightarrow>
   \<exists>n. newest_within_cap fs n \<and>
     prune_loop os None (size_of fs) fs d = filter (\<lambda>e. e_name e \<notin> e_name ` set (take n fs)) d"
proof (induction fs arbitrary: d)
  case Nil
  then show ?case by (auto simp: newest_within_cap_def MAX_TOTAL_BYTES_def)
next
  case (Cons f fs)
  show ?case
  proof (cases "size_of (f # fs) \<le> MAX_TOTAL_BYTES")
    case True
    then have "newest_within_cap (f # fs) 0" by (simp add: newest_within_cap_def)
    with True show ?thesis by (intro exI [of _ 0]) simp
  next
    case False
    obtain n where n: "newest_within_cap fs n"
      and r: "prune_loop os None (size_of fs) fs (unlink (e_name f) d)
        = filter (\<lambda>e. e_name e \<notin> e_name ` set (take n fs)) (unlink (e_name f) d)"
      using Cons.IH [of "unlink (e_name f) d"] Cons.prems by auto
    have "newest_within_cap (f # fs) (Suc n)"
      using n False by (auto simp: newest_within_cap_def less_Suc_eq_0_disj)
    moreover have "prune_loop os None (size_of (f # fs)) (f # fs) d
        = filter (\<lambda>e. e_name e \<notin> e_name ` set (take (Suc n) (f # fs))) d"
      using False r Cons.prems [of f] by (simp add: unlink_def conj_commute)
    ultimately show ?thesis by blast
  qed
qed

text \<open>A capture is an entry whose name ends in .pcap.\<close>

definition is_capture :: "entry \<Rightarrow> bool" where
  "is_capture e \<longleftrightarrow> (\<exists>stem. e_name e = stem @ lit ''.pcap'')"

lemma is_pcap_capture: "is_pcap e \<longleftrightarrow> is_capture e"
proof -
  have "is_pcap e \<longleftrightarrow> (\<exists>r. rev (e_name e) = rev (lit ''.pcap'') @ r)" by (simp add: is_pcap_def startswith_iff)
  also have "\<dots> \<longleftrightarrow> (\<exists>r. e_name e = rev r @ lit ''.pcap'')" by (metis rev_append rev_rev_ident)
  also have "\<dots> \<longleftrightarrow> is_capture e" unfolding is_capture_def by (metis rev_rev_ident)
  finally show ?thesis .
qed

lemma size_of_mset: "mset xs = mset ys \<Longrightarrow> size_of xs = size_of ys"
proof -
  assume "mset xs = mset ys"
  then have "sum_mset (image_mset (int \<circ> e_size) (mset xs)) = sum_mset (image_mset (int \<circ> e_size) (mset ys))" by simp
  then show "size_of xs = size_of ys" by (simp add: size_of_def sum_mset_sum_list flip: mset_map)
qed

text \<open>Among entries of different names, those left are the captures from the \<open>n\<close>-th on.\<close>

lemma kept_captures:
  assumes "distinct (map e_name d)"
  defines "left \<equiv> \<lambda>n. filter (\<lambda>e. e_name e \<notin> e_name ` set (take n (pcap_files d))) d"
  shows "e \<in> set (left n) \<longleftrightarrow> e \<in> set d \<and> e \<notin> set (take n (pcap_files d))"
    and "size_of (filter is_capture (left n)) = size_of (drop n (pcap_files d))"
proof -
  let ?files = "pcap_files d"
  have files: "mset ?files = mset (filter is_capture d)" by (simp add: pcap_files_def is_pcap_capture)
  have "distinct d" using assms(1) by (simp add: distinct_map)
  then have dist: "distinct ?files" by (simp add: pcap_files_def)
  have sub: "set ?files \<subseteq> set d" by (auto simp: pcap_files_def)
  have name: "e_name e \<in> e_name ` set (take n ?files) \<longleftrightarrow> e \<in> set (take n ?files)" if "e \<in> set d" for e
    using that assms(1) sub set_take_subset [of n ?files] by (force simp: distinct_map dest: inj_onD)
  show "e \<in> set (left n) \<longleftrightarrow> e \<in> set d \<and> e \<notin> set (take n ?files)"
    unfolding left_def using name by auto
  have "filter is_capture (left n) = filter (\<lambda>e. e \<notin> set (take n ?files)) (filter is_capture d)"
    unfolding left_def filter_filter using name by (intro filter_cong) auto
  then have "mset (filter is_capture (left n)) = mset (filter (\<lambda>e. e \<notin> set (take n ?files)) ?files)"
    using files by (simp only: mset_filter)
  also have "filter (\<lambda>e. e \<notin> set (take n ?files)) ?files = drop n ?files"
  proof -
    have "filter (\<lambda>e. e \<notin> set (take n ?files)) (take n ?files @ drop n ?files) = drop n ?files"
      using set_take_disj_set_drop_if_distinct [OF dist order_refl, of n]
      unfolding filter_append by (auto simp: filter_empty_conv filter_id_conv)
    then show ?thesis by simp
  qed
  finally show "size_of (filter is_capture (left n)) = size_of (drop n ?files)" by (rule size_of_mset)
qed

text \<open>C26: When the operating system refuses nothing, the pruning pass deletes exactly the oldest captures it has
  to.  Every entry whose name does not end in .pcap stays, and so do the order and the contents of what is left;
  a deleted capture is never newer than one that is left; the captures left take at most 1,000,000,000 bytes;
  and if any capture was deleted, the last of them (as new as any deleted one) had to go: with it, those left
  would take more.\<close>

theorem prune_keeps_newest:
  assumes "\<And>name. os_sort_stat os name" and "\<And>name. os_sum_stat os name"
    and "\<And>e. e \<in> set d \<Longrightarrow> os_unlink os (e_name e)" and "distinct (map e_name d)"
  shows "\<exists>d'. prune_oldest os None (Some d) = Some d' \<and> (\<exists>keep. d' = filter keep d) \<and>
    (\<forall>e \<in> set d. \<not> is_capture e \<longrightarrow> e \<in> set d') \<and>
    (\<forall>e \<in> set d - set d'. \<forall>f \<in> set d'. is_capture f \<longrightarrow> e_mtime e \<le> e_mtime f) \<and>
    size_of (filter is_capture d') \<le> 1000000000 \<and>
    (set d' \<noteq> set d \<longrightarrow> (\<exists>e \<in> set d - set d'. (\<forall>f \<in> set d - set d'. e_mtime f \<le> e_mtime e) \<and>
       1000000000 < int (e_size e) + size_of (filter is_capture d')))"
proof -
  let ?files = "pcap_files d"
  have "\<And>f. f \<in> set ?files \<Longrightarrow> os_unlink os (e_name f)" using assms(3) by (auto simp: pcap_files_def)
  from prune_loop_newest [of ?files os, OF this] obtain n where n: "newest_within_cap ?files n"
    and r: "prune_loop os None (size_of ?files) ?files d = filter (\<lambda>e. e_name e \<notin> e_name ` set (take n ?files)) d"
    by blast
  let ?d = "filter (\<lambda>e. e_name e \<notin> e_name ` set (take n ?files)) d"
  note left = kept_captures(1) [OF assms(4), of _ n] kept_captures(2) [OF assms(4), of n]
  have 0: "prune_oldest os None (Some d) = Some ?d"
    using assms(1,2) r by (simp add: prune_oldest_def size_of_def list_all_iff Let_def)
  have caps: "set ?files = {e \<in> set d. is_capture e}" by (auto simp: pcap_files_def is_pcap_capture)
  have order: "i \<le> j \<Longrightarrow> j < length ?files \<Longrightarrow> e_mtime (?files ! i) \<le> e_mtime (?files ! j)" for i j
    using sorted_nth_mono [OF sorted_sort_key [of e_mtime "filter is_pcap d"], of i j] by (simp add: pcap_files_def)
  have gone: "set d - set ?d = set (take n ?files)"
    using left(1) caps set_take_subset [of n ?files] by auto
  have 1: "\<forall>e \<in> set d. \<not> is_capture e \<longrightarrow> e \<in> set ?d"
    using left(1) caps set_take_subset [of n ?files] by blast
  have "\<forall>e \<in> set (take n ?files). \<forall>f \<in> set (drop n ?files). e_mtime e \<le> e_mtime f"
    using order by (auto simp: in_set_conv_nth)
  moreover have "f \<in> set (drop n ?files)" if "f \<in> set ?d" "is_capture f" for f
  proof -
    have "set ?files = set (take n ?files) \<union> set (drop n ?files)" by (metis append_take_drop_id set_append)
    moreover have "f \<in> set ?files" "f \<notin> set (take n ?files)" using that caps left(1) [of f] by auto
    ultimately show ?thesis by blast
  qed
  ultimately have 2: "\<forall>e \<in> set d - set ?d. \<forall>f \<in> set ?d. is_capture f \<longrightarrow> e_mtime e \<le> e_mtime f"
    unfolding gone by blast
  have 3: "size_of (filter is_capture ?d) \<le> 1000000000"
    using n left(2) by (simp add: newest_within_cap_def MAX_TOTAL_BYTES_def)
  have 4: "\<exists>e \<in> set d - set ?d. (\<forall>f \<in> set d - set ?d. e_mtime f \<le> e_mtime e) \<and>
      1000000000 < int (e_size e) + size_of (filter is_capture ?d)" if "set ?d \<noteq> set d"
  proof -
    from that gone have "take n ?files \<noteq> []" by auto
    then have pos: "0 < n" "n \<le> length ?files" using n by (auto simp: newest_within_cap_def)
    let ?e = "?files ! (n - 1)"
    have "MAX_TOTAL_BYTES < size_of (drop (n - 1) ?files)" using n pos(1) by (simp add: newest_within_cap_def)
    moreover have "drop (n - 1) ?files = ?e # drop n ?files"
      using Cons_nth_drop_Suc [of "n - 1" ?files] pos by simp
    ultimately have "1000000000 < int (e_size ?e) + size_of (filter is_capture ?d)"
      using left(2) by (simp add: MAX_TOTAL_BYTES_def)
    moreover have "?e \<in> set (take n ?files)" using pos by (auto simp: in_set_conv_nth intro!: exI [of _ "n - 1"])
    moreover have "\<forall>f \<in> set (take n ?files). e_mtime f \<le> e_mtime ?e"
      using order pos by (auto simp: in_set_conv_nth)
    ultimately show ?thesis unfolding gone by blast
  qed
  show ?thesis using 0 1 2 3 4 by blast
qed

definition sample_dir :: "entry list" where
  "sample_dir = [\<lparr>e_name = lit ''b.pcap'', e_mtime = 2, e_size = 600000000, e_is_file = True\<rparr>,
     \<lparr>e_name = lit ''notes.txt'', e_mtime = 0, e_size = 900000000, e_is_file = True\<rparr>,
     \<lparr>e_name = lit ''a.pcap'', e_mtime = 1, e_size = 600000000, e_is_file = True\<rparr>]"

definition os_fine :: os_answers where
  "os_fine = \<lparr>os_sort_stat = (\<lambda>_. True), os_sum_stat = (\<lambda>_. True), os_unlink = (\<lambda>_. True),
     os_delete_error = (\<lambda>_. None), os_elsewhere = (\<lambda>_. None)\<rparr>"

theorem prune_keeps_newest_witness:
  "\<exists>d'. prune_oldest os_fine None (Some sample_dir) = Some d' \<and> size_of (filter is_capture d') \<le> 1000000000 \<and>
    sample_dir ! 1 \<in> set d'"
proof -
  have "distinct (map e_name sample_dir)" by (simp add: sample_dir_def lit_def)
  moreover have "\<not> is_capture (sample_dir ! 1)"
    by (simp add: sample_dir_def is_capture_def lit_def)
  moreover have "sample_dir ! 1 \<in> set sample_dir" by (simp add: sample_dir_def)
  moreover have "os_sort_stat os_fine name" "os_sum_stat os_fine name" "os_unlink os_fine name" for name
    by (simp_all add: os_fine_def)
  ultimately obtain d' where "prune_oldest os_fine None (Some sample_dir) = Some d'"
    "\<forall>e \<in> set sample_dir. \<not> is_capture e \<longrightarrow> e \<in> set d'" "size_of (filter is_capture d') \<le> 1000000000"
    using prune_keeps_newest [of os_fine sample_dir] by blast
  with \<open>\<not> is_capture (sample_dir ! 1)\<close> \<open>sample_dir ! 1 \<in> set sample_dir\<close> show ?thesis by blast
qed

text \<open>C38: No file name that a caller sends reaches outside the capture directory, whatever else there is on the
  device: a download path is always the directory's own path with that one name below it, for a regular file
  that the directory lists; the only path a delete unlinks is the same one, it removes exactly the entries of
  that name, and it answers \<open>ok\<close> only if there was one; the only exception is the \<open>ValueError\<close> of a name with a
  null character.\<close>

theorem capture_names_confined:
  "(\<forall>path. get_capture_path os base dir name = Some path \<longrightarrow>
      path = base @ [name] \<and> name \<noteq> lit ''..'' \<and> 47 \<notin> set name \<and>
      (\<exists>d e. dir = Some d \<and> e \<in> set d \<and> e_name e = name \<and> e_is_file e)) \<and>
   (case delete_capture os base name dir of
      Inl e \<Rightarrow> e = ValueError \<and> 0 \<in> set name
    | Inr ((ok, m), unlinked, dir') \<Rightarrow>
        if ok then unlinked = Some (base @ [name]) \<and> name \<noteq> lit ''..'' \<and> 47 \<notin> set name \<and>
          (\<exists>d. dir = Some d \<and> name \<in> e_name ` set d \<and> dir' = Some (filter (\<lambda>e. e_name e \<noteq> name) d))
        else unlinked = None \<and> dir' = dir)"
proof -
  have "\<forall>path. get_capture_path os base dir name = Some path \<longrightarrow>
      path = base @ [name] \<and> name \<noteq> lit ''..'' \<and> 47 \<notin> set name \<and>
      (\<exists>d e. dir = Some d \<and> e \<in> set d \<and> e_name e = name \<and> e_is_file e)"
  proof (cases "safe_filename name")
    case True
    then have "name \<noteq> lit ''..''" "47 \<notin> set name" by (simp_all add: safe_filename_def)
    with True show ?thesis
      by (auto simp: get_capture_path_def path_join_safe at_path_safe split: option.splits if_splits
          dest!: lookup_entryD)
  qed (simp add: get_capture_path_def)
  moreover have "case delete_capture os base name dir of
      Inl e \<Rightarrow> e = ValueError \<and> 0 \<in> set name
    | Inr ((ok, m), unlinked, dir') \<Rightarrow>
        if ok then unlinked = Some (base @ [name]) \<and> name \<noteq> lit ''..'' \<and> 47 \<notin> set name \<and>
          (\<exists>d. dir = Some d \<and> name \<in> e_name ` set d \<and> dir' = Some (filter (\<lambda>e. e_name e \<noteq> name) d))
        else unlinked = None \<and> dir' = dir"
  proof (cases "safe_filename name")
    case True
    then have "name \<noteq> lit ''..''" "47 \<notin> set name" by (simp_all add: safe_filename_def)
    with True show ?thesis
      by (auto simp: delete_capture_def at_path_safe path_join_safe inside_def unlink_def Let_def split: option.splits
          dest!: lookup_entryD)
  qed (simp add: delete_capture_def)
  ultimately show ?thesis ..
qed

theorem capture_names_confined_witness:
  "get_capture_path os_fine [lit ''srv''] (Some sample_dir) (lit ''b.pcap'') = Some [lit ''srv'', lit ''b.pcap''] \<and>
   lit ''b.pcap'' \<noteq> lit ''..''"
  using capture_names_confined [of os_fine "[lit ''srv'']" "Some sample_dir" "lit ''b.pcap''"]
  by (simp add: get_capture_path_def at_path_def inside_def lookup_entry_def sample_dir_def safe_filename_def
      path_join_def startswith_def lit_def Let_def)

end
