(* ===== verification/Pcap_Session.thy ===== *)
theory Pcap_Session
  imports Pcap_Files
begin

text \<open>
  The capture session of \<open>backend/capture/pcap.py\<close>: \<open>start\<close>, \<open>stop\<close>, \<open>status\<close> and the background
  thread \<open>_session_loop\<close> that ends or rotates the running \<open>tcpdump\<close>.

  The world is the module state, the running \<open>tcpdump\<close> processes with their command lines, the capture
  directory, the session threads and the calls of \<open>start\<close> that have not returned.  A thread and a call
  are cut where the code releases its lock or waits, so that any interleaving of them is a list of
  actions: one step of a thread, one step of a call, a call of \<open>stop\<close>, a \<open>tcpdump\<close> that exits (after a
  signal or by itself), any change of the directory by others.  Each step takes what its calls of the
  operating system answer.
\<close>

definition MAX_DURATION_SECONDS :: int where
  "MAX_DURATION_SECONDS = 3600"

definition ROTATE_BYTES :: nat where
  "ROTATE_BYTES = 100000000"

record pcap_state =
  c_running :: bool
  c_filename :: "pystr option"
  c_part :: "nat option"
  c_interface :: "pystr option"
  c_filter :: "pystr option"
  c_started_at :: "real option"
  c_duration :: "int option"
  c_process :: "nat option"
  c_session_id :: nat
  c_stop_requested :: bool

definition pcap_state0 :: pcap_state where
  "pcap_state0 = \<lparr>c_running = False, c_filename = None, c_part = None, c_interface = None, c_filter = None,
     c_started_at = None, c_duration = None, c_process = None, c_session_id = 0, c_stop_requested = False\<rparr>"

text \<open>What a \<open>start\<close> call was asked for: the arguments, the result of \<open>find_binary\<close>, and the text
  of \<open>time.strftime\<close>.\<close>

record request =
  rq_interface :: pystr
  rq_duration :: "int option"
  rq_filter :: "pystr option"
  rq_tcpdump :: "pystr option"
  rq_session_start :: pystr

text \<open>Where a session thread is: before the locked read of the state, after it with the value of
  \<open>_stop_requested\<close>, after the inner loop, before the locked decision, before the next part is
  spawned, after it with the new process, returned.\<close>

datatype thread_pc =
    Watch
  | Polling bool
  | Closing bool
  | Deciding bool
  | Rotating
  | Spawned "nat option"
  | Returned

record session_thread =
  th_request :: request
  th_session_id :: nat
  th_deadline :: "real option"
  th_process :: nat
  th_path :: pystr
  th_part :: nat
  th_pc :: thread_pc

datatype call_pc = Prepare | Settling nat | Committing nat

record start_call =
  sc_request :: request
  sc_session_id :: nat
  sc_pc :: call_pc

record world =
  w_state :: pcap_state
  w_procs :: "(nat \<times> pystr list) list"
  w_next_pid :: nat
  w_signalled :: "nat list"
  w_dir :: capture_dir
  w_threads :: "session_thread list"
  w_calls :: "start_call list"
  w_replies :: "(bool \<times> pystr) list"

definition world0 :: "capture_dir \<Rightarrow> world" where
  "world0 dir = \<lparr>w_state = pcap_state0, w_procs = [], w_next_pid = 0, w_signalled = [], w_dir = dir, w_threads = [],
     w_calls = [], w_replies = []\<rparr>"

text \<open>The answers of the operating system in one step: the clocks, whether \<open>Popen\<close> succeeds, the
  size of the active file (\<open>None\<close> if its \<open>stat\<close> fails), the error output of a \<open>tcpdump\<close> that has
  exited, and those of the directory operations.\<close>

record tick =
  tk_monotonic :: real
  tk_time :: real
  tk_popen :: bool
  tk_size :: "nat option"
  tk_stderr :: pystr
  tk_os :: os_answers

section \<open>Processes\<close>

definition alive :: "nat \<Rightarrow> world \<Rightarrow> bool" where
  "alive pid w \<longleftrightarrow> pid \<in> fst ` set (w_procs w)"

text \<open>A process that has exited; also \<open>send_signal(SIGTERM)\<close> followed by \<open>wait()\<close>, which returns once
  the process has exited.\<close>

definition reap :: "nat \<Rightarrow> world \<Rightarrow> world" where
  "reap pid w = w\<lparr>w_procs := filter (\<lambda>p. fst p \<noteq> pid) (w_procs w)\<rparr>"

definition spawn_args :: "pystr \<Rightarrow> request \<Rightarrow> pystr \<Rightarrow> pystr list" where
  "spawn_args tcpdump rq path =
     [tcpdump, lit ''-i'', rq_interface rq, lit ''-U'', lit ''-nn'', lit ''-w'', path] @
     (case rq_filter rq of None \<Rightarrow> [] | Some f \<Rightarrow> if f = [] then [] else [f])"

definition spawn :: "tick \<Rightarrow> request \<Rightarrow> pystr \<Rightarrow> world \<Rightarrow> nat option \<times> world" where
  "spawn tk rq path w =
     (if tk_popen tk
      then (Some (w_next_pid w),
            w\<lparr>w_procs := (w_next_pid w, spawn_args (the (rq_tcpdump rq)) rq path) # w_procs w,
              w_next_pid := Suc (w_next_pid w)\<rparr>)
      else (None, w))"

section \<open>The session thread\<close>

text \<open>The three assignments that end a session.\<close>

definition finish_session :: "pcap_state \<Rightarrow> pcap_state" where
  "finish_session s = s\<lparr>c_running := False, c_process := None, c_started_at := None\<rparr>"

text \<open>\<open>deadline = time.monotonic() + duration if duration else None\<close>\<close>

definition session_deadline :: "real \<Rightarrow> int option \<Rightarrow> real option" where
  "session_deadline now duration =
     (case duration of None \<Rightarrow> None | Some d \<Rightarrow> if d = 0 then None else Some (now + of_int d))"

definition thread_step :: "tick \<Rightarrow> session_thread \<Rightarrow> world \<Rightarrow> session_thread \<times> world" where
  "thread_step tk th w =
     (let superseded = c_session_id (w_state w) \<noteq> th_session_id th; pid = th_process th in
      case th_pc th of
        Watch \<Rightarrow>
          if superseded then (th\<lparr>th_pc := Returned\<rparr>, reap pid w)
          else (th\<lparr>th_pc := Polling (c_stop_requested (w_state w))\<rparr>, w)
      | Polling stop_requested \<Rightarrow>
          let exited = \<not> alive pid w;
              timed_out = (case th_deadline th of None \<Rightarrow> False | Some d \<Rightarrow> d \<le> tk_monotonic tk);
              oversize = (case tk_size tk of None \<Rightarrow> False | Some n \<Rightarrow> ROTATE_BYTES \<le> n)
          in (th\<lparr>th_pc := if exited \<or> stop_requested \<or> timed_out \<or> oversize
                          then Closing (stop_requested \<or> timed_out \<or> exited) else Watch\<rparr>, w)
      | Closing finishing \<Rightarrow>
          (th\<lparr>th_pc := Deciding finishing\<rparr>,
           (reap pid w)\<lparr>w_dir := prune_oldest (tk_os tk) None (w_dir w)\<rparr>)
      | Deciding finishing \<Rightarrow>
          if superseded then (th\<lparr>th_pc := Returned\<rparr>, w)
          else if finishing then (th\<lparr>th_pc := Returned\<rparr>, w\<lparr>w_state := finish_session (w_state w)\<rparr>)
          else (th\<lparr>th_pc := Rotating\<rparr>, w)
      | Rotating \<Rightarrow>
          let part = th_part th + 1; path = part_name (rq_session_start (th_request th)) part;
              (process, w') = spawn tk (th_request th) path w
          in (th\<lparr>th_part := part, th_path := path, th_pc := Spawned process\<rparr>, w')
      | Spawned process \<Rightarrow>
          if superseded
          then (th\<lparr>th_pc := Returned\<rparr>, case process of None \<Rightarrow> w | Some p \<Rightarrow> reap p w)
          else (case process of
                  None \<Rightarrow> (th\<lparr>th_pc := Returned\<rparr>, w\<lparr>w_state := finish_session (w_state w)\<rparr>)
                | Some p \<Rightarrow>
                    (th\<lparr>th_process := p, th_pc := Watch\<rparr>,
                     w\<lparr>w_state := (w_state w)\<lparr>c_filename := Some (th_path th), c_part := Some (th_part th),
                       c_process := Some p\<rparr>\<rparr>))
      | Returned \<Rightarrow> (th, w))"

definition step_thread :: "nat \<Rightarrow> tick \<Rightarrow> world \<Rightarrow> world" where
  "step_thread i tk w =
     (if i < length (w_threads w)
      then let (th, w') = thread_step tk (w_threads w ! i) w in w'\<lparr>w_threads := (w_threads w)[i := th]\<rparr>
      else w)"

section \<open>start, stop, status\<close>

definition reply :: "bool \<Rightarrow> pystr \<Rightarrow> world \<Rightarrow> world" where
  "reply ok m w = w\<lparr>w_replies := w_replies w @ [(ok, m)]\<rparr>"

text \<open>\<open>send_signal(SIGTERM)\<close> to the process of the state; it takes effect when that process exits.\<close>

definition signal_process :: "world \<Rightarrow> world" where
  "signal_process w =
     (case c_process (w_state w) of
        Some p \<Rightarrow> if c_running (w_state w) then w\<lparr>w_signalled := p # w_signalled w\<rparr> else w
      | None \<Rightarrow> w)"

text \<open>The checks and the first locked section of \<open>start\<close>.\<close>

definition start_begin :: "request \<Rightarrow> world \<Rightarrow> world" where
  "start_begin rq w =
     (if (case rq_duration rq of None \<Rightarrow> False | Some d \<Rightarrow> \<not> (1 \<le> d \<and> d \<le> MAX_DURATION_SECONDS))
      then reply False (lit ''duration must be between 1 and 3600 seconds'') w
      else case rq_tcpdump rq of
             None \<Rightarrow> reply False (lit ''tcpdump not available'') w
           | Some _ \<Rightarrow>
               (signal_process w)\<lparr>w_calls := w_calls w @ [\<lparr>sc_request = rq, sc_session_id = c_session_id (w_state w) + 1,
                   sc_pc = Prepare\<rparr>]\<rparr>)"

definition end_call :: "nat \<Rightarrow> world \<Rightarrow> world" where
  "end_call i w = w\<lparr>w_calls := take i (w_calls w) @ drop (Suc i) (w_calls w)\<rparr>"

definition call_to :: "nat \<Rightarrow> call_pc \<Rightarrow> world \<Rightarrow> world" where
  "call_to i pc w = w\<lparr>w_calls := (w_calls w)[i := (w_calls w ! i)\<lparr>sc_pc := pc\<rparr>]\<rparr>"

text \<open>The rest of \<open>start\<close>: make and prune the directory and spawn; look whether \<open>tcpdump\<close> is still
  there after 0.3 seconds; the second locked section and the new thread.\<close>

definition commit_state :: "real \<Rightarrow> request \<Rightarrow> nat \<Rightarrow> nat \<Rightarrow> pcap_state" where
  "commit_state now rq session_id pid =
     \<lparr>c_running = True, c_filename = Some (part_name (rq_session_start rq) 1), c_part = Some 1,
      c_interface = Some (rq_interface rq), c_filter = rq_filter rq, c_started_at = Some now,
      c_duration = rq_duration rq, c_process = Some pid, c_session_id = session_id,
      c_stop_requested = False\<rparr>"

definition step_call :: "nat \<Rightarrow> tick \<Rightarrow> world \<Rightarrow> world" where
  "step_call i tk w =
     (if i < length (w_calls w)
      then let c = w_calls w ! i; rq = sc_request c; filename = part_name (rq_session_start rq) 1 in
        (case sc_pc c of
           Prepare \<Rightarrow>
             let dir = (case w_dir w of None \<Rightarrow> Some [] | Some d \<Rightarrow> Some d);
                 (process, w') = spawn tk rq filename (w\<lparr>w_dir := prune_oldest (tk_os tk) None dir\<rparr>)
             in (case process of
                   None \<Rightarrow> reply False (lit ''failed to start tcpdump'') (end_call i w')
                 | Some p \<Rightarrow> call_to i (Settling p) w')
         | Settling p \<Rightarrow>
             if alive p w then call_to i (Committing p) w
             else let stderr = strip (tk_stderr tk) in
               reply False (if stderr = [] then lit ''tcpdump exited immediately'' else stderr) (end_call i w)
         | Committing p \<Rightarrow>
             let th = \<lparr>th_request = rq, th_session_id = sc_session_id c,
                       th_deadline = session_deadline (tk_monotonic tk) (rq_duration rq), th_process = p,
                       th_path = filename, th_part = 1, th_pc = Watch\<rparr>
             in reply True filename ((end_call i w)\<lparr>w_state := commit_state (tk_time tk) rq (sc_session_id c) p,
                  w_threads := w_threads w @ [th]\<rparr>))
      else w)"

definition pcap_stop :: "world \<Rightarrow> world" where
  "pcap_stop w =
     (if c_process (w_state w) \<noteq> None \<and> c_running (w_state w)
      then reply True (lit ''capture stopping'') ((signal_process w)\<lparr>w_state := (w_state w)\<lparr>c_stop_requested := True\<rparr>\<rparr>)
      else reply True (lit ''no capture running'') w)"

record capture_status =
  cs_running :: bool
  cs_filename :: "pystr option"
  cs_part :: "nat option"
  cs_interface :: "pystr option"
  cs_filter :: "pystr option"
  cs_duration :: "int option"
  cs_elapsed :: "real option"

definition pcap_status :: "real \<Rightarrow> pcap_state \<Rightarrow> capture_status" where
  "pcap_status now s =
     \<lparr>cs_running = c_running s, cs_filename = c_filename s, cs_part = c_part s, cs_interface = c_interface s,
      cs_filter = c_filter s, cs_duration = c_duration s,
      cs_elapsed = (case c_started_at s of None \<Rightarrow> None
        | Some t \<Rightarrow> if t = 0 then None else Some (round1 (now - t)))\<rparr>"

section \<open>Executions\<close>

datatype pcap_action =
    Begin request
  | Call nat tick
  | Thread nat tick
  | Stop
  | Exit nat
  | Files capture_dir

fun perform :: "pcap_action \<Rightarrow> world \<Rightarrow> world" where
  "perform (Begin rq) w = start_begin rq w"
| "perform (Call i tk) w = step_call i tk w"
| "perform (Thread i tk) w = step_thread i tk w"
| "perform Stop w = pcap_stop w"
| "perform (Exit pid) w = reap pid w"
| "perform (Files dir) w = w\<lparr>w_dir := dir\<rparr>"

definition exec :: "pcap_action list \<Rightarrow> world \<Rightarrow> world" where
  "exec acts w = fold perform acts w"

lemma exec_simps [simp]:
  "exec [] w = w"
  "exec (a # acts) w = exec acts (perform a w)"
  by (simp_all add: exec_def)

lemma exec_append: "exec (as @ bs) w = exec bs (exec as w)"
  by (simp add: exec_def)

section \<open>No orphaned tcpdump\<close>

text \<open>The process a session thread or a call of \<open>start\<close> still has to end or to hand on.\<close>

definition thread_owns :: "session_thread \<Rightarrow> nat \<times> pystr list \<Rightarrow> bool" where
  "thread_owns th p \<longleftrightarrow>
     snd p = spawn_args (the (rq_tcpdump (th_request th))) (th_request th) (th_path th) \<and>
     (case th_pc th of
        Watch \<Rightarrow> fst p = th_process th
      | Polling _ \<Rightarrow> fst p = th_process th
      | Closing _ \<Rightarrow> fst p = th_process th
      | Spawned (Some q) \<Rightarrow> fst p = q
      | _ \<Rightarrow> False)"

definition call_owns :: "start_call \<Rightarrow> nat \<times> pystr list \<Rightarrow> bool" where
  "call_owns c p \<longleftrightarrow>
     snd p = spawn_args (the (rq_tcpdump (sc_request c))) (sc_request c)
       (part_name (rq_session_start (sc_request c)) 1) \<and>
     (case sc_pc c of Prepare \<Rightarrow> False | Settling q \<Rightarrow> fst p = q | Committing q \<Rightarrow> fst p = q)"

definition owned :: "world \<Rightarrow> nat \<times> pystr list \<Rightarrow> bool" where
  "owned w p \<longleftrightarrow> (\<exists>th \<in> set (w_threads w). thread_owns th p) \<or> (\<exists>c \<in> set (w_calls w). call_owns c p)"

lemma reap_simps [simp]:
  "w_procs (reap pid w) = filter (\<lambda>p. fst p \<noteq> pid) (w_procs w)" "w_threads (reap pid w) = w_threads w"
  "w_calls (reap pid w) = w_calls w" "w_state (reap pid w) = w_state w" "w_dir (reap pid w) = w_dir w"
  "w_signalled (reap pid w) = w_signalled w" "w_replies (reap pid w) = w_replies w"
  by (simp_all add: reap_def)

lemma reply_simps [simp]:
  "w_procs (reply ok m w) = w_procs w" "w_threads (reply ok m w) = w_threads w"
  "w_calls (reply ok m w) = w_calls w" "w_state (reply ok m w) = w_state w"
  by (simp_all add: reply_def)

lemma end_call_simps [simp]:
  "w_procs (end_call i w) = w_procs w" "w_threads (end_call i w) = w_threads w"
  "w_calls (end_call i w) = take i (w_calls w) @ drop (Suc i) (w_calls w)" "w_state (end_call i w) = w_state w"
  by (simp_all add: end_call_def)

lemma call_to_simps [simp]:
  "w_procs (call_to i pc w) = w_procs w" "w_threads (call_to i pc w) = w_threads w"
  "w_calls (call_to i pc w) = (w_calls w)[i := (w_calls w ! i)\<lparr>sc_pc := pc\<rparr>]" "w_state (call_to i pc w) = w_state w"
  by (simp_all add: call_to_def)

lemma signal_process_simps [simp]:
  "w_procs (signal_process w) = w_procs w" "w_threads (signal_process w) = w_threads w"
  "w_calls (signal_process w) = w_calls w" "w_state (signal_process w) = w_state w"
  by (simp_all add: signal_process_def split: option.splits)

lemma spawn_cases:
  obtains "spawn tk rq path w = (None, w)"
  | w' where "spawn tk rq path w = (Some (w_next_pid w), w')"
    and "w_procs w' = (w_next_pid w, spawn_args (the (rq_tcpdump rq)) rq path) # w_procs w"
    and "w_threads w' = w_threads w" "w_calls w' = w_calls w" "w_state w' = w_state w"
  by (cases "tk_popen tk") (auto simp: spawn_def)

text \<open>One step of a thread: every process it leaves running was running and still has its owner, or is
  the thread's own.\<close>

lemma thread_step_owns:
  assumes "thread_step tk th w = (th', w')" and "p \<in> set (w_procs w')"
  shows "thread_owns th' p \<or> (p \<in> set (w_procs w) \<and> \<not> thread_owns th p)"
proof (cases "th_pc th")
  case Rotating
  with assms show ?thesis
    by (cases rule: spawn_cases [of tk "th_request th"
          "part_name (rq_session_start (th_request th)) (th_part th + 1)" w])
      (auto simp: thread_step_def thread_owns_def Let_def split: prod.splits)
qed (use assms in \<open>auto simp: thread_step_def thread_owns_def Let_def split: if_splits option.splits\<close>)

lemma thread_step_frame:
  assumes "thread_step tk th w = (th', w')"
  shows "w_threads w' = w_threads w" "w_calls w' = w_calls w"
  using assms
  by (cases "th_pc th"; auto simp: thread_step_def spawn_def Let_def split: if_splits option.splits)+

lemma step_thread_owned:
  assumes "\<And>p. p \<in> set (w_procs w) \<Longrightarrow> owned w p" and "p \<in> set (w_procs (step_thread i tk w))"
  shows "owned (step_thread i tk w) p"
proof (cases "i < length (w_threads w)")
  case False
  with assms show ?thesis by (simp add: step_thread_def)
next
  case i: True
  obtain th' w' where t: "thread_step tk (w_threads w ! i) w = (th', w')" by fastforce
  note frame = thread_step_frame [OF t]
  have new: "w_threads (step_thread i tk w) = (w_threads w)[i := th']" "w_calls (step_thread i tk w) = w_calls w"
    using i t frame by (simp_all add: step_thread_def)
  have p: "p \<in> set (w_procs w')" using assms(2) i t by (simp add: step_thread_def)
  show ?thesis
  proof (cases "thread_owns th' p")
    case True
    then show ?thesis using i by (auto simp: owned_def new set_update_memI)
  next
    case False
    with thread_step_owns [OF t p] have q: "p \<in> set (w_procs w)" "\<not> thread_owns (w_threads w ! i) p" by blast+
    from assms(1) [OF q(1)] show ?thesis
      unfolding owned_def new
    proof
      assume "\<exists>th \<in> set (w_threads w). thread_owns th p"
      then obtain j where "j < length (w_threads w)" "thread_owns (w_threads w ! j) p"
        by (metis in_set_conv_nth)
      moreover from this q(2) have "j \<noteq> i" by blast
      ultimately have "w_threads w ! j \<in> set ((w_threads w)[i := th'])"
        by (metis length_list_update nth_list_update_neq nth_mem)
      with \<open>thread_owns (w_threads w ! j) p\<close>
      show "(\<exists>th \<in> set ((w_threads w)[i := th']). thread_owns th p) \<or> (\<exists>c \<in> set (w_calls w). call_owns c p)"
        by blast
    qed blast
  qed
qed

text \<open>The same for a call of \<open>start\<close>.  Removing entry \<open>i\<close> of a list loses only that entry.\<close>

lemma in_set_removed:
  assumes "x \<in> set xs" and "x \<noteq> xs ! i"
  shows "x \<in> set (take i xs @ drop (Suc i) xs)"
proof (cases "i < length xs")
  case True
  then have "xs = take i xs @ xs ! i # drop (Suc i) xs" by (rule id_take_nth_drop)
  then have "set xs = set (take i xs @ xs ! i # drop (Suc i) xs)" by (rule arg_cong)
  with assms show ?thesis by auto
next
  case False
  with assms show ?thesis by simp
qed

lemma owned_without_call:
  assumes "owned w p" and "\<not> call_owns (w_calls w ! i) p"
    and "set (w_threads w) \<subseteq> set (w_threads w')"
    and "set (take i (w_calls w) @ drop (Suc i) (w_calls w)) \<subseteq> set (w_calls w')"
  shows "owned w' p"
  using assms in_set_removed [of _ "w_calls w" i] unfolding owned_def by blast

lemma set_removed_update: "set (take i xs @ drop (Suc i) xs) \<subseteq> set (xs[i := y])"
  by (cases "i < length xs") (auto simp: upd_conv_take_nth_drop list_update_beyond)

lemma owned_call_to:
  assumes "owned w p" and "\<not> call_owns (w_calls w ! i) p"
    and "w_threads w' = w_threads w" and "w_calls w' = w_calls w"
  shows "owned (call_to i pc w') p"
proof (rule owned_without_call [OF assms(1,2)])
  show "set (take i (w_calls w) @ drop (Suc i) (w_calls w)) \<subseteq> set (w_calls (call_to i pc w'))"
    using set_removed_update [of i "w_calls w"] assms(4) by simp
qed (use assms(3) in simp)

lemma owned_mono:
  "owned w p \<Longrightarrow> set (w_threads w) \<subseteq> set (w_threads w') \<Longrightarrow> set (w_calls w) \<subseteq> set (w_calls w') \<Longrightarrow> owned w' p"
  unfolding owned_def by blast

lemma start_begin_frame:
  "w_procs (start_begin rq w) = w_procs w" "w_threads (start_begin rq w) = w_threads w"
  "set (w_calls w) \<subseteq> set (w_calls (start_begin rq w))"
  by (auto simp: start_begin_def split: option.splits)

lemma pcap_stop_frame:
  "w_procs (pcap_stop w) = w_procs w" "w_threads (pcap_stop w) = w_threads w" "w_calls (pcap_stop w) = w_calls w"
  by (simp_all add: pcap_stop_def)

lemma step_call_owned:
  assumes inv: "\<And>p. p \<in> set (w_procs w) \<Longrightarrow> owned w p" and p: "p \<in> set (w_procs (step_call i tk w))"
  shows "owned (step_call i tk w) p"
proof (cases "i < length (w_calls w)")
  case False
  with assms show ?thesis by (simp add: step_call_def)
next
  case i: True
  define c where "c = w_calls w ! i"
  show ?thesis
  proof (cases "sc_pc c")
    case Prepare
    define w1 where "w1 = w\<lparr>w_dir := prune_oldest (tk_os tk) None (case w_dir w of None \<Rightarrow> Some [] | Some d \<Rightarrow> Some d)\<rparr>"
    have w1: "w_procs w1 = w_procs w" "w_threads w1 = w_threads w" "w_calls w1 = w_calls w"
      by (simp_all add: w1_def)
    have c: "\<not> call_owns (w_calls w ! i) p" using Prepare by (simp add: c_def call_owns_def)
    show ?thesis
    proof (cases rule: spawn_cases [of tk "sc_request c" "part_name (rq_session_start (sc_request c)) 1" w1])
      case 1
      then have "step_call i tk w = reply False (lit ''failed to start tcpdump'') (end_call i w1)"
        using i Prepare by (simp add: step_call_def Let_def c_def w1_def)
      moreover from this p w1 inv have "owned w p" by simp
      ultimately show ?thesis using w1 owned_without_call [OF _ c] by simp
    next
      case (2 w')
      then have e: "step_call i tk w = call_to i (Settling (w_next_pid w1)) w'"
        using i Prepare by (simp add: step_call_def Let_def c_def w1_def)
      show ?thesis
      proof (cases "p \<in> set (w_procs w)")
        case True
        show ?thesis
          unfolding e by (rule owned_call_to [OF inv [OF True] c]) (use w1 2 in simp_all)
      next
        case False
        with p 2 e w1 have "call_owns (c\<lparr>sc_pc := Settling (w_next_pid w1)\<rparr>) p" by (simp add: call_owns_def)
        with i 2 e w1 show ?thesis by (auto simp: owned_def c_def set_update_memI)
      qed
    qed
  next
    case (Settling q)
    show ?thesis
    proof (cases "alive q w")
      case True
      then have e: "step_call i tk w = call_to i (Committing q) w"
        using i Settling by (simp add: step_call_def Let_def c_def)
      show ?thesis
      proof (cases "call_owns c p")
        case True
        then have "call_owns (c\<lparr>sc_pc := Committing q\<rparr>) p" using Settling by (simp add: call_owns_def)
        with i e show ?thesis by (auto simp: owned_def c_def set_update_memI)
      next
        case False
        moreover from p e inv have "owned w p" by simp
        ultimately show ?thesis unfolding e by (auto intro!: owned_call_to [of w] simp: c_def)
      qed
    next
      case False
      then have e: "w_procs (step_call i tk w) = w_procs w" "w_threads (step_call i tk w) = w_threads w"
        "w_calls (step_call i tk w) = take i (w_calls w) @ drop (Suc i) (w_calls w)"
        using i Settling by (simp_all add: step_call_def Let_def c_def)
      with False p Settling have "\<not> call_owns c p" by (auto simp: call_owns_def alive_def)
      moreover from p e inv have "owned w p" by simp
      ultimately show ?thesis using e owned_without_call [of w p i] by (simp add: c_def)
    qed
  next
    case (Committing q)
    obtain th where e: "w_procs (step_call i tk w) = w_procs w"
      "w_threads (step_call i tk w) = w_threads w @ [th]"
      "w_calls (step_call i tk w) = take i (w_calls w) @ drop (Suc i) (w_calls w)"
      and th: "th_process th = q" "th_pc th = Watch" "th_request th = sc_request c"
      "th_path th = part_name (rq_session_start (sc_request c)) 1"
      using i Committing by (simp add: step_call_def Let_def c_def)
    show ?thesis
    proof (cases "call_owns c p")
      case True
      with th Committing have "thread_owns th p" by (simp add: call_owns_def thread_owns_def)
      with e show ?thesis by (auto simp: owned_def)
    next
      case False
      moreover from p e inv have "owned w p" by simp
      ultimately show ?thesis using e owned_without_call [of w p i] by (simp add: c_def subset_insertI2)
    qed
  qed
qed

lemma perform_owned:
  assumes inv: "\<And>p. p \<in> set (w_procs w) \<Longrightarrow> owned w p" and p: "p \<in> set (w_procs (perform a w))"
  shows "owned (perform a w) p"
proof (cases a)
  case (Call i tk)
  with p step_call_owned [of w p i tk] inv show ?thesis by simp
next
  case (Thread i tk)
  with p step_thread_owned [of w p i tk] inv show ?thesis by simp
next
  case (Begin rq)
  with p inv have "owned w p" by (simp add: start_begin_frame)
  with Begin show ?thesis by (simp add: owned_mono start_begin_frame)
next
  case (Exit pid)
  with p inv have "owned w p" by simp
  with Exit show ?thesis by (simp add: owned_def)
next
  case Stop
  with p inv have "owned w p" by (simp add: pcap_stop_frame)
  with Stop show ?thesis by (simp add: owned_mono pcap_stop_frame)
next
  case (Files dir)
  with p inv have "owned w p" by simp
  with Files show ?thesis by (simp add: owned_def)
qed

lemma exec_owned:
  "(\<And>p. p \<in> set (w_procs w) \<Longrightarrow> owned w p) \<Longrightarrow> p \<in> set (w_procs (exec acts w)) \<Longrightarrow> owned (exec acts w) p"
proof (induction acts arbitrary: w)
  case Nil
  then show ?case by simp
next
  case (Cons a acts)
  then show ?case using perform_owned by simp
qed

text \<open>C6: No capture is left running by itself.  After any interleaving of calls of start and stop,
  of the session threads, of tcpdump processes that exit and of changes of the directory, every running
  tcpdump belongs to a session thread that has not returned or to a call of start that has not
  returned, and was started by that request to write that owner's current part file.  So once every
  thread and call has returned, no tcpdump runs.\<close>

theorem pcap_no_orphans:
  "let w = exec acts (world0 dir) in
    list_all (\<lambda>(pid, args).
      list_ex (\<lambda>th. th_pc th \<noteq> Returned \<and>
         args = spawn_args (the (rq_tcpdump (th_request th))) (th_request th) (th_path th) \<and>
         (th_process th = pid \<or> th_pc th = Spawned (Some pid))) (w_threads w) \<or>
      list_ex (\<lambda>c. sc_pc c \<in> {Settling pid, Committing pid} \<and>
         args = spawn_args (the (rq_tcpdump (sc_request c))) (sc_request c)
           (part_name (rq_session_start (sc_request c)) 1)) (w_calls w)) (w_procs w)"
proof -
  define w where "w = exec acts (world0 dir)"
  have own: "owned w p" if "p \<in> set (w_procs w)" for p
    using that unfolding w_def by (rule exec_owned [rotated]) (simp add: world0_def)
  have thread: "th_pc th \<noteq> Returned \<and>
         args = spawn_args (the (rq_tcpdump (th_request th))) (th_request th) (th_path th) \<and>
         (th_process th = pid \<or> th_pc th = Spawned (Some pid))" if "thread_owns th (pid, args)" for th pid args
    using that by (auto simp: thread_owns_def split: thread_pc.splits option.splits)
  have call: "sc_pc c \<in> {Settling pid, Committing pid} \<and>
         args = spawn_args (the (rq_tcpdump (sc_request c))) (sc_request c)
           (part_name (rq_session_start (sc_request c)) 1)" if "call_owns c (pid, args)" for c pid args
    using that by (auto simp: call_owns_def split: call_pc.splits)
  show ?thesis
    unfolding Let_def w_def [symmetric] list_all_iff list_ex_iff
  proof (intro ballI, clarify)
    fix pid args assume q: "(pid, args) \<in> set (w_procs w)"
      and c: "\<not> (\<exists>c \<in> set (w_calls w). sc_pc c \<in> {Settling pid, Committing pid} \<and>
         args = spawn_args (the (rq_tcpdump (sc_request c))) (sc_request c)
           (part_name (rq_session_start (sc_request c)) 1))"
    from own [OF q] c show "\<exists>th \<in> set (w_threads w). th_pc th \<noteq> Returned \<and>
         args = spawn_args (the (rq_tcpdump (th_request th))) (th_request th) (th_path th) \<and>
         (th_process th = pid \<or> th_pc th = Spawned (Some pid))"
      unfolding owned_def using thread call by blast
  qed
qed

section \<open>stop ends the session\<close>

lemma thread_step_session:
  assumes "thread_step tk th w = (th', w')"
  shows "th_session_id th' = th_session_id th" "c_session_id (w_state w') = c_session_id (w_state w)"
    "c_stop_requested (w_state w') = c_stop_requested (w_state w)"
  using assms
  by (cases "th_pc th"; auto simp: thread_step_def spawn_def finish_session_def Let_def split: if_splits option.splits)+

lemma thread_step_running:
  assumes "thread_step tk th w = (th', w')"
  shows "c_running (w_state w') =
    (c_running (w_state w) \<and>
     \<not> (th_session_id th = c_session_id (w_state w) \<and> th_pc th \<noteq> Returned \<and> th_pc th' = Returned))"
  using assms
  by (cases "th_pc th"; auto simp: thread_step_def spawn_def finish_session_def Let_def split: if_splits option.splits)

lemma thread_step_returned:
  "thread_step tk th w = (th', w') \<Longrightarrow> th_pc th = Returned \<Longrightarrow> th_pc th' = Returned"
  by (auto simp: thread_step_def)

text \<open>How many steps a thread needs, once a stop is requested.\<close>

fun rank :: "thread_pc \<Rightarrow> nat" where
  "rank Returned = 0"
| "rank (Deciding fin) = (if fin then 1 else 7)"
| "rank (Closing fin) = (if fin then 2 else 8)"
| "rank (Polling stop) = (if stop then 3 else 9)"
| "rank Watch = 4"
| "rank (Spawned p) = 5"
| "rank Rotating = 6"

lemma rank_le: "rank pc \<le> 9"
  by (cases pc) auto

lemma rank_0 [simp]: "rank pc = 0 \<longleftrightarrow> pc = Returned"
  by (cases pc) auto

lemma thread_step_rank:
  assumes "thread_step tk th w = (th', w')" and "c_stop_requested (w_state w)" and "th_pc th \<noteq> Returned"
  shows "rank (th_pc th') < rank (th_pc th)"
  using assms by (cases "th_pc th") (auto simp: thread_step_def Let_def split: if_splits option.splits prod.splits)

text \<open>The thread \<open>i\<close> is in the current session, whose end is requested, and needs at most \<open>n\<close> more
  steps.\<close>

definition stopping :: "nat \<Rightarrow> nat \<Rightarrow> world \<Rightarrow> bool" where
  "stopping i n w \<longleftrightarrow> i < length (w_threads w) \<and>
     th_session_id (w_threads w ! i) = c_session_id (w_state w) \<and> c_stop_requested (w_state w) \<and>
     rank (th_pc (w_threads w ! i)) \<le> n \<and>
     (th_pc (w_threads w ! i) = Returned \<longrightarrow> \<not> c_running (w_state w))"

lemma step_thread_nth:
  assumes "thread_step tk (w_threads w ! i) w = (th', w')" and "i < length (w_threads w)"
  shows "w_threads (step_thread i tk w) = (w_threads w)[i := th']" "w_state (step_thread i tk w) = w_state w'"
  using assms by (simp_all add: step_thread_def)

lemma stopping_own_step:
  assumes "stopping i n w"
  shows "stopping i (n - 1) (step_thread i tk w)"
proof -
  obtain th' w' where t: "thread_step tk (w_threads w ! i) w = (th', w')" by fastforce
  have i: "i < length (w_threads w)" using assms by (simp add: stopping_def)
  have "rank (th_pc th') \<le> n - 1"
  proof (cases "th_pc (w_threads w ! i) = Returned")
    case True
    then show ?thesis using thread_step_returned [OF t] by simp
  next
    case False
    with assms have "rank (th_pc th') < rank (th_pc (w_threads w ! i))"
      by (intro thread_step_rank [OF t]) (simp_all add: stopping_def)
    moreover have "rank (th_pc (w_threads w ! i)) \<le> n" using assms by (simp add: stopping_def)
    ultimately show ?thesis by arith
  qed
  then show ?thesis
    using assms i step_thread_nth [OF t i] thread_step_session [OF t] thread_step_running [OF t]
    by (auto simp: stopping_def)
qed

lemma stopping_other_step:
  assumes "stopping i n w" and "i \<noteq> j"
  shows "stopping i n (step_thread j tk w)"
proof (cases "j < length (w_threads w)")
  case True
  obtain th' w' where t: "thread_step tk (w_threads w ! j) w = (th', w')" by fastforce
  show ?thesis
    using assms step_thread_nth [OF t True] thread_step_session [OF t] thread_step_running [OF t]
    by (auto simp: stopping_def)
next
  case False
  with assms show ?thesis by (simp add: step_thread_def)
qed

text \<open>The last locked section of a start call, which hands the module over to a new session; and a run of actions
  without any.\<close>

fun commits :: "pcap_action \<Rightarrow> world \<Rightarrow> bool" where
  "commits (Call i tk) w \<longleftrightarrow> i < length (w_calls w) \<and> (\<exists>p. sc_pc (w_calls w ! i) = Committing p)"
| "commits _ w = False"

fun no_commit :: "pcap_action list \<Rightarrow> world \<Rightarrow> bool" where
  "no_commit [] w = True"
| "no_commit (a # acts) w \<longleftrightarrow> \<not> commits a w \<and> no_commit acts (perform a w)"

fun steps_thread :: "nat \<Rightarrow> pcap_action \<Rightarrow> bool" where
  "steps_thread i (Thread j tk) = (i = j)"
| "steps_thread i _ = False"

lemma stopping_perform:
  assumes "stopping i n w" and "\<not> commits a w"
  shows "stopping i (if steps_thread i a then n - 1 else n) (perform a w)"
proof (cases a)
  case (Thread j tk)
  with assms stopping_own_step [of i n w tk] stopping_other_step [of i n w j tk] show ?thesis by auto
next
  case (Begin rq)
  with assms show ?thesis by (auto simp: start_begin_def stopping_def split: option.splits)
next
  case Stop
  with assms show ?thesis by (auto simp: pcap_stop_def stopping_def)
next
  case (Call j tk)
  with assms have "w_threads (step_call j tk w) = w_threads w \<and> w_state (step_call j tk w) = w_state w"
    by (auto simp: step_call_def Let_def spawn_def split: call_pc.split)
  with assms Call show ?thesis by (simp add: stopping_def)
qed (use assms in \<open>auto simp: stopping_def\<close>)

lemma stopping_exec:
  "stopping i n w \<Longrightarrow> no_commit acts w \<Longrightarrow>
   stopping i (n - length (filter (steps_thread i) acts)) (exec acts w)"
proof (induction acts arbitrary: n w)
  case Nil
  then show ?case by simp
next
  case (Cons a acts)
  then have "stopping i (if steps_thread i a then n - 1 else n) (perform a w)"
    by (intro stopping_perform) simp_all
  from Cons.IH [OF this] Cons.prems(2) show ?case by (cases "steps_thread i a") simp_all
qed

text \<open>C14: A stop ends the running session whatever its thread is doing, also in the middle of a
  rotation to the next part: within nine steps of that thread, interleaved with anything (further stops,
  steps of other threads, tcpdump processes ending, other calls of start that check, launch and wait for
  their tcpdump) except the last section of another start call, which commits a new session, the thread has
  returned and the module no longer says it is running.\<close>

theorem pcap_stop_ends:
  assumes "i < length (w_threads w)" and "th_session_id (w_threads w ! i) = c_session_id (w_state w)"
    and "th_pc (w_threads w ! i) \<noteq> Returned" and "c_running (w_state w)" and "c_process (w_state w) \<noteq> None"
    and "no_commit acts (pcap_stop w)" and "9 \<le> length (filter (steps_thread i) acts)"
  shows "th_pc (w_threads (exec (Stop # acts) w) ! i) = Returned \<and> \<not> c_running (w_state (exec (Stop # acts) w))"
proof -
  have "stopping i 9 (pcap_stop w)"
    using assms rank_le by (auto simp: stopping_def pcap_stop_def)
  from stopping_exec [OF this assms(6)] assms(7) show ?thesis
    by (auto simp: stopping_def)
qed

section \<open>One session at a time, if calls of start do not overlap\<close>

fun serial :: "pcap_action list \<Rightarrow> world \<Rightarrow> bool" where
  "serial [] w = True"
| "serial (a # acts) w =
     ((case a of Begin rq \<Rightarrow> w_calls w = [] | _ \<Rightarrow> True) \<and> serial acts (perform a w))"

definition current_thread :: "world \<Rightarrow> session_thread \<Rightarrow> bool" where
  "current_thread w th \<longleftrightarrow> th_session_id th = c_session_id (w_state w) \<and> th_pc th \<noteq> Returned"

definition one_session :: "world \<Rightarrow> bool" where
  "one_session w \<longleftrightarrow>
     distinct (map th_session_id (w_threads w)) \<and>
     (\<forall>th \<in> set (w_threads w). th_session_id th \<le> c_session_id (w_state w)) \<and>
     (w_calls w = [] \<or> (\<exists>c. w_calls w = [c] \<and> sc_session_id c = c_session_id (w_state w) + 1)) \<and>
     (c_running (w_state w) \<longleftrightarrow> (\<exists>j < length (w_threads w). current_thread w (w_threads w ! j)))"

lemma one_session_thread:
  assumes "one_session w"
  shows "one_session (step_thread i tk w)"
proof (cases "i < length (w_threads w)")
  case i: True
  obtain th' w' where t: "thread_step tk (w_threads w ! i) w = (th', w')" by fastforce
  note new = step_thread_nth [OF t i]
  have id: "th_session_id th' = th_session_id (w_threads w ! i)"
    and cur: "c_session_id (w_state w') = c_session_id (w_state w)" using thread_step_session [OF t] by simp_all
  have calls: "w_calls (step_thread i tk w) = w_calls w"
    using i t thread_step_frame [OF t] by (simp add: step_thread_def)
  have ids: "map th_session_id (w_threads (step_thread i tk w)) = map th_session_id (w_threads w)"
    using i new id by (simp add: map_update list_update_same_conv)
  have le: "\<forall>th \<in> set (w_threads (step_thread i tk w)). th_session_id th \<le> c_session_id (w_state w)"
    using assms arg_cong [OF ids, of set] unfolding one_session_def
    by (metis (no_types, lifting) imageE image_eqI list.set_map)
  have run: "c_running (w_state w') =
      (c_running (w_state w) \<and> \<not> (current_thread w (w_threads w ! i) \<and> th_pc th' = Returned))"
    using thread_step_running [OF t] by (simp add: current_thread_def)
  have "c_running (w_state w') \<longleftrightarrow>
    (\<exists>j < length (w_threads w). current_thread w ((w_threads w)[i := th'] ! j))" (is "?l \<longleftrightarrow> ?r")
  proof
    assume ?l
    with run assms obtain j where "j < length (w_threads w)" "current_thread w (w_threads w ! j)"
      by (auto simp: one_session_def)
    with \<open>?l\<close> run i id show ?r
      by (intro exI [of _ j]) (cases "j = i"; simp add: current_thread_def)
  next
    assume ?r
    then obtain j where j: "j < length (w_threads w)" "current_thread w ((w_threads w)[i := th'] ! j)" by blast
    show ?l
    proof (cases "j = i")
      case True
      with j i id thread_step_returned [OF t] have c: "current_thread w (w_threads w ! i)" "th_pc th' \<noteq> Returned"
        by (auto simp: current_thread_def)
      with i assms have "c_running (w_state w)" by (auto simp: one_session_def)
      with c run show ?thesis by simp
    next
      case False
      with j have c: "current_thread w (w_threads w ! j)" by simp
      have "th_session_id (w_threads w ! j) \<noteq> th_session_id (w_threads w ! i)"
        using assms False i j(1) by (simp add: one_session_def distinct_conv_nth)
      with c have "\<not> current_thread w (w_threads w ! i)" by (simp add: current_thread_def)
      moreover have "c_running (w_state w)" using c j(1) assms by (auto simp: one_session_def)
      ultimately show ?thesis using run by simp
    qed
  qed
  then show ?thesis
    using assms calls ids le new cur by (simp add: one_session_def current_thread_def)
qed (use assms in \<open>simp add: step_thread_def\<close>)

lemma one_session_call:
  assumes "one_session w"
  shows "one_session (step_call i tk w)"
proof (cases "i < length (w_calls w)")
  case True
  then obtain c where c: "w_calls w = [c]" "sc_session_id c = c_session_id (w_state w) + 1" "i = 0"
    using assms by (auto simp: one_session_def)
  show ?thesis
  proof (cases "sc_pc c")
    case Prepare
    then show ?thesis
      using assms c
      by (auto simp: step_call_def Let_def spawn_def one_session_def current_thread_def)
  next
    case (Settling p)
    then show ?thesis
      using assms c by (auto simp: step_call_def Let_def one_session_def current_thread_def)
  next
    case (Committing p)
    then show ?thesis
      using assms c
      by (auto simp: step_call_def Let_def one_session_def current_thread_def commit_state_def nth_append
          intro!: exI [of _ "length (w_threads w)"])
  qed
qed (use assms in \<open>simp add: step_call_def\<close>)

lemma one_session_exec:
  "one_session w \<Longrightarrow> serial acts w \<Longrightarrow> one_session (exec acts w)"
proof (induction acts arbitrary: w)
  case Nil
  then show ?case by simp
next
  case (Cons a acts)
  have "one_session (perform a w)"
  proof (cases a)
    case (Begin rq)
    with Cons.prems show ?thesis
      by (auto simp: start_begin_def one_session_def current_thread_def split: option.splits)
  next
    case Stop
    with Cons.prems show ?thesis by (simp add: pcap_stop_def one_session_def current_thread_def)
  next
    case (Call i tk)
    with Cons.prems one_session_call show ?thesis by simp
  next
    case (Thread i tk)
    with Cons.prems one_session_thread show ?thesis by simp
  qed (use Cons.prems in \<open>simp_all add: one_session_def current_thread_def\<close>)
  with Cons show ?case by simp
qed

text \<open>C27: As long as calls of start do not overlap, the module's state is the truth: it says running
  exactly while a thread of the current session has not returned, and no two threads are ever in the
  same session, so an older thread never ends or rotates a newer session.\<close>

theorem pcap_running_truthful:
  assumes "serial acts (world0 dir)"
  shows "let w = exec acts (world0 dir) in
    (c_running (w_state w) \<longleftrightarrow> (\<exists>th \<in> set (w_threads w). current_thread w th)) \<and>
    distinct (map th_session_id (w_threads w))"
proof -
  have "one_session (world0 dir)" by (simp add: one_session_def world0_def pcap_state0_def)
  from one_session_exec [OF this assms] show ?thesis
    unfolding one_session_def Let_def by (metis in_set_conv_nth)
qed

section \<open>Concrete executions\<close>

definition rq_sample :: "int option \<Rightarrow> request" where
  "rq_sample duration = \<lparr>rq_interface = lit ''eth0'', rq_duration = duration, rq_filter = None,
     rq_tcpdump = Some (lit ''/usr/bin/tcpdump''), rq_session_start = lit ''20260822T101500''\<rparr>"

definition tick_at :: "real \<Rightarrow> tick" where
  "tick_at t = \<lparr>tk_monotonic = t, tk_time = 1000 + t, tk_popen = True, tk_size = Some 0, tk_stderr = [],
     tk_os = os_fine\<rparr>"

text \<open>One start that has returned; a start that failed after it had signalled the running capture.\<close>

definition start_acts :: "int option \<Rightarrow> pcap_action list" where
  "start_acts duration = [Begin (rq_sample duration), Call 0 (tick_at 0), Call 0 (tick_at 1), Call 0 (tick_at 1)]"

definition thread_ticks :: "nat \<Rightarrow> real \<Rightarrow> nat \<Rightarrow> pcap_action list" where
  "thread_ticks i t n = map (\<lambda>_. Thread i (tick_at t)) [0..<n]"

lemmas pcap_run = exec_def start_acts_def thread_ticks_def rq_sample_def tick_at_def world0_def pcap_state0_def
  start_begin_def signal_process_def step_call_def step_thread_def thread_step_def spawn_def reap_def alive_def
  end_call_def call_to_def reply_def commit_state_def session_deadline_def finish_session_def pcap_stop_def
  MAX_DURATION_SECONDS_def ROTATE_BYTES_def prune_oldest_def pcap_files_def Let_def upt_rec

definition started_world :: world where
  "started_world = exec (start_acts None) (world0 None)"

lemma started_world_facts:
  "length (w_threads started_world) = 1 \<and> c_running (w_state started_world) \<and>
   c_process (w_state started_world) = Some 0 \<and> w_threads started_world ! 0 =
     \<lparr>th_request = rq_sample None, th_session_id = 1, th_deadline = None, th_process = 0,
      th_path = part_name (lit ''20260822T101500'') 1, th_part = 1, th_pc = Watch\<rparr> \<and>
   c_session_id (w_state started_world) = 1"
  by (simp add: started_world_def pcap_run)

text \<open>Another start comes in between, and its tcpdump is started.\<close>

definition interrupted_stop :: "pcap_action list" where
  "interrupted_stop = Begin (rq_sample None) # Call 0 (tick_at 5) # thread_ticks 0 5 9"

theorem pcap_stop_ends_witness:
  "th_pc (w_threads (exec (Stop # interrupted_stop) started_world) ! 0) = Returned \<and>
   \<not> c_running (w_state (exec (Stop # interrupted_stop) started_world))"
proof (rule pcap_stop_ends)
  show "no_commit interrupted_stop (pcap_stop started_world)"
    by (simp add: interrupted_stop_def started_world_def pcap_run)
  show "9 \<le> length (filter (steps_thread 0) interrupted_stop)"
    by (simp add: interrupted_stop_def thread_ticks_def upt_rec)
qed (use started_world_facts in simp_all)

theorem pcap_running_truthful_witness:
  "let w = exec (start_acts (Some 10)) (world0 None) in
    (c_running (w_state w) \<longleftrightarrow> (\<exists>th \<in> set (w_threads w). current_thread w th)) \<and>
    distinct (map th_session_id (w_threads w))"
  by (rule pcap_running_truthful) (simp add: pcap_run)

text \<open>Two overlapping calls of start take the same session number, because it is read in one
  locked section and written in another.  In this execution both captures then run at once under the
  number 1; when the ten seconds of the first are over, its thread clears the running flag, although the
  second tcpdump goes on without a deadline, and a stop answers that no capture is running and changes
  nothing.\<close>

theorem pcap_overlapping_starts:
  "let w = exec ([Begin (rq_sample (Some 10)), Begin (rq_sample None)] @
        map (\<lambda>_. Call 0 (tick_at 0)) [0..<6] @ thread_ticks 0 11 4 @ thread_ticks 1 20 2) (world0 None);
       w' = perform Stop w in
    map th_session_id (w_threads w) = [1, 1] \<and> map th_pc (w_threads w) = [Returned, Watch] \<and>
    alive 1 w \<and> \<not> c_running (w_state w) \<and> w_state w' = w_state w \<and> w_signalled w' = w_signalled w \<and>
    last (w_replies w') = (True, lit ''no capture running'')"
  by (simp add: pcap_run)

text \<open>A start that fails, here because tcpdump rejects the filter and exits at once, has already
  signalled the running capture: the running capture ends, and the module reports that nothing runs.\<close>

theorem pcap_failed_start_ends_capture:
  "let w = exec [Begin (rq_sample None), Call 0 (tick_at 1), Exit 1, Call 0 (tick_at 2)] started_world;
       w' = exec (Exit 0 # thread_ticks 0 5 4) w in
    w_signalled w = [0] \<and> fst (last (w_replies w)) = False \<and> length (w_threads w) = 1 \<and>
    \<not> c_running (w_state w') \<and> w_procs w' = []"
  by (simp add: started_world_def pcap_run)

end
