(* ===== verification/Shell.thy ===== *)
theory Shell
  imports Py_Dict Py_Text
begin

text \<open>
  \<open>backend/shell.py\<close>: how the modules find and run system programs.  A \<open>host\<close> is what the device
  answers: which programs \<open>shutil.which\<close> finds, what a command does to the device's state \<open>'w\<close> and what
  it returns (\<open>None\<close> when \<open>subprocess.run\<close> raises \<open>OSError\<close> or times out, which \<open>run\<close> catches), the clock, sleeping, and
  the contents of a file read in text mode.  The two exceptions that \<open>run\<close> lets through are not in the model:
  \<open>ValueError\<close> for an argument with a null character and \<open>UnicodeDecodeError\<close> for output that is not UTF-8; the
  model is that of arguments and programs without these.  Every command that is run is recorded with its result, so that a property can speak of
  the commands an operation issues and of their order.
\<close>

record completed =
  cp_returncode :: int
  cp_stdout :: pystr
  cp_stderr :: pystr

type_synonym command = "pystr list"
type_synonym command_log = "(command \<times> completed option) list"
type_synonym 'w running = "command_log \<times> 'w"

record 'w host =
  ho_which :: "pystr \<Rightarrow> pystr option"
  ho_run :: "command \<Rightarrow> 'w \<Rightarrow> completed option \<times> 'w"
  ho_monotonic :: "'w \<Rightarrow> real"
  ho_sleep :: "real \<Rightarrow> 'w \<Rightarrow> 'w"
  ho_read :: "pystr \<Rightarrow> 'w \<Rightarrow> pystr + pystr"
  ho_repo_dir :: pystr

definition SUDO_CANDIDATES :: "pystr list" where
  "SUDO_CANDIDATES = [lit ''/usr/bin/sudo'', lit ''/bin/sudo'', lit ''sudo'']"

fun find_binary :: "'w host \<Rightarrow> pystr list \<Rightarrow> pystr option" where
  "find_binary H [] = None"
| "find_binary H (candidate # rest) =
     (case ho_which H candidate of
        Some found \<Rightarrow> if found \<noteq> [] then Some found else find_binary H rest
      | None \<Rightarrow> find_binary H rest)"

definition shell_run :: "'w host \<Rightarrow> command \<Rightarrow> 'w running \<Rightarrow> completed option \<times> 'w running" where
  "shell_run H args s =
     (let (r, w) = ho_run H args (snd s) in (r, (fst s @ [(args, r)], w)))"

definition run_privileged :: "'w host \<Rightarrow> command \<Rightarrow> 'w running \<Rightarrow> completed option \<times> 'w running" where
  "run_privileged H args s =
     (case find_binary H SUDO_CANDIDATES of None \<Rightarrow> (None, s) | Some sudo \<Rightarrow> shell_run H (sudo # args) s)"

text \<open>\<open>time.sleep\<close>, and \<open>(result.stdout or result.stderr).strip()\<close>.\<close>

definition sleep :: "'w host \<Rightarrow> real \<Rightarrow> 'w running \<Rightarrow> 'w running" where
  "sleep H t s = (fst s, ho_sleep H t (snd s))"

definition output_text :: "completed \<Rightarrow> pystr" where
  "output_text c = strip (if cp_stdout c \<noteq> [] then cp_stdout c else cp_stderr c)"

text \<open>\<open>line.split(":", 1)[1]\<close> and \<open>text.split(":", 1)[-1]\<close>.\<close>

definition after_colon :: "pystr \<Rightarrow> exn + pystr" where
  "after_colon line = (if 58 \<in> set line then Inr (tl (dropWhile (\<lambda>c. c \<noteq> 58) line)) else Inl IndexError)"

definition after_colon_or_all :: "pystr \<Rightarrow> pystr" where
  "after_colon_or_all s = (if 58 \<in> set s then tl (dropWhile (\<lambda>c. c \<noteq> 58) s) else s)"

section \<open>The log\<close>

lemma shell_run_log [simp]:
  "fst (snd (shell_run H args s)) = fst s @ [(args, fst (shell_run H args s))]"
  by (simp add: shell_run_def split_def Let_def)

lemma sleep_log [simp]: "fst (sleep H t s) = fst s"
  by (simp add: sleep_def)

text \<open>A run with an unprivileged or privileged command, as a case rule.\<close>

lemma shell_run_cases:
  obtains r w where "shell_run H args s = (r, (fst s @ [(args, r)], w))"
  by (cases "shell_run H args s") (auto simp: shell_run_def split: prod.splits)

lemma run_privileged_cases:
  obtains "find_binary H SUDO_CANDIDATES = None" and "run_privileged H args s = (None, s)"
  | sudo r w where "find_binary H SUDO_CANDIDATES = Some sudo"
    and "run_privileged H args s = (r, (fst s @ [(sudo # args, r)], w))"
proof (cases "find_binary H SUDO_CANDIDATES")
  case None
  with that(1) show ?thesis by (simp add: run_privileged_def)
next
  case (Some sudo)
  with that(2) show ?thesis
    by (cases rule: shell_run_cases [of H "sudo # args" s]) (simp add: run_privileged_def)
qed

lemma after_colon_prefix: "58 \<notin> set p \<Longrightarrow> after_colon (p @ 58 # rest) = Inr rest"
proof -
  assume "58 \<notin> set p"
  then have "dropWhile (\<lambda>c. c \<noteq> 58) (p @ 58 # rest) = 58 # rest" by (induction p) auto
  then show ?thesis by (simp add: after_colon_def)
qed

end
