(* ===== verification/Access_Point.thy ===== *)
theory Access_Point
  imports Shell
begin

text \<open>
  \<open>backend/network/ap.py\<close>: bringing the fallback access point up and down, and reading and rewriting
  \<open>hostapd.conf\<close>.  The contents of the file are those \<open>open\<close> in text mode gives.
\<close>

definition SYSTEMCTL_CANDIDATES :: "pystr list" where
  "SYSTEMCTL_CANDIDATES = [lit ''/usr/bin/systemctl'', lit ''/bin/systemctl'', lit ''systemctl'']"

definition HOSTAPD_CONF_PATH :: pystr where
  "HOSTAPD_CONF_PATH = lit ''/etc/hostapd/hostapd.conf''"

definition AP_ADDRESS :: pystr where
  "AP_ADDRESS = lit ''172.24.58.1''"

definition AP_UP_SCRIPT :: "'w host \<Rightarrow> pystr" where
  "AP_UP_SCRIPT H = ho_repo_dir H @ lit ''/system/lanpi-ap-up.sh''"

definition AP_DOWN_SCRIPT :: "'w host \<Rightarrow> pystr" where
  "AP_DOWN_SCRIPT H = ho_repo_dir H @ lit ''/system/lanpi-ap-down.sh''"

type_synonym reply = "bool \<times> pystr"

definition script_reply :: "completed option \<Rightarrow> reply" where
  "script_reply r =
     (case r of None \<Rightarrow> (False, lit ''sudo not available or command timed out'')
      | Some c \<Rightarrow> (cp_returncode c = 0, output_text c))"

definition ap_activate :: "'w host \<Rightarrow> 'w running \<Rightarrow> reply \<times> 'w running" where
  "ap_activate H s = (let (r, s') = run_privileged H [AP_UP_SCRIPT H] s in (script_reply r, s'))"

definition ap_deactivate :: "'w host \<Rightarrow> 'w running \<Rightarrow> reply \<times> 'w running" where
  "ap_deactivate H s = (let (r, s') = run_privileged H [AP_DOWN_SCRIPT H] s in (script_reply r, s'))"

definition ap_is_active :: "'w host \<Rightarrow> 'w running \<Rightarrow> bool \<times> 'w running" where
  "ap_is_active H s =
     (case find_binary H SYSTEMCTL_CANDIDATES of
        None \<Rightarrow> (False, s)
      | Some systemctl \<Rightarrow>
          let (r, s') = shell_run H [systemctl, lit ''is-active'', lit ''hostapd''] s
          in (case r of None \<Rightarrow> False | Some c \<Rightarrow> strip (cp_stdout c) = lit ''active'', s'))"

section \<open>hostapd.conf\<close>

text \<open>\<open>re.search(r"^ssid=(.*)$", content, re.MULTILINE)\<close>, then \<open>group(1).strip()\<close>.\<close>

definition conf_ssid :: "pystr \<Rightarrow> pystr option" where
  "conf_ssid content =
     (case find (\<lambda>line. startswith line (lit ''ssid='')) (split_on 10 content) of
        None \<Rightarrow> None | Some line \<Rightarrow> Some (strip (drop 5 line)))"

definition ap_get_ssid :: "'w host \<Rightarrow> 'w running \<Rightarrow> pystr option" where
  "ap_get_ssid H s = (case ho_read H HOSTAPD_CONF_PATH (snd s) of Inl e \<Rightarrow> None | Inr content \<Rightarrow> conf_ssid content)"

text \<open>\<open>f.readlines()\<close>: lines with their newline.\<close>

fun readlines :: "pystr \<Rightarrow> pystr list" where
  "readlines [] = []"
| "readlines (c # cs) =
     (if c = 10 then [c] # readlines cs
      else case readlines cs of [] \<Rightarrow> [[c]] | l # ls \<Rightarrow> (c # l) # ls)"

definition rewrite_line :: "pystr \<Rightarrow> pystr option \<Rightarrow> pystr \<Rightarrow> pystr" where
  "rewrite_line ssid password line =
     (if startswith line (lit ''ssid='') then lit ''ssid='' @ ssid @ [10]
      else if startswith line (lit ''wpa_passphrase='') \<and> password \<noteq> None \<and> password \<noteq> Some []
      then lit ''wpa_passphrase='' @ the password @ [10]
      else line)"

definition new_conf :: "pystr \<Rightarrow> pystr option \<Rightarrow> pystr \<Rightarrow> pystr" where
  "new_conf ssid password content = concat (map (rewrite_line ssid password) (readlines content))"

definition ap_config_checks :: "pystr \<Rightarrow> pystr option \<Rightarrow> pystr option" where
  "ap_config_checks ssid password =
     (if ssid = [] \<or> 32 < length ssid then Some (lit ''SSID must be 1-32 characters'')
      else case password of
             None \<Rightarrow> None
           | Some p \<Rightarrow> if p \<noteq> [] \<and> length p < 8 then Some (lit ''password must be at least 8 characters'') else None)"

text \<open>The temporary file \<open>tmp_path\<close> holds the new contents, the second component of the result, when
  \<open>cp\<close> is run; creating it is assumed to succeed.\<close>

definition ap_set_config ::
  "'w host \<Rightarrow> pystr \<Rightarrow> pystr \<Rightarrow> pystr option \<Rightarrow> 'w running \<Rightarrow> reply \<times> pystr option \<times> 'w running" where
  "ap_set_config H tmp_path ssid0 password s =
     (let ssid = strip ssid0 in
      case ap_config_checks ssid password of
        Some m \<Rightarrow> ((False, m), None, s)
      | None \<Rightarrow>
          (case ho_read H HOSTAPD_CONF_PATH (snd s) of
             Inl e \<Rightarrow> ((False, lit ''could not read config: '' @ e), None, s)
           | Inr content \<Rightarrow>
               let new = new_conf ssid password content;
                   (r, s1) = run_privileged H [lit ''cp'', tmp_path, HOSTAPD_CONF_PATH] s
               in (case r of
                     None \<Rightarrow> ((False, lit ''sudo not available or command timed out''), Some new, s1)
                   | Some c \<Rightarrow>
                       if cp_returncode c \<noteq> 0 then ((False, strip (cp_stderr c)), Some new, s1)
                       else
                         let (active, s2) = ap_is_active H s1;
                             s3 = (if active
                                   then (case find_binary H SYSTEMCTL_CANDIDATES of
                                           None \<Rightarrow> s2
                                         | Some systemctl \<Rightarrow>
                                             snd (run_privileged H [systemctl, lit ''restart'', lit ''hostapd''] s2))
                                   else s2)
                         in ((True, lit ''Fallback AP configuration updated''), Some new, s3))))"

section \<open>Lines\<close>

lemma concat_readlines: "concat (readlines s) = s"
  by (induction s) (auto split: list.splits)

text \<open>A line ends in the only newline it has, or is the last and has none.\<close>

fun lines_ok :: "pystr list \<Rightarrow> bool" where
  "lines_ok [] = True"
| "lines_ok (l # ls) = ((\<exists>b. l = b @ [10] \<and> 10 \<notin> set b) \<and> lines_ok ls \<or> ls = [] \<and> l \<noteq> [] \<and> 10 \<notin> set l)"

lemma lines_ok_readlines: "lines_ok (readlines s)"
proof (induction s)
  case Nil
  then show ?case by simp
next
  case (Cons c cs)
  show ?case
  proof (cases "c = 10")
    case True
    with Cons show ?thesis by simp
  next
    case c: False
    show ?thesis
    proof (cases "readlines cs")
      case Nil
      with c show ?thesis by simp
    next
      case l: (Cons l ls)
      with Cons.IH have "lines_ok (l # ls)" by simp
      then consider b where "l = b @ [10]" "10 \<notin> set b" "lines_ok ls" | "ls = []" "l \<noteq> []" "10 \<notin> set l"
        by auto
      then show ?thesis
      proof cases
        case 1
        then have "c # l = (c # b) @ [10]" "10 \<notin> set (c # b)" using c by simp_all
        with 1 l c show ?thesis by (auto simp del: append_Cons)
      next
        case 2
        with l c show ?thesis by simp
      qed
    qed
  qed
qed

lemma readlines_line: "10 \<notin> set b \<Longrightarrow> readlines (b @ 10 # rest) = (b @ [10]) # readlines rest"
  by (induction b) auto

lemma readlines_last: "10 \<notin> set l \<Longrightarrow> l \<noteq> [] \<Longrightarrow> readlines l = [l]"
proof (induction l)
  case (Cons c l)
  then show ?case by (cases l) auto
qed simp

lemma readlines_concat: "lines_ok ls \<Longrightarrow> readlines (concat ls) = ls"
proof (induction ls)
  case (Cons l ls)
  show ?case
  proof (cases "ls = [] \<and> l \<noteq> [] \<and> 10 \<notin> set l")
    case True
    then show ?thesis by (simp add: readlines_last)
  next
    case False
    with Cons.prems obtain b where "l = b @ [10]" "10 \<notin> set b" "lines_ok ls" by auto
    with Cons.IH show ?thesis using readlines_line [of b "concat ls"] by simp
  qed
qed simp

lemma startswith_line: "10 \<notin> set p \<Longrightarrow> startswith (b @ [10]) p \<longleftrightarrow> startswith b p"
  by (cases "length p \<le> length b") (auto simp: startswith_def dest: arg_cong [of _ _ length])

definition is_ssid_line :: "pystr \<Rightarrow> bool" where
  "is_ssid_line l \<longleftrightarrow> startswith l (lit ''ssid='')"

lemma conf_ssid_lines:
  "lines_ok ls \<Longrightarrow> conf_ssid (concat ls) = map_option (\<lambda>l. strip (drop 5 l)) (find is_ssid_line ls)"
proof (induction ls)
  case Nil
  then show ?case by (simp add: conf_ssid_def startswith_def lit_def)
next
  case (Cons l ls)
  show ?case
  proof (cases "ls = [] \<and> l \<noteq> [] \<and> 10 \<notin> set l")
    case True
    then show ?thesis by (simp add: conf_ssid_def split_on_no_sep is_ssid_line_def)
  next
    case False
    with Cons.prems obtain b where b: "l = b @ [10]" "10 \<notin> set b" "lines_ok ls" by auto
    have s: "split_on 10 (concat (l # ls)) = b # split_on 10 (concat ls)"
      using split_on_append [OF b(2)] b(1) by simp
    have i: "is_ssid_line l \<longleftrightarrow> startswith b (lit ''ssid='')"
      using startswith_line [of "lit ''ssid=''" b] b(1) by (simp add: is_ssid_line_def lit_def)
    have "drop 5 (b @ [10]) = drop 5 b @ [10]" if "startswith b (lit ''ssid='')"
    proof -
      have "take 5 b = lit ''ssid=''" using that by (simp add: startswith_def eval_nat_numeral)
      then have "length (take 5 b) = length (lit ''ssid='')" by (rule arg_cong)
      then have "5 \<le> length b" by simp
      then show ?thesis by simp
    qed
    then show ?thesis
      using Cons.IH [OF b(3)] s i b(1) by (simp add: conf_ssid_def strip_newline)
  qed
qed

lemma lines_ok_rewrite:
  assumes "10 \<notin> set ssid" and "\<And>p. password = Some p \<Longrightarrow> 10 \<notin> set p"
  shows "lines_ok ls \<Longrightarrow> lines_ok (map (rewrite_line ssid password) ls)"
proof (induction ls)
  case (Cons l ls)
  have new: "\<exists>b. rewrite_line ssid password l = b @ [10] \<and> 10 \<notin> set b" if "rewrite_line ssid password l \<noteq> l"
  proof -
    from that consider "rewrite_line ssid password l = (lit ''ssid='' @ ssid) @ [10]"
      | q where "password = Some q" "rewrite_line ssid password l = (lit ''wpa_passphrase='' @ q) @ [10]"
      by (cases password) (auto simp: rewrite_line_def split: if_splits)
    then show ?thesis using assms by cases (auto simp: lit_def)
  qed
  from Cons.prems consider b where "l = b @ [10]" "10 \<notin> set b" "lines_ok ls" | "ls = []" "l \<noteq> []" "10 \<notin> set l"
    by auto
  then show ?case
  proof cases
    case 1
    with Cons.IH new show ?thesis by (cases "rewrite_line ssid password l = l") auto
  next
    case 2
    with new show ?thesis by (cases "rewrite_line ssid password l = l") auto
  qed
qed simp

lemma find_rewritten:
  "find is_ssid_line (map (rewrite_line ssid password) ls) =
   (if \<exists>l \<in> set ls. is_ssid_line l then Some (lit ''ssid='' @ ssid @ [10]) else None)"
proof (induction ls)
  case (Cons l ls)
  then show ?case
    by (auto simp: rewrite_line_def is_ssid_line_def startswith_def lit_def)
qed simp

text \<open>Reading a file in text mode: a carriage return, with the newline after it if there is one, is a newline.
  \<open>ho_read\<close> gives contents read so; what is written has to be read again.\<close>

fun newlines :: "bool \<Rightarrow> pystr \<Rightarrow> pystr" where
  "newlines after_cr [] = []"
| "newlines after_cr (c # cs) =
     (if c = 13 then 10 # newlines True cs
      else if c = 10 \<and> after_cr then newlines False cs
      else c # newlines False cs)"

definition text_mode :: "pystr \<Rightarrow> pystr" where
  "text_mode s = newlines False s"

lemma text_mode_id: "13 \<notin> set s \<Longrightarrow> text_mode s = s"
proof -
  have "13 \<notin> set s \<Longrightarrow> newlines False s = s" by (induction s) auto
  then show "13 \<notin> set s \<Longrightarrow> text_mode s = s" by (simp add: text_mode_def)
qed

text \<open>A line of the new file for a line of the old one.\<close>

definition line_after :: "pystr \<Rightarrow> pystr option \<Rightarrow> pystr \<Rightarrow> pystr \<Rightarrow> bool" where
  "line_after ssid password old new \<longleftrightarrow>
     (if \<exists>v. old = lit ''ssid='' @ v then new = lit ''ssid='' @ ssid @ [10]
      else case password of
             None \<Rightarrow> new = old
           | Some p \<Rightarrow>
               if p \<noteq> [] \<and> (\<exists>v. old = lit ''wpa_passphrase='' @ v) then new = lit ''wpa_passphrase='' @ p @ [10]
               else new = old)"

lemma rewrite_line_after: "line_after ssid password l (rewrite_line ssid password l)"
  by (cases password) (simp_all add: line_after_def rewrite_line_def startswith_iff)

lemma rewrite_line_no_cr:
  assumes "13 \<notin> set ssid" and "\<And>p. password = Some p \<Longrightarrow> 13 \<notin> set p" and "13 \<notin> set l"
  shows "13 \<notin> set (rewrite_line ssid password l)"
  using assms by (cases password) (auto simp: rewrite_line_def lit_def)

text \<open>C36: The configuration round trip.  Setting an SSID and password that contain no newline and no carriage
  return, on a \<open>hostapd.conf\<close> with an \<open>ssid=\<close> line, yields a file in which \<open>get_ssid\<close> reads back exactly the
  SSID that was set, and which has the old lines in the old order: the \<open>ssid=\<close> lines carry the new SSID, the
  \<open>wpa_passphrase=\<close> lines the new password if one was given and are kept otherwise, and every other line is
  kept.\<close>

theorem ap_config_roundtrip:
  assumes "set (strip ssid) \<inter> {10, 13} = {}" and "\<And>p. password = Some p \<Longrightarrow> set p \<inter> {10, 13} = {}"
    and "ho_read H HOSTAPD_CONF_PATH (snd s) = Inr content" and "13 \<notin> set content"
    and "ap_set_config H tmp ssid password s = (rep, Some new, s')"
  shows "list_all2 (line_after (strip ssid) password) (readlines content) (readlines new) \<and>
    conf_ssid (text_mode new) =
      (if \<exists>l \<in> set (readlines content). \<exists>v. l = lit ''ssid='' @ v then Some (strip ssid) else None)"
proof -
  let ?ls = "map (rewrite_line (strip ssid) password) (readlines content)"
  have new: "new = concat ?ls"
    using assms(3,5)
    by (auto simp: ap_set_config_def Let_def new_conf_def split: option.splits prod.splits if_splits)
  have ok: "lines_ok ?ls"
    using lines_ok_rewrite [of "strip ssid" password, OF _ _ lines_ok_readlines] assms(1,2) by auto
  have "13 \<notin> set l" if "l \<in> set (readlines content)" for l
    using assms(4) that concat_readlines [of content] by (metis UN_I set_concat)
  then have "13 \<notin> set l" if "l \<in> set ?ls" for l
    using that rewrite_line_no_cr [of "strip ssid" password] assms(1,2) by auto
  then have cr: "text_mode (concat ?ls) = concat ?ls" by (intro text_mode_id) auto
  have "drop 5 (lit ''ssid='' @ strip ssid @ [10]) = strip ssid @ [10]" by (simp add: lit_def)
  then show ?thesis
    unfolding new cr using readlines_concat [OF ok] conf_ssid_lines [OF ok]
    by (simp add: find_rewritten strip_newline strip_idem list_all2_map2 list.rel_refl_strong rewrite_line_after
        is_ssid_line_def startswith_iff)
qed

definition conf_sample :: pystr where
  "conf_sample = lit ''interface=wlan0'' @ [10] @ lit ''ssid=LanPi'' @ [10] @ lit ''wpa_passphrase=secret123'' @ [10]"

definition host_sample :: "unit host" where
  "host_sample = \<lparr>ho_which = Some, ho_run = (\<lambda>args w. (Some \<lparr>cp_returncode = 0, cp_stdout = [], cp_stderr = []\<rparr>, w)),
     ho_monotonic = (\<lambda>w. 0), ho_sleep = (\<lambda>t w. w), ho_read = (\<lambda>path w. Inr conf_sample),
     ho_repo_dir = lit ''/opt/lanpi''\<rparr>"

lemma config_written:
  "ho_read H HOSTAPD_CONF_PATH (snd s) = Inr content \<Longrightarrow> ap_config_checks (strip ssid) password = None \<Longrightarrow>
   fst (snd (ap_set_config H tmp ssid password s)) = Some (new_conf (strip ssid) password content)"
  by (simp add: ap_set_config_def Let_def split: option.split prod.split)

theorem ap_config_roundtrip_witness:
  "conf_ssid (text_mode (new_conf (strip (lit '' Field Pi '')) None conf_sample)) = Some (strip (lit '' Field Pi ''))"
proof -
  have strip: "strip (lit '' Field Pi '') = lit ''Field Pi''"
    by (simp add: lit_def strip_def lstrip_def rstrip_def is_space_def)
  have n: "set (strip (lit '' Field Pi '')) \<inter> {10, 13} = {}" unfolding strip by (simp add: lit_def)
  have "ap_config_checks (strip (lit '' Field Pi '')) None = None" by (simp add: strip ap_config_checks_def)
  from config_written [OF _ this, of host_sample "([], ())" conf_sample "[]"] obtain rep s' where
    c: "ap_set_config host_sample [] (lit '' Field Pi '') None ([], ()) =
      (rep, Some (new_conf (strip (lit '' Field Pi '')) None conf_sample), s')"
    by (cases "ap_set_config host_sample [] (lit '' Field Pi '') None ([], ())") (auto simp: host_sample_def)
  have "\<exists>l \<in> set (readlines conf_sample). \<exists>v. l = lit ''ssid='' @ v"
    by (simp add: conf_sample_def lit_def)
  moreover have "13 \<notin> set conf_sample" by (simp add: conf_sample_def lit_def)
  ultimately show ?thesis using ap_config_roundtrip [OF n _ _ _ c] by (simp add: host_sample_def)
qed

text \<open>A carriage return inside the SSID is accepted too, and the file read again has only what is before it.\<close>

lemma ap_config_cr_cut:
  "let ssid = lit ''a'' @ [13] @ lit ''b'' in
    ap_config_checks (strip ssid) None = None \<and>
    conf_ssid (text_mode (new_conf (strip ssid) None conf_sample)) = Some (lit ''a'')"
  by (simp add: Let_def lit_def conf_sample_def new_conf_def rewrite_line_def startswith_def strip_def lstrip_def
      rstrip_def is_space_def ap_config_checks_def conf_ssid_def text_mode_def)

text \<open>Only the ends of the SSID are stripped, so an SSID with a line break inside, of at most 32
  characters, is accepted and writes a line of its own into \<open>hostapd.conf\<close>: here it switches the
  encryption of the access point off.\<close>

theorem ap_config_line_injected:
  "let ssid = lit ''x'' @ [10] @ lit ''wpa=0'' in
    ap_config_checks (strip ssid) None = None \<and>
    lit ''wpa=0'' \<notin> set (split_on 10 conf_sample) \<and>
    lit ''wpa=0'' \<in> set (split_on 10 (new_conf (strip ssid) None conf_sample))"
  by (simp add: Let_def lit_def conf_sample_def new_conf_def rewrite_line_def startswith_def strip_def lstrip_def
      rstrip_def is_space_def ap_config_checks_def)

end
