(* ===== verification/Nmcli.thy ===== *)
theory Nmcli
  imports Shell
begin

text \<open>
  The helpers around \<open>nmcli\<close> that \<open>backend/network/wifi.py\<close> and \<open>backend/network/eth0_mode.py\<close> both
  have: unprivileged and privileged calls, and reading their output.
\<close>

definition NMCLI_CANDIDATES :: "pystr list" where
  "NMCLI_CANDIDATES = [lit ''/usr/bin/nmcli'', lit ''/bin/nmcli'', lit ''nmcli'']"

definition nmcli_run :: "'w host \<Rightarrow> command \<Rightarrow> 'w running \<Rightarrow> completed option \<times> 'w running" where
  "nmcli_run H args s =
     (case find_binary H NMCLI_CANDIDATES of None \<Rightarrow> (None, s) | Some nmcli \<Rightarrow> shell_run H (nmcli # args) s)"

definition nmcli_run_privileged :: "'w host \<Rightarrow> command \<Rightarrow> 'w running \<Rightarrow> completed option \<times> 'w running" where
  "nmcli_run_privileged H args s =
     (case find_binary H NMCLI_CANDIDATES of None \<Rightarrow> (None, s) | Some nmcli \<Rightarrow> run_privileged H (nmcli # args) s)"

text \<open>The output of a command that ran and returned zero.\<close>

definition ok_stdout :: "completed option \<Rightarrow> pystr option" where
  "ok_stdout r = (case r of None \<Rightarrow> None | Some c \<Rightarrow> if cp_returncode c \<noteq> 0 then None else Some (cp_stdout c))"

definition truthy :: "pystr option \<Rightarrow> bool" where
  "truthy v = (v \<noteq> None \<and> v \<noteq> Some [])"

text \<open>\<open>isdigit\<close> of ASCII text, all that nmcli prints for a number.\<close>

definition is_digits :: "pystr \<Rightarrow> bool" where
  "is_digits s = (s \<noteq> [] \<and> list_all (\<lambda>c. 48 \<le> c \<and> c \<le> 57) s)"

lemma nmcli_run_privileged_cases:
  obtains "nmcli_run_privileged H args s = (None, s)"
  | sudo nmcli r w where "find_binary H SUDO_CANDIDATES = Some sudo" and "find_binary H NMCLI_CANDIDATES = Some nmcli"
    and "nmcli_run_privileged H args s = (r, (fst s @ [(sudo # nmcli # args, r)], w))"
proof (cases "find_binary H NMCLI_CANDIDATES")
  case None
  with that(1) show ?thesis by (simp add: nmcli_run_privileged_def)
next
  case (Some nmcli)
  with that show ?thesis
    by (cases rule: run_privileged_cases [of H "nmcli # args" s]) (auto simp: nmcli_run_privileged_def)
qed

end
