(* ===== verification/Wifi.thy ===== *)
theory Wifi
  imports Access_Point Nmcli
begin

text \<open>
  \<open>backend/network/wifi.py\<close>: the management Wi-Fi through \<open>nmcli\<close>.  Every operation is a function of
  the host and of the log of commands run so far; the privileged and unprivileged \<open>nmcli\<close> calls, the
  scripts of the fallback access point and the sleeps happen in the order of the code.
\<close>

definition WLAN :: pystr where
  "WLAN = lit ''wlan0''"

section \<open>Reading nmcli\<close>

definition parse_terse :: "pystr \<Rightarrow> pystr list \<Rightarrow> (pystr, pystr) dict list" where
  "parse_terse output names =
     map (\<lambda>line. zip names (split_on 58 line)) (filter (\<lambda>line. line \<noteq> []) (splitlines (strip output)))"

definition get_connection_ssid :: "'w host \<Rightarrow> pystr \<Rightarrow> 'w running \<Rightarrow> pystr \<times> 'w running" where
  "get_connection_ssid H name s =
     (let (r, s') = nmcli_run H [lit ''-t'', lit ''-f'', lit ''802-11-wireless.ssid'', lit ''connection'',
            lit ''show'', name] s
      in (case ok_stdout r of
            None \<Rightarrow> name
          | Some out \<Rightarrow> let ssid = strip (after_colon_or_all (strip out)) in if ssid \<noteq> [] then ssid else name, s'))"

record wifi_status =
  ws_connected :: bool
  ws_mode :: pystr
  ws_ssid :: "pystr option"
  ws_ip_address :: "pystr option"

record device_lines =
  dl_state :: "pystr option"
  dl_connection :: "pystr option"
  dl_address :: "pystr option"

definition device_line :: "pystr \<Rightarrow> device_lines \<Rightarrow> exn + device_lines" where
  "device_line line d =
     (if startswith line (lit ''GENERAL.STATE:'') then rbind (after_colon line) (\<lambda>v. Inr (d\<lparr>dl_state := Some v\<rparr>))
      else if startswith line (lit ''GENERAL.CONNECTION:'')
      then rbind (after_colon line) (\<lambda>v. Inr (d\<lparr>dl_connection := Some v\<rparr>))
      else if startswith line (lit ''IP4.ADDRESS'')
      then rbind (after_colon line) (\<lambda>v. Inr (d\<lparr>dl_address := Some v\<rparr>))
      else Inr d)"

fun device_lines_of :: "pystr list \<Rightarrow> device_lines \<Rightarrow> exn + device_lines" where
  "device_lines_of [] d = Inr d"
| "device_lines_of (line # lines) d = rbind (device_line line d) (device_lines_of lines)"

text \<open>\<open>None\<close> is the reply \<open>{"available": False}\<close>.\<close>

definition wifi_get_status :: "'w host \<Rightarrow> 'w running \<Rightarrow> (exn + wifi_status option) \<times> 'w running" where
  "wifi_get_status H s =
     (let (active, s1) = ap_is_active H s in
      if active then
        (Inr (Some \<lparr>ws_connected = True, ws_mode = lit ''ap'', ws_ssid = ap_get_ssid H s1,
           ws_ip_address = Some AP_ADDRESS\<rparr>), s1)
      else
        let (r, s2) = nmcli_run H [lit ''-t'', lit ''-f'', lit ''GENERAL.STATE,GENERAL.CONNECTION,IP4.ADDRESS'',
              lit ''device'', lit ''show'', WLAN] s1
        in (case ok_stdout r of
              None \<Rightarrow> (Inr None, s2)
            | Some out \<Rightarrow>
                (case device_lines_of (splitlines (strip out)) \<lparr>dl_state = None, dl_connection = None, dl_address = None\<rparr> of
                   Inl e \<Rightarrow> (Inl e, s2)
                 | Inr d \<Rightarrow>
                     let connected = (truthy (dl_state d) \<and> startswith (the (dl_state d)) (lit ''100''));
                         (ssid, s3) = (if connected \<and> truthy (dl_connection d)
                           then let (name, s') = get_connection_ssid H (the (dl_connection d)) s2 in (Some name, s')
                           else (None, s2))
                     in (Inr (Some \<lparr>ws_connected = connected,
                           ws_mode = (if connected then lit ''client'' else lit ''none''), ws_ssid = ssid,
                           ws_ip_address = (if truthy (dl_address d)
                             then Some (hd (split_on 47 (the (dl_address d)))) else None)\<rparr>), s3))))"

record wifi_network =
  wn_ssid :: pystr
  wn_signal :: "nat option"
  wn_secured :: bool

definition get_or_empty :: "(pystr, pystr) dict \<Rightarrow> pystr \<Rightarrow> pystr" where
  "get_or_empty row field = (case map_of row field of None \<Rightarrow> [] | Some v \<Rightarrow> v)"

definition network_of_row :: "(pystr, pystr) dict \<Rightarrow> wifi_network" where
  "network_of_row row =
     (let signal = get_or_empty row (lit ''SIGNAL'')
      in \<lparr>wn_ssid = strip (get_or_empty row (lit ''SSID'')),
          wn_signal = (if is_digits signal then Some (undec signal) else None),
          wn_secured = (get_or_empty row (lit ''SECURITY'') \<noteq> [])\<rparr>)"

fun collect_networks :: "(pystr, pystr) dict list \<Rightarrow> pystr list \<Rightarrow> wifi_network list" where
  "collect_networks [] seen_ssids = []"
| "collect_networks (row # rows) seen_ssids =
     (let n = network_of_row row in
      if wn_ssid n = [] \<or> wn_ssid n \<in> set seen_ssids then collect_networks rows seen_ssids
      else n # collect_networks rows (wn_ssid n # seen_ssids))"

definition signal_or_zero :: "wifi_network \<Rightarrow> int" where
  "signal_or_zero n = (case wn_signal n of None \<Rightarrow> 0 | Some k \<Rightarrow> int k)"

definition wifi_fields :: "pystr list" where
  "wifi_fields = [lit ''SSID'', lit ''SIGNAL'', lit ''SECURITY'']"

definition wifi_scan :: "'w host \<Rightarrow> 'w running \<Rightarrow> wifi_network list \<times> 'w running" where
  "wifi_scan H s =
     (let (r, s') = nmcli_run_privileged H [lit ''-t'', lit ''-f'', lit ''SSID,SIGNAL,SECURITY'', lit ''device'',
            lit ''wifi'', lit ''list'', lit ''ifname'', WLAN, lit ''--rescan'', lit ''yes''] s
      in (case ok_stdout r of
            None \<Rightarrow> []
          | Some out \<Rightarrow> sort_desc signal_or_zero (collect_networks (parse_terse out wifi_fields) []), s'))"

text \<open>\<open>list_saved\<close>: pairs of profile name and SSID.\<close>

fun saved_rows :: "'w host \<Rightarrow> (pystr, pystr) dict list \<Rightarrow> 'w running \<Rightarrow> (pystr \<times> pystr) list \<times> 'w running" where
  "saved_rows H [] s = ([], s)"
| "saved_rows H (row # rows) s =
     (if map_of row (lit ''TYPE'') \<noteq> Some (lit ''802-11-wireless'') then saved_rows H rows s
      else let name = get_or_empty row (lit ''NAME''); (ssid, s1) = get_connection_ssid H name s;
               (rest, s2) = saved_rows H rows s1
           in ((name, ssid) # rest, s2))"

definition wifi_list_saved :: "'w host \<Rightarrow> 'w running \<Rightarrow> (pystr \<times> pystr) list \<times> 'w running" where
  "wifi_list_saved H s =
     (let (r, s') = nmcli_run H [lit ''-t'', lit ''-f'', lit ''NAME,TYPE'', lit ''connection'', lit ''show''] s
      in (case ok_stdout r of
            None \<Rightarrow> ([], s')
          | Some out \<Rightarrow> saved_rows H (parse_terse out [lit ''NAME'', lit ''TYPE'']) s'))"

section \<open>Connecting\<close>

definition nmcli_missing :: reply where
  "nmcli_missing = (False, lit ''nmcli/sudo not available'')"

definition nmcli_reply :: "completed option \<Rightarrow> reply" where
  "nmcli_reply r = (case r of None \<Rightarrow> nmcli_missing | Some c \<Rightarrow> (cp_returncode c = 0, output_text c))"

definition wifi_connect :: "'w host \<Rightarrow> pystr \<Rightarrow> pystr option \<Rightarrow> 'w running \<Rightarrow> reply \<times> 'w running" where
  "wifi_connect H ssid password s =
     (let args = [lit ''device'', lit ''wifi'', lit ''connect'', ssid, lit ''ifname'', WLAN] @
            (if truthy password then [lit ''password'', the password] else []);
          (r, s') = nmcli_run_privileged H args s
      in (nmcli_reply r, s'))"

definition wifi_forget :: "'w host \<Rightarrow> pystr \<Rightarrow> 'w running \<Rightarrow> reply \<times> 'w running" where
  "wifi_forget H name s =
     (let (r, s') = nmcli_run_privileged H [lit ''connection'', lit ''delete'', lit ''id'', name] s
      in (nmcli_reply r, s'))"

definition add_args :: "pystr \<Rightarrow> pystr option \<Rightarrow> command" where
  "add_args ssid password =
     [lit ''connection'', lit ''add'', lit ''type'', lit ''wifi'', lit ''con-name'', ssid, lit ''ifname'', WLAN,
      lit ''ssid'', ssid, lit ''autoconnect'', lit ''yes''] @
     (if truthy password then [lit ''wifi-sec.key-mgmt'', lit ''wpa-psk'', lit ''wifi-sec.psk'', the password] else [])"

definition add_known :: "'w host \<Rightarrow> pystr \<Rightarrow> pystr option \<Rightarrow> 'w running \<Rightarrow> reply \<times> 'w running" where
  "add_known H ssid0 password s =
     (let ssid = strip ssid0 in
      if ssid = [] then ((False, lit ''SSID is required''), s)
      else let (r, s1) = nmcli_run_privileged H (add_args ssid password) s in
        (case r of
           None \<Rightarrow> (nmcli_missing, s1)
         | Some c \<Rightarrow>
             if cp_returncode c \<noteq> 0 then ((False, output_text c), s1)
             else let message = output_text c; (was_ap_active, s2) = ap_is_active H s1 in
               if \<not> was_ap_active then ((True, message), s2)
               else let (down, s3) = ap_deactivate H s2 in
                 if \<not> fst down
                 then ((True, message @ lit '' (saved, but could not leave fallback AP mode to connect: '' @
                          snd down @ lit '')''), s3)
                 else let (up, s4) = nmcli_run_privileged H [lit ''connection'', lit ''up'', ssid] (sleep H 2 s3);
                          connected = (case up of None \<Rightarrow> False | Some u \<Rightarrow> cp_returncode u = 0)
                   in if \<not> connected
                      then let (_, s5) = ap_activate H s4
                        in ((True, message @ lit '' (saved, but couldn'' @ [39] @ lit ''t connect right now -- fallback AP restored)''), s5)
                      else ((True, message @ lit '', connected''), s4)))"

text \<open>\<open>retry_known\<close>: the waiting loop may run as long as the clock stands still.\<close>

definition ssid_text :: "pystr option \<Rightarrow> pystr" where
  "ssid_text v = (case v of None \<Rightarrow> lit ''None'' | Some t \<Rightarrow> t)"

partial_function (option) retry_loop ::
  "'w host \<Rightarrow> real \<Rightarrow> 'w running \<Rightarrow> ((exn + pystr option) \<times> 'w running) option" where
  "retry_loop H deadline s =
     (if ho_monotonic H (snd s) < deadline then
        (case wifi_get_status H s of
           (Inl e, s1) \<Rightarrow> Some (Inl e, s1)
         | (Inr status, s1) \<Rightarrow>
             (case status of
                None \<Rightarrow> retry_loop H deadline (sleep H 1 s1)
              | Some st \<Rightarrow>
                  if ws_mode st = lit ''client'' \<and> ws_connected st
                  then Some (Inr (Some (lit ''connected to '' @ ssid_text (ws_ssid st))), s1)
                  else retry_loop H deadline (sleep H 1 s1)))
      else Some (Inr None, s))"

definition retry_known :: "'w host \<Rightarrow> real \<Rightarrow> 'w running \<Rightarrow> ((exn + reply) \<times> 'w running) option" where
  "retry_known H wait_seconds s =
     (let (active, s1) = ap_is_active H s in
      if \<not> active then Some (Inr (False, lit ''fallback AP is not active''), s1)
      else let (down, s2) = ap_deactivate H s1 in
        if \<not> fst down then Some (Inr (False, lit ''could not leave fallback AP mode: '' @ snd down), s2)
        else let deadline = ho_monotonic H (snd s2) + wait_seconds in
          (case wifi_get_status H s2 of
             (Inl e, s3) \<Rightarrow> Some (Inl e, s3)
           | (Inr _, s3) \<Rightarrow>
               (case retry_loop H deadline s3 of
                  None \<Rightarrow> None
                | Some (Inl e, s4) \<Rightarrow> Some (Inl e, s4)
                | Some (Inr (Some m), s4) \<Rightarrow> Some (Inr (True, m), s4)
                | Some (Inr None, s4) \<Rightarrow>
                    let (_, s5) = ap_activate H s4
                    in Some (Inr (True, lit ''no known network found within '' @ str_int (py_int wait_seconds) @
                         lit ''s -- fallback AP restored''), s5))))"

section \<open>Which commands are run\<close>

text \<open>The entries of the log that run a script of the access point; every other command has more than
  one argument after \<open>sudo\<close>.\<close>

definition ran_script :: "pystr \<Rightarrow> command \<times> completed option \<Rightarrow> bool" where
  "ran_script script e \<longleftrightarrow> (\<exists>sudo. fst e = [sudo, script])"

definition succeeded :: "completed option \<Rightarrow> bool" where
  "succeeded r \<longleftrightarrow> (\<exists>c. r = Some c \<and> cp_returncode c = 0)"

text \<open>What a step adds to the log.\<close>

definition adds :: "(command \<times> completed option \<Rightarrow> bool) \<Rightarrow> 'w running \<Rightarrow> 'w running \<Rightarrow> bool" where
  "adds P s s' \<longleftrightarrow> (\<exists>es. fst s' = fst s @ es \<and> list_all P es)"

definition not_script :: "command \<times> completed option \<Rightarrow> bool" where
  "not_script e \<longleftrightarrow> length (fst e) \<noteq> 2"

lemma adds_refl [simp]: "adds P s s"
  by (auto simp: adds_def)

lemma adds_trans: "adds P s s' \<Longrightarrow> adds P s' s'' \<Longrightarrow> adds P s s''"
  by (auto simp: adds_def)

lemma adds_shell_run: "P (args, fst (shell_run H args s)) \<Longrightarrow> adds P s (snd (shell_run H args s))"
  by (cases rule: shell_run_cases [of H args s]) (simp add: adds_def)

lemma adds_run_privileged:
  "(\<And>sudo r. P (sudo # args, r)) \<Longrightarrow> adds P s (snd (run_privileged H args s))"
  by (cases rule: run_privileged_cases [of H args s]) (simp_all add: adds_def)

lemma adds_is_active: "adds not_script s (snd (ap_is_active H s))"
  using adds_shell_run [of not_script _ H s]
  by (auto simp: ap_is_active_def not_script_def Let_def split_def split: option.split)

lemma adds_nmcli_run: "args \<noteq> [] \<Longrightarrow> length args \<noteq> 1 \<Longrightarrow> adds not_script s (snd (nmcli_run H args s))"
  using adds_shell_run [of not_script _ H s]
  by (auto simp: nmcli_run_def not_script_def split: option.split)

lemma adds_nmcli_run_privileged: "args \<noteq> [] \<Longrightarrow> adds not_script s (snd (nmcli_run_privileged H args s))"
  using adds_run_privileged [of not_script _ s H]
  by (auto simp: nmcli_run_privileged_def not_script_def split: option.split)

lemma adds_connection_ssid: "adds not_script s (snd (get_connection_ssid H name s))"
  by (simp add: get_connection_ssid_def Let_def split_def adds_nmcli_run)

lemma adds_get_status: "adds not_script s (snd (wifi_get_status H s))"
proof -
  obtain active s1 where a: "ap_is_active H s = (active, s1)" by (rule prod.exhaust)
  then have 1: "adds not_script s s1" using adds_is_active [of s H] by simp
  define args where "args = [lit ''-t'', lit ''-f'', lit ''GENERAL.STATE,GENERAL.CONNECTION,IP4.ADDRESS'',
    lit ''device'', lit ''show'', WLAN]"
  obtain r s2 where n: "nmcli_run H args s1 = (r, s2)" by (rule prod.exhaust)
  then have 2: "adds not_script s s2"
    using adds_nmcli_run [of args s1 H] adds_trans [OF 1] by (simp add: args_def)
  have 3: "adds not_script s (snd (get_connection_ssid H name s2))" for name
    using adds_trans [OF 2 adds_connection_ssid] .
  show ?thesis
    using 1 2 3 a n by (auto simp: wifi_get_status_def args_def [symmetric] Let_def split: option.splits sum.splits prod.splits)
       (metis snd_conv)+
qed

text \<open>The two scripts.\<close>

lemma ap_deactivate_cases:
  obtains "ap_deactivate H s = (script_reply None, s)" and "find_binary H SUDO_CANDIDATES = None"
  | sudo r w where "ap_deactivate H s = (script_reply r, (fst s @ [([sudo, AP_DOWN_SCRIPT H], r)], w))"
    and "find_binary H SUDO_CANDIDATES = Some sudo"
  by (cases rule: run_privileged_cases [of H "[AP_DOWN_SCRIPT H]" s]) (simp_all add: ap_deactivate_def)

lemma ap_activate_log:
  "find_binary H SUDO_CANDIDATES = Some sudo \<Longrightarrow>
   \<exists>r. fst (snd (ap_activate H s)) = fst s @ [([sudo, AP_UP_SCRIPT H], r)]"
  by (cases rule: run_privileged_cases [of H "[AP_UP_SCRIPT H]" s]) (simp_all add: ap_activate_def)

lemma script_reply_ok [simp]: "fst (script_reply r) \<longleftrightarrow> succeeded r"
  by (simp add: script_reply_def succeeded_def split: option.split)

definition ran :: "(command \<times> completed option \<Rightarrow> bool) \<Rightarrow> 'w running \<Rightarrow> bool" where
  "ran P s \<longleftrightarrow> (\<exists>e \<in> set (fst s). P e)"

lemma adds_not_script: "adds not_script s s' \<Longrightarrow> ran (ran_script script) s' \<longleftrightarrow> ran (ran_script script) s"
proof -
  assume "adds not_script s s'"
  then obtain es where es: "fst s' = fst s @ es" "list_all not_script es" by (auto simp: adds_def)
  have "\<not> ran_script script e" if "not_script e" for e using that by (auto simp: ran_script_def not_script_def)
  with es show ?thesis unfolding ran_def list_all_iff by auto
qed

text \<open>What an operation may leave behind: if it took the access point down, its last command brings it up
  again, or connected to the network \<open>ssid\<close>; if the script that takes it down failed, that was the last
  command.\<close>

definition restored :: "'w host \<Rightarrow> pystr \<Rightarrow> command_log \<Rightarrow> bool" where
  "restored H ssid cmds \<longleftrightarrow>
     (\<forall>e \<in> set cmds. ran_script (AP_DOWN_SCRIPT H) e \<and> succeeded (snd e) \<longrightarrow>
        ran_script (AP_UP_SCRIPT H) (last cmds) \<or>
        (\<exists>sudo nmcli. fst (last cmds) = [sudo, nmcli, lit ''connection'', lit ''up'', ssid] \<and> succeeded (snd (last cmds)))) \<and>
     (\<forall>e \<in> set cmds. ran_script (AP_DOWN_SCRIPT H) e \<and> \<not> succeeded (snd e) \<longrightarrow> last cmds = e)"

lemma restored_no_script: "\<not> ran (ran_script (AP_DOWN_SCRIPT H)) s \<Longrightarrow> restored H ssid (fst s)"
  by (auto simp: restored_def ran_def)

lemma scripts_differ: "AP_UP_SCRIPT H \<noteq> AP_DOWN_SCRIPT H"
  by (simp add: AP_UP_SCRIPT_def AP_DOWN_SCRIPT_def lit_def)

text \<open>The part of \<open>add_known\<close> after the access point was found active.\<close>

lemma restored_switch:
  assumes no: "\<not> ran (ran_script (AP_DOWN_SCRIPT H)) s2"
    and down: "ap_deactivate H s2 = (down, s3)"
    and up: "nmcli_run_privileged H [lit ''connection'', lit ''up'', ssid] (sleep H 2 s3) = (up, s4)"
    and found: "find_binary H NMCLI_CANDIDATES \<noteq> None"
  shows "\<not> fst down \<Longrightarrow> restored H ssid (fst s3)"
    and "fst down \<Longrightarrow> succeeded up \<Longrightarrow> restored H ssid (fst s4)"
    and "fst down \<Longrightarrow> \<not> succeeded up \<Longrightarrow> restored H ssid (fst (snd (ap_activate H s4)))"
proof -
  have *: "(\<not> fst down \<longrightarrow> restored H ssid (fst s3)) \<and>
    (fst down \<longrightarrow> succeeded up \<longrightarrow> restored H ssid (fst s4)) \<and>
    (fst down \<longrightarrow> \<not> succeeded up \<longrightarrow> restored H ssid (fst (snd (ap_activate H s4))))"
  proof (cases rule: ap_deactivate_cases [of H s2])
    case 1
    with no down show ?thesis by (auto simp: restored_no_script succeeded_def)
  next
    case (2 sudo r w)
    then have s3: "fst s3 = fst s2 @ [([sudo, AP_DOWN_SCRIPT H], r)]" and d: "fst down = succeeded r"
      using down by auto
    have old: "\<not> ran_script (AP_DOWN_SCRIPT H) e" if "e \<in> set (fst s2)" for e
      using no that by (auto simp: ran_def)
    obtain nmcli r' where s4: "fst s4 = fst s3 @ [([sudo, nmcli, lit ''connection'', lit ''up'', ssid], r')]"
      "up = r'"
      using up found 2(2)
      by (cases "find_binary H NMCLI_CANDIDATES")
        (auto simp: nmcli_run_privileged_def run_privileged_def shell_run_def split: prod.splits)
    obtain r5 where s5: "fst (snd (ap_activate H s4)) = fst s4 @ [([sudo, AP_UP_SCRIPT H], r5)]"
      using ap_activate_log [OF 2(2)] by blast
    show ?thesis
      using d s3 s4 s5 old scripts_differ [of H] by (auto simp: restored_def ran_script_def)
  qed
  then show "\<not> fst down \<Longrightarrow> restored H ssid (fst s3)"
    and "fst down \<Longrightarrow> succeeded up \<Longrightarrow> restored H ssid (fst s4)"
    and "fst down \<Longrightarrow> \<not> succeeded up \<Longrightarrow> restored H ssid (fst (snd (ap_activate H s4)))" by blast+
qed

text \<open>C8: Adding a network from the fallback access point does not strand the device.  Whatever the
  commands answer, if the access point was taken down, the last command that add_known runs either brings
  it up again or has connected to the new network.  Only if the script that takes it down itself fails,
  possibly after it has stopped the access point, is nothing run after it.\<close>

theorem add_known_restores_access_point:
  "restored H (strip ssid) (fst (snd (add_known H ssid password ([], w))))"
proof (cases "strip ssid = []")
  case True
  then show ?thesis by (simp add: add_known_def restored_def)
next
  case ssid: False
  have no0: "\<not> ran (ran_script (AP_DOWN_SCRIPT H)) ([], w)" by (simp add: ran_def)
  obtain r s1 where r: "nmcli_run_privileged H (add_args (strip ssid) password) ([], w) = (r, s1)"
    by (rule prod.exhaust)
  have no1: "\<not> ran (ran_script (AP_DOWN_SCRIPT H)) s1"
    using adds_nmcli_run_privileged [of "add_args (strip ssid) password" "([], w)" H] r no0
    by (simp add: adds_not_script add_args_def)
  obtain act s2 where a: "ap_is_active H s1 = (act, s2)" by (rule prod.exhaust)
  have no2: "\<not> ran (ran_script (AP_DOWN_SCRIPT H)) s2"
    using adds_is_active [of s1 H] a no1 by (simp add: adds_not_script)
  obtain down s3 where d: "ap_deactivate H s2 = (down, s3)" by (rule prod.exhaust)
  obtain up s4 where u: "nmcli_run_privileged H [lit ''connection'', lit ''up'', strip ssid] (sleep H 2 s3) = (up, s4)"
    by (rule prod.exhaust)
  obtain rep5 s5 where v: "ap_activate H s4 = (rep5, s5)" by (rule prod.exhaust)
  show ?thesis
  proof (cases r)
    case None
    with ssid r no1 show ?thesis by (simp add: add_known_def restored_no_script)
  next
    case (Some c)
    with r have found: "find_binary H NMCLI_CANDIDATES \<noteq> None"
      by (auto simp: nmcli_run_privileged_def split: option.splits)
    note switch = restored_switch [OF no2 d u found, unfolded v snd_conv]
    have "(case up of None \<Rightarrow> False | Some u \<Rightarrow> cp_returncode u = 0) = succeeded up"
      by (simp add: succeeded_def split: option.split)
    with ssid r a d u v Some no1 no2 switch show ?thesis
      by (auto simp: add_known_def Let_def restored_no_script)
  qed
qed

section \<open>retry_known\<close>

text \<open>Time does not run backwards, and a sleep takes at least its time.\<close>

definition clock_ok :: "'w host \<Rightarrow> bool" where
  "clock_ok H \<longleftrightarrow>
     (\<forall>args w. ho_monotonic H w \<le> ho_monotonic H (snd (ho_run H args w))) \<and>
     (\<forall>t w. ho_monotonic H w + t \<le> ho_monotonic H (ho_sleep H t w))"

lemma clock_shell_run:
  "clock_ok H \<Longrightarrow> ho_monotonic H (snd s) \<le> ho_monotonic H (snd (snd (shell_run H args s)))"
  by (simp add: clock_ok_def shell_run_def Let_def split_def)

lemma clock_is_active:
  "clock_ok H \<Longrightarrow> ho_monotonic H (snd s) \<le> ho_monotonic H (snd (snd (ap_is_active H s)))"
  using clock_shell_run [of H s] by (auto simp: ap_is_active_def Let_def split_def split: option.split)

lemma clock_nmcli_run:
  "clock_ok H \<Longrightarrow> ho_monotonic H (snd s) \<le> ho_monotonic H (snd (snd (nmcli_run H args s)))"
  using clock_shell_run [of H s] by (auto simp: nmcli_run_def split: option.split)

lemma clock_connection_ssid:
  "clock_ok H \<Longrightarrow> ho_monotonic H (snd s) \<le> ho_monotonic H (snd (snd (get_connection_ssid H name s)))"
  using clock_nmcli_run [of H s] by (simp add: get_connection_ssid_def Let_def split_def)

lemma clock_get_status:
  assumes "clock_ok H"
  shows "ho_monotonic H (snd s) \<le> ho_monotonic H (snd (snd (wifi_get_status H s)))"
proof -
  obtain active s1 where a: "ap_is_active H s = (active, s1)" by (rule prod.exhaust)
  define args where "args = [lit ''-t'', lit ''-f'', lit ''GENERAL.STATE,GENERAL.CONNECTION,IP4.ADDRESS'',
    lit ''device'', lit ''show'', WLAN]"
  obtain r s2 where n: "nmcli_run H args s1 = (r, s2)" by (rule prod.exhaust)
  have 1: "ho_monotonic H (snd s) \<le> ho_monotonic H (snd s1)" using clock_is_active [OF assms, of s] a by simp
  have 2: "ho_monotonic H (snd s1) \<le> ho_monotonic H (snd s2)" using clock_nmcli_run [OF assms, of s1 args] n by simp
  have 3: "ho_monotonic H (snd s2) \<le> ho_monotonic H (snd s3)" if "get_connection_ssid H name s2 = (i, s3)" for name i s3
    using clock_connection_ssid [OF assms, of s2 name] that by simp
  show ?thesis
    using 1 2 a n
    by (auto simp: wifi_get_status_def args_def [symmetric] Let_def split: option.splits sum.splits prod.splits dest!: 3)
qed

lemma device_lines_error: "device_lines_of lines d = Inl e \<Longrightarrow> e = IndexError"
  by (induction lines arbitrary: d)
    (auto simp: rbind_eq_Inl device_line_def after_colon_def split: if_splits)

lemma get_status_error: "wifi_get_status H s = (Inl e, s') \<Longrightarrow> e = IndexError"
  by (auto simp: wifi_get_status_def Let_def split: prod.splits if_splits option.splits sum.splits
      dest: device_lines_error)

text \<open>Evidence in the log that wlan0 is connected as a client: \<open>nmcli\<close> has shown the device with state 100, and at
  most one command (the name of the network) has been run since.\<close>

definition shown_connected :: "command \<times> completed option \<Rightarrow> bool" where
  "shown_connected e \<longleftrightarrow>
     (\<exists>nmcli c. fst e = [nmcli, lit ''-t'', lit ''-f'', lit ''GENERAL.STATE,GENERAL.CONNECTION,IP4.ADDRESS'',
        lit ''device'', lit ''show'', lit ''wlan0''] \<and> snd e = Some c \<and> cp_returncode c = 0 \<and>
      (\<exists>more. lit ''GENERAL.STATE:100'' @ more \<in> set (splitlines (strip (cp_stdout c)))))"

definition client_up :: "command_log \<Rightarrow> bool" where
  "client_up entries \<longleftrightarrow> (\<exists>before e after. entries = before @ e # after \<and> length after \<le> 1 \<and> shown_connected e)"

lemma device_line_state:
  "device_line line d = Inr d' \<Longrightarrow>
   dl_state d' = dl_state d \<or> (\<exists>v. dl_state d' = Some v \<and> line = lit ''GENERAL.STATE:'' @ v)"
  by (auto simp: device_line_def startswith_iff after_colon_def rbind_eq_Inr split: if_splits) (auto simp: lit_def)

lemma device_lines_state:
  "device_lines_of lines d = Inr d' \<Longrightarrow>
   dl_state d' = dl_state d \<or> (\<exists>v. dl_state d' = Some v \<and> lit ''GENERAL.STATE:'' @ v \<in> set lines)"
proof (induction lines arbitrary: d)
  case (Cons line lines)
  from Cons.prems obtain d1 where d1: "device_line line d = Inr d1" "device_lines_of lines d1 = Inr d'"
    by (auto simp: rbind_eq_Inr)
  from Cons.IH [OF d1(2)] device_line_state [OF d1(1)] show ?case by auto
qed simp

lemma nmcli_run_entry:
  "nmcli_run H args s = (r, s') \<Longrightarrow>
   s' = s \<and> r = None \<or> (\<exists>nmcli. fst s' = fst s @ [(nmcli # args, r)])"
  by (auto simp: nmcli_run_def shell_run_def Let_def split_def split: option.splits)

lemma get_status_client:
  assumes "wifi_get_status H s = (Inr (Some st), s')" and "ws_mode st = lit ''client'' \<and> ws_connected st"
  shows "client_up (fst s')"
proof -
  obtain active s1 where a: "ap_is_active H s = (active, s1)" by (rule prod.exhaust)
  define args where "args = [lit ''-t'', lit ''-f'', lit ''GENERAL.STATE,GENERAL.CONNECTION,IP4.ADDRESS'',
    lit ''device'', lit ''show'', WLAN]"
  obtain r s2 where n: "nmcli_run H args s1 = (r, s2)" by (rule prod.exhaust)
  have "\<not> active" using assms a by (auto simp: wifi_get_status_def lit_def)
  moreover from this obtain out where out: "ok_stdout r = Some out"
    using assms(1) a n by (cases "ok_stdout r") (auto simp: wifi_get_status_def args_def [symmetric])
  ultimately obtain d where d: "device_lines_of (splitlines (strip out))
      \<lparr>dl_state = None, dl_connection = None, dl_address = None\<rparr> = Inr d"
    using assms(1) a n by (auto simp: wifi_get_status_def args_def [symmetric] split: sum.splits)
  let ?query = "\<lambda>name. get_connection_ssid H name s2"
  have c: "truthy (dl_state d)" "startswith (the (dl_state d)) (lit ''100'')"
      "s' = s2 \<or> (\<exists>name. s' = snd (?query name))"
    using assms a n out d \<open>\<not> active\<close>
    by (auto simp: wifi_get_status_def args_def [symmetric] Let_def split_def split: if_splits)
  from c(1,2) obtain more where "dl_state d = Some (lit ''100'' @ more)"
    by (cases "dl_state d") (auto simp: truthy_def startswith_iff)
  with device_lines_state [OF d] have line: "lit ''GENERAL.STATE:100'' @ more \<in> set (splitlines (strip out))"
    by (auto simp: lit_def)
  from out obtain k where k: "r = Some k" "cp_returncode k = 0" "cp_stdout k = out"
    by (cases r) (auto simp: ok_stdout_def split: if_splits)
  from nmcli_run_entry [OF n] k obtain nmcli where e: "fst s2 = fst s1 @ [(nmcli # args, Some k)]" by auto
  have shown: "shown_connected (nmcli # args, Some k)"
    using line k unfolding shown_connected_def args_def WLAN_def by auto
  from c(3) obtain after where "fst s' = fst s1 @ (nmcli # args, Some k) # after" "length after \<le> 1"
  proof
    assume "\<exists>name. s' = snd (?query name)"
    then obtain name where "s' = snd (?query name)" ..
    moreover have "\<exists>after. fst (snd (?query name)) = fst s2 @ after \<and> length after \<le> 1"
    proof -
      obtain q s4 where q: "nmcli_run H [lit ''-t'', lit ''-f'', lit ''802-11-wireless.ssid'', lit ''connection'',
          lit ''show'', name] s2 = (q, s4)" by (rule prod.exhaust)
      from nmcli_run_entry [OF q] q show ?thesis by (auto simp: get_connection_ssid_def Let_def)
    qed
    ultimately show thesis using that e by auto
  qed (use that e in auto)
  with shown show ?thesis unfolding client_up_def by blast
qed

text \<open>What the loop may report.\<close>

definition loop_report :: "exn + pystr option \<Rightarrow> 'w running \<Rightarrow> bool" where
  "loop_report r s' \<longleftrightarrow>
     (case r of Inl e \<Rightarrow> e = IndexError | Inr None \<Rightarrow> True
      | Inr (Some m) \<Rightarrow> startswith m (lit ''connected to '') \<and> client_up (fst s'))"

text \<open>The loop ends, and adds no script to the log.\<close>

lemma retry_loop_returns:
  assumes "clock_ok H" and "nat \<lceil>deadline - ho_monotonic H (snd s)\<rceil> \<le> n"
  shows "\<exists>r s'. retry_loop H deadline s = Some (r, s') \<and> adds not_script s s' \<and> loop_report r s'"
  using assms(2)
proof (induction n arbitrary: s)
  case 0
  then have "\<not> ho_monotonic H (snd s) < deadline" by linarith
  then show ?case by (subst retry_loop.simps) (simp add: loop_report_def)
next
  case (Suc n)
  show ?case
  proof (cases "ho_monotonic H (snd s) < deadline")
    case False
    then show ?thesis by (subst retry_loop.simps) (simp add: loop_report_def)
  next
    case True
    obtain status s1 where st: "wifi_get_status H s = (status, s1)" by (rule prod.exhaust)
    have 1: "adds not_script s s1" using adds_get_status [of s H] st by simp
    have "ho_monotonic H (snd s) + 1 \<le> ho_monotonic H (snd (sleep H 1 s1))"
      using clock_get_status [OF assms(1), of s] st assms(1) unfolding clock_ok_def sleep_def
      by (simp; smt (verit, ccfv_threshold))
    then have "nat \<lceil>deadline - ho_monotonic H (snd (sleep H 1 s1))\<rceil> \<le> n" using Suc.prems True by linarith
    from Suc.IH [OF this] obtain r s' where r: "retry_loop H deadline (sleep H 1 s1) = Some (r, s')"
      "adds not_script (sleep H 1 s1) s'" "loop_report r s'" by blast
    then have 2: "adds not_script s s'" using adds_trans [OF 1, of s'] by (simp add: adds_def)
    consider (error) e where "status = Inl e"
      | (connected) st where "status = Inr (Some st)" "ws_mode st = lit ''client'' \<and> ws_connected st"
      | (again) x where "status = Inr x"
          "\<And>st. x = Some st \<Longrightarrow> \<not> (ws_mode st = lit ''client'' \<and> ws_connected st)"
      by (cases status) (simp, metis option.exhaust)
    then show ?thesis
    proof cases
      case error
      with True st have "retry_loop H deadline s = Some (Inl e, s1)" by (subst retry_loop.simps) simp
      moreover have "loop_report (Inl e) s1" using error st get_status_error by (simp add: loop_report_def)
      ultimately show ?thesis using 1 by blast
    next
      case connected
      with True st have "retry_loop H deadline s =
          Some (Inr (Some (lit ''connected to '' @ ssid_text (ws_ssid st))), s1)"
        by (subst retry_loop.simps) simp
      moreover have "loop_report (Inr (Some (lit ''connected to '' @ ssid_text (ws_ssid st)))) s1"
        using get_status_client connected \<open>wifi_get_status H s = (status, s1)\<close>
        by (simp add: loop_report_def startswith_append)
      ultimately show ?thesis using 1 by blast
    next
      case again
      with True st have "retry_loop H deadline s = retry_loop H deadline (sleep H 1 s1)"
        by (subst retry_loop.simps) (auto split: option.split)
      with r 2 show ?thesis by metis
    qed
  qed
qed

text \<open>C28: If time passes while it sleeps, retrying the known networks ends, and does not strand the
  device: if the access point was taken down, then either the last command has brought the access point up
  again, or the reply says that a network is connected and \<open>nmcli\<close> has just shown wlan0 in the state 100
  (connected), with at most the query for the network's name after it.  The only other way out is the
  exception of an nmcli line without a colon.\<close>

theorem retry_known_returns:
  assumes "clock_ok H"
  shows "\<exists>res s'. retry_known H wait ([], w) = Some (res, s') \<and>
    ((\<exists>e \<in> set (fst s'). ran_script (AP_DOWN_SCRIPT H) e \<and> succeeded (snd e)) \<longrightarrow>
      (case res of Inl e \<Rightarrow> e = IndexError
       | Inr (ok, m) \<Rightarrow> ran_script (AP_UP_SCRIPT H) (last (fst s')) \<or>
           startswith m (lit ''connected to '') \<and> client_up (fst s')))"
proof -
  obtain active s1 where a: "ap_is_active H ([], w) = (active, s1)" by (rule prod.exhaust)
  have no1: "\<not> ran (ran_script (AP_DOWN_SCRIPT H)) s1"
    using adds_is_active [of "([], w)" H] a by (simp add: adds_not_script) (simp add: ran_def)
  obtain down s2 where d: "ap_deactivate H s1 = (down, s2)" by (rule prod.exhaust)
  have no2: "\<not> (\<exists>e \<in> set (fst s2). ran_script (AP_DOWN_SCRIPT H) e \<and> succeeded (snd e))" if "\<not> fst down"
    using that d no1 by (cases rule: ap_deactivate_cases [of H s1]) (auto simp: ran_def)
  have sudo: "find_binary H SUDO_CANDIDATES \<noteq> None" if "fst down"
    using that d by (cases rule: ap_deactivate_cases [of H s1]) (auto simp: succeeded_def)
  obtain status s3 where st: "wifi_get_status H s2 = (status, s3)" by (rule prod.exhaust)
  obtain r s4 where r: "retry_loop H (ho_monotonic H (snd s2) + wait) s3 = Some (r, s4)" "loop_report r s4"
    using retry_loop_returns [OF assms order_refl, of "ho_monotonic H (snd s2) + wait" s3] by blast
  obtain rep s5 where v: "ap_activate H s4 = (rep, s5)" by (rule prod.exhaust)
  have up: "ran_script (AP_UP_SCRIPT H) (last (fst s5))" if "fst down"
    using sudo [OF that] ap_activate_log [of H _ s4] v by (auto simp: ran_script_def)
  consider "\<not> active" | "active" "\<not> fst down" | e where "active" "fst down" "status = Inl e"
    | x where "active" "fst down" "status = Inr x" by (cases status) auto
  then show ?thesis
  proof cases
    case 1
    with a no1 show ?thesis by (cases s1) (auto simp: retry_known_def ran_def)
  next
    case 2
    with a d no2 show ?thesis by (cases s2) (auto simp: retry_known_def Let_def)
  next
    case 3
    with get_status_error [of H s2 e s3] st have "e = IndexError" by simp
    with 3 a d st show ?thesis by (cases s3) (auto simp: retry_known_def Let_def)
  next
    case 4
    show ?thesis
    proof (cases r)
      case (Inl e)
      with 4 a d st r show ?thesis by (cases s4) (auto simp: retry_known_def Let_def loop_report_def)
    next
      case (Inr m)
      with 4 a d st r v up show ?thesis
        by (cases s4; cases s5; cases m) (auto simp: retry_known_def Let_def loop_report_def)
    qed
  qed
qed

text \<open>A device that answers every command with success, with a clock that sleeping advances, while the
  access point stays active: the wait times out.\<close>

definition host_waiting :: "real host" where
  "host_waiting = \<lparr>ho_which = Some,
     ho_run = (\<lambda>args t. (Some \<lparr>cp_returncode = 0, cp_stdout = lit ''active'', cp_stderr = []\<rparr>, t)),
     ho_monotonic = id, ho_sleep = (\<lambda>d t. t + max 0 d), ho_read = (\<lambda>path t. Inl []), ho_repo_dir = lit ''/opt/lanpi''\<rparr>"

theorem retry_known_returns_witness:
  "\<exists>res s'. retry_known host_waiting 2 ([], 0) = Some (res, s') \<and>
    ((\<exists>e \<in> set (fst s'). ran_script (AP_DOWN_SCRIPT host_waiting) e \<and> succeeded (snd e)) \<longrightarrow>
      (case res of Inl e \<Rightarrow> e = IndexError
       | Inr (ok, m) \<Rightarrow> ran_script (AP_UP_SCRIPT host_waiting) (last (fst s')) \<or>
           startswith m (lit ''connected to '') \<and> client_up (fst s')))"
  by (rule retry_known_returns) (simp add: clock_ok_def host_waiting_def)

section \<open>Terse output\<close>

text \<open>Nmcli writes a colon inside a value as a backslash and a colon, which the parser does not
  undo: a network named \<open>a:b\<close> with signal 70 and WPA2 is listed as a network named \<open>a\<close> and a backslash,
  with no signal.\<close>

theorem wifi_scan_escaped_colon:
  "collect_networks (parse_terse (lit ''a'' @ [92] @ lit '':b:70:WPA2'' @ [10]) wifi_fields) [] =
   [\<lparr>wn_ssid = lit ''a'' @ [92], wn_signal = None, wn_secured = True\<rparr>]"
  by (simp add: lit_def parse_terse_def wifi_fields_def splitlines_def strip_def lstrip_def rstrip_def is_space_def
      is_linebreak_def network_of_row_def get_or_empty_def is_digits_def Let_def)

end
