(* ===== verification/Eth0_Mode.thy ===== *)
theory Eth0_Mode
  imports Nmcli
begin

text \<open>
  \<open>backend/network/eth0_mode.py\<close>: the IP mode of the test port.  Operations are functions of the host
  and of the log of commands, as in the other modules that use \<open>nmcli\<close>.
\<close>

type_synonym reply = "bool \<times> pystr"

definition CONNECTION_NAME :: pystr where
  "CONNECTION_NAME = lit ''lanpi-eth0''"

definition ETH0 :: pystr where
  "ETH0 = lit ''eth0''"

definition ETH0_ROUTE_METRIC :: pystr where
  "ETH0_ROUTE_METRIC = lit ''700''"

section \<open>The profile\<close>

definition modify_args :: command where
  "modify_args = [lit ''connection'', lit ''modify'', CONNECTION_NAME, lit ''ipv4.never-default'', lit ''no'',
     lit ''ipv4.route-metric'', ETH0_ROUTE_METRIC]"

definition create_args :: command where
  "create_args = [lit ''connection'', lit ''add'', lit ''type'', lit ''ethernet'', lit ''ifname'', ETH0,
     lit ''con-name'', CONNECTION_NAME, lit ''autoconnect'', lit ''no'', lit ''ipv4.method'', lit ''auto'',
     lit ''ipv4.route-metric'', ETH0_ROUTE_METRIC]"

definition returned_zero :: "completed option \<Rightarrow> bool" where
  "returned_zero r = (case r of None \<Rightarrow> False | Some c \<Rightarrow> cp_returncode c = 0)"

definition ensure_profile :: "'w host \<Rightarrow> 'w running \<Rightarrow> bool \<times> 'w running" where
  "ensure_profile H s =
     (let (result, s1) = nmcli_run H [lit ''-t'', lit ''-f'', lit ''NAME'', lit ''connection'', lit ''show''] s
      in (case result of
            None \<Rightarrow> (False, s1)
          | Some c \<Rightarrow>
              if CONNECTION_NAME \<in> set (splitlines (strip (cp_stdout c)))
              then (True, snd (nmcli_run_privileged H modify_args s1))
              else let (create, s2) = nmcli_run_privileged H create_args s1 in (returned_zero create, s2)))"

section \<open>get_mode\<close>

record eth0_lines =
  el_connection :: "pystr option"
  el_address :: "pystr option"
  el_gateway :: "pystr option"
  el_dns :: "pystr list"
  el_dhcp_options :: "(pystr, pystr) dict"

text \<open>\<open>s.partition(sep)\<close>: \<open>None\<close> when \<open>sep\<close> does not occur.\<close>

fun partition :: "pystr \<Rightarrow> pystr \<Rightarrow> (pystr \<times> pystr) option" where
  "partition sep [] = None"
| "partition sep (c # s) =
     (if startswith (c # s) sep then Some ([], drop (length sep) (c # s))
      else map_option (\<lambda>(a, b). (c # a, b)) (partition sep s))"

text \<open>One line; \<open>line.split(":", 1)[1]\<close> raises without a colon, \<open>line.partition(":")\<close> does not.\<close>

definition eth0_line :: "pystr \<Rightarrow> eth0_lines \<Rightarrow> exn + eth0_lines" where
  "eth0_line line d =
     (if startswith line (lit ''GENERAL.CONNECTION:'')
      then rbind (after_colon line) (\<lambda>v. Inr (d\<lparr>el_connection := Some v\<rparr>))
      else if startswith line (lit ''IP4.ADDRESS'')
      then rbind (after_colon line) (\<lambda>v. Inr (d\<lparr>el_address := Some v\<rparr>))
      else if startswith line (lit ''IP4.GATEWAY:'')
      then rbind (after_colon line) (\<lambda>v. Inr (d\<lparr>el_gateway := Some v\<rparr>))
      else if startswith line (lit ''IP4.DNS'')
      then rbind (after_colon line) (\<lambda>v. Inr (d\<lparr>el_dns := el_dns d @ [v]\<rparr>))
      else if startswith line (lit ''DHCP4.OPTION'')
      then let rest = (case after_colon line of Inl e \<Rightarrow> [] | Inr r \<Rightarrow> r) in
        (case partition (lit '' = '') (strip rest) of
           None \<Rightarrow> Inr d
         | Some (key, v) \<Rightarrow>
             Inr (d\<lparr>el_dhcp_options := AList.update (strip key) (strip v) (el_dhcp_options d)\<rparr>))
      else Inr d)"

fun eth0_lines_of :: "pystr list \<Rightarrow> eth0_lines \<Rightarrow> exn + eth0_lines" where
  "eth0_lines_of [] d = Inr d"
| "eth0_lines_of (line # lines) d = rbind (eth0_line line d) (eth0_lines_of lines)"

definition eth0_lines0 :: eth0_lines where
  "eth0_lines0 = \<lparr>el_connection = None, el_address = None, el_gateway = None, el_dns = [], el_dhcp_options = []\<rparr>"

record eth0_report =
  er_mode :: pystr
  er_address :: "pystr option"
  er_gateway :: "pystr option"
  er_dns :: "pystr list"
  er_lease_time_seconds :: "nat option"
  er_dhcp_server :: "pystr option"
  er_domain_name :: "pystr option"

definition passive_report :: eth0_report where
  "passive_report = \<lparr>er_mode = lit ''passive'', er_address = None, er_gateway = None, er_dns = [],
     er_lease_time_seconds = None, er_dhcp_server = None, er_domain_name = None\<rparr>"

definition or_none :: "pystr option \<Rightarrow> pystr option" where
  "or_none v = (if truthy v then v else None)"

text \<open>The value of a field that \<open>connection show\<close> prints as \<open>name:value\<close>.\<close>

definition connection_field :: "'w host \<Rightarrow> pystr \<Rightarrow> pystr \<Rightarrow> 'w running \<Rightarrow> pystr option \<times> 'w running" where
  "connection_field H field connection s =
     (let (r, s') = nmcli_run H [lit ''-t'', lit ''-f'', field, lit ''connection'', lit ''show'', connection] s
      in (map_option (\<lambda>out. strip (after_colon_or_all (strip out))) (ok_stdout r), s'))"

definition show_args :: command where
  "show_args = [lit ''-t'', lit ''-f'', lit ''GENERAL.CONNECTION,IP4.ADDRESS,IP4.GATEWAY,IP4.DNS,DHCP4.OPTION'',
     lit ''device'', lit ''show'', ETH0]"

definition eth0_mode_of :: "pystr option \<Rightarrow> pystr" where
  "eth0_mode_of m =
     (let method = (case m of None \<Rightarrow> lit ''auto'' | Some v \<Rightarrow> if v \<noteq> [] then v else lit ''auto'')
      in if method = lit ''manual'' then lit ''static'' else lit ''dhcp'')"

definition eth0_gateway ::
  "'w host \<Rightarrow> pystr \<Rightarrow> eth0_lines \<Rightarrow> 'w running \<Rightarrow> pystr option \<times> 'w running" where
  "eth0_gateway H mode d s =
     (if truthy (el_gateway d) then (el_gateway d, s)
      else if mode = lit ''dhcp'' then (map_of (el_dhcp_options d) (lit ''routers''), s)
      else let (g, s') = connection_field H (lit ''ipv4.gateway'') (the (el_connection d)) s
        in (case g of None \<Rightarrow> el_gateway d | Some v \<Rightarrow> if v \<noteq> [] then Some v else None, s'))"

definition lease_time :: "(pystr, pystr) dict \<Rightarrow> nat option" where
  "lease_time options =
     (case map_of options (lit ''dhcp_lease_time'') of
        None \<Rightarrow> None | Some raw \<Rightarrow> if is_digits raw then Some (undec raw) else None)"

definition eth0_get_mode :: "'w host \<Rightarrow> 'w running \<Rightarrow> (exn + eth0_report option) \<times> 'w running" where
  "eth0_get_mode H s =
     (let (result, s1) = nmcli_run H show_args s in
      case ok_stdout result of
        None \<Rightarrow> (Inr None, s1)
      | Some out \<Rightarrow>
          (case eth0_lines_of (splitlines (strip out)) eth0_lines0 of
             Inl e \<Rightarrow> (Inl e, s1)
           | Inr d \<Rightarrow>
               if \<not> truthy (el_connection d) \<or> el_connection d = Some (lit ''--'')
               then (Inr (Some passive_report), s1)
               else
                 let (m, s2) = connection_field H (lit ''ipv4.method'') (the (el_connection d)) s1;
                     mode = eth0_mode_of m;
                     (gateway, s3) = eth0_gateway H mode d s2;
                     options = el_dhcp_options d; dhcp = (mode = lit ''dhcp'')
                 in (Inr (Some \<lparr>er_mode = mode, er_address = el_address d, er_gateway = gateway, er_dns = el_dns d,
                       er_lease_time_seconds = (if dhcp then lease_time options else None),
                       er_dhcp_server = (if dhcp then or_none (map_of options (lit ''dhcp_server_identifier'')) else None),
                       er_domain_name = (if dhcp then or_none (map_of options (lit ''domain_name'')) else None)\<rparr>), s3)))"

section \<open>Setting the mode\<close>

definition eth0_set_passive :: "'w host \<Rightarrow> 'w running \<Rightarrow> reply \<times> 'w running" where
  "eth0_set_passive H s =
     (let (result, s') = nmcli_run_privileged H [lit ''device'', lit ''disconnect'', ETH0] s
      in (case result of
            None \<Rightarrow> (False, lit ''nmcli/sudo not available'')
          | Some c \<Rightarrow>
              if cp_returncode c \<noteq> 0 \<and> \<not> contains (cp_stderr c) (lit ''not active'')
              then (False, strip (cp_stderr c))
              else (True, lit ''eth0 set to passive mode''), s'))"

definition up_args :: command where
  "up_args = [lit ''connection'', lit ''up'', CONNECTION_NAME]"

definition up_reply :: "pystr \<Rightarrow> completed option \<Rightarrow> reply" where
  "up_reply done_message result =
     (case result of
        None \<Rightarrow> (False, lit ''nmcli/sudo not available'')
      | Some c \<Rightarrow> if cp_returncode c \<noteq> 0 then (False, strip (cp_stderr c)) else (True, done_message))"

definition no_profile :: reply where
  "no_profile = (False, lit ''could not create lanpi-eth0 profile'')"

definition dhcp_args :: command where
  "dhcp_args = [lit ''connection'', lit ''modify'', CONNECTION_NAME, lit ''ipv4.method'', lit ''auto'',
     lit ''ipv4.addresses'', [], lit ''ipv4.gateway'', [], lit ''ipv4.dns'', []]"

definition eth0_set_dhcp :: "'w host \<Rightarrow> 'w running \<Rightarrow> reply \<times> 'w running" where
  "eth0_set_dhcp H s =
     (let (ok, s1) = ensure_profile H s in
      if \<not> ok then (no_profile, s1)
      else let (_, s2) = nmcli_run_privileged H dhcp_args s1; (result, s3) = nmcli_run_privileged H up_args s2
        in (up_reply (lit ''eth0 set to DHCP mode'') result, s3))"

definition static_args :: "pystr \<Rightarrow> pystr \<Rightarrow> pystr \<Rightarrow> command" where
  "static_args address gateway dns = [lit ''connection'', lit ''modify'', CONNECTION_NAME, lit ''ipv4.method'',
     lit ''manual'', lit ''ipv4.addresses'', address, lit ''ipv4.gateway'', gateway, lit ''ipv4.dns'', dns]"

definition eth0_set_static :: "'w host \<Rightarrow> pystr \<Rightarrow> pystr \<Rightarrow> pystr \<Rightarrow> 'w running \<Rightarrow> reply \<times> 'w running" where
  "eth0_set_static H address gateway dns s =
     (if address = [] \<or> 47 \<notin> set address
      then ((False, lit ''address must be in CIDR form, e.g. 192.168.20.200/24''), s)
      else let (ok, s1) = ensure_profile H s in
        if \<not> ok then (no_profile, s1)
        else let (_, s2) = nmcli_run_privileged H (static_args address gateway dns) s1;
                 (result, s3) = nmcli_run_privileged H up_args s2
          in (up_reply (lit ''eth0 set to static mode'') result, s3))"

section \<open>What nmcli prints\<close>

text \<open>The terse output of \<open>nmcli device show\<close> for the requested fields: one line for a plain field, one
  numbered line for each element of a list field, a DHCP option as \<open>key = value\<close>.\<close>

definition numbered :: "string \<Rightarrow> pystr list \<Rightarrow> pystr list" where
  "numbered field values = map (\<lambda>(i, v). lit field @ lit ''['' @ dec i @ lit '']:'' @ v) (enumerate 1 values)"

definition nmcli_lines :: "pystr \<Rightarrow> pystr list \<Rightarrow> pystr \<Rightarrow> pystr list \<Rightarrow> (pystr \<times> pystr) list \<Rightarrow> pystr list" where
  "nmcli_lines connection addresses gateway dns options =
     [lit ''GENERAL.CONNECTION:'' @ connection] @ numbered ''IP4.ADDRESS'' addresses @
     [lit ''IP4.GATEWAY:'' @ gateway] @ numbered ''IP4.DNS'' dns @
     numbered ''DHCP4.OPTION'' (map (\<lambda>(k, v). k @ lit '' = '' @ v) options)"

text \<open>A value as nmcli prints it: no line breaks, and no space at its ends.\<close>

definition value_ok :: "pystr \<Rightarrow> bool" where
  "value_ok v \<longleftrightarrow> v \<noteq> [] \<and> plain_text v \<and> \<not> is_space (hd v) \<and> \<not> is_space (last v)"

definition option_ok :: "pystr \<times> pystr \<Rightarrow> bool" where
  "option_ok kv \<longleftrightarrow> value_ok (fst kv) \<and> 61 \<notin> set (fst kv) \<and> value_ok (snd kv)"

section \<open>Reading it back\<close>

lemma eth0_lines_append: "eth0_lines_of (xs @ ys) d = rbind (eth0_lines_of xs d) (eth0_lines_of ys)"
proof (induction xs arbitrary: d)
  case (Cons x xs)
  then show ?case by (cases "eth0_line x d") simp_all
qed simp

lemma no_colon_dec: "58 \<notin> set (dec n)"
  using dec_digits by fastforce

lemma after_colon_numbered:
  "58 \<notin> set (lit field) \<Longrightarrow> after_colon (lit field @ lit ''['' @ dec i @ lit '']:'' @ v) = Inr v"
  using after_colon_prefix [of "lit field @ lit ''['' @ dec i @ lit '']''" v] no_colon_dec
  by (simp add: lit_def)

lemma partition_eq:
  assumes "61 \<notin> set k"
  shows "partition (lit '' = '') (k @ lit '' = '' @ v) = Some (k, v)"
  using assms
proof (induction k)
  case Nil
  then show ?case by (simp add: lit_def startswith_def)
next
  case (Cons c k)
  have "\<not> startswith ((c # k) @ lit '' = '' @ v) (lit '' = '')"
    using Cons.prems by (cases k) (auto simp: lit_def startswith_def)
  with Cons show ?case by simp
qed

lemma value_strip: "value_ok v \<Longrightarrow> strip v = v"
  by (simp add: value_ok_def strip_plain)

lemma address_line:
  "eth0_line (lit ''IP4.ADDRESS'' @ lit ''['' @ dec i @ lit '']:'' @ v) d = Inr (d\<lparr>el_address := Some v\<rparr>)"
  using after_colon_numbered [of "''IP4.ADDRESS''" i v] by (simp add: eth0_line_def) (simp add: startswith_def lit_def)

lemma dns_line:
  "eth0_line (lit ''IP4.DNS'' @ lit ''['' @ dec i @ lit '']:'' @ v) d = Inr (d\<lparr>el_dns := el_dns d @ [v]\<rparr>)"
  using after_colon_numbered [of "''IP4.DNS''" i v] by (simp add: eth0_line_def) (simp add: startswith_def lit_def)

lemma option_strip: "option_ok (k, v) \<Longrightarrow> strip (k @ lit '' = '' @ v) = k @ lit '' = '' @ v"
  by (intro strip_plain) (auto simp: option_ok_def value_ok_def)

lemma option_line:
  assumes "option_ok (k, v)"
  shows "eth0_line (lit ''DHCP4.OPTION'' @ lit ''['' @ dec i @ lit '']:'' @ k @ lit '' = '' @ v) d =
    Inr (d\<lparr>el_dhcp_options := AList.update k v (el_dhcp_options d)\<rparr>)"
proof -
  let ?line = "lit ''DHCP4.OPTION'' @ lit ''['' @ dec i @ lit '']:'' @ k @ lit '' = '' @ v"
  have a: "after_colon ?line = Inr (k @ lit '' = '' @ v)"
    by (rule after_colon_numbered) (simp add: lit_def)
  have p: "partition (lit '' = '') (k @ lit '' = '' @ v) = Some (k, v)"
    using assms by (intro partition_eq) (simp add: option_ok_def)
  have "strip k = k" "strip v = v" using assms by (simp_all add: option_ok_def value_strip)
  moreover have "\<not> startswith ?line (lit ''GENERAL.CONNECTION:'')" "\<not> startswith ?line (lit ''IP4.ADDRESS'')"
    "\<not> startswith ?line (lit ''IP4.GATEWAY:'')" "\<not> startswith ?line (lit ''IP4.DNS'')"
    "startswith ?line (lit ''DHCP4.OPTION'')"
    by (simp_all add: startswith_def lit_def)
  ultimately show ?thesis
    by (simp only: eth0_line_def a p option_strip [OF assms] if_False if_True sum.case option.case Let_def prod.case)
qed

lemma connection_line:
  "eth0_line (lit ''GENERAL.CONNECTION:'' @ v) d = Inr (d\<lparr>el_connection := Some v\<rparr>)"
  using after_colon_prefix [of "lit ''GENERAL.CONNECTION''" v]
  by (simp add: eth0_line_def) (simp add: startswith_def lit_def)

lemma gateway_line: "eth0_line (lit ''IP4.GATEWAY:'' @ v) d = Inr (d\<lparr>el_gateway := Some v\<rparr>)"
  using after_colon_prefix [of "lit ''IP4.GATEWAY''" v]
  by (simp add: eth0_line_def) (simp add: startswith_def lit_def)

text \<open>The list fields: the last address, all name servers, all options.\<close>

lemma address_lines:
  "eth0_lines_of (map (\<lambda>(i, v). lit ''IP4.ADDRESS'' @ lit ''['' @ dec i @ lit '']:'' @ v) (enumerate n vs)) d =
   Inr (if vs = [] then d else d\<lparr>el_address := Some (last vs)\<rparr>)"
  by (induction vs arbitrary: n d) (simp_all add: address_line)

lemma dns_lines:
  "eth0_lines_of (map (\<lambda>(i, v). lit ''IP4.DNS'' @ lit ''['' @ dec i @ lit '']:'' @ v) (enumerate n vs)) d =
   Inr (d\<lparr>el_dns := el_dns d @ vs\<rparr>)"
  by (induction vs arbitrary: n d) (simp_all add: dns_line)

lemma option_lines:
  "list_all option_ok kvs \<Longrightarrow>
   eth0_lines_of (map (\<lambda>(i, v). lit ''DHCP4.OPTION'' @ lit ''['' @ dec i @ lit '']:'' @ v)
     (enumerate n (map (\<lambda>(k, v). k @ lit '' = '' @ v) kvs))) d =
   Inr (d\<lparr>el_dhcp_options := fold (\<lambda>(k, v). AList.update k v) kvs (el_dhcp_options d)\<rparr>)"
proof (induction kvs arbitrary: n d)
  case (Cons kv kvs)
  obtain k v where kv: "kv = (k, v)" by (cases kv)
  with Cons.prems have "option_ok (k, v)" by simp
  from option_line [OF this] Cons show ?case by (simp add: kv)
qed simp

definition options_of :: "(pystr \<times> pystr) list \<Rightarrow> (pystr, pystr) dict" where
  "options_of kvs = fold (\<lambda>(k, v). AList.update k v) kvs []"

lemma map_of_options: "map_of (options_of kvs) = map_of (rev kvs)"
proof -
  have "map_of (fold (\<lambda>(k, v). AList.update k v) kvs d) = map_of d ++ map_of (rev kvs)" for d
  proof (induction kvs arbitrary: d)
    case (Cons kv kvs)
    then show ?case by (cases kv) (simp add: update_conv' map_add_upd_left fun_eq_iff map_add_def split: option.split)
  qed simp
  from this [of "[]"] show ?thesis by (simp add: options_of_def)
qed

lemma nmcli_lines_read:
  assumes "list_all option_ok options"
  shows "eth0_lines_of (nmcli_lines connection addresses gateway dns options) eth0_lines0 =
    Inr \<lparr>el_connection = Some connection,
      el_address = (if addresses = [] then None else Some (last addresses)), el_gateway = Some gateway,
      el_dns = dns, el_dhcp_options = options_of options\<rparr>"
  unfolding nmcli_lines_def numbered_def eth0_lines_append
  by (simp add: connection_line gateway_line address_lines dns_lines option_lines [OF assms]
      eth0_lines0_def options_of_def eth0_lines_append)

lemma plain_numbered: "plain_text v \<Longrightarrow> plain_text (lit field @ lit ''['' @ dec i @ lit '']:'' @ v)"
  if "plain_text (lit field)"
proof -
  assume "plain_text v"
  moreover have "plain_text (dec i)"
    using dec_digits by (force simp: plain_text_def list_all_iff is_linebreak_def)
  ultimately show ?thesis using that by (simp add: plain_text_def is_linebreak_def lit_def)
qed

lemma numbered_plain:
  "plain_text (lit field) \<Longrightarrow> list_all plain_text vs \<Longrightarrow> list_all plain_text (numbered field vs)"
proof -
  assume f: "plain_text (lit field)" and v: "list_all plain_text vs"
  have "plain_text (lit field @ lit ''['' @ dec i @ lit '']:'' @ v)" if "(i, v) \<in> set (enumerate 1 vs)" for i v
    using that v by (intro plain_numbered f) (auto simp: list_all_iff in_set_enumerate_eq)
  then show ?thesis by (auto simp: numbered_def list_all_iff)
qed

text \<open>The whole output, each line with its newline.\<close>

definition nmcli_output :: "pystr \<Rightarrow> pystr list \<Rightarrow> pystr \<Rightarrow> pystr list \<Rightarrow> (pystr \<times> pystr) list \<Rightarrow> pystr" where
  "nmcli_output connection addresses gateway dns options =
     join [10] (nmcli_lines connection addresses gateway dns options) @ [10]"

lemma nonspace_lit: "\<not> is_space (last (lit ''GENERAL.CONNECTION:''))" "\<not> is_space (last (lit ''IP4.GATEWAY:''))"
  "\<not> is_space (hd (lit ''GENERAL.CONNECTION:''))"
  by (simp_all add: lit_def is_space_def)

lemma last_join: "ls \<noteq> [] \<Longrightarrow> last ls \<noteq> [] \<Longrightarrow> join sep ls \<noteq> [] \<and> last (join sep ls) = last (last ls)"
  by (induction sep ls rule: join.induct) auto

lemma hd_join: "ls \<noteq> [] \<Longrightarrow> hd ls \<noteq> [] \<Longrightarrow> hd (join sep ls) = hd (hd ls)"
  by (cases "(sep, ls)" rule: join.cases) auto

lemma last_numbered: "vs \<noteq> [] \<Longrightarrow> list_all value_ok vs \<Longrightarrow>
  last (numbered field vs) \<noteq> [] \<and> \<not> is_space (last (last (numbered field vs)))"
proof (induction vs rule: rev_induct)
  case (snoc v vs)
  then show ?case by (simp add: numbered_def enumerate_append_eq value_ok_def)
qed simp

lemma numbered_Nil [simp]: "numbered field vs = [] \<longleftrightarrow> vs = []"
  by (cases vs) (simp_all add: numbered_def)

lemma nmcli_output_lines:
  assumes "plain_text connection" and "list_all plain_text addresses" and "gateway = [] \<or> value_ok gateway"
    and "list_all value_ok dns" and "list_all option_ok options"
  shows "splitlines (strip (nmcli_output connection addresses gateway dns options)) =
    nmcli_lines connection addresses gateway dns options"
proof -
  let ?ls = "nmcli_lines connection addresses gateway dns options"
  let ?opts = "map (\<lambda>(k, v). k @ lit '' = '' @ v) options"
  have opts: "list_all value_ok ?opts"
    using assms(5) by (force simp: list_all_iff option_ok_def value_ok_def plain_text_def lit_def is_linebreak_def)
  have "list_all plain_text dns" "list_all plain_text ?opts" "plain_text gateway"
    using assms(3,4) opts by (auto simp: list_all_iff value_ok_def plain_text_def)
  then have plain: "list_all plain_text ?ls"
    using assms(1,2) by (simp add: nmcli_lines_def numbered_plain plain_text_def lit_def is_linebreak_def)
  have "last ?ls = (if options \<noteq> [] then last (numbered ''DHCP4.OPTION'' ?opts)
      else if dns \<noteq> [] then last (numbered ''IP4.DNS'' dns) else lit ''IP4.GATEWAY:'' @ gateway)"
    by (simp add: nmcli_lines_def last_append)
  then have last: "last ?ls \<noteq> [] \<and> \<not> is_space (last (last ?ls))"
    using last_numbered [of ?opts] last_numbered [of dns] assms(3,4) opts nonspace_lit(2)
    by (auto simp: value_ok_def)
  have ne: "?ls \<noteq> []" "hd ?ls = lit ''GENERAL.CONNECTION:'' @ connection" by (simp_all add: nmcli_lines_def)
  then have hd: "hd (join [10] ?ls) = hd (lit ''GENERAL.CONNECTION:'')" by (simp add: hd_join)
  have "strip (join [10] ?ls) = join [10] ?ls"
    using last_join [OF ne(1), of "[10]"] last hd nonspace_lit(3) by (intro strip_plain) auto
  then show ?thesis
    using splitlines_join [OF plain ne(1)] last by (simp add: nmcli_output_def strip_newline)
qed

text \<open>C29: What get_mode reports is what NetworkManager has: if \<open>nmcli device show eth0\<close> prints a named
  connection with its addresses, gateway, name servers and DHCP options in nmcli's terse format, and
  \<open>connection show\<close> prints the method, then the mode is static exactly for the method manual, the address
  is the last one listed, gateway and name servers are as listed, and in DHCP mode the lease time, server
  and domain are those of the options (the last value of a repeated key); the commands run are these two.\<close>

theorem eth0_mode_reported:
  assumes "value_ok connection" and "connection \<noteq> lit ''--''" and "list_all value_ok addresses"
    and "value_ok gateway" and "list_all value_ok dns" and "list_all option_ok options"
    and "value_ok ip_method"
    and "nmcli_run H show_args s = (Some \<lparr>cp_returncode = 0,
        cp_stdout = nmcli_output connection addresses gateway dns options, cp_stderr = err\<rparr>, s1)"
    and "nmcli_run H [lit ''-t'', lit ''-f'', lit ''ipv4.method'', lit ''connection'', lit ''show'', connection] s1 =
      (Some \<lparr>cp_returncode = 0, cp_stdout = lit ''ipv4.method:'' @ ip_method @ [10], cp_stderr = err'\<rparr>, s2)"
  shows "let dhcp = (ip_method \<noteq> lit ''manual''); value = (\<lambda>k. map_of (rev options) k) in
    eth0_get_mode H s = (Inr (Some
      \<lparr>er_mode = (if dhcp then lit ''dhcp'' else lit ''static''),
       er_address = (if addresses = [] then None else Some (last addresses)), er_gateway = Some gateway,
       er_dns = dns,
       er_lease_time_seconds = (if dhcp then (case value (lit ''dhcp_lease_time'') of
          None \<Rightarrow> None | Some t \<Rightarrow> if is_digits t then Some (undec t) else None) else None),
       er_dhcp_server = (if dhcp then value (lit ''dhcp_server_identifier'') else None),
       er_domain_name = (if dhcp then value (lit ''domain_name'') else None)\<rparr>), s2)"
proof -
  have "plain_text connection" "list_all plain_text addresses"
    using assms(1,3) by (auto simp: value_ok_def list_all_iff)
  then have lines: "eth0_lines_of (splitlines (strip (nmcli_output connection addresses gateway dns options)))
      eth0_lines0 = Inr \<lparr>el_connection = Some connection,
        el_address = (if addresses = [] then None else Some (last addresses)), el_gateway = Some gateway,
        el_dns = dns, el_dhcp_options = options_of options\<rparr>"
    using nmcli_output_lines [of connection addresses gateway dns options] assms(4-6)
    by (simp add: nmcli_lines_read)
  have "strip (lit ''ipv4.method:'' @ ip_method @ [10]) = lit ''ipv4.method:'' @ ip_method"
    using strip_newline [of "lit ''ipv4.method:'' @ ip_method"] assms(7)
    by (simp add: strip_plain value_ok_def lit_def is_space_def)
  moreover have "after_colon_or_all (lit ''ipv4.method:'' @ ip_method) = ip_method"
    using after_colon_prefix [of "lit ''ipv4.method''" ip_method]
    by (simp add: after_colon_or_all_def after_colon_def lit_def split: if_splits)
  ultimately have ip_method: "connection_field H (lit ''ipv4.method'') connection s1 = (Some ip_method, s2)"
    using assms(7,9) by (simp add: connection_field_def ok_stdout_def value_strip)
  have reported: "eth0_mode_of (Some ip_method) = (if ip_method = lit ''manual'' then lit ''static'' else lit ''dhcp'')"
    using assms(7) by (simp add: eth0_mode_of_def value_ok_def)
  have "or_none (map_of (rev options) k) = map_of (rev options) k" for k
    using assms(6) map_of_SomeD [of "rev options" k]
    by (cases "map_of (rev options) k") (fastforce simp: or_none_def truthy_def list_all_iff option_ok_def value_ok_def)+
  then show ?thesis
    using assms(1,2,4,8) lines ip_method reported
    by (simp add: eth0_get_mode_def ok_stdout_def truthy_def eth0_gateway_def value_ok_def map_of_options
        lease_time_def Let_def)
qed

text \<open>A host with NetworkManager: the profile exists and is up with one address, \<open>connection modify\<close>
  refuses everything, \<open>connection up\<close> works.\<close>

definition nm_reply :: "command \<Rightarrow> int \<times> pystr" where
  "nm_reply args =
     (if args = lit ''/usr/bin/nmcli'' # show_args
      then (0, nmcli_output CONNECTION_NAME [lit ''10.0.0.9/24''] (lit ''10.0.0.1'') [lit ''10.0.0.2'']
             [(lit ''dhcp_lease_time'', lit ''600'')])
      else if lit ''ipv4.method'' \<in> set args \<and> lit ''show'' \<in> set args then (0, lit ''ipv4.method:'' @ lit ''auto'' @ [10])
      else if lit ''NAME'' \<in> set args then (0, CONNECTION_NAME @ [10])
      else if lit ''modify'' \<in> set args then (2, [])
      else (0, []))"

definition nm_host :: "unit host" where
  "nm_host = \<lparr>ho_which = Some,
     ho_run = (\<lambda>args w. (Some \<lparr>cp_returncode = fst (nm_reply args), cp_stdout = snd (nm_reply args), cp_stderr = []\<rparr>, w)),
     ho_monotonic = (\<lambda>w. 0), ho_sleep = (\<lambda>t w. w), ho_read = (\<lambda>path w. Inl []), ho_repo_dir = []\<rparr>"

lemma nm_nmcli: "nmcli_run nm_host args ([], ()) =
  (Some \<lparr>cp_returncode = fst (nm_reply (lit ''/usr/bin/nmcli'' # args)),
     cp_stdout = snd (nm_reply (lit ''/usr/bin/nmcli'' # args)), cp_stderr = []\<rparr>,
   ([(lit ''/usr/bin/nmcli'' # args, Some \<lparr>cp_returncode = fst (nm_reply (lit ''/usr/bin/nmcli'' # args)),
     cp_stdout = snd (nm_reply (lit ''/usr/bin/nmcli'' # args)), cp_stderr = []\<rparr>)], ()))"
  by (simp add: nmcli_run_def NMCLI_CANDIDATES_def shell_run_def nm_host_def)

theorem eth0_mode_reported_witness:
  "\<exists>s'. eth0_get_mode nm_host ([], ()) = (Inr (Some \<lparr>er_mode = lit ''dhcp'', er_address = Some (lit ''10.0.0.9/24''),
     er_gateway = Some (lit ''10.0.0.1''), er_dns = [lit ''10.0.0.2''], er_lease_time_seconds = Some 600,
     er_dhcp_server = None, er_domain_name = None\<rparr>), s')"
proof -
  have v: "value_ok CONNECTION_NAME" "CONNECTION_NAME \<noteq> lit ''--''" "list_all value_ok [lit ''10.0.0.9/24'']"
    "value_ok (lit ''10.0.0.1'')" "list_all value_ok [lit ''10.0.0.2'']"
    "list_all option_ok [(lit ''dhcp_lease_time'', lit ''600'')]" "value_ok (lit ''auto'')"
    by (simp_all add: CONNECTION_NAME_def value_ok_def option_ok_def plain_text_def lit_def is_space_def is_linebreak_def)
  obtain s1 where s1: "nmcli_run nm_host show_args ([], ()) = (Some \<lparr>cp_returncode = 0,
      cp_stdout = nmcli_output CONNECTION_NAME [lit ''10.0.0.9/24''] (lit ''10.0.0.1'') [lit ''10.0.0.2'']
        [(lit ''dhcp_lease_time'', lit ''600'')], cp_stderr = []\<rparr>, s1)"
    by (simp add: nm_nmcli nm_reply_def)
  obtain s2 where "nmcli_run nm_host [lit ''-t'', lit ''-f'', lit ''ipv4.method'', lit ''connection'', lit ''show'',
      CONNECTION_NAME] s1 = (Some \<lparr>cp_returncode = 0, cp_stdout = lit ''ipv4.method:'' @ lit ''auto'' @ [10],
        cp_stderr = []\<rparr>, s2)"
    by (simp add: nmcli_run_def NMCLI_CANDIDATES_def shell_run_def nm_host_def nm_reply_def show_args_def)
  from eth0_mode_reported [OF v s1 this] show ?thesis
    by (cases s2) (simp add: Let_def is_digits_def lit_def)
qed

section \<open>What the setters run and reply\<close>

text \<open>The reply of set_static says nothing about the address.  Whatever the command that writes the
  address, gateway and DNS servers into the profile returns, also when it is refused, the reply is that of
  \<open>connection up\<close> alone: if the old profile comes up, the caller is told that eth0 is in static mode.\<close>

theorem eth0_static_ignores_refusal:
  assumes "address \<noteq> []" and "47 \<in> set address" and "ensure_profile H s = (True, s1)"
    and "nmcli_run_privileged H (static_args address gateway dns) s1 = (refused, s2)"
    and "nmcli_run_privileged H up_args s2 = (result, s3)"
  shows "eth0_set_static H address gateway dns s = (up_reply (lit ''eth0 set to static mode'') result, s3)"
  using assms by (simp add: eth0_set_static_def)

theorem eth0_static_ignores_refusal_witness:
  "\<exists>s'. eth0_set_static nm_host (lit ''10.0.0.7/99'') [] [] ([], ()) = ((True, lit ''eth0 set to static mode''), s')"
proof -
  obtain s1 where 1: "ensure_profile nm_host ([], ()) = (True, s1)"
    by (simp add: ensure_profile_def nm_nmcli nm_reply_def show_args_def nmcli_run_privileged_def)
       (simp add: CONNECTION_NAME_def lit_def strip_def lstrip_def rstrip_def is_space_def splitlines_def is_linebreak_def)
  obtain r s2 where 2: "nmcli_run_privileged nm_host (static_args (lit ''10.0.0.7/99'') [] []) s1 = (r, s2)"
    by (rule prod.exhaust)
  obtain s3 where 3: "nmcli_run_privileged nm_host up_args s2 = (Some \<lparr>cp_returncode = 0, cp_stdout = [], cp_stderr = []\<rparr>, s3)"
    by (simp add: nmcli_run_privileged_def run_privileged_def NMCLI_CANDIDATES_def SUDO_CANDIDATES_def shell_run_def
        nm_host_def nm_reply_def up_args_def show_args_def CONNECTION_NAME_def)
  have "lit ''10.0.0.7/99'' \<noteq> []" "47 \<in> set (lit ''10.0.0.7/99'')" by (simp_all add: lit_def)
  from eth0_static_ignores_refusal [OF this 1 2 3] show ?thesis by (cases s3) (simp add: up_reply_def)
qed

text \<open>The commands that change something, told from their words: they disconnect the device eth0, bring the
  profile lanpi-eth0 up, change IPv4 settings of that profile, or create it, as an Ethernet profile for the
  device eth0 that does not start by itself.\<close>

definition key_values :: "(pystr \<times> pystr) list \<Rightarrow> pystr list" where
  "key_values settings = concat (map (\<lambda>(k, v). [k, v]) settings)"

definition test_port_command :: "command \<Rightarrow> bool" where
  "test_port_command args \<longleftrightarrow>
     args = [lit ''device'', lit ''disconnect'', lit ''eth0''] \<or>
     args = [lit ''connection'', lit ''up'', lit ''lanpi-eth0''] \<or>
     (\<exists>settings. args = [lit ''connection'', lit ''modify'', lit ''lanpi-eth0''] @ key_values settings \<and>
        list_all (\<lambda>(k, v). take 5 k = lit ''ipv4.'') settings) \<or>
     (\<exists>settings. args = [lit ''connection'', lit ''add''] @ key_values settings \<and> distinct (map fst settings) \<and>
        map_of settings (lit ''type'') = Some (lit ''ethernet'') \<and> map_of settings (lit ''ifname'') = Some (lit ''eth0'') \<and>
        map_of settings (lit ''con-name'') = Some (lit ''lanpi-eth0'') \<and>
        map_of settings (lit ''autoconnect'') = Some (lit ''no''))"

text \<open>An entry of the log: such a command run by the host's \<open>nmcli\<close> under its \<open>sudo\<close>, or the list of the profile
  names, run without.\<close>

definition port_entry :: "'w host \<Rightarrow> command \<times> completed option \<Rightarrow> bool" where
  "port_entry H e \<longleftrightarrow>
     (\<exists>sudo nmcli args. find_binary H SUDO_CANDIDATES = Some sudo \<and> find_binary H NMCLI_CANDIDATES = Some nmcli \<and>
        fst e = sudo # nmcli # args \<and> test_port_command args) \<or>
     (\<exists>nmcli. find_binary H NMCLI_CANDIDATES = Some nmcli \<and>
        fst e = [nmcli, lit ''-t'', lit ''-f'', lit ''NAME'', lit ''connection'', lit ''show''])"

definition port_log :: "'w host \<Rightarrow> 'w running \<Rightarrow> bool" where
  "port_log H s \<longleftrightarrow> list_all (port_entry H) (fst s)"

lemma port_privileged: "port_log H s \<Longrightarrow> test_port_command args \<Longrightarrow> port_log H (snd (nmcli_run_privileged H args s))"
  by (cases rule: nmcli_run_privileged_cases [of H args s]) (auto simp: port_log_def port_entry_def)

lemma port_names:
  "port_log H s \<Longrightarrow>
   port_log H (snd (nmcli_run H [lit ''-t'', lit ''-f'', lit ''NAME'', lit ''connection'', lit ''show''] s))"
  by (auto simp: nmcli_run_def port_log_def port_entry_def shell_run_def Let_def split_def split: option.split)

lemma modify_command:
  "list_all (\<lambda>(k, v). take 5 k = lit ''ipv4.'') settings \<Longrightarrow>
   test_port_command ([lit ''connection'', lit ''modify'', lit ''lanpi-eth0''] @ key_values settings)"
  unfolding test_port_command_def by blast

lemma test_port_commands:
  "test_port_command modify_args" "test_port_command create_args" "test_port_command up_args"
  "test_port_command dhcp_args" "test_port_command (static_args a g d)"
  "test_port_command [lit ''device'', lit ''disconnect'', ETH0]"
proof -
  show "test_port_command up_args" "test_port_command [lit ''device'', lit ''disconnect'', ETH0]"
    by (simp_all add: test_port_command_def up_args_def CONNECTION_NAME_def ETH0_def)
  show "test_port_command modify_args"
    using modify_command [of "[(lit ''ipv4.never-default'', lit ''no''), (lit ''ipv4.route-metric'', ETH0_ROUTE_METRIC)]"]
    by (simp add: key_values_def modify_args_def CONNECTION_NAME_def) (simp add: lit_def)
  show "test_port_command dhcp_args"
    using modify_command [of "[(lit ''ipv4.method'', lit ''auto''), (lit ''ipv4.addresses'', []), (lit ''ipv4.gateway'', []),
      (lit ''ipv4.dns'', [])]"]
    by (simp add: key_values_def dhcp_args_def CONNECTION_NAME_def) (simp add: lit_def)
  show "test_port_command (static_args a g d)"
    using modify_command [of "[(lit ''ipv4.method'', lit ''manual''), (lit ''ipv4.addresses'', a), (lit ''ipv4.gateway'', g),
      (lit ''ipv4.dns'', d)]"]
    by (simp add: key_values_def static_args_def CONNECTION_NAME_def) (simp add: lit_def)
  let ?create = "[(lit ''type'', lit ''ethernet''), (lit ''ifname'', ETH0), (lit ''con-name'', CONNECTION_NAME),
    (lit ''autoconnect'', lit ''no''), (lit ''ipv4.method'', lit ''auto''), (lit ''ipv4.route-metric'', ETH0_ROUTE_METRIC)]"
  have "create_args = [lit ''connection'', lit ''add''] @ key_values ?create"
    by (simp add: create_args_def key_values_def)
  moreover have "distinct (map fst ?create)" by (simp add: lit_def)
  moreover have "map_of ?create (lit ''type'') = Some (lit ''ethernet'')" "map_of ?create (lit ''ifname'') = Some (lit ''eth0'')"
    "map_of ?create (lit ''con-name'') = Some (lit ''lanpi-eth0'')" "map_of ?create (lit ''autoconnect'') = Some (lit ''no'')"
    by (simp_all add: lit_def ETH0_def CONNECTION_NAME_def)
  ultimately show "test_port_command create_args"
    unfolding test_port_command_def by blast
qed

lemma port_ensure: "port_log H s \<Longrightarrow> port_log H (snd (ensure_profile H s))"
  by (simp add: ensure_profile_def Let_def split_def port_names port_privileged test_port_commands split: option.split)

text \<open>The three setters, whatever the commands return.\<close>

lemma port_log_setters:
  "port_log H (snd (eth0_set_passive H ([], w)))" "port_log H (snd (eth0_set_dhcp H ([], w)))"
  "port_log H (snd (eth0_set_static H address gateway dns ([], w)))"
proof -
  have 0: "port_log H ([], w)" by (simp add: port_log_def)
  then show "port_log H (snd (eth0_set_passive H ([], w)))"
    by (simp add: eth0_set_passive_def Let_def split_def port_privileged test_port_commands)
  show "port_log H (snd (eth0_set_dhcp H ([], w)))"
    using 0 by (simp add: eth0_set_dhcp_def Let_def split_def port_ensure port_privileged test_port_commands)
  show "port_log H (snd (eth0_set_static H address gateway dns ([], w)))"
    using 0 by (simp add: eth0_set_static_def Let_def split_def port_ensure port_privileged test_port_commands)
qed

end
