(* ===== verification/Tool_Source.thy ===== *)
theory Tool_Source
  imports Eth0_Mode
begin

text \<open>
  What the tools share that send from the test port: the address of eth0 they send from, and the readers
  of background processes that belong to a host.
\<close>

type_synonym tool_reply = "bool \<times> pystr option"

section \<open>The source address\<close>

text \<open>\<open>_eth0_source_ip\<close> of each tool\<close>

definition source_ip_of_mode :: "eth0_report option \<Rightarrow> pystr option" where
  "source_ip_of_mode mode =
     (case mode of None \<Rightarrow> None
      | Some r \<Rightarrow> (case er_address r of None \<Rightarrow> None
          | Some a \<Rightarrow> if a \<noteq> [] then Some (hd (split_on 47 a)) else None))"

definition tool_source_ip :: "'w host \<Rightarrow> 'w running \<Rightarrow> (exn + pystr option) \<times> 'w running" where
  "tool_source_ip H s = (let (mode, s') = eth0_get_mode H s in (rbind mode (\<lambda>m. Inr (source_ip_of_mode m)), s'))"

text \<open>The message of a tool that finds no address.\<close>

definition no_source :: "string \<Rightarrow> pystr" where
  "no_source what = lit ''eth0 has no IP address -- switch to DHCP or Static mode first (Passive mode has no source address to ''
     @ lit what @ lit '' from)''"

section \<open>Readers that belong to a host\<close>

text \<open>The thread that reads the output of a ping or mtr process, as the locked sections it has still to
  run.  Each section first compares the host of the module's state with the host of the thread; if they
  differ, the thread returns.\<close>

datatype 'e reader = Reader (rd_host: pystr) (rd_left: "'e list")

definition reader_step ::
  "('s \<Rightarrow> pystr option) \<Rightarrow> ('e \<Rightarrow> 's \<Rightarrow> 's) \<Rightarrow> nat \<Rightarrow> 's \<times> 'e reader list \<Rightarrow> 's \<times> 'e reader list" where
  "reader_step host section i w =
     (case w of (st, rs) \<Rightarrow>
        if i < length rs
        then (case rs ! i of
                Reader h [] \<Rightarrow> (st, rs)
              | Reader h (e # es) \<Rightarrow>
                  if host st = Some h then (section e st, rs[i := Reader h es]) else (st, rs[i := Reader h []]))
        else (st, rs))"

locale host_session =
  fixes host :: "'s \<Rightarrow> pystr option"
    and locked :: "'e \<Rightarrow> 's \<Rightarrow> 's"
  assumes host_locked: "host (locked e s) = host s"
begin

text \<open>Readers of other hosts never change the state, and their steps do not change the current host.\<close>

lemma other_host:
  "i < length rs \<Longrightarrow> host st \<noteq> Some (rd_host (rs ! i)) \<Longrightarrow> fst (reader_step host locked i (st, rs)) = st"
  by (cases "rs ! i") (auto simp: reader_step_def split: list.split)

lemma step_host: "host (fst (reader_step host locked i w)) = host (fst w)"
  by (cases w) (auto simp: reader_step_def host_locked split: reader.split list.split)

lemma step_length: "length (snd (reader_step host locked i w)) = length (snd w)"
  by (cases w) (auto simp: reader_step_def split: reader.split list.split)

lemma step_rd_host: "map rd_host (snd (reader_step host locked i w)) = map rd_host (snd w)"
proof (cases w)
  case (Pair st rs)
  then show ?thesis
    by (cases "rs ! i"; cases "rd_left (rs ! i)") (auto simp: reader_step_def map_update intro!: list_update_same_conv [THEN iffD2])
qed

lemma step_current:
  "i < length rs \<Longrightarrow> rs ! i = Reader h (e # es) \<Longrightarrow> host st = Some h \<Longrightarrow>
   reader_step host locked i (st, rs) = (locked e st, rs[i := Reader h es])"
  by (simp add: reader_step_def)

lemma other_host_step:
  assumes "i < length rs" and "rd_host (rs ! i) \<noteq> h" and "host st = Some h"
  shows "\<exists>rs'. reader_step host locked i (st, rs @ ts) = (st, rs' @ ts) \<and> map rd_host rs' = map rd_host rs"
proof -
  let ?w = "reader_step host locked i (st, rs @ ts)"
  have "fst ?w = st" using other_host [of i "rs @ ts" st] assms by (simp add: nth_append)
  moreover have "snd ?w = take (length rs) (snd ?w) @ ts"
    using assms(1) by (cases "rs ! i"; cases "rd_left (rs ! i)")
      (auto simp: reader_step_def nth_append list_update_append)
  moreover have "map rd_host (take (length rs) (snd ?w)) = map rd_host rs"
    using step_rd_host [of i "(st, rs @ ts)"] by (simp add: take_map [symmetric])
  ultimately show ?thesis by (metis prod.collapse)
qed

lemma other_hosts:
  "list_all (\<lambda>i. i < length rs \<and> rd_host (rs ! i) \<noteq> h) others \<Longrightarrow> host st = Some h \<Longrightarrow>
   \<exists>rs'. fold (reader_step host locked) others (st, rs @ ts) = (st, rs' @ ts) \<and> map rd_host rs' = map rd_host rs"
proof (induction others arbitrary: rs)
  case Nil
  then show ?case by auto
next
  case (Cons i others)
  then obtain rs1 where rs1: "reader_step host locked i (st, rs @ ts) = (st, rs1 @ ts)"
    "map rd_host rs1 = map rd_host rs"
    using other_host_step [of i rs h st ts] by auto
  then have "length rs1 = length rs" "\<And>j. j < length rs \<Longrightarrow> rd_host (rs1 ! j) = rd_host (rs ! j)"
    by (metis length_map) (metis length_map nth_map rs1(2))
  then have "list_all (\<lambda>i. i < length rs1 \<and> rd_host (rs1 ! i) \<noteq> h) others"
    using Cons.prems(1) by (auto simp: list_all_iff)
  from Cons.IH [OF this Cons.prems(2)] rs1 show ?case by auto
qed

text \<open>The current reader alone runs its sections in order.\<close>

lemma run_current:
  "i < length rs \<Longrightarrow> rs ! i = Reader h (es @ fs) \<Longrightarrow> host st = Some h \<Longrightarrow>
   fold (\<lambda>_. reader_step host locked i) es (st, rs) = (fold locked es st, rs[i := Reader h fs])"
proof (induction es arbitrary: st rs)
  case Nil
  then show ?case by simp (metis list_update_id)
next
  case (Cons e es)
  then show ?case by (simp add: step_current host_locked)
qed

end

end
