(* ===== verification/Nmap_Scans.thy ===== *)
theory Nmap_Scans
  imports Tool_Source Regex Sessions
begin

text \<open>
  \<open>backend/tools/ip_scanner.py\<close> and \<open>backend/tools/port_scanner.py\<close>: nmap run as a background process,
  its output read by a thread that belongs to one scan.  A call of \<open>start\<close> is its checks, which run
  commands on the host, and one locked section; the reader thread is the list of its locked sections.
  What \<open>Popen\<close> gives is a parameter: the new process or the text of the error.
\<close>

section \<open>Checks before a scan\<close>

definition NMAP_CANDIDATES :: "pystr list" where
  "NMAP_CANDIDATES = [lit ''/usr/bin/nmap'', lit ''/usr/sbin/nmap'', lit ''nmap'']"

text \<open>The binaries and the source address: a message, or the command built from the two binaries.\<close>

definition nmap_check :: "'w host \<Rightarrow> (pystr \<Rightarrow> pystr \<Rightarrow> command) \<Rightarrow> 'w running \<Rightarrow>
    (exn + (pystr + command)) \<times> 'w running" where
  "nmap_check H args s =
     (case find_binary H NMAP_CANDIDATES of
        None \<Rightarrow> (Inr (Inl (lit ''nmap not available'')), s)
      | Some nmap_bin \<Rightarrow>
          (case find_binary H SUDO_CANDIDATES of
             None \<Rightarrow> (Inr (Inl (lit ''sudo not available'')), s)
           | Some sudo_bin \<Rightarrow>
               let (source, s') = tool_source_ip H s in
               (rbind source (\<lambda>ip. Inr (if truthy ip then Inr (args sudo_bin nmap_bin) else Inl (no_source ''scan''))), s')))"

section \<open>IP scanner\<close>

record ip_host =
  ih_ip :: pystr
  ih_mac :: "pystr option"
  ih_vendor :: "pystr option"

record ip_scan =
  ip_running :: bool
  ip_target :: "pystr option"
  ip_scan_id :: nat
  ip_process :: "nat option"
  ip_hosts :: "ip_host list"
  ip_message :: "pystr option"

definition ip_scan0 :: ip_scan where
  "ip_scan0 = \<lparr>ip_running = False, ip_target = None, ip_scan_id = 0, ip_process = None, ip_hosts = [],
     ip_message = None\<rparr>"

definition REPORT_RE :: re where
  "REPORT_RE = Then (Txt (lit ''Nmap scan report for '')) (Group (Many is_not_space))"

definition MAC_RE :: re where
  "MAC_RE = Then (Txt (lit ''MAC Address: '')) (Then (Group (Times 17 is_hex_colon))
     (Maybe (Then (Many is_space) (Then (Txt (lit ''('')) (Then (Group (Many is_any)) (Txt (lit '')'')))))))"

text \<open>The reader thread: the locked sections it runs for the lines of its process, with its own list of
  hosts.\<close>

datatype ip_event = Publish "ip_host list" | Finish

fun ip_reader :: "pystr list \<Rightarrow> ip_host list \<Rightarrow> ip_event list" where
  "ip_reader [] hosts = [Finish]"
| "ip_reader (line # lines) hosts =
     (case re_match REPORT_RE line of
        Some g \<Rightarrow>
          let hosts' = hosts @ [\<lparr>ih_ip = the (g ! 0), ih_mac = None, ih_vendor = None\<rparr>]
          in Publish hosts' # ip_reader lines hosts'
      | None \<Rightarrow>
          (case re_match MAC_RE line of
             None \<Rightarrow> ip_reader lines hosts
           | Some g \<Rightarrow>
               if hosts = [] then ip_reader lines hosts
               else let hosts' = butlast hosts @
                      [(last hosts)\<lparr>ih_mac := Some (lower_ascii (the (g ! 0))), ih_vendor := g ! 1\<rparr>]
                 in Publish hosts' # ip_reader lines hosts'))"

fun ip_work :: "nat \<Rightarrow> ip_event \<Rightarrow> ip_scan \<Rightarrow> ip_scan" where
  "ip_work scan_id (Publish hosts) st = (if ip_scan_id st = scan_id then st\<lparr>ip_hosts := hosts\<rparr> else st)"
| "ip_work scan_id Finish st = (if ip_scan_id st = scan_id then st\<lparr>ip_running := False\<rparr> else st)"

definition ip_args :: "pystr \<Rightarrow> pystr \<Rightarrow> pystr \<Rightarrow> pystr \<Rightarrow> command" where
  "ip_args interface target sudo_bin nmap_bin =
     [sudo_bin, nmap_bin, lit ''-sn'', lit ''-n'', lit ''-e'', interface, target]"

definition ip_check :: "'w host \<Rightarrow> pystr \<Rightarrow> pystr \<Rightarrow> 'w running \<Rightarrow> (exn + (pystr + command)) \<times> 'w running" where
  "ip_check H target interface s =
     (if target = [] then (Inr (Inl (lit ''target network/range is required'')), s)
      else if startswith target (lit ''-'') then (Inr (Inl (lit ''invalid target'')), s)
      else nmap_check H (ip_args interface target) s)"

text \<open>The process that a locked section of \<open>start\<close> or \<open>stop\<close> terminates.\<close>

definition ip_killed :: "ip_scan \<Rightarrow> nat option" where
  "ip_killed st = (if ip_running st then ip_process st else None)"

definition ip_commit :: "pystr \<Rightarrow> pystr + nat \<Rightarrow> ip_scan \<Rightarrow> tool_reply \<times> nat option \<times> ip_scan" where
  "ip_commit target popen st =
     (case popen of
        Inl e \<Rightarrow> ((False, Some e), ip_killed st, st)
      | Inr pid \<Rightarrow> ((True, None), ip_killed st,
          \<lparr>ip_running = True, ip_target = Some target, ip_scan_id = ip_scan_id st + 1, ip_process = Some pid,
           ip_hosts = [], ip_message = None\<rparr>))"

definition ip_start ::
  "'w host \<Rightarrow> pystr \<Rightarrow> pystr \<Rightarrow> pystr + nat \<Rightarrow> ip_scan \<Rightarrow> 'w running \<Rightarrow>
    (exn + tool_reply \<times> nat option \<times> ip_scan) \<times> 'w running" where
  "ip_start H target interface popen st s =
     (let (checked, s') = ip_check H (strip target) interface s in
      (rbind checked (\<lambda>c. Inr (case c of Inl m \<Rightarrow> ((False, Some m), None, st)
         | Inr args \<Rightarrow> ip_commit (strip target) popen st)), s'))"

definition ip_stop :: "ip_scan \<Rightarrow> tool_reply \<times> nat option \<times> ip_scan" where
  "ip_stop st =
     (if ip_process st \<noteq> None \<and> ip_running st then ((True, Some (lit ''scan stopping'')), ip_process st, st)
      else ((True, Some (lit ''no scan running'')), None, st))"

definition ip_status :: "ip_scan \<Rightarrow> bool \<times> pystr option \<times> ip_host list" where
  "ip_status st = (ip_running st, ip_target st, ip_hosts st)"

section \<open>Port scanner\<close>

record open_port =
  op_port :: nat
  op_protocol :: pystr
  op_state :: pystr
  op_service :: pystr

record port_scan =
  pt_running :: bool
  pt_host :: "pystr option"
  pt_port_range :: "pystr option"
  pt_scan_id :: nat
  pt_process :: "nat option"
  pt_ok :: "bool option"
  pt_message :: "pystr option"
  pt_ports :: "open_port list"
  pt_stopped :: bool

definition port_scan0 :: port_scan where
  "port_scan0 = \<lparr>pt_running = False, pt_host = None, pt_port_range = None, pt_scan_id = 0, pt_process = None,
     pt_ok = None, pt_message = None, pt_ports = [], pt_stopped = False\<rparr>"

definition PORT_RANGE_RE :: re where
  "PORT_RANGE_RE = Then (Group (Many is_digit)) (Then (Txt (lit ''-'')) (Then (Group (Many is_digit)) AtEnd))"

definition PORT_LINE_RE :: re where
  "PORT_LINE_RE = Then (Group (Many is_digit)) (Then (Txt (lit ''/''))
     (Then (Group (Or (Txt (lit ''tcp'')) (Txt (lit ''udp'')))) (Then (Many is_space)
     (Then (Group (Many is_not_space)) (Then (Many is_space) (Group (Many is_not_space)))))))"

definition parse_port_range :: "pystr \<Rightarrow> (nat \<times> nat) option" where
  "parse_port_range port_range =
     (case re_match PORT_RANGE_RE (strip port_range) of
        None \<Rightarrow> None
      | Some g \<Rightarrow>
          let start_port = undec (the (g ! 0)); end_port = undec (the (g ! 1))
          in if 1 \<le> start_port \<and> start_port \<le> end_port \<and> end_port \<le> 65535 then Some (start_port, end_port) else None)"

definition parse_port_line :: "pystr \<Rightarrow> open_port option" where
  "parse_port_line line =
     map_option (\<lambda>g. \<lparr>op_port = undec (the (g ! 0)), op_protocol = the (g ! 1), op_state = the (g ! 2),
       op_service = the (g ! 3)\<rparr>) (re_match PORT_LINE_RE (strip line))"

definition parse_ports :: "pystr \<Rightarrow> open_port list" where
  "parse_ports stdout = List.map_filter parse_port_line (splitlines stdout)"

text \<open>\<open>(stderr or stdout or "nmap failed").strip() or "nmap failed"\<close>\<close>

definition nmap_failure :: "completed \<Rightarrow> pystr" where
  "nmap_failure c =
     (let m = strip (if cp_stderr c \<noteq> [] then cp_stderr c else if cp_stdout c \<noteq> [] then cp_stdout c
        else lit ''nmap failed'') in if m \<noteq> [] then m else lit ''nmap failed'')"

text \<open>The one locked section of the reader thread, after \<open>communicate()\<close>.\<close>

definition pt_work :: "nat \<Rightarrow> completed \<Rightarrow> port_scan \<Rightarrow> port_scan" where
  "pt_work scan_id c st =
     (if pt_scan_id st \<noteq> scan_id then st
      else if pt_stopped st
      then st\<lparr>pt_running := False, pt_ok := Some False, pt_message := Some (lit ''stopped'')\<rparr>
      else if cp_returncode c \<noteq> 0
      then st\<lparr>pt_running := False, pt_ok := Some False, pt_message := Some (nmap_failure c)\<rparr>
      else st\<lparr>pt_running := False, pt_ports := parse_ports (cp_stdout c), pt_ok := Some True, pt_message := None\<rparr>)"

definition range_text :: "nat \<times> nat \<Rightarrow> pystr" where
  "range_text r = dec (fst r) @ lit ''-'' @ dec (snd r)"

definition pt_args :: "pystr \<Rightarrow> nat \<times> nat \<Rightarrow> pystr \<Rightarrow> pystr \<Rightarrow> pystr \<Rightarrow> command" where
  "pt_args interface r target_host sudo_bin nmap_bin =
     [sudo_bin, nmap_bin, lit ''-sS'', lit ''-Pn'', lit ''-n'', lit ''-e'', interface, lit ''-p'', range_text r,
      lit ''--open'', target_host]"

definition pt_check ::
  "'w host \<Rightarrow> pystr \<Rightarrow> pystr \<Rightarrow> pystr \<Rightarrow> 'w running \<Rightarrow> (exn + (pystr + command)) \<times> 'w running" where
  "pt_check H target_host port_range interface s =
     (if target_host = [] then (Inr (Inl (lit ''host is required'')), s)
      else if startswith target_host (lit ''-'') then (Inr (Inl (lit ''invalid host'')), s)
      else case parse_port_range port_range of
             None \<Rightarrow> (Inr (Inl (lit ''port range must be START-END within 1-65535, e.g. 1-1024'')), s)
           | Some r \<Rightarrow> nmap_check H (pt_args interface r target_host) s)"

definition pt_killed :: "port_scan \<Rightarrow> nat option" where
  "pt_killed st = (if pt_running st then pt_process st else None)"

definition pt_commit :: "pystr \<Rightarrow> nat \<times> nat \<Rightarrow> pystr + nat \<Rightarrow> port_scan \<Rightarrow> tool_reply \<times> nat option \<times> port_scan" where
  "pt_commit target_host r popen st =
     (case popen of
        Inl e \<Rightarrow> ((False, Some e), pt_killed st, st)
      | Inr pid \<Rightarrow> ((True, None), pt_killed st,
          \<lparr>pt_running = True, pt_host = Some target_host, pt_port_range = Some (range_text r),
           pt_scan_id = pt_scan_id st + 1, pt_process = Some pid, pt_ok = None, pt_message = None, pt_ports = [],
           pt_stopped = False\<rparr>))"

definition pt_start ::
  "'w host \<Rightarrow> pystr \<Rightarrow> pystr \<Rightarrow> pystr \<Rightarrow> pystr + nat \<Rightarrow> port_scan \<Rightarrow> 'w running \<Rightarrow>
    (exn + tool_reply \<times> nat option \<times> port_scan) \<times> 'w running" where
  "pt_start H target_host port_range interface popen st s =
     (let (checked, s') = pt_check H (strip target_host) port_range interface s in
      (rbind checked (\<lambda>c. Inr (case c of Inl m \<Rightarrow> ((False, Some m), None, st)
         | Inr args \<Rightarrow> pt_commit (strip target_host) (the (parse_port_range port_range)) popen st)), s'))"

definition pt_stop :: "port_scan \<Rightarrow> tool_reply \<times> nat option \<times> port_scan" where
  "pt_stop st =
     (if pt_process st \<noteq> None \<and> pt_running st
      then ((True, Some (lit ''scan stopping'')), pt_process st, st\<lparr>pt_stopped := True\<rparr>)
      else ((True, Some (lit ''no scan running'')), None, st))"

definition pt_status :: "port_scan \<Rightarrow> bool \<times> pystr option \<times> pystr option \<times> bool option \<times> pystr option \<times> open_port list" where
  "pt_status st = (pt_running st, pt_host st, pt_port_range st, pt_ok st, pt_message st, pt_ports st)"

section \<open>Scans as sessions\<close>

datatype 'a tool_ctl = Start 'a "pystr + nat" | Stop_Tool

fun ip_ctl :: "pystr tool_ctl \<Rightarrow> ip_scan \<Rightarrow> ip_scan" where
  "ip_ctl (Start target popen) st = snd (snd (ip_commit target popen st))"
| "ip_ctl Stop_Tool st = snd (snd (ip_stop st))"

fun pt_ctl :: "(pystr \<times> nat \<times> nat) tool_ctl \<Rightarrow> port_scan \<Rightarrow> port_scan" where
  "pt_ctl (Start (target_host, r) popen) st = snd (snd (pt_commit target_host r popen st))"
| "pt_ctl Stop_Tool st = snd (snd (pt_stop st))"

interpretation ips: session ip_scan_id ip_work ip_ctl
proof
  show "ip_scan_id s \<noteq> i \<Longrightarrow> ip_work i e s = s" for s i e by (cases e) auto
  show "ip_scan_id (ip_work i e s) = ip_scan_id s" for i e s by (cases e) auto
  show "ip_scan_id s \<le> ip_scan_id (ip_ctl c s)" for s c
    by (cases c) (auto simp: ip_commit_def ip_stop_def split: sum.split)
qed

interpretation pts: session pt_scan_id pt_work pt_ctl
proof
  show "pt_scan_id s \<noteq> i \<Longrightarrow> pt_work i e s = s" for s i e by (simp add: pt_work_def)
  show "pt_scan_id (pt_work i e s) = pt_scan_id s" for i e s by (simp add: pt_work_def)
  show "pt_scan_id s \<le> pt_scan_id (pt_ctl c s)" for s c
    by (cases "(c, s)" rule: pt_ctl.cases) (auto simp: pt_commit_def pt_stop_def split: sum.split)
qed

section \<open>Port ranges\<close>

definition digits :: "pystr \<Rightarrow> bool" where
  "digits x \<longleftrightarrow> x \<noteq> [] \<and> list_all is_digit x"

lemma port_range_match:
  assumes "digits x" and "digits y"
  shows "re_match PORT_RANGE_RE (x @ lit ''-'' @ y) = Some [Some x, Some y]"
proof -
  have "rfirst (Group (Many is_digit)) (x @ lit ''-'' @ y) = Some (lit ''-'' @ y, [Some x])"
    using assms by (intro first_match) (auto simp: digits_def stops_def lit_def is_digit_def)
  moreover have "rfirst (Txt (lit ''-'')) (lit ''-'' @ y) = Some (y, [])" by (rule first_match)
  moreover have "rfirst (Group (Many is_digit)) (y @ []) = Some ([], [Some y])"
    using assms by (intro first_match) (auto simp: digits_def stops_def)
  moreover have "rfirst AtEnd [] = Some ([], [])" by (rule first_match)
  ultimately have "rfirst PORT_RANGE_RE (x @ lit ''-'' @ y) = Some ([], [Some x] @ [] @ [Some y] @ [])"
    unfolding PORT_RANGE_RE_def by (intro rfirst_Then) simp_all
  then show ?thesis by (simp add: re_match_first)
qed

lemma in_digit_group:
  assumes "(u, g) \<in> set (rmatch (Group (Many is_digit)) s)"
  shows "\<exists>x. s = x @ u \<and> digits x \<and> g = [Some x]"
proof -
  from in_rmatch_Group [OF assms] obtain g' where
    g': "(u, g') \<in> set (rmatch (Many is_digit) s)" "g = Some (take (length s - length u) s) # g'" by blast
  from in_rmatch_Many [OF g'(1)] obtain w where "s = w @ u" "w \<noteq> []" "list_all is_digit w" "g' = []" by blast
  with g'(2) show ?thesis by (simp add: digits_def)
qed

lemma port_range_matched:
  assumes "re_match PORT_RANGE_RE t = Some g" and "t = [] \<or> last t \<noteq> 10"
  shows "\<exists>x y. digits x \<and> digits y \<and> t = x @ lit ''-'' @ y \<and> g = [Some x, Some y]"
proof -
  obtain u where "(u, g) \<in> set (rmatch PORT_RANGE_RE t)"
  proof -
    from assms(1) obtain u where "rfirst PORT_RANGE_RE t = Some (u, g)" by (auto simp: re_match_def)
    then have "(u, g) \<in> set (rmatch PORT_RANGE_RE t)" by (auto simp: rfirst_Some)
    with that show thesis .
  qed
  then obtain t1 g1 t2 g2 t3 g3 g4 where
    1: "(t1, g1) \<in> set (rmatch (Group (Many is_digit)) t)"
    and 2: "(t2, g2) \<in> set (rmatch (Txt (lit ''-'')) t1)"
    and 3: "(t3, g3) \<in> set (rmatch (Group (Many is_digit)) t2)"
    and 4: "(u, g4) \<in> set (rmatch AtEnd t3)" and g: "g = g1 @ g2 @ g3 @ g4"
    unfolding PORT_RANGE_RE_def in_rmatch_Then by blast
  from 1 obtain x where x: "t = x @ t1" "digits x" "g1 = [Some x]"
    using in_digit_group by blast
  from 2 have t1: "t1 = lit ''-'' @ t2" "g2 = []" using in_rmatch_Txt by blast+
  from 3 obtain y where y: "t2 = y @ t3" "digits y" "g3 = [Some y]"
    using in_digit_group by blast
  from 4 x t1 y assms(2) have "t3 = []" "g4 = []" by (auto split: if_splits)
  with x t1 y g show ?thesis by auto
qed

text \<open>The port range that is scanned: a text is accepted exactly if, without surrounding white space,
  it is two digit sequences joined by a minus sign whose numbers satisfy 1 <= start <= end <= 65535, and
  then these numbers are the range.\<close>

theorem port_range_accepted:
  "parse_port_range input = Some (a, b) \<longleftrightarrow>
   1 \<le> a \<and> a \<le> b \<and> b \<le> 65535 \<and>
   (\<exists>x y. digits x \<and> digits y \<and> strip input = x @ lit ''-'' @ y \<and> undec x = a \<and> undec y = b)"
proof
  assume l: "parse_port_range input = Some (a, b)"
  then obtain g where g: "re_match PORT_RANGE_RE (strip input) = Some g"
    and gs: "undec (the (g ! 0)) = a" "undec (the (g ! 1)) = b" "1 \<le> a" "a \<le> b" "b \<le> 65535"
    by (auto simp: parse_port_range_def Let_def split: option.splits if_splits)
  have "strip input = [] \<or> last (strip input) \<noteq> 10"
    using strip_ends(2) [of input] by (auto simp: is_space_def)
  from port_range_matched [OF g this] gs
  show "1 \<le> a \<and> a \<le> b \<and> b \<le> 65535 \<and>
   (\<exists>x y. digits x \<and> digits y \<and> strip input = x @ lit ''-'' @ y \<and> undec x = a \<and> undec y = b)"
    by (auto simp del: undec.simps)
next
  assume "1 \<le> a \<and> a \<le> b \<and> b \<le> 65535 \<and>
   (\<exists>x y. digits x \<and> digits y \<and> strip input = x @ lit ''-'' @ y \<and> undec x = a \<and> undec y = b)"
  then show "parse_port_range input = Some (a, b)"
    using port_range_match by (auto simp: parse_port_range_def simp del: undec.simps)
qed

section \<open>Reading the port table\<close>

text \<open>A row of the table, with any white space between the columns.\<close>

definition column_ok :: "pystr \<Rightarrow> bool" where
  "column_ok w \<longleftrightarrow> w \<noteq> [] \<and> list_all is_not_space w"

definition blank_ok :: "pystr \<Rightarrow> bool" where
  "blank_ok w \<longleftrightarrow> w \<noteq> [] \<and> list_all is_space w"

definition open_port_ok :: "open_port \<Rightarrow> bool" where
  "open_port_ok p \<longleftrightarrow> op_protocol p \<in> {lit ''tcp'', lit ''udp''} \<and> column_ok (op_state p) \<and> column_ok (op_service p)"

definition port_row :: "pystr \<Rightarrow> pystr \<Rightarrow> open_port \<Rightarrow> pystr" where
  "port_row w1 w2 p = dec (op_port p) @ lit ''/'' @ op_protocol p @ w1 @ op_state p @ w2 @ op_service p"

lemma stops_blank: "blank_ok w \<Longrightarrow> stops is_not_space (w @ s)"
  by (cases w) (auto simp: blank_ok_def stops_def is_not_space_def)

lemma stops_column: "column_ok w \<Longrightarrow> stops is_space (w @ s)"
  by (cases w) (auto simp: column_ok_def stops_def is_not_space_def)

lemma port_row_match:
  assumes "open_port_ok p" and "blank_ok w1" and "blank_ok w2"
  shows "re_match PORT_LINE_RE (port_row w1 w2 p) =
    Some [Some (dec (op_port p)), Some (op_protocol p), Some (op_state p), Some (op_service p)]"
proof -
  let ?t5 = "op_service p"
  let ?t4 = "op_state p @ w2 @ ?t5"
  let ?t3 = "op_protocol p @ w1 @ ?t4"
  have ok: "column_ok (op_state p)" "column_ok (op_service p)" using assms(1) by (simp_all add: open_port_ok_def)
  have 1: "rfirst (Group (Many is_digit)) (dec (op_port p) @ lit ''/'' @ ?t3) = Some (lit ''/'' @ ?t3, [Some (dec (op_port p))])"
    by (intro first_match) (auto simp: is_digit_dec stops_def lit_def is_digit_def)
  have 2: "rfirst (Txt (lit ''/'')) (lit ''/'' @ ?t3) = Some (?t3, [])" by (rule first_match)
  have "rfirst (Or (Txt (lit ''tcp'')) (Txt (lit ''udp''))) ?t3 = Some (w1 @ ?t4, [])"
    using assms(1) by (auto simp: open_port_ok_def rfirst_def startswith_def lit_def)
  then have 3: "rfirst (Group (Or (Txt (lit ''tcp'')) (Txt (lit ''udp'')))) ?t3 = Some (w1 @ ?t4, [Some (op_protocol p)])"
    by (rule first_match)
  have 4: "rfirst (Many is_space) (w1 @ ?t4) = Some (?t4, [])"
    using assms(2) stops_column [OF ok(1)] by (intro first_match) (simp_all add: blank_ok_def)
  have 5: "rfirst (Group (Many is_not_space)) ?t4 = Some (w2 @ ?t5, [Some (op_state p)])"
    using ok stops_blank [OF assms(3)] by (intro first_match) (simp_all add: column_ok_def)
  have 6: "rfirst (Many is_space) (w2 @ ?t5) = Some (?t5, [])"
    using assms(3) stops_column [OF ok(2), of "[]"] by (intro first_match) (simp_all add: blank_ok_def)
  have 7: "rfirst (Group (Many is_not_space)) (op_service p @ []) = Some ([], [Some (op_service p)])"
    using ok by (intro first_match) (simp_all add: column_ok_def stops_def)
  have "rfirst PORT_LINE_RE (port_row w1 w2 p) = Some ([], [Some (dec (op_port p))] @ [] @ [Some (op_protocol p)] @ [] @
      [Some (op_state p)] @ [] @ [Some (op_service p)])"
    unfolding PORT_LINE_RE_def port_row_def using 1 2 3 4 5 6 7 by (intro rfirst_Then) simp_all
  then show ?thesis by (simp add: re_match_first)
qed

lemma parse_port_row:
  assumes "open_port_ok p" and "blank_ok w1" and "blank_ok w2"
  shows "parse_port_line (port_row w1 w2 p) = Some p"
proof -
  have "hd (port_row w1 w2 p) = hd (dec (op_port p))" "port_row w1 w2 p \<noteq> []" by (simp_all add: port_row_def)
  moreover have "\<not> is_space (hd (dec (op_port p)))"
    using is_digit_dec [of "op_port p"] by (cases "dec (op_port p)") (auto simp: is_digit_def is_space_def)
  moreover have "last (port_row w1 w2 p) = last (op_service p)" "\<not> is_space (last (op_service p))"
    using assms(1) by (auto simp: port_row_def open_port_ok_def column_ok_def list_all_iff is_not_space_def)
  ultimately have "strip (port_row w1 w2 p) = port_row w1 w2 p" by (simp add: strip_plain)
  with port_row_match [OF assms] show ?thesis by (simp add: parse_port_line_def)
qed

text \<open>nmap's report: rows of the table and other lines.\<close>

datatype report_line = Row open_port pystr pystr | Other pystr

fun report_line_ok :: "report_line \<Rightarrow> bool" where
  "report_line_ok (Row p w1 w2) = (open_port_ok p \<and> blank_ok w1 \<and> blank_ok w2)"
| "report_line_ok (Other l) = (re_match PORT_LINE_RE (strip l) = None)"

fun report_text :: "report_line \<Rightarrow> pystr" where
  "report_text (Row p w1 w2) = port_row w1 w2 p"
| "report_text (Other l) = l"

fun report_ports :: "report_line list \<Rightarrow> open_port list" where
  "report_ports [] = []"
| "report_ports (Row p w1 w2 # ls) = p # report_ports ls"
| "report_ports (Other l # ls) = report_ports ls"

lemma parse_report:
  "list_all report_line_ok ls \<Longrightarrow> List.map_filter parse_port_line (map report_text ls) = report_ports ls"
  by (induction ls rule: report_ports.induct)
    (simp_all add: map_filter_simps parse_port_row, simp add: parse_port_line_def)

text \<open>C31: A port scan reports what nmap found.  After a start, whatever the threads of earlier scans do
  and in whatever order, once nmap has ended without an error the scan is no longer running and lists
  exactly the open ports of nmap's table, in its order, with their protocol, state and service; if stop
  was called in between, the scan reports that it was stopped, and no ports.\<close>

theorem port_scan_exact:
  assumes "pt_commit target_host r (Inr pid) st0 = (rep, killed, st)"
    and "list_all (\<lambda>a. case a of Work i e \<Rightarrow> True | Ctl c \<Rightarrow> False) (before @ acts)"
    and "filter (\<lambda>a. case a of Work i e \<Rightarrow> i = pt_scan_id st | Ctl c \<Rightarrow> False) before = []"
    and "filter (\<lambda>a. case a of Work i e \<Rightarrow> i = pt_scan_id st | Ctl c \<Rightarrow> False) acts = [Work (pt_scan_id st) c]"
    and "cp_returncode c = 0" and "splitlines (cp_stdout c) = map report_text ls" and "list_all report_line_ok ls"
  shows "pt_status (pts.interleave (before @ acts) st) =
      (False, Some target_host, Some (range_text r), Some True, None, report_ports ls) \<and>
    pt_status (pts.interleave (before @ [Ctl Stop_Tool] @ acts) st) =
      (False, Some target_host, Some (range_text r), Some False, Some (lit ''stopped''), [])"
proof -
  have st: "st = \<lparr>pt_running = True, pt_host = Some target_host, pt_port_range = Some (range_text r),
      pt_scan_id = pt_scan_id st, pt_process = Some pid, pt_ok = None, pt_message = None, pt_ports = [],
      pt_stopped = False\<rparr>"
    using assms(1) by (auto simp: pt_commit_def)
  have append: "pts.interleave (as @ bs) s = pts.interleave bs (pts.interleave as s)" for as bs s
    by (simp add: pts.interleave_def)
  have before: "pts.interleave before st = st"
    using pts.only_current [of before st] assms(2,3) by (simp add: pts.interleave_def)
  define stp where "stp = st\<lparr>pt_stopped := True\<rparr>"
  have stop: "pts.interleave [Ctl Stop_Tool] st = stp"
    by (subst st) (simp add: pts.interleave_def pt_stop_def stp_def, subst (2) st, simp)
  have acts: "pts.interleave acts s = pt_work (pt_scan_id st) c s" if "pt_scan_id s = pt_scan_id st" for s
    using pts.only_current [of acts s] assms(2,4) that by (simp add: pts.interleave_def)
  have "pt_work (pt_scan_id st) c st = st\<lparr>pt_running := False, pt_ports := report_ports ls, pt_ok := Some True,
      pt_message := None\<rparr>"
    using assms(5-7) parse_report [OF assms(7)] by (subst st) (simp add: pt_work_def parse_ports_def, subst (2) st, simp)
  moreover have "pt_work (pt_scan_id st) c stp = stp\<lparr>pt_running := False, pt_ok := Some False,
      pt_message := Some (lit ''stopped'')\<rparr>"
    by (simp add: pt_work_def stp_def)
  ultimately show ?thesis
    unfolding append before stop using acts [of st] acts [of stp] stp_def st
    by (simp add: pt_status_def) (metis port_scan.select_convs)
qed

section \<open>Reading the hosts\<close>

text \<open>What nmap prints of a host: the line of its address, and the line of its MAC address, if it has
  one, with a vendor or without; other lines may stand anywhere.\<close>

record host_block =
  hb_ip :: pystr
  hb_noise :: "pystr list"
  hb_mac :: "(pystr \<times> pystr option) option"
  hb_rest :: "pystr list"

definition mac_text :: "pystr \<Rightarrow> pystr option \<Rightarrow> pystr" where
  "mac_text mac vendor = lit ''MAC Address: '' @ mac @
     (case vendor of None \<Rightarrow> [] | Some v \<Rightarrow> lit '' ('' @ v @ lit '')'') @ [10]"

definition block_lines :: "host_block \<Rightarrow> pystr list" where
  "block_lines b = (lit ''Nmap scan report for '' @ hb_ip b @ [10]) # hb_noise b @
     (case hb_mac b of None \<Rightarrow> [] | Some (mac, vendor) \<Rightarrow> mac_text mac vendor # hb_rest b)"

definition block_host :: "host_block \<Rightarrow> ip_host" where
  "block_host b = \<lparr>ih_ip = hb_ip b, ih_mac = map_option (\<lambda>m. lower_ascii (fst m)) (hb_mac b),
     ih_vendor = Option.bind (hb_mac b) snd\<rparr>"

definition noise_ok :: "pystr \<Rightarrow> bool" where
  "noise_ok l \<longleftrightarrow> re_match REPORT_RE l = None \<and> re_match MAC_RE l = None"

definition mac_ok :: "pystr \<times> pystr option \<Rightarrow> bool" where
  "mac_ok m \<longleftrightarrow> length (fst m) = 17 \<and> list_all is_hex_colon (fst m) \<and>
     (case snd m of None \<Rightarrow> True | Some v \<Rightarrow> v \<noteq> [] \<and> list_all is_any v)"

definition block_ok :: "host_block \<Rightarrow> bool" where
  "block_ok b \<longleftrightarrow> column_ok (hb_ip b) \<and> list_all noise_ok (hb_noise b) \<and> list_all noise_ok (hb_rest b) \<and>
     (case hb_mac b of None \<Rightarrow> True | Some m \<Rightarrow> mac_ok m)"

lemma report_line_match:
  assumes "column_ok ip"
  shows "re_match REPORT_RE (lit ''Nmap scan report for '' @ ip @ [10]) = Some [Some ip]"
proof -
  have 1: "rfirst (Group (Many is_not_space)) (ip @ [10]) = Some ([10], [Some ip])"
    using assms by (intro first_match) (auto simp: column_ok_def stops_def is_not_space_def is_space_def)
  show ?thesis
    by (rule re_match_first, unfold REPORT_RE_def, rule rfirst_Then [OF rfirst_Txt 1, simplified])
qed

lemma mac_not_report: "re_match REPORT_RE (mac_text mac vendor) = None"
  by (simp add: REPORT_RE_def re_match_def rfirst_def mac_text_def lit_def startswith_def)

lemma mac_vendor_match:
  assumes "list_all is_any v" and "v \<noteq> []"
  shows "rfirst (Then (Many is_space) (Then (Txt (lit ''('')) (Then (Group (Many is_any)) (Txt (lit '')'')))))
     (lit '' ('' @ v @ lit '')'' @ [10]) = Some ([10], [Some v])"
proof -
  have "rfirst (Many is_space) (lit '' '' @ (lit ''('' @ v @ lit '')'' @ [10])) = Some (lit ''('' @ v @ lit '')'' @ [10], [])"
    by (intro first_match) (simp_all add: lit_def is_space_def stops_def)
  then have 1: "rfirst (Many is_space) (lit '' ('' @ v @ lit '')'' @ [10]) = Some (lit ''('' @ v @ lit '')'' @ [10], [])"
    by (simp add: lit_def)
  have "rfirst (Then (Group (Many is_any)) (Txt (lit '')''))) (v @ 41 # [10]) = Some ([10], Some v # [])"
    using assms by (intro rfirst_give_back) (simp_all add: is_any_def stops_def rfirst_def lit_def startswith_def)
  then have 3: "rfirst (Then (Group (Many is_any)) (Txt (lit '')''))) (v @ lit '')'' @ [10]) = Some ([10], [Some v])"
    by (simp add: lit_def)
  show ?thesis
    using rfirst_Then [OF 1 rfirst_Then [OF rfirst_Txt 3]] by simp
qed

lemma mac_line_match:
  assumes "mac_ok (mac, vendor)"
  shows "re_match MAC_RE (mac_text mac vendor) = Some [Some mac, vendor]"
proof -
  let ?tail = "(case vendor of None \<Rightarrow> [] | Some v \<Rightarrow> lit '' ('' @ v @ lit '')'') @ [10]"
  let ?opt = "Then (Many is_space) (Then (Txt (lit ''('')) (Then (Group (Many is_any)) (Txt (lit '')''))))"
  have 1: "rfirst (Group (Times 17 is_hex_colon)) (mac @ ?tail) = Some (?tail, [Some mac])"
    using assms by (intro first_match) (simp_all add: mac_ok_def)
  have "\<exists>t. rfirst (Maybe ?opt) ?tail = Some (t, [vendor])"
  proof (cases vendor)
    case None
    have "rfirst ?opt [10] = None"
      by (rule rfirst_Then_None [of _ _ "([], [])"]) (simp_all add: is_space_def rfirst_def startswith_def lit_def)
    then show ?thesis using None rfirst_Maybe_None [of ?opt "[10]"] by simp
  next
    case (Some v)
    then show ?thesis using mac_vendor_match [of v] assms by (simp add: mac_ok_def rfirst_Maybe)
  qed
  then obtain t where 2: "rfirst (Maybe ?opt) ?tail = Some (t, [vendor])" by blast
  show ?thesis
    unfolding MAC_RE_def mac_text_def
    using rfirst_Then [OF rfirst_Txt rfirst_Then [OF 1 2], of "lit ''MAC Address: ''"]
    by (intro re_match_first [of _ _ t]) simp
qed

lemma reader_noise: "list_all noise_ok ns \<Longrightarrow> ip_reader (ns @ lines) hosts = ip_reader lines hosts"
  by (induction ns) (simp_all add: noise_ok_def)

lemma reader_block:
  assumes "block_ok b"
  shows "ip_reader (block_lines b @ lines) hosts =
    Publish (hosts @ [\<lparr>ih_ip = hb_ip b, ih_mac = None, ih_vendor = None\<rparr>]) #
    (if hb_mac b = None then [] else [Publish (hosts @ [block_host b])]) @
    ip_reader lines (hosts @ [block_host b])"
proof -
  have r: "re_match REPORT_RE (lit ''Nmap scan report for '' @ hb_ip b @ [10]) = Some [Some (hb_ip b)]"
    using assms report_line_match by (simp add: block_ok_def)
  have n: "list_all noise_ok (hb_noise b)" "list_all noise_ok (hb_rest b)" using assms by (simp_all add: block_ok_def)
  show ?thesis
  proof (cases "hb_mac b")
    case None
    then show ?thesis using r n by (simp add: block_lines_def block_host_def reader_noise Let_def)
  next
    case (Some m')
    then obtain mac vendor where m': "hb_mac b = Some (mac, vendor)" by (cases m') simp
    then have m: "re_match MAC_RE (mac_text mac vendor) = Some [Some mac, vendor]"
      using assms mac_line_match [of mac vendor] by (simp add: block_ok_def)
    show ?thesis using m' r n m
      by (simp add: block_lines_def block_host_def reader_noise mac_not_report Let_def)
  qed
qed

lemma reader_run:
  "list_all block_ok bs \<Longrightarrow> ip_hosts st = hosts \<Longrightarrow>
   fold (ip_work (ip_scan_id st)) (ip_reader (concat (map block_lines bs)) hosts) st =
   st\<lparr>ip_hosts := hosts @ map block_host bs, ip_running := False\<rparr>"
proof (induction bs arbitrary: hosts st)
  case Nil
  then show ?case by (cases st) simp
next
  case (Cons b bs)
  let ?st = "st\<lparr>ip_hosts := hosts @ [block_host b]\<rparr>"
  have "block_host b = \<lparr>ih_ip = hb_ip b, ih_mac = None, ih_vendor = None\<rparr>" if "hb_mac b = None"
    using that by (simp add: block_host_def)
  then have "fold (ip_work (ip_scan_id st)) (ip_reader (block_lines b @ concat (map block_lines bs)) hosts) st =
      fold (ip_work (ip_scan_id st)) (ip_reader (concat (map block_lines bs)) (hosts @ [block_host b])) ?st"
    using Cons.prems by (simp add: reader_block)
  also have "\<dots> = ?st\<lparr>ip_hosts := (hosts @ [block_host b]) @ map block_host bs, ip_running := False\<rparr>"
    using Cons.IH [of ?st "hosts @ [block_host b]"] Cons.prems by simp
  finally show ?case by simp
qed

text \<open>C30: A host scan lists what nmap reports.  After a start, whatever the threads of earlier scans do
  and in whatever order, once the thread of this scan has read nmap's output to its end the scan is no
  longer running and lists exactly the hosts of the output, in its order, each with its address, and
  with the MAC address in lower case and the vendor of its MAC line, if it has one.\<close>

theorem ip_scan_exact:
  assumes "ip_commit target (Inr pid) st0 = (rep, killed, st)"
    and "list_all (\<lambda>a. case a of Work i e \<Rightarrow> True | Ctl c \<Rightarrow> False) acts"
    and "filter (\<lambda>a. case a of Work i e \<Rightarrow> i = ip_scan_id st | Ctl c \<Rightarrow> False) acts =
      map (Work (ip_scan_id st)) (ip_reader (first_lines @ concat (map block_lines bs)) [])"
    and "list_all noise_ok first_lines" and "list_all block_ok bs"
  shows "ip_status (ips.interleave acts st) = (False, Some target, map block_host bs)"
proof -
  have st: "ip_hosts st = []" "ip_target st = Some target" using assms(1) by (auto simp: ip_commit_def)
  have works: "ips.interleave (map (Work i) es) s = fold (ip_work i) es s" for i es s
    by (induction es arbitrary: s) (simp_all add: ips.interleave_def)
  have "ips.interleave acts st =
      fold (ip_work (ip_scan_id st)) (ip_reader (first_lines @ concat (map block_lines bs)) []) st"
    using ips.only_current [OF assms(2), of st] assms(3) works by simp
  also have "\<dots> = st\<lparr>ip_hosts := map block_host bs, ip_running := False\<rparr>"
    using reader_noise [OF assms(4)] reader_run [OF assms(5) st(1)] by simp
  finally show ?thesis by (simp add: ip_status_def st(2))
qed

theorem ip_scan_exact_witness:
  "ip_status (ips.interleave
     ([Work 0 Finish] @ map (Work 1) (ip_reader (
        [lit ''Starting Nmap'' @ [10]] @ concat (map block_lines
          [\<lparr>hb_ip = lit ''10.0.0.1'', hb_noise = [lit ''Host is up.'' @ [10]],
             hb_mac = Some (lit ''0A:00:00:00:00:01'', Some (lit ''Acme (EU)'')), hb_rest = []\<rparr>,
           \<lparr>hb_ip = lit ''10.0.0.2'', hb_noise = [], hb_mac = None, hb_rest = []\<rparr>])) []))
     (snd (snd (ip_commit (lit ''10.0.0.0/24'') (Inr 7) ip_scan0)))) =
   (False, Some (lit ''10.0.0.0/24''),
    [\<lparr>ih_ip = lit ''10.0.0.1'', ih_mac = Some (lit ''0a:00:00:00:00:01''), ih_vendor = Some (lit ''Acme (EU)'')\<rparr>,
     \<lparr>ih_ip = lit ''10.0.0.2'', ih_mac = None, ih_vendor = None\<rparr>])"
proof -
  let ?st = "snd (snd (ip_commit (lit ''10.0.0.0/24'') (Inr 7) ip_scan0))"
  let ?bs = "[\<lparr>hb_ip = lit ''10.0.0.1'', hb_noise = [lit ''Host is up.'' @ [10]],
             hb_mac = Some (lit ''0A:00:00:00:00:01'', Some (lit ''Acme (EU)'')), hb_rest = []\<rparr>,
           \<lparr>hb_ip = lit ''10.0.0.2'', hb_noise = [], hb_mac = None, hb_rest = []\<rparr>]"
  have st: "ip_commit (lit ''10.0.0.0/24'') (Inr 7) ip_scan0 = ((True, None), None, ?st)" "ip_scan_id ?st = 1"
    by (simp_all add: ip_commit_def ip_scan0_def ip_killed_def)
  have noise: "list_all noise_ok [lit ''Starting Nmap'' @ [10]]"
    by (simp add: noise_ok_def re_match_def REPORT_RE_def MAC_RE_def rfirst_def startswith_def lit_def)
  have "noise_ok (lit ''Host is up.'' @ [10])"
    by (simp add: noise_ok_def re_match_def REPORT_RE_def MAC_RE_def rfirst_def startswith_def lit_def)
  then have blocks: "list_all block_ok ?bs"
    by (simp add: block_ok_def column_ok_def mac_ok_def)
       (simp add: lit_def is_not_space_def is_space_def is_any_def is_hex_colon_def is_digit_def)
  have l: "list_all (\<lambda>a. case a of Work i e \<Rightarrow> True | Ctl c \<Rightarrow> False) ([Work 0 Finish] @ map (Work 1) es)" for es
    by (induction es) simp_all
  have "filter (\<lambda>a. case a of Work i e \<Rightarrow> i = (1::nat) | Ctl c \<Rightarrow> False) (map (Work 1) es) = map (Work 1) es" for es
    by (induction es) simp_all
  then have f: "filter (\<lambda>a. case a of Work i e \<Rightarrow> i = ip_scan_id ?st | Ctl c \<Rightarrow> False)
      ([Work 0 Finish] @ map (Work 1) es) = map (Work (ip_scan_id ?st)) es" for es
    by (simp add: st(2))
  have "map block_host ?bs =
    [\<lparr>ih_ip = lit ''10.0.0.1'', ih_mac = Some (lit ''0a:00:00:00:00:01''), ih_vendor = Some (lit ''Acme (EU)'')\<rparr>,
     \<lparr>ih_ip = lit ''10.0.0.2'', ih_mac = None, ih_vendor = None\<rparr>]"
    by (simp add: block_host_def) (simp add: lit_def lower_ascii_def)
  with ip_scan_exact [OF st(1) l f noise blocks] show ?thesis by (simp only:)
qed

section \<open>A port scan, executed\<close>

theorem port_scan_exact_witness:
  "let st = snd (snd (pt_commit (lit ''10.0.0.9'') (1, 1024) (Inr 7) port_scan0));
       c0 = \<lparr>cp_returncode = 1, cp_stdout = [], cp_stderr = lit ''killed''\<rparr>;
       c = \<lparr>cp_returncode = 0, cp_stdout = lit ''PORT STATE SERVICE'' @ [10] @ lit ''22/tcp open ssh'', cp_stderr = []\<rparr>;
       acts = [Work 1 c, Work 0 c0]
   in pt_status (pts.interleave ([Work 0 c0] @ acts) st) =
        (False, Some (lit ''10.0.0.9''), Some (range_text (1, 1024)), Some True, None,
         [\<lparr>op_port = 22, op_protocol = lit ''tcp'', op_state = lit ''open'', op_service = lit ''ssh''\<rparr>]) \<and>
      pt_status (pts.interleave ([Work 0 c0] @ [Ctl Stop_Tool] @ acts) st) =
        (False, Some (lit ''10.0.0.9''), Some (range_text (1, 1024)), Some False, Some (lit ''stopped''), [])"
proof -
  let ?st = "snd (snd (pt_commit (lit ''10.0.0.9'') (1, 1024) (Inr 7) port_scan0))"
  let ?old = "\<lparr>cp_returncode = 1, cp_stdout = [], cp_stderr = lit ''killed''\<rparr>"
  let ?c = "\<lparr>cp_returncode = 0, cp_stdout = lit ''PORT STATE SERVICE'' @ [10] @ lit ''22/tcp open ssh'', cp_stderr = []\<rparr>"
  let ?p = "\<lparr>op_port = 22, op_protocol = lit ''tcp'', op_state = lit ''open'', op_service = lit ''ssh''\<rparr>"
  let ?ls = "[Other (lit ''PORT STATE SERVICE''), Row ?p [32] [32]]"
  have st: "pt_commit (lit ''10.0.0.9'') (1, 1024) (Inr 7) port_scan0 = ((True, None), None, ?st)" "pt_scan_id ?st = 1"
    by (simp_all add: pt_commit_def port_scan0_def pt_killed_def)
  have all: "list_all (\<lambda>a. case a of Work i e \<Rightarrow> True | Ctl c \<Rightarrow> False) ([Work 0 ?old] @ [Work 1 ?c, Work 0 ?old])"
    by simp
  have bef: "filter (\<lambda>a. case a of Work i e \<Rightarrow> i = pt_scan_id ?st | Ctl c \<Rightarrow> False) [Work 0 ?old] = []"
    and cur: "filter (\<lambda>a. case a of Work i e \<Rightarrow> i = pt_scan_id ?st | Ctl c \<Rightarrow> False) [Work 1 ?c, Work 0 ?old] =
      [Work (pt_scan_id ?st) ?c]"
    unfolding st(2) by simp_all
  have rc: "cp_returncode ?c = 0" by simp
  have "dec 22 = [50, 50]" by (simp add: dec.simps [of 22] dec.simps [of 2])
  then have lines: "splitlines (cp_stdout ?c) = map report_text ?ls"
    by (simp add: port_row_def) (simp add: splitlines_def lit_def is_linebreak_def)
  have "strip (lit ''PORT STATE SERVICE'') = lit ''PORT STATE SERVICE''"
    by (rule strip_plain) (simp_all add: lit_def is_space_def)
  moreover have "rmatch (Group (Many is_digit)) (lit ''PORT STATE SERVICE'') = []"
    by (simp add: lit_def is_digit_def)
  ultimately have header: "report_line_ok (Other (lit ''PORT STATE SERVICE''))"
    by (simp add: PORT_LINE_RE_def re_match_def rfirst_None del: rmatch.simps(8))
  have "report_line_ok (Row ?p [32] [32])"
    by (simp add: open_port_ok_def column_ok_def blank_ok_def) (simp add: lit_def is_not_space_def is_space_def)
  with header have ok: "list_all report_line_ok ?ls" by simp
  from port_scan_exact [OF st(1) all bef cur rc lines ok] show ?thesis by (simp only: Let_def report_ports.simps)
qed

end
