(* ===== verification/Link.thy ===== *)
theory Link
  imports Shell Json
begin

text \<open>
  \<open>backend/network/link.py\<close>: the link status of the test port from the output of \<open>ip -j -s link show\<close> and
  of \<open>ethtool\<close>.
\<close>

definition IP_CANDIDATES :: "pystr list" where
  "IP_CANDIDATES = [lit ''/usr/bin/ip'', lit ''/bin/ip'', lit ''ip'']"

definition ETHTOOL_CANDIDATES :: "pystr list" where
  "ETHTOOL_CANDIDATES = [lit ''/sbin/ethtool'', lit ''/usr/sbin/ethtool'', lit ''ethtool'']"

definition SPEED_RE :: re where
  "SPEED_RE = Then (Txt (lit ''Speed:'')) (Then (Star is_space) (Then (Group (Many is_digit)) (Txt (lit ''Mb/s''))))"

definition DUPLEX_RE :: re where
  "DUPLEX_RE = Then (TxtI (lit ''Duplex:'')) (Then (Star is_space) (Group (Or (TxtI (lit ''Full'')) (TxtI (lit ''Half'')))))"

definition AUTONEG_RE :: re where
  "AUTONEG_RE = Then (TxtI (lit ''Auto-negotiation:''))
     (Then (Star is_space) (Group (Or (TxtI (lit ''on'')) (TxtI (lit ''off'')))))"

definition LINK_DETECTED_RE :: re where
  "LINK_DETECTED_RE = Then (TxtI (lit ''Link detected:''))
     (Then (Star is_space) (Group (Or (TxtI (lit ''yes'')) (TxtI (lit ''no'')))))"

definition PHY_STAT_LINE_RE :: re where
  "PHY_STAT_LINE_RE = Then (Star is_space) (Then (Group (Many is_word_char)) (Then (Txt (lit '':''))
     (Then (Star is_space) (Then (Group (Then (Maybe (Txt (lit ''-''))) (Many is_digit)))
       (Then (Star is_space) AtEnd)))))"

definition PHY_STAT_KEYS :: "pystr list" where
  "PHY_STAT_KEYS = [lit ''phy_receive_errors'', lit ''phy_serdes_ber_errors'', lit ''phy_false_carrier_sense_errors'',
     lit ''phy_local_rcvr_nok'', lit ''phy_remote_rcv_nok'', lit ''phy_lpi_count'']"

definition link_run :: "'w host \<Rightarrow> command \<Rightarrow> 'w running \<Rightarrow> pystr \<times> 'w running" where
  "link_run H cmd s =
     (let (r, s') = shell_run H cmd s in (case r of None \<Rightarrow> [] | Some c \<Rightarrow> cp_stdout c, s'))"

section \<open>ip\<close>

text \<open>\<open>bool(v)\<close> and \<open>v[0]\<close> of what \<open>json.loads\<close> returns.\<close>

fun json_truthy :: "json \<Rightarrow> bool" where
  "json_truthy JNull = False"
| "json_truthy (JBool b) = b"
| "json_truthy (JInt i) = (i \<noteq> 0)"
| "json_truthy (JReal r) = (r \<noteq> 0)"
| "json_truthy (JConst c) = True"
| "json_truthy (JStr s) = (s \<noteq> [])"
| "json_truthy (JList xs) = (xs \<noteq> [])"
| "json_truthy (JDict d) = (d \<noteq> [])"

fun json_first :: "json \<Rightarrow> exn + json" where
  "json_first (JList (x # xs)) = Inr x"
| "json_first (JStr (c # s)) = Inr (JStr [c])"
| "json_first (JDict d) = Inl KeyError"
| "json_first (JList []) = Inl IndexError"
| "json_first (JStr []) = Inl IndexError"
| "json_first v = Inl TypeError"

definition link_info_of :: "pystr \<Rightarrow> exn + json" where
  "link_info_of output =
     (case loads output of
        None \<Rightarrow> Inr (JDict [])
      | Some data \<Rightarrow> if json_truthy data then json_first data else Inr (JDict []))"

definition get_ip_link_info :: "'w host \<Rightarrow> pystr \<Rightarrow> 'w running \<Rightarrow> (exn + json) \<times> 'w running" where
  "get_ip_link_info H interface s =
     (case find_binary H IP_CANDIDATES of
        None \<Rightarrow> (Inr (JDict []), s)
      | Some ip_bin \<Rightarrow>
          let (output, s') = link_run H [ip_bin, lit ''-j'', lit ''-s'', lit ''link'', lit ''show'', interface] s
          in (link_info_of output, s'))"

section \<open>ethtool\<close>

record ethtool_info =
  et_speed_mbps :: "nat option"
  et_duplex :: "pystr option"
  et_autoneg :: "bool option"
  et_link_detected :: "bool option"

definition first_group :: "re \<Rightarrow> pystr \<Rightarrow> pystr option" where
  "first_group r output = map_option (\<lambda>g. the (g ! 0)) (re_search r output)"

definition ethtool_info_of :: "pystr \<Rightarrow> ethtool_info" where
  "ethtool_info_of output =
     \<lparr>et_speed_mbps = map_option undec (first_group SPEED_RE output),
      et_duplex = map_option lower_ascii (first_group DUPLEX_RE output),
      et_autoneg = map_option (\<lambda>v. lower_ascii v = lit ''on'') (first_group AUTONEG_RE output),
      et_link_detected = map_option (\<lambda>v. lower_ascii v = lit ''yes'') (first_group LINK_DETECTED_RE output)\<rparr>"

definition no_ethtool :: ethtool_info where
  "no_ethtool = \<lparr>et_speed_mbps = None, et_duplex = None, et_autoneg = None, et_link_detected = None\<rparr>"

definition get_ethtool_info :: "'w host \<Rightarrow> pystr \<Rightarrow> 'w running \<Rightarrow> ethtool_info \<times> 'w running" where
  "get_ethtool_info H interface s =
     (case find_binary H ETHTOOL_CANDIDATES of
        None \<Rightarrow> (no_ethtool, s)
      | Some bin \<Rightarrow> let (output, s') = link_run H [bin, interface] s in (ethtool_info_of output, s'))"

text \<open>\<open>int(text)\<close> for \<open>-?\d+\<close>\<close>

definition signed_undec :: "pystr \<Rightarrow> int" where
  "signed_undec t = (if startswith t (lit ''-'') then - int (undec (tl t)) else int (undec t))"

definition phy_line :: "pystr \<Rightarrow> (pystr, int) dict \<Rightarrow> (pystr, int) dict" where
  "phy_line line stats =
     (case re_match PHY_STAT_LINE_RE line of
        None \<Rightarrow> stats
      | Some g \<Rightarrow>
          if the (g ! 0) \<in> set PHY_STAT_KEYS
          then AList.update (the (g ! 0)) (signed_undec (the (g ! 1))) stats else stats)"

definition phy_statistics_of :: "pystr \<Rightarrow> (pystr, int) dict" where
  "phy_statistics_of output = fold phy_line (splitlines output) []"

definition get_phy_statistics :: "'w host \<Rightarrow> pystr \<Rightarrow> 'w running \<Rightarrow> (pystr, int) dict \<times> 'w running" where
  "get_phy_statistics H interface s =
     (case find_binary H ETHTOOL_CANDIDATES of
        None \<Rightarrow> ([], s)
      | Some bin \<Rightarrow>
          let (output, s') = link_run H [bin, lit ''--phy-statistics'', interface] s in (phy_statistics_of output, s'))"

section \<open>get_link_status\<close>

record counters =
  ct_bytes :: json
  ct_packets :: json
  ct_errors :: json
  ct_dropped :: json

record link_status =
  ls_interface :: pystr
  ls_present :: bool
  ls_operstate :: json
  ls_mac_address :: json
  ls_mtu :: json
  ls_speed_mbps :: "nat option"
  ls_duplex :: "pystr option"
  ls_autoneg :: "bool option"
  ls_link_detected :: "bool option"
  ls_rx :: counters
  ls_tx :: counters
  ls_phy_statistics :: "(pystr, int) dict"

definition counters_of :: "json \<Rightarrow> exn + counters" where
  "counters_of v =
     rbind (json_get (lit ''bytes'') JNull v) (\<lambda>b. rbind (json_get (lit ''packets'') JNull v) (\<lambda>p.
     rbind (json_get (lit ''errors'') JNull v) (\<lambda>e. rbind (json_get (lit ''dropped'') JNull v) (\<lambda>d.
       Inr \<lparr>ct_bytes = b, ct_packets = p, ct_errors = e, ct_dropped = d\<rparr>))))"

text \<open>The lookups have no effect, so the order in which the first failing one raises is not visible
  beyond the kind of exception; they are in the order of the code.\<close>

definition link_status_of ::
  "pystr \<Rightarrow> json \<Rightarrow> ethtool_info \<Rightarrow> (pystr, int) dict \<Rightarrow> exn + link_status" where
  "link_status_of interface info e phy =
     rbind (json_get (lit ''stats64'') (JDict []) info) (\<lambda>stats.
     rbind (json_get (lit ''rx'') (JDict []) stats) (\<lambda>rx.
     rbind (json_get (lit ''tx'') (JDict []) stats) (\<lambda>tx.
     rbind (json_get (lit ''operstate'') JNull info) (\<lambda>operstate.
     rbind (json_get (lit ''address'') JNull info) (\<lambda>address.
     rbind (json_get (lit ''mtu'') JNull info) (\<lambda>mtu.
     rbind (counters_of rx) (\<lambda>rxs. rbind (counters_of tx) (\<lambda>txs.
       Inr \<lparr>ls_interface = interface, ls_present = json_truthy info, ls_operstate = operstate,
         ls_mac_address = address, ls_mtu = mtu, ls_speed_mbps = et_speed_mbps e, ls_duplex = et_duplex e,
         ls_autoneg = et_autoneg e, ls_link_detected = et_link_detected e, ls_rx = rxs, ls_tx = txs,
         ls_phy_statistics = phy\<rparr>))))))))"

definition get_link_status :: "'w host \<Rightarrow> pystr \<Rightarrow> 'w running \<Rightarrow> (exn + link_status) \<times> 'w running" where
  "get_link_status H interface s =
     (let (info, s1) = get_ip_link_info H interface s in
      case info of
        Inl e \<Rightarrow> (Inl e, s1)
      | Inr v \<Rightarrow>
          let (e, s2) = get_ethtool_info H interface s1; (phy, s3) = get_phy_statistics H interface s2
          in (link_status_of interface v e phy, s3))"

end
