(* ===== verification/Link_History.thy ===== *)
theory Link_History
  imports Link
begin

text \<open>
  \<open>backend/network/link_history.py\<close>: the log of link events.  The watch thread polls the link status; an
  event is recorded when one of five fields differs from the last recorded snapshot.  The log is a
  \<open>deque(maxlen=500)\<close>.
\<close>

definition LINK_MAX_EVENTS :: nat where
  "LINK_MAX_EVENTS = 500"

record snapshot =
  sn_present :: bool
  sn_operstate :: json
  sn_link_detected :: "bool option"
  sn_speed_mbps :: "nat option"
  sn_duplex :: "pystr option"

definition relevant :: "link_status \<Rightarrow> snapshot" where
  "relevant s = \<lparr>sn_present = ls_present s, sn_operstate = ls_operstate s, sn_link_detected = ls_link_detected s,
     sn_speed_mbps = ls_speed_mbps s, sn_duplex = ls_duplex s\<rparr>"

section \<open>Equality of snapshots\<close>

lemma size_list_elem: "x \<in> set xs \<Longrightarrow> size x < size (JList xs)"
  by (induction xs) auto

lemma size_dict_elem: "(k, v) \<in> set d \<Longrightarrow> size v < size (JDict d)"
  by (induction d) auto

text \<open>Python's \<open>==\<close>: numbers and booleans compare by value, NaN equals nothing, dicts compare without
  order.\<close>

fun json_number :: "json \<Rightarrow> real option" where
  "json_number (JBool b) = Some (if b then 1 else 0)"
| "json_number (JInt i) = Some (of_int i)"
| "json_number (JReal r) = Some r"
| "json_number v = None"

function py_eq :: "json \<Rightarrow> json \<Rightarrow> bool" where
  "py_eq a b =
     (case (a, b) of
        (JNull, JNull) \<Rightarrow> True
      | (JStr s, JStr t) \<Rightarrow> s = t
      | (JConst c, JConst d) \<Rightarrow> c = d \<and> c \<noteq> lit ''NaN''
      | (JList xs, JList ys) \<Rightarrow> length xs = length ys \<and> list_all (\<lambda>(x, y). py_eq x y) (zip xs ys)
      | (JDict d, JDict e) \<Rightarrow>
          length d = length e \<and>
          list_all (\<lambda>(k, v). case map_of e k of None \<Rightarrow> False | Some w \<Rightarrow> py_eq v w) d
      | _ \<Rightarrow> json_number a \<noteq> None \<and> json_number a = json_number b)"
  by pat_completeness auto

termination
  by (relation "measure (size \<circ> fst)")
     (auto dest!: set_zip_leftD dest: size_list_elem size_dict_elem simp del: json.size)

declare py_eq.simps [simp del]

definition snapshot_eq :: "snapshot \<Rightarrow> snapshot \<Rightarrow> bool" where
  "snapshot_eq a b \<longleftrightarrow>
     sn_present a = sn_present b \<and> py_eq (sn_operstate a) (sn_operstate b) \<and>
     sn_link_detected a = sn_link_detected b \<and> sn_speed_mbps a = sn_speed_mbps b \<and> sn_duplex a = sn_duplex b"

section \<open>Operations\<close>

record link_log =
  lh_events :: "(real \<times> snapshot) list"
  lh_last :: "snapshot option"
  lh_started :: "pystr list"

definition link_log0 :: link_log where
  "link_log0 = \<lparr>lh_events = [], lh_last = None, lh_started = []\<rparr>"

text \<open>Appending to a deque of bounded length.\<close>

definition deque_append :: "nat \<Rightarrow> 'a \<Rightarrow> 'a list \<Rightarrow> 'a list" where
  "deque_append n x xs = (let ys = xs @ [x] in drop (length ys - n) ys)"

definition poll_once :: "real \<Rightarrow> link_status \<Rightarrow> link_log \<Rightarrow> link_log" where
  "poll_once now status st =
     (let current = relevant status in
      if lh_last st = None \<or> \<not> snapshot_eq current (the (lh_last st))
      then st\<lparr>lh_events := deque_append LINK_MAX_EVENTS (now, current) (lh_events st), lh_last := Some current\<rparr>
      else st)"

text \<open>The watch thread: what \<open>get_link_status\<close> gives at each poll, with the time of the event.  An
  exception ends the thread.\<close>

fun watch_loop :: "(real \<times> (exn + link_status)) list \<Rightarrow> link_log \<Rightarrow> link_log" where
  "watch_loop [] st = st"
| "watch_loop ((now, Inl e) # polls) st = st"
| "watch_loop ((now, Inr status) # polls) st = watch_loop polls (poll_once now status st)"

text \<open>Whether a watch thread is started.\<close>

definition link_start_listener :: "pystr \<Rightarrow> link_log \<Rightarrow> bool \<times> link_log" where
  "link_start_listener interface st =
     (if interface \<in> set (lh_started st) then (False, st)
      else (True, st\<lparr>lh_started := lh_started st @ [interface]\<rparr>))"

definition get_history :: "link_log \<Rightarrow> (real \<times> snapshot) list" where
  "get_history st = lh_events st"

definition link_reset :: "link_log \<Rightarrow> (bool \<times> pystr) \<times> link_log" where
  "link_reset st = ((True, lit ''link history reset''), st\<lparr>lh_events := [], lh_last := None\<rparr>)"

section \<open>The log and the polls\<close>

text \<open>What is recorded of a list of polls: the first poll, and every poll whose snapshot is not that of the
  poll before.\<close>

definition recorded :: "(real \<times> link_status) list \<Rightarrow> (real \<times> snapshot) list" where
  "recorded polls =
     map (\<lambda>i. (fst (polls ! i), relevant (snd (polls ! i))))
       (filter (\<lambda>i. i = 0 \<or> relevant (snd (polls ! i)) \<noteq> relevant (snd (polls ! (i - 1)))) [0..<length polls])"

text \<open>\<open>ip\<close> reports the state as text, or not at all.\<close>

definition text_state :: "link_status \<Rightarrow> bool" where
  "text_state s \<longleftrightarrow> (case ls_operstate s of JNull \<Rightarrow> True | JStr t \<Rightarrow> True | _ \<Rightarrow> False)"

lemma snapshot_eq_text:
  "text_state a \<Longrightarrow> text_state b \<Longrightarrow> snapshot_eq (relevant a) (relevant b) \<longleftrightarrow> relevant a = relevant b"
  by (auto simp: text_state_def snapshot_eq_def relevant_def py_eq.simps split: json.splits)

lemma recorded_snoc:
  "recorded (polls @ [p]) = recorded polls @
     (if polls = [] \<or> relevant (snd p) \<noteq> relevant (snd (last polls)) then [(fst p, relevant (snd p))] else [])"
proof -
  have "filter (\<lambda>i. i = 0 \<or> relevant (snd ((polls @ [p]) ! i)) \<noteq> relevant (snd ((polls @ [p]) ! (i - 1)))) [0..<length polls] =
      filter (\<lambda>i. i = 0 \<or> relevant (snd (polls ! i)) \<noteq> relevant (snd (polls ! (i - 1)))) [0..<length polls]"
    by (intro filter_cong) (auto simp: nth_append)
  then show ?thesis
    by (cases "polls = []") (simp_all add: recorded_def nth_append last_conv_nth)
qed

lemma deque_append_drop:
  "deque_append n x (drop (length xs - n) xs) = drop (length (xs @ [x]) - n) (xs @ [x])"
  by (cases "length xs < n") (auto simp: deque_append_def Let_def Suc_diff_le)

lemma poll_log:
  assumes "list_all (text_state \<circ> snd) polls" and "lh_events st = []" and "lh_last st = None"
  defines "st' \<equiv> fold (\<lambda>(now, status). poll_once now status) polls st"
  shows "lh_events st' = drop (length (recorded polls) - LINK_MAX_EVENTS) (recorded polls) \<and>
    lh_last st' = (if polls = [] then None else Some (relevant (snd (last polls))))"
  using assms(1) unfolding st'_def
proof (induction polls rule: rev_induct)
  case Nil
  then show ?case by (simp add: recorded_def assms)
next
  case (snoc p polls)
  define z where "z = fold (\<lambda>(now, status). poll_once now status) polls st"
  have IH: "lh_events z = drop (length (recorded polls) - LINK_MAX_EVENTS) (recorded polls)"
    "lh_last z = (if polls = [] then None else Some (relevant (snd (last polls))))"
    using snoc by (simp_all add: z_def)
  have step: "fold (\<lambda>(now, status). poll_once now status) (polls @ [p]) st = poll_once (fst p) (snd p) z"
    by (simp add: z_def split_def)
  have "snapshot_eq (relevant (snd p)) (relevant (snd (last polls))) \<longleftrightarrow>
      relevant (snd p) = relevant (snd (last polls))" if "polls \<noteq> []"
    using that snoc.prems by (intro snapshot_eq_text) (simp_all add: list_all_iff)
  then show ?case
    unfolding step using IH deque_append_drop [of LINK_MAX_EVENTS "(fst p, relevant (snd p))" "recorded polls"]
    by (simp add: poll_once_def Let_def recorded_snoc del: drop_append)
qed

text \<open>The changes themselves: the first poll, and every poll at which one of the five fields differs from the poll
  before.\<close>

definition same_link :: "link_status \<Rightarrow> link_status \<Rightarrow> bool" where
  "same_link a b \<longleftrightarrow> ls_present a = ls_present b \<and> ls_operstate a = ls_operstate b \<and>
     ls_link_detected a = ls_link_detected b \<and> ls_speed_mbps a = ls_speed_mbps b \<and> ls_duplex a = ls_duplex b"

definition changes :: "(real \<times> link_status) list \<Rightarrow> (real \<times> link_status) list" where
  "changes polls =
     map (\<lambda>i. polls ! i) (filter (\<lambda>i. i = 0 \<or> \<not> same_link (snd (polls ! i)) (snd (polls ! (i - 1)))) [0..<length polls])"

lemma recorded_changes: "recorded polls = map (\<lambda>(t, s). (t, relevant s)) (changes polls)"
  by (auto simp: recorded_def changes_def same_link_def relevant_def split_def intro!: arg_cong2 [of _ _ _ _ map] filter_cong)

text \<open>C32: The link history is the list of link changes.  After a reset, whatever the polls of the test
  port report, the history holds exactly the polls at which presence, operational state, link detection,
  speed or duplex differ from the poll before, and the first poll, each with its time, in order; when
  there are more than 500, the last 500.  Counters and other fields make no events.\<close>

theorem link_history_exact:
  assumes "list_all (text_state \<circ> snd) polls"
  shows "get_history (watch_loop (map (\<lambda>(now, status). (now, Inr status)) polls) (snd (link_reset st))) =
    map (\<lambda>(t, s). (t, \<lparr>sn_present = ls_present s, sn_operstate = ls_operstate s, sn_link_detected = ls_link_detected s,
        sn_speed_mbps = ls_speed_mbps s, sn_duplex = ls_duplex s\<rparr>))
      (drop (length (changes polls) - 500) (changes polls))"
proof -
  have "watch_loop (map (\<lambda>(now, status). (now, Inr status)) ps) z =
      fold (\<lambda>(now, status). poll_once now status) ps z" for ps z
    by (induction ps arbitrary: z) auto
  then show ?thesis
    using poll_log [OF assms, of "snd (link_reset st)"]
    by (simp add: get_history_def link_reset_def LINK_MAX_EVENTS_def recorded_changes drop_map relevant_def)
qed

definition status_sample :: "bool \<Rightarrow> nat \<Rightarrow> int \<Rightarrow> link_status" where
  "status_sample up speed rx =
     (let c = \<lparr>ct_bytes = JInt rx, ct_packets = JInt 1, ct_errors = JInt 0, ct_dropped = JInt 0\<rparr> in
      \<lparr>ls_interface = lit ''eth0'', ls_present = True, ls_operstate = JStr (if up then lit ''UP'' else lit ''DOWN''),
       ls_mac_address = JNull, ls_mtu = JInt 1500, ls_speed_mbps = (if up then Some speed else None), ls_duplex = None,
       ls_autoneg = None, ls_link_detected = Some up, ls_rx = c, ls_tx = c, ls_phy_statistics = []\<rparr>)"

theorem link_history_exact_witness:
  "get_history (watch_loop (map (\<lambda>(now, status). (now, Inr status))
     [(0, status_sample True 1000 10), (2, status_sample True 1000 99), (4, status_sample False 0 99),
      (6, status_sample True 100 99)]) (snd (link_reset link_log0))) =
   [(0, relevant (status_sample True 1000 10)), (4, relevant (status_sample False 0 99)),
    (6, relevant (status_sample True 100 99))]"
  by (subst link_history_exact)
     (simp_all add: text_state_def status_sample_def Let_def changes_def same_link_def relevant_def upt_rec)

text \<open>An exception of \<open>get_link_status\<close> is not caught in the thread: no later poll is recorded, and since
  the interface is in the set of started ones, no new thread is started for it.\<close>

lemma link_watch_dies:
  "watch_loop (map (\<lambda>(now, status). (now, Inr status)) before @ (now, Inl e) # polls) st =
   watch_loop (map (\<lambda>(now, status). (now, Inr status)) before) st"
  by (induction before arbitrary: st) auto

end
