(* ===== verification/Ping.thy ===== *)
theory Ping
  imports Tool_Source Regex
begin

text \<open>
  \<open>backend/tools/ping.py\<close>: ping as a background process.  The reader thread of a process is the list of its
  locked sections, which depends only on what the process prints; the session it belongs to is identified by
  the host.
\<close>

definition PING_CANDIDATES :: "pystr list" where
  "PING_CANDIDATES = [lit ''/bin/ping'', lit ''/usr/bin/ping'', lit ''ping'']"

definition PING_REPLY_RE :: re where
  "PING_REPLY_RE = Then (Txt (lit ''icmp_seq='')) (Then (Group (Many is_digit)) (Then (Txt (lit '' ttl=''))
     (Then (Group (Many is_digit)) (Then (Txt (lit '' time='')) (Then (Group (Many is_dot_digit)) (Txt (lit '' ms'')))))))"

definition PING_SUMMARY_RE :: re where
  "PING_SUMMARY_RE = Then (Group (Many is_digit)) (Then (Txt (lit '' packets transmitted, ''))
     (Then (Group (Many is_digit)) (Then (Txt (lit '' received,'')) (Then (Lazy is_any)
       (Then (Group (Many is_dot_digit)) (Txt (lit ''% packet loss'')))))))"

definition PING_RTT_RE :: re where
  "PING_RTT_RE = Then (Or (Txt (lit ''rtt'')) (Txt (lit ''round-trip''))) (Then (Txt (lit '' min/avg/max/''))
     (Then (Or (Txt (lit ''mdev'')) (Txt (lit ''stddev''))) (Then (Txt (lit '' = ''))
     (Then (Group (Many is_dot_digit)) (Then (Txt (lit ''/'')) (Then (Group (Many is_dot_digit)) (Then (Txt (lit ''/''))
     (Then (Group (Many is_dot_digit)) (Then (Txt (lit ''/'')) (Then (Many is_dot_digit) (Txt (lit '' ms''))))))))))))"

text \<open>\<open>float(text)\<close> for a text of digits and dots\<close>

definition py_float :: "pystr \<Rightarrow> exn + real" where
  "py_float t =
     (case split_on 46 t of
        [a] \<Rightarrow> if a \<noteq> [] then Inr (real (undec a)) else Inl ValueError
      | [a, b] \<Rightarrow> if a @ b \<noteq> [] then Inr (real (undec a) + real (undec b) / 10 ^ length b) else Inl ValueError
      | _ \<Rightarrow> Inl ValueError)"

section \<open>State\<close>

record ping =
  pg_running :: bool
  pg_host :: "pystr option"
  pg_process :: "nat option"
  pg_received :: nat
  pg_transmitted :: "nat option"
  pg_loss_percent :: "real option"
  pg_min_ms :: "real option"
  pg_avg_ms :: "real option"
  pg_max_ms :: "real option"
  pg_sum_ms :: real

definition ping0 :: ping where
  "ping0 = \<lparr>pg_running = False, pg_host = None, pg_process = None, pg_received = 0, pg_transmitted = None,
     pg_loss_percent = None, pg_min_ms = None, pg_avg_ms = None, pg_max_ms = None, pg_sum_ms = 0\<rparr>"

section \<open>The reader thread\<close>

datatype ping_event = Reply real | Finish pystr

text \<open>A time that is not a number raises and ends the thread.\<close>

fun ping_reader :: "pystr list \<Rightarrow> pystr list \<Rightarrow> ping_event list" where
  "ping_reader [] seen = [Finish (concat seen)]"
| "ping_reader (line # lines) seen =
     (case re_search PING_REPLY_RE line of
        None \<Rightarrow> ping_reader lines (seen @ [line])
      | Some g \<Rightarrow>
          (case py_float (the (g ! 2)) of
             Inl e \<Rightarrow> []
           | Inr time_ms \<Rightarrow> Reply time_ms # ping_reader lines (seen @ [line])))"

text \<open>Assignments of \<open>float(text)\<close>, in order, up to the first that raises.\<close>

fun assign_floats :: "(pystr \<times> (real \<Rightarrow> ping \<Rightarrow> ping)) list \<Rightarrow> ping \<Rightarrow> ping" where
  "assign_floats [] st = st"
| "assign_floats ((t, put) # rest) st =
     (case py_float t of Inl e \<Rightarrow> st | Inr v \<Rightarrow> assign_floats rest (put v st))"

definition ping_finish :: "pystr \<Rightarrow> ping \<Rightarrow> ping" where
  "ping_finish output st =
     (let summary = re_search PING_SUMMARY_RE output; rtt = re_search PING_RTT_RE output;
          st1 = st\<lparr>pg_running := False\<rparr>;
          st2 = (case summary of None \<Rightarrow> st1
            | Some g \<Rightarrow> st1\<lparr>pg_transmitted := Some (undec (the (g ! 0))), pg_received := undec (the (g ! 1))\<rparr>);
          loss = (case summary of None \<Rightarrow> []
            | Some g \<Rightarrow> [(the (g ! 2), \<lambda>v s. s\<lparr>pg_loss_percent := Some v\<rparr>)]);
          times = (case rtt of None \<Rightarrow> []
            | Some g \<Rightarrow> [(the (g ! 0), \<lambda>v s. s\<lparr>pg_min_ms := Some v\<rparr>), (the (g ! 1), \<lambda>v s. s\<lparr>pg_avg_ms := Some v\<rparr>),
                (the (g ! 2), \<lambda>v s. s\<lparr>pg_max_ms := Some v\<rparr>)])
      in assign_floats (loss @ times) st2)"

fun ping_section :: "ping_event \<Rightarrow> ping \<Rightarrow> ping" where
  "ping_section (Reply t) st =
     st\<lparr>pg_received := pg_received st + 1,
        pg_min_ms := Some (case pg_min_ms st of None \<Rightarrow> t | Some m \<Rightarrow> min m t),
        pg_max_ms := Some (case pg_max_ms st of None \<Rightarrow> t | Some m \<Rightarrow> max m t),
        pg_sum_ms := pg_sum_ms st + t,
        pg_avg_ms := Some (round1 ((pg_sum_ms st + t) / real (pg_received st + 1)))\<rparr>"
| "ping_section (Finish output) st = ping_finish output st"

section \<open>Calls\<close>

definition ping_args :: "pystr \<Rightarrow> int option \<Rightarrow> pystr \<Rightarrow> command" where
  "ping_args target_host packets ping_bin =
     [ping_bin, lit ''-I'', lit ''eth0''] @
     (case packets of None \<Rightarrow> [] | Some c \<Rightarrow> if c \<noteq> 0 then [lit ''-c'', str_int c] else []) @ [target_host]"

definition ping_check ::
  "'w host \<Rightarrow> pystr \<Rightarrow> int option \<Rightarrow> 'w running \<Rightarrow> (exn + (pystr + command)) \<times> 'w running" where
  "ping_check H target_host packets s =
     (if target_host = [] then (Inr (Inl (lit ''host is required'')), s)
      else if startswith target_host (lit ''-'') then (Inr (Inl (lit ''invalid host'')), s)
      else if (case packets of None \<Rightarrow> False | Some c \<Rightarrow> c < 1) then (Inr (Inl (lit ''count must be at least 1'')), s)
      else case find_binary H PING_CANDIDATES of
             None \<Rightarrow> (Inr (Inl (lit ''ping not available'')), s)
           | Some ping_bin \<Rightarrow>
               let (source, s') = tool_source_ip H s in
               (rbind source (\<lambda>ip. Inr (if truthy ip then Inr (ping_args target_host packets ping_bin)
                  else Inl (no_source ''ping''))), s'))"

text \<open>The locked section of \<open>start\<close> and the new thread; the process gets \<open>SIGINT\<close> if it is the result.  What
  \<open>Popen\<close> gives, and the lines the new process will print, are arguments.\<close>

definition ping_commit ::
  "pystr \<Rightarrow> pystr + nat \<Rightarrow> pystr list \<Rightarrow> ping \<times> ping_event reader list \<Rightarrow>
    tool_reply \<times> nat option \<times> ping \<times> ping_event reader list" where
  "ping_commit target_host popen lines w =
     (let (st, rs) = w; old = (if pg_running st then pg_process st else None) in
      case popen of
        Inl e \<Rightarrow> ((False, Some e), old, st, rs)
      | Inr pid \<Rightarrow> ((True, None), old,
          \<lparr>pg_running = True, pg_host = Some target_host, pg_process = Some pid, pg_received = 0,
           pg_transmitted = None, pg_loss_percent = None, pg_min_ms = None, pg_avg_ms = None, pg_max_ms = None,
           pg_sum_ms = 0\<rparr>,
          rs @ [Reader target_host (ping_reader lines [])]))"

definition ping_start ::
  "'w host \<Rightarrow> pystr \<Rightarrow> int option \<Rightarrow> pystr + nat \<Rightarrow> pystr list \<Rightarrow> ping \<times> ping_event reader list \<Rightarrow> 'w running \<Rightarrow>
    (exn + tool_reply \<times> nat option \<times> ping \<times> ping_event reader list) \<times> 'w running" where
  "ping_start H target_host packets popen lines w s =
     (let (checked, s') = ping_check H (strip target_host) packets s in
      (rbind checked (\<lambda>c. Inr (case c of Inl m \<Rightarrow> ((False, Some m), None, w)
         | Inr args \<Rightarrow> ping_commit (strip target_host) popen lines w)), s'))"

definition ping_stop :: "ping \<Rightarrow> tool_reply \<times> nat option \<times> ping" where
  "ping_stop st =
     (if pg_process st \<noteq> None \<and> pg_running st then ((True, Some (lit ''ping stopping'')), pg_process st, st)
      else ((True, Some (lit ''no ping running'')), None, st))"

record ping_report =
  pr_running :: bool
  pr_host :: "pystr option"
  pr_transmitted :: "nat option"
  pr_received :: nat
  pr_loss_percent :: "real option"
  pr_min_ms :: "real option"
  pr_avg_ms :: "real option"
  pr_max_ms :: "real option"

definition ping_status :: "ping \<Rightarrow> ping_report" where
  "ping_status st = \<lparr>pr_running = pg_running st, pr_host = pg_host st, pr_transmitted = pg_transmitted st,
     pr_received = pg_received st, pr_loss_percent = pg_loss_percent st, pr_min_ms = pg_min_ms st,
     pr_avg_ms = pg_avg_ms st, pr_max_ms = pg_max_ms st\<rparr>"

abbreviation ping_step :: "nat \<Rightarrow> ping \<times> ping_event reader list \<Rightarrow> ping \<times> ping_event reader list" where
  "ping_step \<equiv> reader_step pg_host ping_section"

text \<open>The fields that the statistics leave alone.\<close>

definition ping_core :: "ping \<Rightarrow> pystr option \<times> bool \<times> nat option" where
  "ping_core st = (pg_host st, pg_running st, pg_process st)"

lemma assign_floats_core:
  "\<forall>p \<in> set ps. \<forall>v s. ping_core (snd p v s) = ping_core s \<Longrightarrow> ping_core (assign_floats ps st) = ping_core st"
  by (induction ps st rule: assign_floats.induct) (simp_all split: sum.split)

lemma ping_finish_core: "ping_core (ping_finish printed st) = (pg_host st, False, pg_process st)"
  by (cases "re_search PING_SUMMARY_RE printed"; cases "re_search PING_RTT_RE printed")
     (simp_all only: ping_finish_def Let_def option.case, (subst assign_floats_core; simp add: ping_core_def)+)

lemma ping_finish_fields:
  "pg_host (ping_finish printed st) = pg_host st" "\<not> pg_running (ping_finish printed st)"
  "pg_process (ping_finish printed st) = pg_process st"
  using ping_finish_core [of printed st] by (simp_all add: ping_core_def)

interpretation pings: host_session pg_host ping_section
proof
  show "pg_host (ping_section e s) = pg_host s" for e s by (cases e) (simp_all add: ping_finish_fields)
qed

section \<open>Reply lines\<close>

text \<open>A reply as ping prints it; what stands before has no equals sign.\<close>

record ping_answer =
  pa_before :: pystr
  pa_seq :: nat
  pa_ttl :: nat
  pa_time :: pystr
  pa_after :: pystr

definition answer_ok :: "ping_answer \<Rightarrow> bool" where
  "answer_ok a \<longleftrightarrow> 61 \<notin> set (pa_before a) \<and> pa_time a \<noteq> [] \<and> list_all is_dot_digit (pa_time a) \<and>
     (case py_float (pa_time a) of Inl e \<Rightarrow> False | Inr v \<Rightarrow> True)"

definition answer_line :: "ping_answer \<Rightarrow> pystr" where
  "answer_line a = pa_before a @ lit ''icmp_seq='' @ dec (pa_seq a) @ lit '' ttl='' @ dec (pa_ttl a) @ lit '' time='' @
     pa_time a @ lit '' ms'' @ pa_after a"

definition answer_ms :: "ping_answer \<Rightarrow> real" where
  "answer_ms a = projr (py_float (pa_time a))"

text \<open>Searching for a literal that ends with a character that the text before does not have.\<close>

lemma search_skip:
  assumes "c \<notin> set pre" and "c \<notin> set q"
  shows "re_search (Then (Txt (q @ [c])) r) (pre @ (q @ [c]) @ s) = re_search (Then (Txt (q @ [c])) r) ((q @ [c]) @ s)"
  using assms(1)
proof (induction pre)
  case Nil
  then show ?case by simp
next
  case (Cons x pre)
  have "\<not> startswith (x # pre @ (q @ [c]) @ s) (q @ [c])"
  proof
    assume "startswith (x # pre @ (q @ [c]) @ s) (q @ [c])"
    then obtain u where "x # pre @ q @ c # s = q @ c # u" by (auto simp: startswith_iff)
    then have "takeWhile (\<lambda>y. y \<noteq> c) ((x # pre @ q) @ c # s) = takeWhile (\<lambda>y. y \<noteq> c) (q @ c # u)" by simp
    moreover have "takeWhile (\<lambda>y. y \<noteq> c) (w @ c # t) = w" if "c \<notin> set w" for w t
      using that by (induction w) auto
    ultimately have "x # pre @ q = q" using Cons.prems assms(2) by (metis Un_iff append_Cons set_ConsD set_append)
    then show False by (metis append.assoc append_Cons append_self_conv2 list.distinct(1))
  qed
  then show ?case using Cons by (simp add: re_match_def rfirst_def)
qed

lemma stops_lit [simp]: "stops P (lit (a # as) @ s) \<longleftrightarrow> \<not> P (of_char a)"
  by (simp add: stops_def lit_def)

lemma answer_search:
  assumes "answer_ok a"
  shows "re_search PING_REPLY_RE (answer_line a) =
    Some [Some (dec (pa_seq a)), Some (dec (pa_ttl a)), Some (pa_time a)]"
proof -
  let ?t4 = "lit '' ms'' @ pa_after a"
  let ?t3 = "lit '' time='' @ pa_time a @ ?t4"
  let ?t2 = "lit '' ttl='' @ dec (pa_ttl a) @ ?t3"
  let ?t1 = "lit ''icmp_seq='' @ dec (pa_seq a) @ ?t2"
  have 1: "rfirst (Group (Many is_digit)) (dec (pa_seq a) @ ?t2) = Some (?t2, [Some (dec (pa_seq a))])"
    by (intro first_match) (simp_all add: is_digit_dec is_digit_def)
  have 2: "rfirst (Group (Many is_digit)) (dec (pa_ttl a) @ ?t3) = Some (?t3, [Some (dec (pa_ttl a))])"
    by (intro first_match) (simp_all add: is_digit_dec is_digit_def)
  have 3: "rfirst (Group (Many is_dot_digit)) (pa_time a @ ?t4) = Some (?t4, [Some (pa_time a)])"
    using assms by (intro first_match) (simp_all add: answer_ok_def is_dot_digit_def is_digit_def)
  have "rfirst PING_REPLY_RE ?t1 = Some (pa_after a, [] @ [Some (dec (pa_seq a))] @ [] @ [Some (dec (pa_ttl a))] @ [] @
      [Some (pa_time a)] @ [])"
    unfolding PING_REPLY_RE_def using 1 2 3 by (intro rfirst_Then) (rule rfirst_Txt | assumption)+
  then have m: "re_search PING_REPLY_RE ?t1 = Some [Some (dec (pa_seq a)), Some (dec (pa_ttl a)), Some (pa_time a)]"
    by (intro re_search_match re_match_first) simp
  have key: "lit ''icmp_seq='' = lit ''icmp_seq'' @ [61]" "61 \<notin> set (lit ''icmp_seq'')" by (simp_all add: lit_def)
  have "re_search PING_REPLY_RE (answer_line a) = re_search PING_REPLY_RE ?t1"
    using search_skip [of 61 "pa_before a" "lit ''icmp_seq''"] key assms
    by (simp add: PING_REPLY_RE_def answer_line_def answer_ok_def)
  with m show ?thesis by simp
qed

lemma reader_answers:
  "list_all answer_ok as \<Longrightarrow>
   ping_reader (map answer_line as @ lines) seen =
   map (Reply \<circ> answer_ms) as @ ping_reader lines (seen @ map answer_line as)"
proof (induction as arbitrary: seen)
  case Nil
  then show ?case by simp
next
  case (Cons a as)
  then obtain v where "py_float (pa_time a) = Inr v" by (auto simp: answer_ok_def split: sum.splits)
  then show ?case using Cons answer_search [of a] by (simp add: answer_ms_def)
qed

lemma reader_other:
  "list_all (\<lambda>l. re_search PING_REPLY_RE l = None) ls \<Longrightarrow>
   ping_reader (ls @ lines) seen = ping_reader lines (seen @ ls)"
  by (induction ls arbitrary: seen) simp_all

section \<open>Statistics\<close>

lemma fold_replies:
  "ts \<noteq> [] \<Longrightarrow> pg_received st = 0 \<Longrightarrow> pg_min_ms st = None \<Longrightarrow> pg_max_ms st = None \<Longrightarrow> pg_sum_ms st = 0 \<Longrightarrow>
   fold ping_section (map Reply ts) st =
   st\<lparr>pg_received := length ts, pg_min_ms := Some (Min (set ts)), pg_max_ms := Some (Max (set ts)),
      pg_sum_ms := sum_list ts, pg_avg_ms := Some (round1 (sum_list ts / real (length ts)))\<rparr>"
proof (induction ts rule: rev_induct)
  case Nil
  then show ?case by simp
next
  case (snoc t ts)
  show ?case
  proof (cases "ts = []")
    case True
    with snoc.prems show ?thesis by simp
  next
    case False
    with snoc have "fold ping_section (map Reply ts) st =
      st\<lparr>pg_received := length ts, pg_min_ms := Some (Min (set ts)), pg_max_ms := Some (Max (set ts)),
         pg_sum_ms := sum_list ts, pg_avg_ms := Some (round1 (sum_list ts / real (length ts)))\<rparr>" by simp
    moreover have "min (Min (set ts)) t = Min (set (ts @ [t]))" "max (Max (set ts)) t = Max (set (ts @ [t]))"
      using False by (simp_all add: Min_insert Max_insert min.commute max.commute)
    ultimately show ?thesis by (simp add: add.commute)
  qed
qed

text \<open>C33: The live statistics of a ping are those of the replies so far.  After a start, as soon as the
  reader has seen the header lines and some replies, the status shows the ping running, the number of
  replies, the smallest and largest time, and the mean rounded to a tenth of a millisecond; packets sent
  and packet loss are not known yet.  The reader of an earlier ping to another host changes none of it.\<close>

theorem ping_live_statistics:
  assumes "ping_commit target_host (Inr pid) (headers @ map answer_line answers @ lines) (st0, rs0) = (rep, killed, st, rs)"
    and "list_all (\<lambda>l. re_search PING_REPLY_RE l = None) headers" and "list_all answer_ok answers" and "answers \<noteq> []"
    and "i < length rs0" and "rd_host (rs0 ! i) \<noteq> target_host"
  shows "let ts = map answer_ms answers; w = fold (\<lambda>_. ping_step (length rs0)) answers (st, rs) in
    ping_status (fst w) = \<lparr>pr_running = True, pr_host = Some target_host, pr_transmitted = None,
      pr_received = length ts, pr_loss_percent = None, pr_min_ms = Some (Min (set ts)),
      pr_avg_ms = Some (round1 (sum_list ts / real (length ts))), pr_max_ms = Some (Max (set ts))\<rparr> \<and>
    fst (ping_step i w) = fst w"
proof -
  let ?ts = "map answer_ms answers"
  define left where "left = ping_reader lines (headers @ map answer_line answers)"
  have st: "st = \<lparr>pg_running = True, pg_host = Some target_host, pg_process = Some pid, pg_received = 0,
           pg_transmitted = None, pg_loss_percent = None, pg_min_ms = None, pg_avg_ms = None, pg_max_ms = None,
           pg_sum_ms = 0\<rparr>"
    and rs: "rs = rs0 @ [Reader target_host (map Reply ?ts @ left)]"
    using assms(1) reader_other [OF assms(2)] reader_answers [OF assms(3)]
    by (auto simp: ping_commit_def Let_def left_def)
  have w: "fold (\<lambda>_. ping_step (length rs0)) answers (st, rs) =
      (fold ping_section (map Reply ?ts) st, rs[length rs0 := Reader target_host left])"
  proof -
    have "fold (\<lambda>_. ping_step (length rs0)) (map Reply ?ts) (st, rs) =
      (fold ping_section (map Reply ?ts) st, rs[length rs0 := Reader target_host left])"
      by (rule pings.run_current) (simp_all add: rs st)
    moreover have steps: "fold (\<lambda>_. f) (map g xs) z = fold (\<lambda>_. f) xs z" for f :: "'a \<Rightarrow> 'a" and g :: "'b \<Rightarrow> 'c" and xs z
      by (induction xs arbitrary: z) simp_all
    ultimately show ?thesis by (simp only: steps)
  qed
  have f: "fold ping_section (map Reply ?ts) st =
      st\<lparr>pg_received := length ?ts, pg_min_ms := Some (Min (set ?ts)), pg_max_ms := Some (Max (set ?ts)),
         pg_sum_ms := sum_list ?ts, pg_avg_ms := Some (round1 (sum_list ?ts / real (length ?ts)))\<rparr>"
    by (rule fold_replies) (use assms(4) st in simp_all)
  have "fst (ping_step i (fold ping_section (map Reply ?ts) st, rs[length rs0 := Reader target_host left])) =
      fold ping_section (map Reply ?ts) st"
    by (rule pings.other_host) (use assms(5,6) f st rs in \<open>simp_all add: nth_append\<close>)
  then show ?thesis
    unfolding w Let_def fst_conv f by (simp add: ping_status_def st)
qed

section \<open>A restart for the same host\<close>

text \<open>No section of a reader starts a ping, and none changes the process.\<close>

lemma ping_section_fields:
  "\<not> pg_running st \<Longrightarrow> \<not> pg_running (ping_section e st)" "pg_process (ping_section e st) = pg_process st"
  by (cases e; simp add: ping_finish_fields)+

lemma ping_step_fields:
  "\<not> pg_running (fst w) \<Longrightarrow> \<not> pg_running (fst (ping_step j w))" "pg_process (fst (ping_step j w)) = pg_process (fst w)"
  "j \<noteq> k \<Longrightarrow> snd (ping_step j w) ! k = snd w ! k"
  by (cases w; simp add: reader_step_def ping_section_fields split: reader.split list.split)+

lemma ping_steps_fields:
  "\<not> pg_running (fst w) \<Longrightarrow> \<not> pg_running (fst (fold ping_step steps w))"
  "pg_process (fst (fold ping_step steps w)) = pg_process (fst w)"
  "k \<notin> set steps \<Longrightarrow> snd (fold ping_step steps w) ! k = snd w ! k"
  by (induction steps arbitrary: w) (simp_all add: ping_step_fields)

text \<open>A reader of the current host that runs all its sections ends the session, whoever else runs between.\<close>

lemma reader_ends_session:
  assumes "pg_host (fst w) = Some h" and "i < length (snd w)" and "snd w ! i = Reader h (es @ [Finish out])"
    and "length es < length (filter ((=) i) steps)"
  shows "\<not> pg_running (fst (fold ping_step steps w))"
  using assms
proof (induction steps arbitrary: w es)
  case (Cons j steps)
  obtain st rs where w: "w = (st, rs)" by (cases w)
  have next_w: "pg_host (fst (ping_step j w)) = Some h" "i < length (snd (ping_step j w))"
    using Cons.prems pings.step_host [of j w] pings.step_length [of j w] by simp_all
  show ?case
  proof (cases "j = i")
    case False
    then show ?thesis using Cons next_w ping_step_fields(3) [OF False] by simp
  next
    case True
    show ?thesis
    proof (cases es)
      case Nil
      then have "ping_step j w = (ping_finish out st, rs[i := Reader h []])"
        using Cons.prems True w pings.step_current [of i rs h "Finish out" "[]" st] by simp
      then show ?thesis using ping_steps_fields(1) by (simp add: ping_finish_fields)
    next
      case (Cons e es')
      then have "ping_step j w = (ping_section e st, rs[i := Reader h (es' @ [Finish out])])"
        using Cons.prems True w pings.step_current [of i rs h e "es' @ [Finish out]" st] by simp
      then have "snd (ping_step j w) ! i = Reader h (es' @ [Finish out])" using Cons.prems(2) w by simp
      moreover have "length es' < length (filter ((=) i) steps)" using Cons.prems(4) Cons True by simp
      ultimately show ?thesis using Cons.IH [OF next_w] by simp
    qed
  qed
qed simp

text \<open>C35: Pinging the same host again ends the new ping's session.  Sessions are told apart by their host
  only.  While a ping of a host runs, with any readers of earlier pings around it, and its reader has any
  sections left (replies not yet counted, and the end of its output), it is started again for the same
  host: the old process is interrupted; as soon as its reader has run the sections it had left, in any interleaving with
  the other readers, the module's state says that nothing runs, although the new process was started and its
  reader has not run at all, and stop answers that no ping is running and signals nothing.\<close>

theorem ping_restart_clobbered:
  assumes "pg_running st" and "pg_process st = Some pid1" and "i < length rs" and "rs ! i = Reader h (es @ [Finish out])"
    and "ping_commit h (Inr pid2) lines2 (st, rs) = (rep, killed, w)"
    and "length rs \<notin> set steps" and "length es < length (filter ((=) i) steps)"
  shows "let (st', rs') = fold ping_step steps w in
    rep = (True, None) \<and> killed = Some pid1 \<and> \<not> pg_running st' \<and> pg_process st' = Some pid2 \<and>
    rs' ! length rs = Reader h (ping_reader lines2 []) \<and>
    ping_stop st' = ((True, Some (lit ''no ping running'')), None, st')"
proof -
  have w: "rep = (True, None)" "killed = Some pid1" "pg_host (fst w) = Some h" "pg_process (fst w) = Some pid2"
    "snd w = rs @ [Reader h (ping_reader lines2 [])]"
    using assms(1,2,5) by (auto simp: ping_commit_def)
  have "\<not> pg_running (fst (fold ping_step steps w))"
    using w assms(3,4,7) by (intro reader_ends_session [of w h i es out]) (simp_all add: nth_append)
  moreover have "pg_process (fst (fold ping_step steps w)) = Some pid2" by (simp add: ping_steps_fields w)
  moreover have "snd (fold ping_step steps w) ! length rs = Reader h (ping_reader lines2 [])"
    using assms(6) by (simp add: ping_steps_fields w nth_append)
  ultimately show ?thesis using w(1,2) by (simp add: ping_stop_def split_def Let_def)
qed

section \<open>Executions\<close>

definition answer_sample :: "nat \<Rightarrow> string \<Rightarrow> ping_answer" where
  "answer_sample n t = \<lparr>pa_before = lit ''64 bytes from 10.0.0.1: '', pa_seq = n, pa_ttl = 64, pa_time = lit t,
     pa_after = [10]\<rparr>"

lemma sample_times: "py_float (lit ''1.5'') = Inr (3/2)" "py_float (lit ''0.5'') = Inr (1/2)"
  by (simp_all add: py_float_def lit_def)

lemma answer_sample_ok: "t \<in> {''1.5'', ''0.5''} \<Longrightarrow> answer_ok (answer_sample n t)"
  by (auto simp: answer_ok_def answer_sample_def sample_times)
     (simp_all add: lit_def is_dot_digit_def is_digit_def)

theorem ping_live_statistics_witness:
  "let w0 = (ping0, [Reader (lit ''10.0.0.9'') [Finish []]]);
       answers = [answer_sample 1 ''1.5'', answer_sample 2 ''0.5''];
       (rep, killed, st, rs) = ping_commit (lit ''10.0.0.1'') (Inr 7) ([lit ''PING''] @ map answer_line answers @ []) w0;
       w = fold (\<lambda>_. ping_step 1) answers (st, rs)
   in ping_status (fst w) = \<lparr>pr_running = True, pr_host = Some (lit ''10.0.0.1''), pr_transmitted = None,
        pr_received = 2, pr_loss_percent = None, pr_min_ms = Some (1/2), pr_avg_ms = Some (round1 1),
        pr_max_ms = Some (3/2)\<rparr> \<and> fst (ping_step 0 w) = fst w"
proof -
  let ?as = "[answer_sample 1 ''1.5'', answer_sample 2 ''0.5'']"
  let ?rs0 = "[Reader (lit ''10.0.0.9'') [Finish []]]"
  obtain rep killed st rs where
    c: "ping_commit (lit ''10.0.0.1'') (Inr 7) ([lit ''PING''] @ map answer_line ?as @ []) (ping0, ?rs0) = (rep, killed, st, rs)"
    by (metis prod.exhaust)
  have h: "list_all (\<lambda>l. re_search PING_REPLY_RE l = None) [lit ''PING'']"
    by (simp add: PING_REPLY_RE_def re_match_def rfirst_def startswith_def lit_def)
  have a: "list_all answer_ok ?as" by (simp add: answer_sample_ok)
  have i: "0 < length ?rs0" "rd_host (?rs0 ! 0) \<noteq> lit ''10.0.0.1''" by simp_all
  have ms: "map answer_ms ?as = [3/2, 1/2]" by (simp add: answer_ms_def answer_sample_def sample_times)
  have "length ?rs0 = 1" by simp
  from ping_live_statistics [OF c h a _ i, unfolded ms this] show ?thesis
    unfolding Let_def c split_conv by simp
qed

text \<open>A ping that has printed a reply, with the reader of an even older ping; the old reader runs its two sections,
  the reader of the oldest in between.\<close>

theorem ping_restart_clobbered_witness:
  "let h = lit ''10.0.0.1''; rs0 = [Reader (lit ''10.0.0.9'') [Finish []]];
       (rep1, killed1, w1) = ping_commit h (Inr 7) (map answer_line [answer_sample 1 ''1.5'']) (ping0, rs0);
       (rep2, killed2, w2) = ping_commit h (Inr 8) [lit ''PING''] w1; (st, rs) = fold ping_step [1, 0, 1] w2 in
    rep2 = (True, None) \<and> killed2 = Some 7 \<and> \<not> pg_running st \<and> pg_process st = Some 8 \<and>
    rs ! 2 = Reader h (ping_reader [lit ''PING''] []) \<and>
    ping_stop st = ((True, Some (lit ''no ping running'')), None, st)"
proof -
  let ?rs0 = "[Reader (lit ''10.0.0.9'') [Finish []]]" and ?lines = "map answer_line [answer_sample 1 ''1.5'']"
  obtain rep1 killed1 st1 rs1 where 1: "ping_commit (lit ''10.0.0.1'') (Inr 7) ?lines (ping0, ?rs0) = (rep1, killed1, st1, rs1)"
    by (metis prod.exhaust)
  obtain rep2 killed2 w2 where 2: "ping_commit (lit ''10.0.0.1'') (Inr 8) [lit ''PING''] (st1, rs1) = (rep2, killed2, w2)"
    by (metis prod.exhaust)
  have "ping_reader ?lines [] = [Reply (answer_ms (answer_sample 1 ''1.5''))] @ [Finish (concat ?lines)]"
    using reader_answers [of "[answer_sample 1 ''1.5'']" "[]" "[]"] answer_sample_ok by simp
  then have st1: "pg_running st1" "pg_process st1 = Some 7" "length rs1 = 2"
    "rs1 ! 1 = Reader (lit ''10.0.0.1'') ([Reply (answer_ms (answer_sample 1 ''1.5''))] @ [Finish (concat ?lines)])"
    using 1 by (auto simp: ping_commit_def simp del: map_eq_Cons_conv list.map)
  from ping_restart_clobbered [OF st1(1,2) _ st1(4) 2, of "[1, 0, 1]"] st1(3)
  show ?thesis unfolding Let_def 1 2 split_conv by simp
qed

end
