(* ===== verification/Mtr.thy ===== *)
theory Mtr
  imports Tool_Source Json
begin

text \<open>
  \<open>backend/tools/mtr.py\<close>: mtr as a background process that reports once, in JSON, when it ends.  As in
  \<open>Ping\<close>, the session is identified by the host.
\<close>

definition MTR_CANDIDATES :: "pystr list" where
  "MTR_CANDIDATES = [lit ''/usr/bin/mtr'', lit ''/usr/sbin/mtr'', lit ''mtr'']"

definition MTR_MAX_CYCLES :: int where
  "MTR_MAX_CYCLES = 60"

section \<open>State\<close>

record hop =
  hp_hop :: json
  hp_host :: json
  hp_loss_percent :: json
  hp_sent :: json
  hp_last_ms :: json
  hp_avg_ms :: json
  hp_best_ms :: json
  hp_worst_ms :: json

record mtr =
  mt_running :: bool
  mt_host :: "pystr option"
  mt_cycles :: "int option"
  mt_process :: "nat option"
  mt_ok :: "bool option"
  mt_message :: "pystr option"
  mt_hops :: "hop list"
  mt_stopped :: bool

definition mtr0 :: mtr where
  "mtr0 = \<lparr>mt_running = False, mt_host = None, mt_cycles = None, mt_process = None, mt_ok = None,
     mt_message = None, mt_hops = [], mt_stopped = False\<rparr>"

section \<open>The reader thread\<close>

fun hop_of :: "json \<Rightarrow> exn + hop" where
  "hop_of (JDict hub) = Inr
     \<lparr>hp_hop = dict_get (lit ''count'') hub, hp_host = dict_get (lit ''host'') hub,
      hp_loss_percent = dict_get (lit ''Loss%'') hub, hp_sent = dict_get (lit ''Snt'') hub,
      hp_last_ms = dict_get (lit ''Last'') hub, hp_avg_ms = dict_get (lit ''Avg'') hub,
      hp_best_ms = dict_get (lit ''Best'') hub, hp_worst_ms = dict_get (lit ''Wrst'') hub\<rparr>"
| "hop_of v = Inl AttributeError"

fun hops_of :: "json list \<Rightarrow> exn + hop list" where
  "hops_of [] = Inr []"
| "hops_of (hub # hubs) = rbind (hop_of hub) (\<lambda>h. rbind (hops_of hubs) (\<lambda>hs. Inr (h # hs)))"

definition report_hops :: "json \<Rightarrow> exn + hop list" where
  "report_hops data =
     rbind (json_get (lit ''report'') (JDict []) data) (\<lambda>report.
     rbind (json_get (lit ''hubs'') (JList []) report) (\<lambda>hubs.
     rbind (json_iterate hubs) hops_of))"

text \<open>What \<open>communicate()\<close> returned.\<close>

record finished =
  fi_returncode :: int
  fi_stdout :: pystr
  fi_stderr :: pystr

definition mtr_failure :: "finished \<Rightarrow> pystr" where
  "mtr_failure c =
     (let m = strip (if fi_stderr c \<noteq> [] then fi_stderr c else if fi_stdout c \<noteq> [] then fi_stdout c
        else lit ''mtr failed'') in if m \<noteq> [] then m else lit ''mtr failed'')"

text \<open>The locked section after \<open>communicate()\<close>; an exception leaves what was assigned before it.\<close>

definition mtr_finish :: "finished \<Rightarrow> mtr \<Rightarrow> mtr" where
  "mtr_finish c st =
     (if mt_stopped st then st\<lparr>mt_running := False, mt_ok := Some False, mt_message := Some (lit ''stopped'')\<rparr>
      else if fi_returncode c \<noteq> 0
      then st\<lparr>mt_running := False, mt_ok := Some False, mt_message := Some (mtr_failure c)\<rparr>
      else case loads (fi_stdout c) of
             None \<Rightarrow> st\<lparr>mt_running := False, mt_ok := Some False,
               mt_message := Some (lit ''could not parse mtr output'')\<rparr>
           | Some data \<Rightarrow>
               (case report_hops data of
                  Inl e \<Rightarrow> st\<lparr>mt_running := False\<rparr>
                | Inr hops \<Rightarrow> st\<lparr>mt_running := False, mt_hops := hops, mt_ok := Some True, mt_message := None\<rparr>))"

section \<open>Calls\<close>

definition mtr_args :: "pystr \<Rightarrow> int \<Rightarrow> pystr \<Rightarrow> pystr \<Rightarrow> command" where
  "mtr_args target_host cycles mtr_bin source_ip =
     [mtr_bin, lit ''--report'', lit ''--json'', lit ''--no-dns'', lit ''-a'', source_ip, lit ''-c'', str_int cycles,
      target_host]"

definition mtr_check ::
  "'w host \<Rightarrow> pystr \<Rightarrow> int \<Rightarrow> 'w running \<Rightarrow> (exn + (pystr + command)) \<times> 'w running" where
  "mtr_check H target_host cycles s =
     (if target_host = [] then (Inr (Inl (lit ''host is required'')), s)
      else if \<not> (1 \<le> cycles \<and> cycles \<le> MTR_MAX_CYCLES)
      then (Inr (Inl (lit ''cycles must be between 1 and '' @ str_int MTR_MAX_CYCLES)), s)
      else case find_binary H MTR_CANDIDATES of
             None \<Rightarrow> (Inr (Inl (lit ''mtr not available'')), s)
           | Some mtr_bin \<Rightarrow>
               let (source, s') = tool_source_ip H s in
               (rbind source (\<lambda>ip. Inr (if truthy ip then Inr (mtr_args target_host cycles mtr_bin (the ip))
                  else Inl (no_source ''trace''))), s'))"

text \<open>The locked section of \<open>start\<close> and the new thread, for what \<open>Popen\<close> gives and what \<open>communicate()\<close> will
  return for the new process; the process group of the result is terminated.\<close>

definition mtr_commit ::
  "pystr \<Rightarrow> int \<Rightarrow> pystr + nat \<Rightarrow> finished \<Rightarrow> mtr \<times> finished reader list \<Rightarrow>
    tool_reply \<times> nat option \<times> mtr \<times> finished reader list" where
  "mtr_commit target_host cycles popen c w =
     (let (st, rs) = w; old = (if mt_running st then mt_process st else None) in
      case popen of
        Inl e \<Rightarrow> ((False, Some e), old, st, rs)
      | Inr pid \<Rightarrow> ((True, None), old,
          \<lparr>mt_running = True, mt_host = Some target_host, mt_cycles = Some cycles, mt_process = Some pid, mt_ok = None,
           mt_message = None, mt_hops = [], mt_stopped = False\<rparr>,
          rs @ [Reader target_host [c]]))"

definition mtr_start ::
  "'w host \<Rightarrow> pystr \<Rightarrow> int \<Rightarrow> pystr + nat \<Rightarrow> finished \<Rightarrow> mtr \<times> finished reader list \<Rightarrow> 'w running \<Rightarrow>
    (exn + tool_reply \<times> nat option \<times> mtr \<times> finished reader list) \<times> 'w running" where
  "mtr_start H target_host cycles popen c w s =
     (let (checked, s') = mtr_check H (strip target_host) cycles s in
      (rbind checked (\<lambda>r. Inr (case r of Inl m \<Rightarrow> ((False, Some m), None, w)
         | Inr args \<Rightarrow> mtr_commit (strip target_host) cycles popen c w)), s'))"

definition mtr_stop :: "mtr \<Rightarrow> tool_reply \<times> nat option \<times> mtr" where
  "mtr_stop st =
     (if mt_process st \<noteq> None \<and> mt_running st
      then ((True, Some (lit ''mtr stopping'')), mt_process st, st\<lparr>mt_stopped := True\<rparr>)
      else ((True, Some (lit ''no mtr running'')), None, st))"

definition mtr_status :: "mtr \<Rightarrow> bool \<times> pystr option \<times> int option \<times> bool option \<times> pystr option \<times> hop list" where
  "mtr_status st = (mt_running st, mt_host st, mt_cycles st, mt_ok st, mt_message st, mt_hops st)"

abbreviation mtr_step :: "nat \<Rightarrow> mtr \<times> finished reader list \<Rightarrow> mtr \<times> finished reader list" where
  "mtr_step \<equiv> reader_step mt_host mtr_finish"

lemma mtr_finish_fields:
  "mt_host (mtr_finish c st) = mt_host st" "\<not> mt_running (mtr_finish c st)" "mt_process (mtr_finish c st) = mt_process st"
  by (simp_all add: mtr_finish_def split: option.split sum.split)

interpretation mtrs: host_session mt_host mtr_finish
  by unfold_locales (rule mtr_finish_fields)

section \<open>Properties\<close>

lemma hops_of_dicts: "hops_of (map JDict hubs) = Inr (map (\<lambda>hub. projr (hop_of (JDict hub))) hubs)"
  by (induction hubs) simp_all

text \<open>C34: A trace reports the hubs that mtr printed.  After a start for a host, with readers of traces to
  other hosts stepping before it, once mtr has ended without an error and printed a JSON document whose
  report lists hubs, the status is not running and ok, and lists one hop per hub, in order, with the hub's
  number, address, loss and times, a missing key being null; if stop was called in between, it reports
  that the trace was stopped, and no hops.\<close>

theorem mtr_report_exact:
  assumes "mtr_commit target_host cycles (Inr pid) c (st0, rs0) = (rep, killed, st, rs)"
    and "list_all (\<lambda>i. i < length rs0 \<and> rd_host (rs0 ! i) \<noteq> target_host) others"
    and "fi_returncode c = 0" and "loads (fi_stdout c) = Some (JDict data)"
    and "map_of data (lit ''report'') = Some (JDict report)"
    and "map_of report (lit ''hubs'') = Some (JList (map JDict hubs))"
  shows "let w = fold mtr_step others (st, rs); stopped = (snd (snd (mtr_stop (fst w))), snd w);
       hop = (\<lambda>hub. \<lparr>hp_hop = dict_get (lit ''count'') hub, hp_host = dict_get (lit ''host'') hub,
         hp_loss_percent = dict_get (lit ''Loss%'') hub, hp_sent = dict_get (lit ''Snt'') hub,
         hp_last_ms = dict_get (lit ''Last'') hub, hp_avg_ms = dict_get (lit ''Avg'') hub,
         hp_best_ms = dict_get (lit ''Best'') hub, hp_worst_ms = dict_get (lit ''Wrst'') hub\<rparr>)
    in mtr_status (fst (mtr_step (length rs0) w)) =
         (False, Some target_host, Some cycles, Some True, None, map hop hubs) \<and>
       mtr_status (fst (mtr_step (length rs0) stopped)) =
         (False, Some target_host, Some cycles, Some False, Some (lit ''stopped''), [])"
proof -
  have st: "st = \<lparr>mt_running = True, mt_host = Some target_host, mt_cycles = Some cycles, mt_process = Some pid,
      mt_ok = None, mt_message = None, mt_hops = [], mt_stopped = False\<rparr>"
    and rs: "rs = rs0 @ [Reader target_host [c]]"
    using assms(1) by (auto simp: mtr_commit_def Let_def)
  obtain rs' where w: "fold mtr_step others (st, rs) = (st, rs' @ [Reader target_host [c]])"
    "map rd_host rs' = map rd_host rs0"
    using mtrs.other_hosts [OF assms(2), of st "[Reader target_host [c]]"] rs st by auto
  then have len: "length rs' = length rs0" by (metis length_map)
  have step: "fst (mtr_step (length rs0) (z, rs' @ [Reader target_host [c]])) = mtr_finish c z"
    if "mt_host z = Some target_host" for z
    using mtrs.step_current [of "length rs0" "rs' @ [Reader target_host [c]]" target_host c "[]" z] len that by (simp add: nth_append)
  have "report_hops (JDict data) = Inr (map (\<lambda>hub. projr (hop_of (JDict hub))) hubs)"
    using assms(5,6) by (simp add: report_hops_def hops_of_dicts)
  then have "mtr_finish c st = st\<lparr>mt_running := False, mt_hops := map (\<lambda>hub. projr (hop_of (JDict hub))) hubs,
      mt_ok := Some True, mt_message := None\<rparr>"
    using assms(3,4) by (simp add: mtr_finish_def st)
  moreover have "mtr_finish c (st\<lparr>mt_stopped := True\<rparr>) = st\<lparr>mt_running := False, mt_ok := Some False,
      mt_message := Some (lit ''stopped''), mt_stopped := True\<rparr>"
    by (simp add: mtr_finish_def st)
  moreover have "snd (snd (mtr_stop st)) = st\<lparr>mt_stopped := True\<rparr>" by (simp add: mtr_stop_def st)
  ultimately show ?thesis
    unfolding Let_def w fst_conv snd_conv using step [of st] step [of "st\<lparr>mt_stopped := True\<rparr>"]
    by (simp add: mtr_status_def st)
qed

definition mtr_sample :: finished where
  "mtr_sample = \<lparr>fi_returncode = 0, fi_stdout = lit ''{'' @ [34] @ lit ''report'' @ [34] @ lit '': {'' @ [34] @ lit ''hubs'' @ [34] @
     lit '': [{'' @ [34] @ lit ''count'' @ [34] @ lit '': 1, '' @ [34] @ lit ''Avg'' @ [34] @ lit '': 0.5}]}}'' @ [10],
     fi_stderr = []\<rparr>"

lemma mtr_sample_loads:
  "loads (fi_stdout mtr_sample) = Some (JDict [(lit ''report'', JDict [(lit ''hubs'',
     JList (map JDict [[(lit ''count'', JInt 1), (lit ''Avg'', JReal (1/2))]]))])])"
  by (simp add: mtr_sample_def loads_def json_document_def lit_def json_ws_def startswith_def) (simp add: json_eval)

theorem mtr_report_exact_witness:
  "let h = lit ''10.0.0.1''; rs0 = [Reader (lit ''10.0.0.9'') [mtr_sample]];
       (rep, killed, st, rs) = mtr_commit h 10 (Inr 7) mtr_sample (mtr0, rs0); w = fold mtr_step [0] (st, rs);
       stopped = (snd (snd (mtr_stop (fst w))), snd w);
       hop = \<lparr>hp_hop = JInt 1, hp_host = JNull, hp_loss_percent = JNull, hp_sent = JNull, hp_last_ms = JNull,
         hp_avg_ms = JReal (1/2), hp_best_ms = JNull, hp_worst_ms = JNull\<rparr>
    in mtr_status (fst (mtr_step 1 w)) = (False, Some h, Some 10, Some True, None, [hop]) \<and>
       mtr_status (fst (mtr_step 1 stopped)) = (False, Some h, Some 10, Some False, Some (lit ''stopped''), [])"
proof -
  let ?rs0 = "[Reader (lit ''10.0.0.9'') [mtr_sample]]"
  obtain rep killed st rs where
    c: "mtr_commit (lit ''10.0.0.1'') 10 (Inr 7) mtr_sample (mtr0, ?rs0) = (rep, killed, st, rs)"
    by (metis prod.exhaust)
  have o: "list_all (\<lambda>i. i < length ?rs0 \<and> rd_host (?rs0 ! i) \<noteq> lit ''10.0.0.1'') [0]" by simp
  have rc: "fi_returncode mtr_sample = 0" by (simp add: mtr_sample_def)
  have len: "length ?rs0 = 1" by simp
  let ?hubs = "[[(lit ''count'', JInt 1), (lit ''Avg'', JReal (1/2))]]"
  let ?report = "[(lit ''hubs'', JList (map JDict ?hubs))]"
  have m: "map_of [(lit ''report'', JDict ?report)] (lit ''report'') = Some (JDict ?report)"
    "map_of ?report (lit ''hubs'') = Some (JList (map JDict ?hubs))" by simp_all
  from mtr_report_exact [OF c o rc mtr_sample_loads m, unfolded len] show ?thesis
    unfolding Let_def c split_conv by (simp add: dict_get_def)
qed

text \<open>Tracing the same host again ends the new trace's session.  When a running trace is started again
  for the same host, the old process group is terminated and its reader, seeing its own host in the state,
  reports the old process's failure as the result of the new trace: not running and not ok, although the
  new process was started and has reported nothing, and stop answers that no trace is running.\<close>

theorem mtr_restart_clobbered:
  assumes "mtr_commit h cycles1 (Inr pid1) c1 (st0, []) = (rep1, killed1, w1)"
    and "mtr_commit h cycles2 (Inr pid2) c2 w1 = (rep2, killed2, w2)"
    and "fi_returncode c1 \<noteq> 0"
  shows "let (st, rs) = mtr_step 0 w2 in
    rep2 = (True, None) \<and> killed2 = Some pid1 \<and> mt_process st = Some pid2 \<and> rs ! 1 = Reader h [c2] \<and>
    mtr_status st = (False, Some h, Some cycles2, Some False, Some (mtr_failure c1), []) \<and>
    mtr_stop st = ((True, Some (lit ''no mtr running'')), None, st)"
proof -
  obtain st2 where w2: "w2 = (st2, [Reader h [c1], Reader h [c2]])" "rep2 = (True, None)" "killed2 = Some pid1"
    and st2: "st2 = \<lparr>mt_running = True, mt_host = Some h, mt_cycles = Some cycles2, mt_process = Some pid2, mt_ok = None,
           mt_message = None, mt_hops = [], mt_stopped = False\<rparr>"
    using assms(1,2) by (auto simp: mtr_commit_def Let_def)
  then have "mtr_step 0 w2 = (mtr_finish c1 st2, [Reader h [], Reader h [c2]])"
    using mtrs.step_current [of 0 "snd w2" h c1 "[]" st2] by simp
  then show ?thesis using w2 assms(3) by (simp add: mtr_stop_def mtr_finish_def mtr_status_def st2)
qed

theorem mtr_restart_clobbered_witness:
  "let h = lit ''10.0.0.1''; killed = \<lparr>fi_returncode = -15, fi_stdout = [], fi_stderr = []\<rparr>;
       c2 = \<lparr>fi_returncode = 0, fi_stdout = [], fi_stderr = []\<rparr>;
       (rep1, killed1, w1) = mtr_commit h 10 (Inr 7) killed (mtr0, []);
       (rep2, killed2, w2) = mtr_commit h 10 (Inr 8) c2 w1; (st, rs) = mtr_step 0 w2 in
    rep2 = (True, None) \<and> killed2 = Some 7 \<and> mt_process st = Some 8 \<and> rs ! 1 = Reader h [c2] \<and>
    mtr_status st = (False, Some h, Some 10, Some False, Some (mtr_failure killed), []) \<and>
    mtr_stop st = ((True, Some (lit ''no mtr running'')), None, st)"
proof -
  let ?k = "\<lparr>fi_returncode = -15, fi_stdout = [], fi_stderr = []\<rparr>"
  let ?c = "\<lparr>fi_returncode = 0, fi_stdout = [], fi_stderr = []\<rparr>"
  obtain rep1 killed1 w1 where 1: "mtr_commit (lit ''10.0.0.1'') 10 (Inr 7) ?k (mtr0, []) = (rep1, killed1, w1)"
    by (metis prod.exhaust)
  obtain rep2 killed2 w2 where 2: "mtr_commit (lit ''10.0.0.1'') 10 (Inr 8) ?c w1 = (rep2, killed2, w2)"
    by (metis prod.exhaust)
  from mtr_restart_clobbered [OF 1 2] show ?thesis unfolding Let_def 1 2 split_conv by simp
qed

end
