(* ===== verification/Arp_Scan.thy ===== *)
theory Arp_Scan
  imports Shell Regex
begin

text \<open>
  \<open>backend/tools/arp_scan.py\<close>: one run of arp-scan on the test port, and the hosts read from its output.
\<close>

definition ARP_SCAN_CANDIDATES :: "pystr list" where
  "ARP_SCAN_CANDIDATES = [lit ''/usr/bin/arp-scan'', lit ''/usr/sbin/arp-scan'', lit ''arp-scan'']"

definition DOTTED_RE :: re where
  "DOTTED_RE = Then (Many is_digit) (Then (Txt [46]) (Then (Many is_digit) (Then (Txt [46])
     (Then (Many is_digit) (Then (Txt [46]) (Many is_digit))))))"

definition ARP_HOST_RE :: re where
  "ARP_HOST_RE = Then (Group DOTTED_RE) (Then (Txt [9]) (Then (Group (Many is_hex_colon))
     (Then (Maybe (Txt [9])) (Then (Group (Star is_any)) AtEnd))))"

record arp_host =
  ah_ip :: pystr
  ah_mac :: pystr
  ah_vendor :: "pystr option"

record arp_report =
  ar_ok :: bool
  ar_message :: "pystr option"
  ar_hosts :: "arp_host list"

definition arp_host_of :: "pystr \<Rightarrow> arp_host option" where
  "arp_host_of line =
     map_option (\<lambda>g. \<lparr>ah_ip = the (g ! 0), ah_mac = lower_ascii (the (g ! 1)),
       ah_vendor = (let v = strip (the (g ! 2)) in if v \<noteq> [] then Some v else None)\<rparr>) (re_match ARP_HOST_RE line)"

definition arp_args :: "pystr \<Rightarrow> pystr \<Rightarrow> pystr option \<Rightarrow> command" where
  "arp_args bin interface network =
     [bin, lit ''--interface'', interface, lit ''--retry=1'', lit ''--timeout=500'',
      (case network of None \<Rightarrow> lit ''--localnet'' | Some n \<Rightarrow> if n \<noteq> [] then strip n else lit ''--localnet'')]"

definition arp_reply :: "completed option \<Rightarrow> arp_report" where
  "arp_reply result =
     (case result of
        None \<Rightarrow> \<lparr>ar_ok = False, ar_message = Some (lit ''arp-scan failed or timed out''), ar_hosts = []\<rparr>
      | Some c \<Rightarrow>
          if cp_returncode c \<noteq> 0
          then \<lparr>ar_ok = False,
                ar_message = Some (strip (if cp_stderr c \<noteq> [] then cp_stderr c else cp_stdout c)), ar_hosts = []\<rparr>
          else \<lparr>ar_ok = True, ar_message = None, ar_hosts = List.map_filter arp_host_of (splitlines (cp_stdout c))\<rparr>)"

definition arp_scan :: "'w host \<Rightarrow> pystr \<Rightarrow> pystr option \<Rightarrow> 'w running \<Rightarrow> arp_report \<times> 'w running" where
  "arp_scan H interface network s =
     (case find_binary H ARP_SCAN_CANDIDATES of
        None \<Rightarrow> (\<lparr>ar_ok = False, ar_message = Some (lit ''arp-scan not available''), ar_hosts = []\<rparr>, s)
      | Some bin \<Rightarrow> let (result, s') = shell_run H (arp_args bin interface network) s in (arp_reply result, s'))"

section \<open>Reading the hosts\<close>

text \<open>A row of the output: address, MAC address and, after a tab, the vendor.\<close>

record arp_row =
  aw_ip :: "nat \<times> nat \<times> nat \<times> nat"
  aw_mac :: pystr
  aw_vendor :: "pystr option"

definition dotted :: "nat \<times> nat \<times> nat \<times> nat \<Rightarrow> pystr" where
  "dotted ip = (case ip of (a, b, c, d) \<Rightarrow> dec a @ [46] @ dec b @ [46] @ dec c @ [46] @ dec d)"

definition arp_row_text :: "arp_row \<Rightarrow> pystr" where
  "arp_row_text r = dotted (aw_ip r) @ [9] @ aw_mac r @ (case aw_vendor r of None \<Rightarrow> [] | Some v \<Rightarrow> [9] @ v)"

definition arp_row_ok :: "arp_row \<Rightarrow> bool" where
  "arp_row_ok r \<longleftrightarrow> aw_mac r \<noteq> [] \<and> list_all is_hex_colon (aw_mac r) \<and>
     (case aw_vendor r of None \<Rightarrow> True | Some v \<Rightarrow> list_all is_any v)"

definition arp_row_host :: "arp_row \<Rightarrow> arp_host" where
  "arp_row_host r = \<lparr>ah_ip = dotted (aw_ip r), ah_mac = lower_ascii (aw_mac r),
     ah_vendor = (case aw_vendor r of None \<Rightarrow> None | Some v \<Rightarrow> if strip v = [] then None else Some (strip v))\<rparr>"

lemma dotted_first: "stops is_digit s \<Longrightarrow> rfirst DOTTED_RE (dotted ip @ s) = Some (s, [])"
proof -
  assume s: "stops is_digit s"
  obtain a b c d where ip: "ip = (a, b, c, d)" by (cases ip)
  have dot: "stops is_digit ([46] @ t)" for t by (simp add: stops_def is_digit_def)
  have many: "rfirst (Many is_digit) (dec n @ [46] @ t) = Some ([46] @ t, [])" for n t
    by (rule rfirst_Many) (simp_all add: is_digit_dec dot [simplified])
  have last: "rfirst (Many is_digit) (dec d @ s) = Some (s, [])"
    by (rule rfirst_Many) (simp_all add: is_digit_dec s)
  have "rfirst DOTTED_RE (dec a @ [46] @ dec b @ [46] @ dec c @ [46] @ dec d @ s) = Some (s, [] @ [] @ [] @ [] @ [] @ [] @ [])"
    unfolding DOTTED_RE_def using many last by (intro rfirst_Then) (rule rfirst_Txt | assumption)+
  then show ?thesis by (simp add: dotted_def ip)
qed

lemma arp_row_read:
  assumes "arp_row_ok r"
  shows "arp_host_of (arp_row_text r) = Some (arp_row_host r)"
proof -
  let ?v = "case aw_vendor r of None \<Rightarrow> [] | Some v \<Rightarrow> v"
  let ?tail = "case aw_vendor r of None \<Rightarrow> [] | Some v \<Rightarrow> [9] @ v"
  have 1: "rfirst (Group DOTTED_RE) (dotted (aw_ip r) @ [9] @ aw_mac r @ ?tail) =
      Some ([9] @ aw_mac r @ ?tail, [Some (dotted (aw_ip r))])"
    by (rule rfirst_Group, rule dotted_first) (simp add: stops_def is_digit_def)
  have 2: "rfirst (Group (Many is_hex_colon)) (aw_mac r @ ?tail) = Some (?tail, [Some (aw_mac r)])"
    using assms by (intro rfirst_Group rfirst_Many)
      (auto simp: arp_row_ok_def stops_def is_hex_colon_def is_digit_def split: option.splits)
  have 3: "rfirst (Maybe (Txt [9])) ?tail = Some (?v, [])"
    by (cases "aw_vendor r") (simp_all add: rfirst_def startswith_def)
  have 4: "rfirst (Group (Star is_any)) (?v @ []) = Some ([], [Some ?v])"
    using assms by (intro rfirst_Group rfirst_Star) (auto simp: arp_row_ok_def stops_def split: option.splits)
  have "rfirst ARP_HOST_RE (dotted (aw_ip r) @ [9] @ aw_mac r @ ?tail) =
      Some ([], [Some (dotted (aw_ip r))] @ [] @ [Some (aw_mac r)] @ [] @ [Some ?v] @ [])"
    unfolding ARP_HOST_RE_def
    using 1 2 3 4 [unfolded append_Nil2] rfirst_AtEnd by (intro rfirst_Then) (rule rfirst_Txt | assumption)+
  then have "re_match ARP_HOST_RE (arp_row_text r) = Some [Some (dotted (aw_ip r)), Some (aw_mac r), Some ?v]"
    unfolding arp_row_text_def by (intro re_match_first) simp
  then show ?thesis by (simp add: arp_host_of_def arp_row_host_def Let_def split: option.split)
qed

text \<open>The lines of the output: rows, and others.\<close>

datatype arp_line = Arp_Row arp_row | Arp_Other pystr

fun arp_line_text :: "arp_line \<Rightarrow> pystr" where
  "arp_line_text (Arp_Row r) = arp_row_text r"
| "arp_line_text (Arp_Other l) = l"

fun arp_line_ok :: "arp_line \<Rightarrow> bool" where
  "arp_line_ok (Arp_Row r) = arp_row_ok r"
| "arp_line_ok (Arp_Other l) = (re_match ARP_HOST_RE l = None)"

fun arp_line_hosts :: "arp_line list \<Rightarrow> arp_host list" where
  "arp_line_hosts [] = []"
| "arp_line_hosts (Arp_Row r # ls) = arp_row_host r # arp_line_hosts ls"
| "arp_line_hosts (Arp_Other l # ls) = arp_line_hosts ls"

lemma arp_lines_read:
  "list_all arp_line_ok ls \<Longrightarrow> List.map_filter arp_host_of (map arp_line_text ls) = arp_line_hosts ls"
  by (induction ls rule: arp_line_hosts.induct)
    (simp_all add: map_filter_simps arp_row_read, simp add: arp_host_of_def)

text \<open>An ARP scan lists what arp-scan found.  When arp-scan ends without an error, the reply is ok and
  lists exactly the rows of its output, in order: the address, the MAC address in lower case, and the
  vendor without surrounding white space, or none if that is empty; header and summary lines make no host.
  The program was run once, on the given interface and for the given network, or for the local network.\<close>

theorem arp_scan_exact:
  assumes "find_binary H ARP_SCAN_CANDIDATES = Some bin"
    and "ho_run H (arp_args bin interface network) w = (Some c, w')"
    and "cp_returncode c = 0" and "splitlines (cp_stdout c) = map arp_line_text ls" and "list_all arp_line_ok ls"
  shows "arp_scan H interface network (past, w) =
    (\<lparr>ar_ok = True, ar_message = None, ar_hosts = arp_line_hosts ls\<rparr>,
     (past @ [(arp_args bin interface network, Some c)], w'))"
  using assms arp_lines_read [OF assms(5)] by (simp add: arp_scan_def shell_run_def arp_reply_def)

definition arp_sample :: completed where
  "arp_sample = \<lparr>cp_returncode = 0, cp_stdout = lit ''Interface: eth0'' @ [10] @ lit ''10.0.0.1'' @ [9] @ lit ''0A:0b:00:00:00:01'' @
     [9] @ lit '' Acme'', cp_stderr = []\<rparr>"

definition arp_sample_host :: "unit host" where
  "arp_sample_host = \<lparr>ho_which = Some, ho_run = (\<lambda>args w. (Some arp_sample, w)), ho_monotonic = (\<lambda>w. 0),
     ho_sleep = (\<lambda>t w. w), ho_read = (\<lambda>path w. Inl []), ho_repo_dir = []\<rparr>"

theorem arp_scan_exact_witness:
  "fst (arp_scan arp_sample_host (lit ''eth0'') None ([], ())) =
   \<lparr>ar_ok = True, ar_message = None,
     ar_hosts = [\<lparr>ah_ip = dotted (10, 0, 0, 1), ah_mac = lower_ascii (lit ''0A:0b:00:00:00:01''), ah_vendor = Some (lit ''Acme'')\<rparr>]\<rparr>"
proof -
  let ?row = "\<lparr>aw_ip = (10, 0, 0, 1), aw_mac = lit ''0A:0b:00:00:00:01'', aw_vendor = Some (lit '' Acme'')\<rparr>"
  let ?ls = "[Arp_Other (lit ''Interface: eth0''), Arp_Row ?row]"
  have bin: "find_binary arp_sample_host ARP_SCAN_CANDIDATES = Some (lit ''/usr/bin/arp-scan'')"
    by (simp add: arp_sample_host_def ARP_SCAN_CANDIDATES_def)
  have run: "ho_run arp_sample_host (arp_args (lit ''/usr/bin/arp-scan'') (lit ''eth0'') None) () = (Some arp_sample, ())"
    by (simp add: arp_sample_host_def)
  have rc: "cp_returncode arp_sample = 0" by (simp add: arp_sample_def)
  have d: "dec 10 = [49, 48]" "dec 0 = [48]" "dec (Suc 0) = [49]"
    by (simp_all add: dec.simps [of 10] dec.simps [of 0] dec.simps [of "Suc 0"])
  have lines: "splitlines (cp_stdout arp_sample) = map arp_line_text ?ls"
    by (simp add: arp_sample_def arp_row_text_def dotted_def d) (simp add: splitlines_def lit_def is_linebreak_def)
  have "rmatch (Many is_digit) (lit ''Interface: eth0'') = []" by (simp add: lit_def is_digit_def)
  then have head: "re_match ARP_HOST_RE (lit ''Interface: eth0'') = None"
    by (simp add: ARP_HOST_RE_def DOTTED_RE_def re_match_def rfirst_None del: rmatch.simps(3))
  have "arp_row_ok ?row"
    by (simp add: arp_row_ok_def) (simp add: lit_def is_hex_colon_def is_digit_def is_any_def)
  with head have ok: "list_all arp_line_ok ?ls" by simp
  have "strip (lit '' Acme'') = lit ''Acme''" by (simp add: lit_def strip_def lstrip_def rstrip_def is_space_def)
  with arp_scan_exact [OF bin run rc lines ok, of "[]"] show ?thesis by (simp add: arp_row_host_def)
qed

end
