(* ===== verification/Tcp_Test.thy ===== *)
theory Tcp_Test
  imports Tool_Source Py_Dict
begin

text \<open>
  \<open>backend/tools/tcp_test.py\<close>: one TCP connection from the test port.  What \<open>bind\<close> and \<open>connect\<close> do is an
  argument: the two clock readings and how the attempt ends.  \<open>Other_Exception\<close> is an exception that is not an
  \<open>OSError\<close>, such as the \<open>UnicodeError\<close> of a host name that has no IDNA encoding; it is not caught.
\<close>

datatype tcp_outcome = Connected | Timed_Out | Refused | Os_Error pystr | Other_Exception exn

record tcp_reply =
  tr_ok :: bool
  tr_state :: pystr
  tr_message :: "pystr option"
  tr_latency_ms :: "real option"

definition tcp_error :: "string \<Rightarrow> pystr \<Rightarrow> tcp_reply" where
  "tcp_error state message = \<lparr>tr_ok = False, tr_state = lit state, tr_message = Some message, tr_latency_ms = None\<rparr>"

definition tcp_latency :: "real \<Rightarrow> real \<Rightarrow> real" where
  "tcp_latency started ended = round1 ((ended - started) * 1000)"

definition tcp_attempt :: "real \<Rightarrow> real \<Rightarrow> tcp_outcome \<Rightarrow> exn + tcp_reply" where
  "tcp_attempt started ended result =
     (case result of
        Connected \<Rightarrow> Inr \<lparr>tr_ok = True, tr_state = lit ''open'', tr_message = None,
          tr_latency_ms = Some (tcp_latency started ended)\<rparr>
      | Timed_Out \<Rightarrow> Inr \<lparr>tr_ok = True, tr_state = lit ''timeout'', tr_message = None, tr_latency_ms = None\<rparr>
      | Refused \<Rightarrow> Inr \<lparr>tr_ok = True, tr_state = lit ''closed'', tr_message = None,
          tr_latency_ms = Some (tcp_latency started ended)\<rparr>
      | Os_Error m \<Rightarrow> Inr (tcp_error ''error'' m)
      | Other_Exception e \<Rightarrow> Inl e)"

text \<open>\<open>attempt source host port\<close> is the socket: bound to the source address and connected.\<close>

definition test_port ::
  "'w host \<Rightarrow> (pystr \<Rightarrow> pystr \<Rightarrow> int \<Rightarrow> real \<times> real \<times> tcp_outcome) \<Rightarrow> pystr \<Rightarrow> int \<Rightarrow> 'w running \<Rightarrow>
    (exn + tcp_reply) \<times> 'w running" where
  "test_port H attempt target_host port s =
     (if strip target_host = [] then (Inr (tcp_error ''error'' (lit ''host is required'')), s)
      else if \<not> (1 \<le> port \<and> port \<le> 65535)
      then (Inr (tcp_error ''error'' (lit ''port must be between 1 and 65535'')), s)
      else let (source, s') = tool_source_ip H s in
        (rbind source (\<lambda>ip.
           if truthy ip
           then (case attempt (the ip) (strip target_host) port of (started, ended, result) \<Rightarrow>
                   tcp_attempt started ended result)
           else Inr (tcp_error ''no_source_ip'' (no_source ''test''))), s'))"

end
