(* ===== verification/System_Info.thy ===== *)
theory System_Info
  imports Shell Json Struct_Numbers
begin

unbundle bit_operations_syntax

text \<open>
  \<open>backend/tools/system_info.py\<close>: what the device says about itself.  Files of \<open>/proc\<close> and \<open>/sys\<close> are read with
  \<open>ho_read\<close>; \<open>os.getloadavg\<close> and \<open>shutil.disk_usage\<close> give their results as arguments.
\<close>

definition VCGENCMD_CANDIDATES :: "pystr list" where
  "VCGENCMD_CANDIDATES = [lit ''/usr/bin/vcgencmd'', lit ''/opt/vc/bin/vcgencmd'', lit ''vcgencmd'']"

definition THROTTLED_BITS :: "(pystr \<times> int) list" where
  "THROTTLED_BITS = [(lit ''undervoltage'', 1), (lit ''freq_capped'', 2), (lit ''throttled'', 4), (lit ''temp_limit'', 8)]"

definition read_file :: "'w host \<Rightarrow> pystr \<Rightarrow> 'w running \<Rightarrow> pystr option" where
  "read_file H path s = (case ho_read H path (snd s) of Inl e \<Rightarrow> None | Inr content \<Rightarrow> Some content)"

section \<open>Numbers as text\<close>

text \<open>\<open>int(text, base)\<close> for base 10 and 16: white space around, a sign, the prefix \<open>0x\<close> in base 16, and single
  underscores between digits.\<close>

definition number_digits :: "nat \<Rightarrow> pystr \<Rightarrow> nat option" where
  "number_digits base t =
     (let groups = split_on 95 t; ds = concat groups in
      if [] \<notin> set groups \<and> list_all (\<lambda>c. case hex_value c of None \<Rightarrow> False | Some v \<Rightarrow> v < base) ds
      then Some (foldl (\<lambda>n c. base * n + the (hex_value c)) 0 ds) else None)"

definition parse_int :: "nat \<Rightarrow> pystr \<Rightarrow> int option" where
  "parse_int base text' =
     (let t = strip text'; neg = startswith t [45];
          u = (if neg \<or> startswith t [43] then tl t else t);
          prefixed = (base = 16 \<and> (startswith u (lit ''0x'') \<or> startswith u (lit ''0X'')));
          v = (if prefixed then drop 2 u else u);
          w = (if prefixed \<and> startswith v [95] then tl v else v)
      in map_option (\<lambda>n. if neg then - int n else int n) (number_digits base w))"

text \<open>Hexadecimal with at least \<open>w\<close> places, as \<open>{value:05x}\<close> for \<open>w = 5\<close>\<close>

fun hex_text :: "nat \<Rightarrow> pystr" where
  "hex_text n = (if n < 16 then [hexdigit n] else hex_text (n div 16) @ [hexdigit (n mod 16)])"

declare hex_text.simps [simp del]

definition zero_padded :: "nat \<Rightarrow> pystr \<Rightarrow> pystr" where
  "zero_padded w t = replicate (w - length t) 48 @ t"

definition hex05 :: "int \<Rightarrow> pystr" where
  "hex05 v = (if v < 0 then [45] @ zero_padded 4 (hex_text (nat (- v))) else zero_padded 5 (hex_text (nat v)))"

section \<open>Power\<close>

record power =
  pw_raw :: pystr
  pw_flags :: "(pystr, bool) dict"

definition power_flags :: "int \<Rightarrow> (pystr, bool) dict" where
  "power_flags v = concat (map (\<lambda>(name, b). [(name, v AND b \<noteq> 0), (name @ lit ''_since_boot'', v AND push_bit 16 b \<noteq> 0)])
     THROTTLED_BITS)"

text \<open>\<open>raw.split("=", 1)[1]\<close> raises, and is caught, when there is no equals sign.\<close>

definition power_of_output :: "pystr \<Rightarrow> power option" where
  "power_of_output output =
     (let raw = strip output in
      if 61 \<notin> set raw then None
      else map_option (\<lambda>v. \<lparr>pw_raw = lit ''0x'' @ hex05 v, pw_flags = power_flags v\<rparr>)
        (parse_int 16 (tl (dropWhile (\<lambda>c. c \<noteq> 61) raw))))"

text \<open>\<open>None\<close> is \<open>{"available": False}\<close>.\<close>

definition get_power_status :: "'w host \<Rightarrow> 'w running \<Rightarrow> power option \<times> 'w running" where
  "get_power_status H s =
     (case find_binary H VCGENCMD_CANDIDATES of
        None \<Rightarrow> (None, s)
      | Some bin \<Rightarrow>
          let (result, s') = shell_run H [bin, lit ''get_throttled''] s in
          (case result of
             None \<Rightarrow> None
           | Some c \<Rightarrow> if cp_returncode c \<noteq> 0 then None else power_of_output (cp_stdout c), s'))"

section \<open>Model, temperature, load\<close>

definition get_model :: "'w host \<Rightarrow> 'w running \<Rightarrow> pystr option" where
  "get_model H s =
     (case read_file H (lit ''/proc/device-tree/model'') s of
        None \<Rightarrow> None
      | Some raw \<Rightarrow> let m = strip (rev (dropWhile (\<lambda>c. c = 0) (rev raw))) in if m \<noteq> [] then Some m else None)"

definition get_cpu_temp_celsius :: "'w host \<Rightarrow> 'w running \<Rightarrow> real option" where
  "get_cpu_temp_celsius H s =
     (case read_file H (lit ''/sys/class/thermal/thermal_zone0/temp'') s of
        None \<Rightarrow> None
      | Some raw \<Rightarrow> map_option (\<lambda>n. round1 (of_int n / 1000)) (parse_int 10 (strip raw)))"

definition get_load_average :: "(real \<times> real \<times> real) option \<Rightarrow> real option \<times> real option \<times> real option" where
  "get_load_average averages = (case averages of None \<Rightarrow> (None, None, None)
     | Some (one, five, fifteen) \<Rightarrow> (Some (round2 one), Some (round2 five), Some (round2 fifteen)))"

section \<open>CPU\<close>

text \<open>\<open>text.split()\<close>\<close>

fun words_from :: "pystr \<Rightarrow> pystr \<Rightarrow> pystr list" where
  "words_from cur [] = (if cur = [] then [] else [cur])"
| "words_from cur (c # s) =
     (if is_space c then (if cur = [] then words_from [] s else cur # words_from [] s) else words_from (cur @ [c]) s)"

definition split_words :: "pystr \<Rightarrow> pystr list" where
  "split_words s = words_from [] s"

fun parse_ints :: "pystr list \<Rightarrow> int list option" where
  "parse_ints [] = Some []"
| "parse_ints (w # ws) = (case (parse_int 10 w, parse_ints ws) of (Some n, Some ns) \<Rightarrow> Some (n # ns) | _ \<Rightarrow> None)"

definition cpu_line :: "pystr \<Rightarrow> int list option" where
  "cpu_line content =
     (if content = [] then None
      else let first_line = hd (splitlines content) in
        if \<not> startswith first_line (lit ''cpu '') then None else parse_ints (tl (split_words first_line)))"

definition read_proc_stat_cpu_line :: "'w host \<Rightarrow> 'w running \<Rightarrow> int list option" where
  "read_proc_stat_cpu_line H s = Option.bind (read_file H (lit ''/proc/stat'') s) cpu_line"

definition cpu_percent :: "int list \<Rightarrow> int list \<Rightarrow> exn + real option" where
  "cpu_percent before after =
     (let deltas = map (\<lambda>(a, b). b - a) (zip before after); total = sum_list deltas in
      if total \<le> 0 then Inr None
      else if length deltas < 4 then Inl IndexError
      else let idle = deltas ! 3 + (if 4 < length deltas then deltas ! 4 else 0)
        in Inr (Some (round1 (100 * of_int (total - idle) / of_int total))))"

definition get_cpu_percent :: "'w host \<Rightarrow> real \<Rightarrow> 'w running \<Rightarrow> (exn + real option) \<times> 'w running" where
  "get_cpu_percent H sample_seconds s =
     (case read_proc_stat_cpu_line H s of
        None \<Rightarrow> (Inr None, s)
      | Some before \<Rightarrow>
          let s' = sleep H sample_seconds s in
          (case read_proc_stat_cpu_line H s' of
             None \<Rightarrow> Inr None
           | Some after \<Rightarrow> if length after \<noteq> length before then Inr None else cpu_percent before after, s'))"

section \<open>Memory and disk\<close>

record usage =
  us_total :: "int option"
  us_used :: "int option"
  us_percent :: "real option"

definition no_usage :: usage where
  "no_usage = \<lparr>us_total = None, us_used = None, us_percent = None\<rparr>"

definition usage_percent :: "int \<Rightarrow> int \<Rightarrow> real option" where
  "usage_percent used total_bytes = (if total_bytes \<noteq> 0 then Some (round1 (100 * of_int used / of_int total_bytes)) else None)"

text \<open>One line of \<open>/proc/meminfo\<close>; a value that is not a number is skipped.\<close>

definition meminfo_line :: "pystr \<Rightarrow> (pystr, int) dict \<Rightarrow> (pystr, int) dict" where
  "meminfo_line line sizes =
     (let key = takeWhile (\<lambda>c. c \<noteq> 58) line; rest = strip (tl (dropWhile (\<lambda>c. c \<noteq> 58) line)) in
      if 2 \<le> length rest \<and> drop (length rest - 2) rest = lit ''kB''
      then (case parse_int 10 (strip (take (length rest - 2) rest)) of
              None \<Rightarrow> sizes | Some n \<Rightarrow> AList.update key (n * 1024) sizes)
      else sizes)"

definition memory_of :: "pystr \<Rightarrow> usage" where
  "memory_of content =
     (let sizes = fold meminfo_line (splitlines content) [] in
      case (map_of sizes (lit ''MemTotal''), map_of sizes (lit ''MemAvailable'')) of
        (Some total_bytes, Some available) \<Rightarrow>
          \<lparr>us_total = Some total_bytes, us_used = Some (total_bytes - available),
           us_percent = usage_percent (total_bytes - available) total_bytes\<rparr>
      | _ \<Rightarrow> no_usage)"

definition get_memory :: "'w host \<Rightarrow> 'w running \<Rightarrow> usage" where
  "get_memory H s =
     (case read_file H (lit ''/proc/meminfo'') s of
        None \<Rightarrow> no_usage
      | Some content \<Rightarrow> if content = [] then no_usage else memory_of content)"

text \<open>\<open>shutil.disk_usage("/")\<close>: total and used bytes, or \<open>None\<close> for \<open>OSError\<close>\<close>

definition get_disk :: "(int \<times> int) option \<Rightarrow> usage" where
  "get_disk disk = (case disk of None \<Rightarrow> no_usage
     | Some (total_bytes, used) \<Rightarrow>
         \<lparr>us_total = Some total_bytes, us_used = Some used, us_percent = usage_percent used total_bytes\<rparr>)"

section \<open>Uptime, and the whole report\<close>

text \<open>\<open>float(word)\<close> of a text without white space: a sign, digits with at most one point (single underscores
  between digits), an exponent; or the names of the infinities and of NaN.\<close>

definition digits_or_none :: "pystr \<Rightarrow> nat option" where
  "digits_or_none t = (if t = [] then Some 0 else number_digits 10 t)"

definition mantissa :: "pystr \<Rightarrow> real option" where
  "mantissa t =
     (case split_on 46 t of
        [a] \<Rightarrow> map_option real (number_digits 10 a)
      | [a, b] \<Rightarrow>
          if a = [] \<and> b = [] then None
          else (case (digits_or_none a, digits_or_none b) of
                  (Some m, Some n) \<Rightarrow> Some (real m + real n / 10 ^ length (filter (\<lambda>c. c \<noteq> 95) b))
                | _ \<Rightarrow> None)
      | _ \<Rightarrow> None)"

definition float_of_text :: "pystr \<Rightarrow> float32 option" where
  "float_of_text t =
     (let neg = startswith t [45];
          body = lower_ascii (if neg \<or> startswith t [43] then tl t else t); sign = (if neg then -1 else 1);
          man = takeWhile (\<lambda>c. c \<noteq> 101) body; exponent = dropWhile (\<lambda>c. c \<noteq> 101) body
      in if body = lit ''inf'' \<or> body = lit ''infinity'' then Some (Infinity neg)
         else if body = lit ''nan'' then Some NaN
         else (case (mantissa man, if exponent = [] then Some 0 else parse_int 10 (tl exponent)) of
                 (Some m, Some e) \<Rightarrow> Some (Finite (sign * m * ten_to e))
               | _ \<Rightarrow> None))"

definition uptime_of :: "pystr \<Rightarrow> float32 option" where
  "uptime_of raw = (case split_words raw of [] \<Rightarrow> None | w # ws \<Rightarrow> float_of_text w)"

definition get_uptime_seconds :: "'w host \<Rightarrow> 'w running \<Rightarrow> float32 option" where
  "get_uptime_seconds H s = Option.bind (read_file H (lit ''/proc/uptime'') s) uptime_of"

record system_report =
  si_model :: "pystr option"
  si_cpu_temp_celsius :: "real option"
  si_cpu_percent :: "real option"
  si_load_average :: "real option \<times> real option \<times> real option"
  si_memory :: usage
  si_disk :: usage
  si_uptime_seconds :: "float32 option"
  si_power :: "power option"

text \<open>\<open>get_system_info\<close>: the parts in their order; the CPU sample sleeps in between.\<close>

definition get_system_info ::
  "'w host \<Rightarrow> (real \<times> real \<times> real) option \<Rightarrow> (int \<times> int) option \<Rightarrow> 'w running \<Rightarrow>
    (exn + system_report) \<times> 'w running" where
  "get_system_info H averages disk s =
     (let model = get_model H s; temp = get_cpu_temp_celsius H s; (cpu, s1) = get_cpu_percent H (15 / 100) s in
      case cpu of
        Inl e \<Rightarrow> (Inl e, s1)
      | Inr percent \<Rightarrow>
          let (pow, s2) = get_power_status H s1
          in (Inr \<lparr>si_model = model, si_cpu_temp_celsius = temp, si_cpu_percent = percent,
                si_load_average = get_load_average averages, si_memory = get_memory H s1, si_disk = get_disk disk,
                si_uptime_seconds = get_uptime_seconds H s1, si_power = pow\<rparr>, s2))"

section \<open>Version\<close>

text \<open>\<open>backend/version.py\<close>: the file \<open>VERSION\<close> of the repository, at the given path\<close>

definition get_version :: "'w host \<Rightarrow> pystr \<Rightarrow> 'w running \<Rightarrow> pystr" where
  "get_version H version_path s =
     (case read_file H version_path s of
        None \<Rightarrow> lit ''unknown''
      | Some content \<Rightarrow> if strip content \<noteq> [] then strip content else lit ''unknown'')"

section \<open>The throttling bits\<close>

lemma hex_value_hexdigit: "d < 16 \<Longrightarrow> hex_value (hexdigit d) = Some d"
  by (auto simp: hex_value_def hexdigit_def)

lemma hexdigit_not: "d < 16 \<Longrightarrow> hexdigit d \<noteq> 95 \<and> hexdigit d \<noteq> 61 \<and> \<not> is_space (hexdigit d)"
  by (auto simp: hexdigit_def is_space_def)

lemma hex_text_digits: "c \<in> set (hex_text n) \<Longrightarrow> \<exists>d < 16. c = hexdigit d"
proof (induction n rule: hex_text.induct)
  case (1 n)
  have "\<exists>d<16. hexdigit (n mod 16) = hexdigit d" by (rule exI [of _ "n mod 16"]) simp
  with 1 show ?case by (subst (asm) (2) hex_text.simps) (auto split: if_splits)
qed

lemma hex_text_nonempty [simp]: "hex_text n \<noteq> []" "[] \<noteq> hex_text n"
  by (subst hex_text.simps, simp)+

lemma hex_text_value: "foldl (\<lambda>n c. 16 * n + the (hex_value c)) 0 (hex_text n) = n"
  by (induction n rule: hex_text.induct) (subst hex_text.simps, auto simp: hex_value_hexdigit)

lemma number_digits_hex: "number_digits 16 (hex_text n) = Some n"
proof -
  have "95 \<notin> set (hex_text n)" using hex_text_digits hexdigit_not by fastforce
  then have "split_on 95 (hex_text n) = [hex_text n]" by (rule split_on_no_sep)
  moreover have "list_all (\<lambda>c. case hex_value c of None \<Rightarrow> False | Some v \<Rightarrow> v < 16) (hex_text n)"
    using hex_text_digits by (fastforce simp: list_all_iff hex_value_hexdigit)
  ultimately show ?thesis by (simp add: number_digits_def Let_def hex_text_value)
qed

lemma hex_text_ends: "\<not> is_space (last (hex_text n))" "61 \<notin> set (hex_text n)" "95 \<noteq> hd (hex_text n)"
proof -
  have d: "\<not> is_space c \<and> c \<noteq> 61 \<and> c \<noteq> 95" if "c \<in> set (hex_text n)" for c
    using hex_text_digits [OF that] hexdigit_not by auto
  show "\<not> is_space (last (hex_text n))" "61 \<notin> set (hex_text n)" "95 \<noteq> hd (hex_text n)"
    using d [OF last_in_set] d [of 61] d [OF hd_in_set] by auto
qed

lemma parse_int_hex: "parse_int 16 (lit ''0x'' @ hex_text n) = Some (int n)"
proof -
  have "strip (lit ''0x'' @ hex_text n) = lit ''0x'' @ hex_text n"
    using hex_text_ends(1) [of n] by (intro strip_plain) (simp_all add: lit_def is_space_def)
  moreover have "\<not> startswith (hex_text n) [95]"
    using hex_text_ends(3) [of n] by (cases "hex_text n") (simp_all add: startswith_def)
  moreover have "\<not> startswith (lit ''0x'' @ hex_text n) [45]" "\<not> startswith (lit ''0x'' @ hex_text n) [43]"
    by (simp_all add: lit_def startswith_def)
  ultimately show ?thesis by (simp add: parse_int_def Let_def number_digits_hex)
qed

lemma and_power: "(v :: int) AND 2 ^ k \<noteq> 0 \<longleftrightarrow> bit v k"
  by (simp add: and_exp_eq_0_iff_not_bit)

lemma flag_bits:
  "(v :: int) AND 1 \<noteq> 0 \<longleftrightarrow> bit v 0" "v AND 2 \<noteq> 0 \<longleftrightarrow> bit v 1" "v AND 4 \<noteq> 0 \<longleftrightarrow> bit v 2" "v AND 8 \<noteq> 0 \<longleftrightarrow> bit v 3"
  "v AND 65536 \<noteq> 0 \<longleftrightarrow> bit v 16" "v AND 131072 \<noteq> 0 \<longleftrightarrow> bit v 17"
  "v AND 262144 \<noteq> 0 \<longleftrightarrow> bit v 18" "v AND 524288 \<noteq> 0 \<longleftrightarrow> bit v 19"
  using and_power [of v 0] and_power [of v 1] and_power [of v 2] and_power [of v 3]
    and_power [of v 16] and_power [of v 17] and_power [of v 18] and_power [of v 19]
  by simp_all

text \<open>The power status reads the firmware's mask bit by bit.  Whatever number vcgencmd prints in
  hexadecimal, the status shows it with at least five places, and each of the four conditions holds now
  exactly if its bit 0 to 3 is set, and has held since the boot exactly if the bit sixteen places higher
  is set.\<close>

theorem power_status_bits:
  "power_of_output (lit ''throttled=0x'' @ hex_text n @ [10]) =
     Some \<lparr>pw_raw = lit ''0x'' @ zero_padded 5 (hex_text n),
       pw_flags =
         [(lit ''undervoltage'', bit n 0), (lit ''undervoltage_since_boot'', bit n 16),
          (lit ''freq_capped'', bit n 1), (lit ''freq_capped_since_boot'', bit n 17),
          (lit ''throttled'', bit n 2), (lit ''throttled_since_boot'', bit n 18),
          (lit ''temp_limit'', bit n 3), (lit ''temp_limit_since_boot'', bit n 19)]\<rparr>"
proof -
  have "strip (lit ''throttled=0x'' @ hex_text n @ [10]) = strip (lit ''throttled=0x'' @ hex_text n)"
    using strip_newline [of "lit ''throttled=0x'' @ hex_text n"] by simp
  also have "\<dots> = lit ''throttled=0x'' @ hex_text n"
    using hex_text_ends(1) [of n] by (intro strip_plain) (simp_all add: lit_def is_space_def)
  finally have strip: "strip (lit ''throttled=0x'' @ hex_text n @ [10]) = lit ''throttled=0x'' @ hex_text n" .
  have rest: "tl (dropWhile (\<lambda>c. c \<noteq> 61) (lit ''throttled=0x'' @ hex_text n)) = lit ''0x'' @ hex_text n"
    by (simp add: lit_def)
  have "61 \<in> set (lit ''throttled=0x'' @ hex_text n)" by (simp add: lit_def)
  moreover have "bit (int n) k = bit n k" for k by (simp add: bit_of_nat_iff)
  ultimately show ?thesis
    by (simp add: power_of_output_def strip rest parse_int_hex Let_def power_flags_def THROTTLED_BITS_def flag_bits hex05_def
        lit_append [symmetric])
qed

section \<open>CPU use\<close>

text \<open>The CPU use is a percentage.  When the kernel's counters, at least four of them, have not gone
  back between the two samples and at least one has advanced, there is a reading and it lies between 0
  and 100.\<close>

theorem cpu_percent_bounds:
  assumes "length after = length before" and "4 \<le> length before"
    and "list_all2 (\<le>) before after" and "before \<noteq> after"
  shows "\<exists>p. cpu_percent before after = Inr (Some p) \<and> 0 \<le> p \<and> p \<le> 100"
proof -
  define deltas where "deltas = map (\<lambda>(a, b). b - a) (zip before after)"
  have len: "length deltas = length before" using assms(1) by (simp add: deltas_def)
  have pos: "0 \<le> d" if "d \<in> set deltas" for d
    using that assms(3) by (auto simp: deltas_def list_all2_iff)
  define idle where "idle = deltas ! 3 + (if 4 < length deltas then deltas ! 4 else 0)"
  have "0 < sum_list deltas"
  proof -
    obtain k where k: "k < length before" "before ! k \<noteq> after ! k"
      using assms(1,4) by (metis nth_equalityI)
    moreover have "before ! k \<le> after ! k" using k(1) assms(3) by (simp add: list_all2_conv_all_nth)
    ultimately have "0 < deltas ! k" using assms(1) by (simp add: deltas_def)
    also have "deltas ! k \<le> sum_list deltas"
      using k(1) len pos by (intro member_le_sum_list) simp_all
    finally show ?thesis .
  qed
  moreover have "0 \<le> idle" using pos len assms(2) by (auto simp: idle_def)
  moreover have "idle \<le> sum_list deltas"
  proof -
    have "sum_list (take 3 deltas) + (sum_list (take 2 (drop 3 deltas)) + sum_list (drop 5 deltas)) = sum_list deltas"
      by (metis add.commute append_take_drop_id drop_drop numeral_Bit1 numeral_One one_plus_numeral semiring_norm(2)
          semiring_norm(4) sum_list_append)
    moreover have "sum_list (take 2 (drop 3 deltas)) = idle"
    proof (cases "4 < length deltas")
      case True
      then have "take 2 (drop 3 deltas) = [deltas ! 3, deltas ! 4]"
        by (simp add: list_eq_iff_nth_eq nth_Cons' numeral_eq_Suc less_Suc_eq)
      with True show ?thesis by (simp add: idle_def)
    next
      case False
      with len assms(2) have "length deltas = 4" by simp
      then have "take 2 (drop 3 deltas) = [deltas ! 3]"
        by (simp add: list_eq_iff_nth_eq)
      with False show ?thesis by (simp add: idle_def)
    qed
    moreover have "0 \<le> sum_list (take 3 deltas)" "0 \<le> sum_list (drop 5 deltas)"
      using pos by (auto intro!: sum_list_nonneg dest: in_set_takeD in_set_dropD)
    ultimately show ?thesis by linarith
  qed
  moreover define p :: real where "p = 100 * of_int (sum_list deltas - idle) / of_int (sum_list deltas)"
  ultimately have "0 \<le> p" "p \<le> 100" by (simp_all add: pos_divide_le_eq)
  moreover have "round1 100 = 100" using round_even_of_int [of 1000] by (simp add: round1_def)
  ultimately have "0 \<le> round1 p" "round1 p \<le> 100" using round1_nonneg round1_mono by metis+
  moreover have "cpu_percent before after = Inr (Some (round1 p))"
    using \<open>0 < sum_list deltas\<close> len assms(2) by (simp add: cpu_percent_def Let_def deltas_def idle_def p_def)
  ultimately show ?thesis by blast
qed

theorem cpu_percent_bounds_witness:
  "\<exists>p. cpu_percent [100, 0, 50, 800, 20] [130, 0, 60, 850, 30] = Inr (Some p) \<and> 0 \<le> p \<and> p \<le> 100"
  by (rule cpu_percent_bounds) simp_all

section \<open>Memory\<close>

text \<open>A line of \<open>/proc/meminfo\<close> with a size, or any other line.\<close>

datatype mem_line = Mem_Size pystr nat nat | Mem_Other pystr

fun mem_text :: "mem_line \<Rightarrow> pystr" where
  "mem_text (Mem_Size key spaces kb) = key @ [58] @ replicate spaces 32 @ dec kb @ lit '' kB''"
| "mem_text (Mem_Other l) = l"

fun mem_ok :: "mem_line \<Rightarrow> bool" where
  "mem_ok (Mem_Size key spaces kb) = (58 \<notin> set key)"
| "mem_ok (Mem_Other l) =
    (let rest = strip (tl (dropWhile (\<lambda>c. c \<noteq> 58) l)) in \<not> (2 \<le> length rest \<and> drop (length rest - 2) rest = lit ''kB''))"

fun mem_sizes :: "mem_line list \<Rightarrow> (pystr, int) dict" where
  "mem_sizes [] = []"
| "mem_sizes (Mem_Size key spaces kb # ls) = (key, int kb * 1024) # mem_sizes ls"
| "mem_sizes (Mem_Other l # ls) = mem_sizes ls"

lemma parse_int_dec: "parse_int 10 (dec n) = Some (int n)"
proof -
  have digit: "48 \<le> c \<and> c \<le> 57" if "c \<in> set (dec n)" for c using dec_digits [OF that] .
  have h: "hd (dec n) \<in> set (dec n)" "last (dec n) \<in> set (dec n)" by simp_all
  have "strip (dec n) = dec n"
    using digit [OF h(1)] digit [OF h(2)] by (intro strip_plain) (auto simp: is_space_def)
  moreover have "\<not> startswith (dec n) [45]" "\<not> startswith (dec n) [43]"
    using digit [OF h(1)] by (cases "dec n"; simp add: startswith_def)+
  moreover have "split_on 95 (dec n) = [dec n]" using digit [of 95] by (intro split_on_no_sep) auto
  moreover have "list_all (\<lambda>c. case hex_value c of None \<Rightarrow> False | Some v \<Rightarrow> v < 10) (dec n)"
    by (auto simp: list_all_iff hex_value_def dest!: digit)
  moreover have "foldl (\<lambda>n c. 10 * n + the (hex_value c)) 0 (dec n) = foldl (\<lambda>n c. 10 * n + (c - 48)) 0 (dec n)"
    using digit by (intro foldl_cong) (auto simp: hex_value_def)
  moreover have "dec n \<noteq> []" "[] \<noteq> dec n" by (metis dec_nonempty)+
  ultimately show ?thesis by (simp add: parse_int_def number_digits_def Let_def)
qed

lemma meminfo_size:
  assumes "58 \<notin> set key"
  shows "meminfo_line (mem_text (Mem_Size key spaces kb)) sizes = AList.update key (int kb * 1024) sizes"
proof -
  let ?v = "dec kb @ lit '' kB''"
  have digit: "48 \<le> hd (dec kb) \<and> hd (dec kb) \<le> 57" "48 \<le> last (dec kb) \<and> last (dec kb) \<le> 57"
    using dec_digits [of "hd (dec kb)" kb] dec_digits [of "last (dec kb)" kb] by simp_all
  have "strip ?v = ?v"
    using digit(1) by (intro strip_plain) (auto simp: lit_def is_space_def)
  moreover have "lstrip (replicate spaces 32 @ ?v) = lstrip ?v"
    by (induction spaces) (simp_all add: lstrip_def is_space_def)
  ultimately have rest: "strip (replicate spaces 32 @ ?v) = ?v" by (simp add: strip_def)
  have "strip (dec kb @ [32]) = dec kb"
  proof -
    have "rstrip (dec kb @ [32]) = rstrip (dec kb)" by (simp add: rstrip_def is_space_def)
    moreover have "lstrip (dec kb @ [32]) = dec kb @ [32]"
      using digit(1) by (cases "dec kb") (auto simp: lstrip_def is_space_def)
    moreover have "rstrip (dec kb) = dec kb"
      using digit(2) by (cases "dec kb" rule: rev_cases) (auto simp: rstrip_def is_space_def)
    ultimately show ?thesis by (simp add: strip_def)
  qed
  moreover have "take (length ?v - 2) ?v = dec kb @ [32]" "drop (length ?v - 2) ?v = lit ''kB''" "2 \<le> length ?v"
    by (simp_all add: lit_def)
  moreover have "takeWhile (\<lambda>c. c \<noteq> 58) (mem_text (Mem_Size key spaces kb)) = key"
    "tl (dropWhile (\<lambda>c. c \<noteq> 58) (mem_text (Mem_Size key spaces kb))) = replicate spaces 32 @ ?v"
    using assms by (induction key) auto
  ultimately show ?thesis by (simp only: meminfo_line_def Let_def rest parse_int_dec if_True simp_thms option.simps)
qed

lemma meminfo_fold:
  "list_all mem_ok ls \<Longrightarrow> fold meminfo_line (map mem_text ls) sizes =
   fold (\<lambda>(k, v). AList.update k v) (mem_sizes ls) sizes"
proof (induction ls arbitrary: sizes)
  case Nil
  then show ?case by simp
next
  case (Cons l ls)
  show ?case
  proof (cases l)
    case (Mem_Size key spaces kb)
    then show ?thesis using Cons meminfo_size [of key spaces kb sizes] by (simp del: mem_text.simps(1))
  next
    case (Mem_Other t)
    then have "meminfo_line t sizes = sizes" using Cons.prems by (auto simp: meminfo_line_def Let_def)
    then show ?thesis using Cons Mem_Other by simp
  qed
qed

lemma map_of_updates:
  "distinct (map fst es) \<Longrightarrow> map_of (fold (\<lambda>(k, v). AList.update k v) es d) k =
   (case map_of es k of None \<Rightarrow> map_of d k | Some v \<Rightarrow> Some v)"
proof (induction es arbitrary: d)
  case Nil
  then show ?case by simp
next
  case (Cons e es)
  obtain k' v where e: "e = (k', v)" by (cases e)
  have "map_of es k' = None" using Cons.prems by (simp add: e map_of_eq_None_iff)
  with Cons show ?case by (auto simp: e split: option.split)
qed

text \<open>The memory report is that of the kernel.  When /proc/meminfo gives each size once, among other
  lines, the report is the total in bytes, the difference of total and available bytes as used, and that
  share of the total, between 0 and 100 percent if no more than the total is available.\<close>

theorem memory_exact:
  assumes "splitlines content = map mem_text ls" and "list_all mem_ok ls" and "distinct (map fst (mem_sizes ls))"
    and "map_of (mem_sizes ls) (lit ''MemTotal'') = Some t" and "map_of (mem_sizes ls) (lit ''MemAvailable'') = Some a"
    and "0 \<le> a" and "a \<le> t" and "0 < t"
  shows "memory_of content = \<lparr>us_total = Some t, us_used = Some (t - a),
      us_percent = Some (round1 (100 * of_int (t - a) / of_int t))\<rparr> \<and>
    0 \<le> round1 (100 * of_int (t - a) / of_int t) \<and> round1 (100 * of_int (t - a) / of_int t) \<le> 100"
proof -
  define p :: real where "p = 100 * of_int (t - a) / of_int t"
  have "0 \<le> p" "p \<le> 100" using assms(6-8) by (simp_all add: p_def pos_divide_le_eq)
  moreover have "round1 100 = 100" using round_even_of_int [of 1000] by (simp add: round1_def)
  ultimately have "0 \<le> round1 p" "round1 p \<le> 100" using round1_nonneg round1_mono by metis+
  moreover have "map_of (fold meminfo_line (splitlines content) []) k = map_of (mem_sizes ls) k" for k
    using map_of_updates [OF assms(3), of "[]" k] meminfo_fold [OF assms(2), of "[]"] assms(1)
    by (simp split: option.split)
  ultimately show ?thesis
    using assms(4,5,8) by (simp add: memory_of_def Let_def usage_percent_def p_def)
qed

theorem memory_exact_witness:
  "memory_of (lit ''MemTotal: 8 kB'' @ [10] @ lit ''MemAvailable:  6 kB'') =
   \<lparr>us_total = Some 8192, us_used = Some 2048, us_percent = Some (round1 25)\<rparr>"
proof -
  let ?ls = "[Mem_Size (lit ''MemTotal'') 1 8, Mem_Size (lit ''MemAvailable'') 2 6]"
  have "dec 8 = [56]" "dec 6 = [54]" by (simp_all add: dec.simps [of 8] dec.simps [of 6])
  then have lines: "splitlines (lit ''MemTotal: 8 kB'' @ [10] @ lit ''MemAvailable:  6 kB'') = map mem_text ?ls"
    by (simp add: numeral_2_eq_2) (simp add: splitlines_def lit_def is_linebreak_def)
  have ok: "list_all mem_ok ?ls" by (simp add: lit_def)
  have d: "distinct (map fst (mem_sizes ?ls))" by simp
  have t: "map_of (mem_sizes ?ls) (lit ''MemTotal'') = Some 8192" "map_of (mem_sizes ?ls) (lit ''MemAvailable'') = Some 6144"
    by simp_all
  from memory_exact [OF lines ok d t] show ?thesis by simp
qed

section \<open>The uptime file\<close>

text \<open>The first number of \<open>/proc/uptime\<close>, which the kernel prints with two decimals, is read exactly.\<close>

lemma digits_10:
  assumes "ds \<noteq> []" and "list_all is_digit ds"
  shows "number_digits 10 ds = Some (undec ds)"
proof -
  have "95 \<notin> set ds" using assms(2) by (auto simp: list_all_iff is_digit_def)
  moreover have "list_all (\<lambda>c. case hex_value c of None \<Rightarrow> False | Some v \<Rightarrow> v < 10) ds"
    using assms(2) by (auto simp: list_all_iff is_digit_def hex_value_def)
  moreover have "foldl (\<lambda>n c. 10 * n + the (hex_value c)) k ds = foldl (\<lambda>n c. 10 * n + (c - 48)) k ds" for k
    using assms(2) by (induction ds arbitrary: k) (auto simp: is_digit_def hex_value_def)
  ultimately show ?thesis
    using assms(1) by (simp add: number_digits_def split_on_no_sep)
qed

lemma words_from_word:
  "list_all (\<lambda>c. \<not> is_space c) w \<Longrightarrow> is_space c \<Longrightarrow> cur @ w \<noteq> [] \<Longrightarrow>
   words_from cur (w @ c # s) = (cur @ w) # words_from [] s"
  by (induction w arbitrary: cur) auto

lemma uptime_read:
  assumes "ds \<noteq> []" and "list_all is_digit ds" and "fs \<noteq> []" and "list_all is_digit fs" and "is_space c"
  shows "uptime_of (ds @ [46] @ fs @ [c] @ rest) = Some (Finite (real (undec ds) + real (undec fs) / 10 ^ length fs))"
proof -
  let ?w = "ds @ 46 # fs"
  have digit: "\<not> is_space d" "d \<noteq> 46" "d \<noteq> 101" "d \<noteq> 95" "d \<noteq> 45" "d \<noteq> 43" "\<not> 65 \<le> d" "d < 97" if "is_digit d" for d
    using that by (auto simp: is_digit_def is_space_def)
  have "list_all (\<lambda>c. \<not> is_space c) ?w" using assms(2,4) digit(1) by (auto simp: list_all_iff is_space_def)
  from words_from_word [OF this assms(5), of "[]" rest]
  have w: "split_words (ds @ [46] @ fs @ [c] @ rest) = ?w # words_from [] rest" by (simp add: split_words_def)
  have "46 \<notin> set ds" "46 \<notin> set fs" using assms(2,4) digit(2) by (force simp: list_all_iff)+
  then have "split_on 46 ?w = [ds, fs]" by (simp add: split_on_append split_on_no_sep)
  moreover have "filter (\<lambda>c. c \<noteq> 95) fs = fs" using assms(4) digit(4) by (auto simp: list_all_iff filter_id_conv)
  ultimately have m: "mantissa ?w = Some (real (undec ds) + real (undec fs) / 10 ^ length fs)"
    using assms by (simp add: mantissa_def digits_or_none_def digits_10 del: undec.simps)
  have low: "lower_ascii ?w = ?w"
    using assms(2,4) digit(7) by (auto simp: lower_ascii_def list_all_iff intro!: map_idI)
  have e: "takeWhile (\<lambda>c. c \<noteq> 101) ?w = ?w" "dropWhile (\<lambda>c. c \<noteq> 101) ?w = []"
    using assms(2,4) digit(3) by (auto simp: list_all_iff takeWhile_eq_all_conv dropWhile_eq_Nil_conv)
  obtain d ds' where ds: "ds = d # ds'" "is_digit d" using assms(1,2) by (cases ds) auto
  have n: "?w \<noteq> lit ''inf''" "?w \<noteq> lit ''infinity''" "?w \<noteq> lit ''nan''" "\<not> startswith ?w [45]" "\<not> startswith ?w [43]"
    using digit(5,6,8) [OF ds(2)] by (auto simp: ds(1) lit_def startswith_def)
  have "float_of_text ?w = Some (Finite (real (undec ds) + real (undec fs) / 10 ^ length fs))"
    using n by (simp add: float_of_text_def Let_def low e m ten_to_def del: undec.simps)
  then show ?thesis unfolding uptime_of_def w by simp
qed

end
