(* ===== verification/Api_Listeners.thy ===== *)
theory Api_Listeners
  imports Capture_System System_Info
begin

text \<open>
  The routes that read or reset the passive listeners: \<open>discovery.py\<close>, \<open>traffic.py\<close>, the traffic part of
  \<open>modbus.py\<close>, the conflict and DHCP parts of \<open>network.py\<close>; and \<open>health.py\<close> and \<open>system.py\<close>.
\<close>

datatype listener_response =
    Lldp_Response "lldp_info report"
  | Cdp_Response "cdp_info report"
  | Mndp_Response "mndp_info report"
  | Traffic_Response traffic_report
  | Modbus_Traffic_Response "(rel_key \<times> relationship) list"
  | Conflicts_Response conflicts_report
  | Servers_Response servers_report
  | Reset_Done

text \<open>A request is one of the events of the listener system; a frame is not a request.\<close>

fun listener_route ::
  "pystr option \<Rightarrow> system_event \<Rightarrow> capture_system \<Rightarrow> listener_response option \<times> capture_system" where
  "listener_route a (Get_Lldp t) z =
     (let (z', r) = lldp_get_neighbors TEST_PORT_INTERFACE t DEFAULT_STALE_AFTER z in (Some (Lldp_Response r), z'))"
| "listener_route a (Get_Cdp t) z =
     (let (z', r) = cdp_get_neighbors TEST_PORT_INTERFACE t DEFAULT_STALE_AFTER z in (Some (Cdp_Response r), z'))"
| "listener_route a (Get_Mndp t) z =
     (let (z', r) = mndp_get_neighbors TEST_PORT_INTERFACE t DEFAULT_STALE_AFTER z in (Some (Mndp_Response r), z'))"
| "listener_route a (Get_Traffic t) z =
     (let (z', r) = traffic_route a TEST_PORT_INTERFACE t z in (Some (Traffic_Response r), z'))"
| "listener_route a (Reset_Traffic t) z =
     (Some Reset_Done, on_listeners (\<lambda>s. s\<lparr>y_traffic := traffic_reset t (y_traffic s)\<rparr>) z)"
| "listener_route a (Get_Modbus t) z =
     (let (z', r) = with_state (\<lambda>s. let (c, r) = modbus_get_stats t (y_modbus s) in (s\<lparr>y_modbus := c\<rparr>, r)) z
      in (Some (Modbus_Traffic_Response r), z'))"
| "listener_route a Reset_Modbus z =
     (Some Reset_Done, on_listeners (\<lambda>s. s\<lparr>y_modbus := modbus_traffic_reset (y_modbus s)\<rparr>) z)"
| "listener_route a (Get_Conflicts t) z =
     (let (z', r) = with_state (\<lambda>s. let (c, r) = get_conflicts t (y_conflict s) in (s\<lparr>y_conflict := c\<rparr>, r)) z
      in (Some (Conflicts_Response r), z'))"
| "listener_route a Reset_Conflicts z =
     (Some Reset_Done, on_listeners (\<lambda>s. s\<lparr>y_conflict := conflict_reset (y_conflict s)\<rparr>) z)"
| "listener_route a Get_Dhcp z = (Some (Servers_Response (get_servers (y_dhcp (d_state (z_dispatcher z))))), z)"
| "listener_route a Reset_Dhcp z =
     (Some Reset_Done, on_listeners (\<lambda>s. s\<lparr>y_dhcp := dhcp_reset (y_dhcp s)\<rparr>) z)"
| "listener_route a (Frame t p) z = (None, z\<lparr>z_dispatcher := dispatch t p (z_dispatcher z)\<rparr>)"

text \<open>The routes change the system as its steps do.\<close>

lemma listener_route_step: "snd (listener_route a e z) = system_step a e z"
  by (cases e) (simp_all add: with_state_def on_listeners_def map_state_def Let_def split_def)

section \<open>Reading a listener only expires entries\<close>

text \<open>The tables of the listeners are dictionaries; the trackers hold their invariants from the start on.\<close>

definition listeners_wf :: "listeners \<Rightarrow> bool" where
  "listeners_wf y \<longleftrightarrow> cache_ok (y_lldp y) \<and> cache_ok (y_cdp y) \<and> cache_ok (y_mndp y) \<and>
     modbus_traffic_ok (y_modbus y) \<and> owners_ok (y_conflict y)"

lemma listeners_wf_alone: "listeners_wf y \<Longrightarrow> listeners_wf (alone a e y)"
  by (cases e) (simp_all add: listeners_wf_def alone_def cache_ok_purge ok_prune_stale owners_ok_prune
      lldp.run_inv cdp.run_inv mndp.run_inv modbus_traffic.run_inv arp.run_inv)

text \<open>So they hold in every state of the running system.\<close>

lemma listeners_wf_run:
  "listeners_wf (d_state (z_dispatcher
     (system_run a evs (start_background_listeners a TEST_PORT_INTERFACE (system0 t0)))))"
proof -
  have "listeners_wf (fold (alone a) evs y)" if "listeners_wf y" for y
    using that by (induction evs arbitrary: y) (simp_all add: listeners_wf_alone)
  moreover have "listeners_wf (listeners0 t0)" by (simp add: listeners_wf_def listeners0_def)
  ultimately show ?thesis using system_run_alone [OF startup_registered [of a t0], of evs] by simp
qed

text \<open>A table in which entries may have been dropped, but only those that were old, and none was added or
  changed.\<close>

definition at_most_expires :: "('v \<Rightarrow> bool) \<Rightarrow> ('k \<Rightarrow> 'v option) \<Rightarrow> ('k \<Rightarrow> 'v option) \<Rightarrow> bool" where
  "at_most_expires old d d' \<longleftrightarrow> (\<forall>k. d' k = d k \<or> d' k = None \<and> (\<exists>v. d k = Some v \<and> old v))"

text \<open>A Modbus relationship in which at most a number of unanswered requests has been counted.\<close>

definition missing_counted :: "nat \<Rightarrow> relationship \<Rightarrow> relationship \<Rightarrow> bool" where
  "missing_counted expired q q' \<longleftrightarrow> (\<exists>n \<le> expired. q' = q\<lparr>q_missing := q_missing q + n\<rparr>)"

text \<open>What time alone does to the listeners, at the time \<open>t\<close>: neighbours are forgotten after 60 s, packets leave
  the rate window after 5 s, pending Modbus requests are counted as missing after 5 s, claims on an address
  are forgotten after 600 s; totals, talkers and DHCP servers stay.\<close>

definition listeners_expire :: "timestamp \<Rightarrow> listeners \<Rightarrow> listeners \<Rightarrow> bool" where
  "listeners_expire t y y' \<longleftrightarrow>
     at_most_expires (\<lambda>n. t - n_last_seen n > 60) (map_of (y_lldp y)) (map_of (y_lldp y')) \<and>
     at_most_expires (\<lambda>n. t - n_last_seen n > 60) (map_of (y_cdp y)) (map_of (y_cdp y')) \<and>
     at_most_expires (\<lambda>n. t - n_last_seen n > 60) (map_of (y_mndp y)) (map_of (y_mndp y')) \<and>
     (\<exists>old rest. x_recent_packets (y_traffic y) = old @ rest \<and> list_all (\<lambda>(seen, _). seen < t - 5) old \<and>
        y_traffic y' = (y_traffic y)\<lparr>x_recent_packets := rest\<rparr>) \<and>
     at_most_expires (\<lambda>e. t - p_sent_at e > 5) (map_of (m_pending (y_modbus y))) (map_of (m_pending (y_modbus y'))) \<and>
     (\<forall>k. rel_option (missing_counted (length (m_pending (y_modbus y)) - length (m_pending (y_modbus y'))))
        (map_of (m_relationships (y_modbus y)) k) (map_of (m_relationships (y_modbus y')) k)) \<and>
     (\<forall>ip. at_most_expires (\<lambda>seen. t - seen > 600) (claim_time (y_conflict y) ip) (claim_time (y_conflict y') ip)) \<and>
     y_dhcp y' = y_dhcp y"

text \<open>The dispatcher keeps its counters and its handlers; a route that starts a listener may add one.\<close>

definition only_expires :: "timestamp \<Rightarrow> capture_system \<Rightarrow> capture_system \<Rightarrow> bool" where
  "only_expires t z z' \<longleftrightarrow>
     listeners_expire t (d_state (z_dispatcher z)) (d_state (z_dispatcher z')) \<and>
     d_health (z_dispatcher z') = d_health (z_dispatcher z) \<and> d_count (z_dispatcher z') = d_count (z_dispatcher z) \<and>
     (\<exists>added. d_handlers (z_dispatcher z') = d_handlers (z_dispatcher z) @ added)"

lemma at_most_expires_refl [simp]: "at_most_expires old d d"
  by (simp add: at_most_expires_def)

lemma missing_counted_refl [simp]: "missing_counted n q q"
  unfolding missing_counted_def by (rule exI [of _ 0]) simp

lemma missing_refl [simp]: "rel_option (missing_counted n) q q"
  by (cases q) simp_all

lemma recent_refl: "\<exists>old rest. recent = old @ rest \<and> list_all P old \<and> x = x\<lparr>x_recent_packets := rest\<rparr>"
  if "recent = x_recent_packets x" for x :: traffic
  using that by (intro exI [of _ "[]"] exI [of _ recent]) simp

lemma listeners_expire_refl [simp]: "listeners_expire t y y"
  by (simp add: listeners_expire_def recent_refl)

lemma purge_expires: "cache_ok c \<Longrightarrow> at_most_expires (\<lambda>n. t - n_last_seen n > 60) (map_of c) (map_of (purge_stale t 60 c))"
  by (auto simp: at_most_expires_def cache_ok_def map_of_purge split: option.split)

lemma claims_expire:
  "owners_ok o' \<Longrightarrow> at_most_expires (\<lambda>seen. t - seen > 600) (claim_time o' ip) (claim_time (prune_stale_macs t o') ip)"
  by (auto simp: at_most_expires_def claim_time_prune unexpired_def MAC_TTL_SECONDS_def split: option.split)

lemma recent_expires:
  "\<exists>old rest. x_recent_packets x = old @ rest \<and> list_all (\<lambda>(seen, _). seen < t - 5) old \<and>
     fst (traffic_get_stats t x) = x\<lparr>x_recent_packets := rest\<rparr>"
proof -
  let ?p = "\<lambda>(seen, _). seen < t - 5"
  have "list_all ?p (takeWhile ?p (x_recent_packets x))" by (auto simp: list_all_iff dest: set_takeWhileD)
  moreover have "fst (traffic_get_stats t x) = x\<lparr>x_recent_packets := dropWhile ?p (x_recent_packets x)\<rparr>"
    by (simp add: traffic_get_stats_def expire_recent_def RATE_WINDOW_SECONDS_def Let_def)
  ultimately show ?thesis by (metis takeWhile_dropWhile_id)
qed

text \<open>Counting missing requests, one after the other.\<close>

lemma missing_counted_trans:
  "rel_option (missing_counted m) q q' \<Longrightarrow> rel_option (missing_counted n) q' q'' \<Longrightarrow>
    rel_option (missing_counted (m + n)) q q''"
proof (cases q; cases q'; cases q''; simp add: missing_counted_def; elim exE conjE)
  fix r r' r'' :: relationship and i j
  assume "i \<le> m" "r' = r\<lparr>q_missing := q_missing r + i\<rparr>" "j \<le> n" "r'' = r'\<lparr>q_missing := q_missing r' + j\<rparr>"
  then show "\<exists>k \<le> m + n. r'' = r\<lparr>q_missing := q_missing r + k\<rparr>" by (intro exI [of _ "i + j"]) simp
qed

lemma count_missing_pending: "m_pending (count_missing k s) = AList.delete k (m_pending s)"
proof (cases "map_of (m_pending s) k")
  case None
  then have "k \<notin> fst ` set (m_pending s)" by (simp add: map_of_eq_None_iff)
  then have "AList.delete k (m_pending s) = m_pending s" by (simp add: delete_id)
  with None show ?thesis by (simp add: count_missing_def)
next
  case (Some e)
  then show ?thesis by (cases k) (simp add: count_missing_def Let_def split: option.split)
qed

lemma count_missing_relationships:
  "rel_option (missing_counted (length (m_pending s) - length (m_pending (count_missing k s))))
     (map_of (m_relationships s) r) (map_of (m_relationships (count_missing k s)) r)"
proof (cases "map_of (m_pending s) k")
  case None
  then show ?thesis by (simp add: count_missing_def)
next
  case (Some e)
  then have "k \<in> fst ` set (m_pending s)" by (simp add: weak_map_of_SomeI image_iff) (metis fst_conv map_of_SomeD)
  then have less: "length (AList.delete k (m_pending s)) < length (m_pending s)"
    by (auto simp: AList.delete_eq intro!: length_filter_less)
  obtain c v tid where k: "k = (c, v, tid)" by (cases k)
  have "rel_option (missing_counted (Suc n)) (map_of (m_relationships s) r)
      (map_of (m_relationships (count_missing k s)) r)" for n
    using Some by (auto simp: k count_missing_def Let_def map_of_update missing_counted_def split: option.split intro: exI [of _ "Suc 0"])
  with less show ?thesis by (metis Suc_diff_Suc count_missing_pending)
qed

lemma fold_count_missing_pending: "m_pending (fold count_missing ks s) = fold AList.delete ks (m_pending s)"
  by (induction ks arbitrary: s) (simp_all add: count_missing_pending)

lemma length_fold_delete_le: "length (fold AList.delete ks d) \<le> length d"
  by (simp add: fold_delete)

lemma fold_count_missing:
  "rel_option (missing_counted (length (m_pending s) - length (m_pending (fold count_missing ks s))))
     (map_of (m_relationships s) r) (map_of (m_relationships (fold count_missing ks s)) r)"
proof (induction ks arbitrary: s)
  case (Cons k ks)
  let ?s = "count_missing k s" and ?final = "fold count_missing ks (count_missing k s)"
  have "length (m_pending ?s) \<le> length (m_pending s)" by (simp add: count_missing_pending length_delete_le)
  moreover have "length (m_pending ?final) \<le> length (m_pending ?s)"
    unfolding fold_count_missing_pending by (rule length_fold_delete_le)
  ultimately have "length (m_pending s) - length (m_pending ?s) + (length (m_pending ?s) - length (m_pending ?final)) =
      length (m_pending s) - length (m_pending ?final)"
    by linarith
  with missing_counted_trans [OF count_missing_relationships Cons.IH] show ?case by (metis fold_simps(2))
qed simp

lemma pending_expires:
  assumes "modbus_traffic_ok s"
  shows "at_most_expires (\<lambda>e. t - p_sent_at e > 5) (map_of (m_pending s)) (map_of (m_pending (prune_stale_pending t s)))"
    and "rel_option (missing_counted (length (m_pending s) - length (m_pending (prune_stale_pending t s))))
      (map_of (m_relationships s) r) (map_of (m_relationships (prune_stale_pending t s)) r)"
proof -
  have wf: "wf_dict (m_pending s)" using assms by (simp add: modbus_traffic_ok_def)
  then have "m_pending (prune_stale_pending t s) = filter (\<lambda>(k, e). \<not> t - p_sent_at e > 5) (m_pending s)"
    using drop_keys [OF wf, of "\<lambda>k e. t - p_sent_at e > 5"]
    by (simp add: fold_count_missing_pending prune_stale_pending_def PENDING_TIMEOUT_SECONDS_def Let_def)
  then show "at_most_expires (\<lambda>e. t - p_sent_at e > 5) (map_of (m_pending s)) (map_of (m_pending (prune_stale_pending t s)))"
    using map_of_filter_wf [OF wf, of "\<lambda>k e. \<not> t - p_sent_at e > 5"]
    by (auto simp: at_most_expires_def split: option.split)
qed (unfold prune_stale_pending_def Let_def, rule fold_count_missing)

text \<open>The events of the routes declared with \<open>get\<close>, with their times.\<close>

fun get_time :: "system_event \<Rightarrow> timestamp option" where
  "get_time (Get_Lldp t) = Some t"
| "get_time (Get_Cdp t) = Some t"
| "get_time (Get_Mndp t) = Some t"
| "get_time (Get_Traffic t) = Some t"
| "get_time (Get_Modbus t) = Some t"
| "get_time (Get_Conflicts t) = Some t"
| "get_time _ = None"

lemma start_keeps:
  "d_state (z_dispatcher (lldp_start i z)) = d_state (z_dispatcher z)"
  "d_state (z_dispatcher (cdp_start i z)) = d_state (z_dispatcher z)"
  "d_state (z_dispatcher (mndp_start i z)) = d_state (z_dispatcher z)"
  "d_state (z_dispatcher (traffic_start a i z)) = d_state (z_dispatcher z)"
  by (simp_all add: start_defs Let_def)

lemma start_dispatcher:
  "d_health (z_dispatcher (lldp_start i z)) = d_health (z_dispatcher z)"
  "d_health (z_dispatcher (cdp_start i z)) = d_health (z_dispatcher z)"
  "d_health (z_dispatcher (mndp_start i z)) = d_health (z_dispatcher z)"
  "d_health (z_dispatcher (traffic_start a i z)) = d_health (z_dispatcher z)"
  "d_count (z_dispatcher (lldp_start i z)) = d_count (z_dispatcher z)"
  "d_count (z_dispatcher (cdp_start i z)) = d_count (z_dispatcher z)"
  "d_count (z_dispatcher (mndp_start i z)) = d_count (z_dispatcher z)"
  "d_count (z_dispatcher (traffic_start a i z)) = d_count (z_dispatcher z)"
  "\<exists>added. d_handlers (z_dispatcher (lldp_start i z)) = d_handlers (z_dispatcher z) @ added"
  "\<exists>added. d_handlers (z_dispatcher (cdp_start i z)) = d_handlers (z_dispatcher z) @ added"
  "\<exists>added. d_handlers (z_dispatcher (mndp_start i z)) = d_handlers (z_dispatcher z) @ added"
  "\<exists>added. d_handlers (z_dispatcher (traffic_start a i z)) = d_handlers (z_dispatcher z) @ added"
  by (simp_all add: start_defs Let_def)

lemma listeners_get_expires:
  assumes "listeners_wf (d_state (z_dispatcher z))" and "get_time e = Some t"
  shows "only_expires t z (snd (listener_route a e z))"
proof -
  have wf: "cache_ok (y_lldp (d_state (z_dispatcher z)))" "cache_ok (y_cdp (d_state (z_dispatcher z)))"
    "cache_ok (y_mndp (d_state (z_dispatcher z)))" "modbus_traffic_ok (y_modbus (d_state (z_dispatcher z)))"
    "owners_ok (y_conflict (d_state (z_dispatcher z)))"
    using assms(1) by (simp_all add: listeners_wf_def)
  show ?thesis
    using assms(2) wf recent_expires [of "y_traffic (d_state (z_dispatcher z))" t]
    by (cases e) (simp_all add: only_expires_def listeners_expire_def with_state_def lldp_get_neighbors_def
        cdp_get_neighbors_def mndp_get_neighbors_def traffic_route_def cache_get_def modbus_get_stats_def
        get_conflicts_def start_keeps start_dispatcher purge_expires claims_expire pending_expires recent_refl
        DEFAULT_STALE_AFTER_def Let_def split_def)
qed

section \<open>Health and system\<close>

record status_report =
  sr_hostname :: pystr
  sr_platform :: pystr
  sr_lanpi_version :: pystr
  sr_backend_uptime_seconds :: int
  sr_capture_dispatcher :: health_report

text \<open>\<open>/status\<close>: the monotonic clock at the start of the backend and now, and the clock of the dispatcher.\<close>

definition status_route ::
  "'w host \<Rightarrow> pystr \<Rightarrow> pystr \<Rightarrow> pystr \<Rightarrow> real \<Rightarrow> timestamp \<Rightarrow> 'w running \<Rightarrow> capture_system \<Rightarrow> status_report" where
  "status_route H version_path hostname platform start_time now s z =
     \<lparr>sr_hostname = hostname, sr_platform = platform, sr_lanpi_version = get_version H version_path s,
      sr_backend_uptime_seconds = py_int (ho_monotonic H (snd s) - start_time),
      sr_capture_dispatcher = get_health now (z_dispatcher z)\<rparr>"

definition health_route :: "(pystr, pystr) dict" where
  "health_route = [(lit ''status'', lit ''ok'')]"

text \<open>\<open>NoCacheMiddleware\<close> of \<open>backend/main.py\<close>: the header is set on every response outside the API.\<close>

definition no_cache :: "(pystr \<Rightarrow> pystr \<Rightarrow> 'r \<Rightarrow> 'r) \<Rightarrow> pystr \<Rightarrow> 'r \<Rightarrow> 'r" where
  "no_cache set_header path response =
     (if \<not> startswith path (lit ''/api/'') then set_header (lit ''Cache-Control'') (lit ''no-cache'') response
      else response)"

end
