(* ===== verification/Api_Body.thy ===== *)
theory Api_Body
  imports Nmcli
begin

text \<open>
  The fields of a request body, for all of \<open>backend/api/routes\<close>.  A field declared \<open>Optional\<close> with a default may
  be left out, be null or have a value; FastAPI gives the route the default in the first case and \<open>None\<close> in
  the second.  Most routes then write \<open>body.field or default\<close>.
\<close>

datatype 'a field = Absent | Null | Given 'a

fun attribute :: "'a option \<Rightarrow> 'a field \<Rightarrow> 'a option" where
  "attribute dflt Absent = dflt"
| "attribute dflt Null = None"
| "attribute dflt (Given v) = Some v"

text \<open>\<open>v or d\<close> for a value that may be \<open>None\<close> and is false when it is the given empty value.\<close>

definition py_or :: "'a \<Rightarrow> 'a option \<Rightarrow> 'a \<Rightarrow> 'a" where
  "py_or falsy v d = (case v of None \<Rightarrow> d | Some x \<Rightarrow> if x = falsy then d else x)"

text \<open>The four ways to ask for the default: leave the field out, null, the false value, the default itself.\<close>

definition spells_default :: "'a \<Rightarrow> 'a \<Rightarrow> 'a field \<Rightarrow> bool" where
  "spells_default falsy d f \<longleftrightarrow> f \<in> {Absent, Null, Given falsy, Given d}"

lemma py_or_default [simp]: "spells_default falsy d f \<Longrightarrow> py_or falsy (attribute (Some d) f) d = d"
  by (auto simp: spells_default_def py_or_def)

lemma py_or_simps [simp]:
  "py_or falsy None d = d" "py_or falsy (Some v) d = (if v = falsy then d else v)"
  by (simp_all add: py_or_def)

end
