(* ===== verification/Api_Network.thy ===== *)
theory Api_Network
  imports Api_Body Wifi Eth0_Mode Link_History
begin

text \<open>
  The routes of \<open>backend/api/routes/network.py\<close>, without those of the passive listeners (theory
  \<open>Api_Listeners\<close>).  Their state is the host and the link history.
\<close>

datatype network_request =
    Eth0_Link
  | Eth0_Link_History
  | Eth0_Link_History_Reset
  | Eth0_Mode_Get
  | Eth0_Mode_Set pystr "pystr field" "pystr field" "pystr field"
  | Wifi_Status
  | Wifi_Scan
  | Wifi_Saved
  | Wifi_Connect pystr "pystr field"
  | Wifi_Add_Known pystr "pystr field"
  | Wifi_Forget pystr
  | Wifi_Retry_Known
  | Ap_Config
  | Ap_Set_Config pystr "pystr field"

datatype network_response =
    Link_Response link_status
  | History_Response "(real \<times> snapshot) list"
  | Mode_Response "eth0_report option"
  | Done bool pystr
  | Wifi_Status_Response "wifi_status option"
  | Wifi_Networks "wifi_network list"
  | Wifi_Profiles "(pystr \<times> pystr) list"
  | Ap_Response "pystr option" bool pystr

definition outcome :: "bool \<times> pystr \<Rightarrow> network_response" where
  "outcome r = Done (fst r) (snd r)"

text \<open>\<open>eth0_mode_set\<close>: the mode decides; an optional field that is missing or null is the empty text.\<close>

definition text_or_empty :: "pystr field \<Rightarrow> pystr" where
  "text_or_empty f = py_or [] (attribute None f) []"

definition eth0_mode_set ::
  "'w host \<Rightarrow> pystr \<Rightarrow> pystr field \<Rightarrow> pystr field \<Rightarrow> pystr field \<Rightarrow> 'w running \<Rightarrow> (bool \<times> pystr) \<times> 'w running" where
  "eth0_mode_set H mode address gateway dns s =
     (if mode = lit ''passive'' then eth0_set_passive H s
      else if mode = lit ''dhcp'' then eth0_set_dhcp H s
      else if mode = lit ''static''
      then eth0_set_static H (text_or_empty address) (text_or_empty gateway) (text_or_empty dns) s
      else ((False, lit ''mode must be passive, dhcp, or static''), s))"

text \<open>\<open>retry_known(wait_seconds=10.0)\<close> may not return when the clock does not advance; the value is \<open>None\<close> then.
  \<open>tmp\<close> is the name of the temporary file of \<open>set_config\<close>.\<close>

fun network_route ::
  "'w host \<Rightarrow> pystr \<Rightarrow> network_request \<Rightarrow> link_log \<Rightarrow> 'w running \<Rightarrow>
    ((exn + network_response) \<times> link_log \<times> 'w running) option" where
  "network_route H tmp Eth0_Link history s =
     (let (r, s') = get_link_status H ETH0 s in Some (rbind r (\<lambda>x. Inr (Link_Response x)), history, s'))"
| "network_route H tmp Eth0_Link_History history s = Some (Inr (History_Response (get_history history)), history, s)"
| "network_route H tmp Eth0_Link_History_Reset history s =
     (let (r, history') = link_reset history in Some (Inr (outcome r), history', s))"
| "network_route H tmp Eth0_Mode_Get history s =
     (let (r, s') = eth0_get_mode H s in Some (rbind r (\<lambda>x. Inr (Mode_Response x)), history, s'))"
| "network_route H tmp (Eth0_Mode_Set mode address gateway dns) history s =
     (let (r, s') = eth0_mode_set H mode address gateway dns s in Some (Inr (outcome r), history, s'))"
| "network_route H tmp Wifi_Status history s =
     (let (r, s') = wifi_get_status H s in Some (rbind r (\<lambda>x. Inr (Wifi_Status_Response x)), history, s'))"
| "network_route H tmp Wifi_Scan history s =
     (let (r, s') = wifi_scan H s in Some (Inr (Wifi_Networks r), history, s'))"
| "network_route H tmp Wifi_Saved history s =
     (let (r, s') = wifi_list_saved H s in Some (Inr (Wifi_Profiles r), history, s'))"
| "network_route H tmp (Wifi_Connect ssid password) history s =
     (let (r, s') = wifi_connect H ssid (attribute None password) s in Some (Inr (outcome r), history, s'))"
| "network_route H tmp (Wifi_Add_Known ssid password) history s =
     (let (r, s') = add_known H ssid (attribute None password) s in Some (Inr (outcome r), history, s'))"
| "network_route H tmp (Wifi_Forget name) history s =
     (let (r, s') = wifi_forget H name s in Some (Inr (outcome r), history, s'))"
| "network_route H tmp Wifi_Retry_Known history s =
     map_option (\<lambda>(r, s'). (rbind r (\<lambda>x. Inr (outcome x)), history, s')) (retry_known H 10 s)"
| "network_route H tmp Ap_Config history s =
     (let ssid = ap_get_ssid H s; (active, s') = ap_is_active H s
      in Some (Inr (Ap_Response ssid active AP_ADDRESS), history, s'))"
| "network_route H tmp (Ap_Set_Config ssid password) history s =
     (let (r, written, s') = ap_set_config H tmp ssid (attribute None password) s in Some (Inr (outcome r), history, s'))"

section \<open>Setting the mode\<close>

text \<open>C21: \<open>POST /network/eth0/mode\<close> stays on the test port, and does nothing for a mode it does not know.  Whatever
  the body and whatever the commands return: every command that the request runs with privileges disconnects
  eth0, or creates, modifies or activates the one profile lanpi-eth0 (created with autoconnect off); the only
  other command lists the profile names; wlan0 and every other profile are left alone.  A mode other than
  passive, dhcp and static, and a static address without a prefix length (left out, null, or without a slash),
  are refused before any command.\<close>

theorem eth0_mode_set_confined:
  "let (r, s') = eth0_mode_set H mode address gateway dns ([], w) in
     list_all (port_entry H) (fst s') \<and>
     (mode \<in> {lit ''passive'', lit ''dhcp''} \<or> mode = lit ''static'' \<and> 47 \<in> set (text_or_empty address) \<or>
      \<not> fst r \<and> s' = ([], w))"
proof -
  have "port_log H (snd (eth0_mode_set H mode address gateway dns ([], w)))"
    by (simp add: eth0_mode_set_def port_log_setters) (simp add: port_log_def)
  moreover have "mode \<in> {lit ''passive'', lit ''dhcp''} \<or> mode = lit ''static'' \<and> 47 \<in> set (text_or_empty address) \<or>
      \<not> fst (fst (eth0_mode_set H mode address gateway dns ([], w))) \<and>
      snd (eth0_mode_set H mode address gateway dns ([], w)) = ([], w)"
    by (auto simp: eth0_mode_set_def eth0_set_static_def)
  ultimately show ?thesis by (simp add: port_log_def Let_def split_def)
qed

end
