(* ===== verification/Api_Capture.thy ===== *)
theory Api_Capture
  imports Api_Body Pcap_Session
begin

text \<open>
  The routes of \<open>backend/api/routes/capture.py\<close> over the world of the capture session.  A start that passes
  its checks goes on as a call of that world (\<open>step_call\<close>), which answers later.
\<close>

datatype capture_request =
    Capture_Start "int field" "pystr field"
  | Capture_Status
  | Capture_Stop
  | Capture_List
  | Capture_Delete pystr
  | Capture_Download pystr

datatype capture_response =
    Answered bool pystr
  | Going_On
  | Capture_Report capture_status
  | Capture_Rows "capture_row list"
  | Not_Found
  | File_Response "pystr list" pystr

text \<open>What surrounds a request: the result of \<open>find_binary\<close>, the local time as text, the clock, the answers of the
  directory operations and the path of the capture directory.\<close>

record capture_answers =
  ca_tcpdump :: "pystr option"
  ca_session_start :: pystr
  ca_time :: real
  ca_os :: os_answers
  ca_base :: "pystr list"

definition capture_start_request :: "capture_answers \<Rightarrow> int field \<Rightarrow> pystr field \<Rightarrow> request" where
  "capture_start_request A duration bpf_filter =
     \<lparr>rq_interface = lit ''eth0'', rq_duration = attribute None duration, rq_filter = attribute None bpf_filter,
      rq_tcpdump = ca_tcpdump A, rq_session_start = ca_session_start A\<rparr>"

text \<open>The last reply, if the operation has made one.\<close>

definition answer_of :: "world \<Rightarrow> world \<Rightarrow> capture_response" where
  "answer_of w w' =
     (if length (w_replies w') = length (w_replies w) then Going_On
      else Answered (fst (last (w_replies w'))) (snd (last (w_replies w'))))"

fun capture_route ::
  "capture_answers \<Rightarrow> capture_request \<Rightarrow> world \<Rightarrow> (exn + capture_response) \<times> world" where
  "capture_route A (Capture_Start duration bpf_filter) w =
     (let w' = start_begin (capture_start_request A duration bpf_filter) w in (Inr (answer_of w w'), w'))"
| "capture_route A Capture_Status w = (Inr (Capture_Report (pcap_status (ca_time A) (w_state w))), w)"
| "capture_route A Capture_Stop w = (let w' = pcap_stop w in (Inr (answer_of w w'), w'))"
| "capture_route A Capture_List w = (rbind (list_captures (ca_os A) (w_dir w)) (\<lambda>rows. Inr (Capture_Rows rows)), w)"
| "capture_route A (Capture_Delete filename) w =
     (case delete_capture (ca_os A) (ca_base A) filename (w_dir w) of
        Inl e \<Rightarrow> (Inl e, w)
      | Inr ((ok, m), unlinked, dir) \<Rightarrow> (Inr (Answered ok m), w\<lparr>w_dir := dir\<rparr>))"
| "capture_route A (Capture_Download filename) w =
     (case get_capture_path (ca_os A) (ca_base A) (w_dir w) filename of
        None \<Rightarrow> (Inr Not_Found, w)
      | Some path \<Rightarrow> (Inr (File_Response path filename), w))"

text \<open>What a request does to the world is an action of the capture session, or nothing.\<close>

definition capture_action :: "capture_answers \<Rightarrow> capture_request \<Rightarrow> world \<Rightarrow> pcap_action option" where
  "capture_action A req w =
     (case req of
        Capture_Start duration bpf_filter \<Rightarrow> Some (Begin (capture_start_request A duration bpf_filter))
      | Capture_Stop \<Rightarrow> Some Stop
      | Capture_Delete filename \<Rightarrow>
          (case delete_capture (ca_os A) (ca_base A) filename (w_dir w) of
             Inl e \<Rightarrow> None | Inr (r, unlinked, dir) \<Rightarrow> Some (Files dir))
      | _ \<Rightarrow> None)"

lemma capture_route_performs:
  "snd (capture_route A req w) = (case capture_action A req w of None \<Rightarrow> w | Some act \<Rightarrow> perform act w)"
  by (cases req) (simp_all add: capture_action_def Let_def split: option.split sum.split prod.split)

end
