(* ===== verification/Api_Address.thy ===== *)
theory Api_Address
  imports Api_Body Tool_Source Modbus_Client
begin

text \<open>
  The address of the test port as the routes of the active tools meet it.  Every tool that opens connections
  has the function \<open>_eth0_source_ip\<close>, which asks NetworkManager for the mode of eth0 once the arguments
  have passed their checks.
\<close>

definition checked_address :: "'w host \<Rightarrow> bool \<Rightarrow> 'w running \<Rightarrow> (exn + pystr option) \<times> 'w running" where
  "checked_address H refused s =
     (if refused then (Inr None, s)
      else let (mode, s') = eth0_get_mode H s in (rbind mode (\<lambda>m. Inr (Option.bind m er_address)), s'))"

text \<open>The host reports no address for eth0: its mode is passive, or it has no lease, or nmcli fails.\<close>

definition no_address :: "'w host \<Rightarrow> 'w running \<Rightarrow> bool" where
  "no_address H s \<longleftrightarrow> (case fst (eth0_get_mode H s) of Inl e \<Rightarrow> False | Inr m \<Rightarrow> \<not> truthy (source_ip_of_mode m))"

text \<open>The host after a request that has at most asked for the mode.\<close>

definition only_asked :: "'w host \<Rightarrow> 'w running \<Rightarrow> 'w running \<Rightarrow> bool" where
  "only_asked H s s' \<longleftrightarrow> s' \<in> {s, snd (eth0_get_mode H s)}"

lemma only_asked_refl [simp]: "only_asked H s s" "only_asked H s (snd (eth0_get_mode H s))"
  by (simp_all add: only_asked_def)

lemma source_ip_same: "source_ip_of_mode m = eth0_source_ip (Option.bind m er_address)"
  by (auto simp: source_ip_of_mode_def eth0_source_ip_def split: option.split)

lemma no_tool_source:
  assumes "no_address H s"
  obtains ip where "tool_source_ip H s = (Inr ip, snd (eth0_get_mode H s))" and "\<not> truthy ip"
proof -
  obtain mode s' where "eth0_get_mode H s = (mode, s')" by (rule prod.exhaust)
  with assms that show ?thesis by (cases mode) (auto simp: no_address_def tool_source_ip_def)
qed

lemma no_checked_address:
  assumes "no_address H s"
  obtains a s' where "checked_address H refused s = (Inr a, s')" and "\<not> truthy (eth0_source_ip a)"
    and "only_asked H s s'"
proof -
  obtain mode s' where m: "eth0_get_mode H s = (mode, s')" by (rule prod.exhaust)
  have "\<not> truthy (eth0_source_ip None)" by (simp add: eth0_source_ip_def truthy_def)
  with assms m that show ?thesis
    by (cases mode; cases refused) (auto simp: no_address_def checked_address_def source_ip_same only_asked_def)
qed

end
