(* ===== verification/Api_Tools.thy ===== *)
theory Api_Tools
  imports Api_Address Ping Mtr Arp_Scan Tcp_Test Nmap_Scans Profinet S7_Diag
begin

text \<open>
  The routes of \<open>backend/api/routes/tools.py\<close> over the states of the modules they call.  The scans run on the
  test port, the constant of \<open>_shared.py\<close>, which \<open>Eth0_Mode\<close> calls \<open>ETH0\<close>.
\<close>

section \<open>State and surroundings\<close>

text \<open>Ping and mtr with the readers of the processes they have started, and the two nmap scans.\<close>

record tool_session =
  ts_ping :: "ping \<times> ping_event reader list"
  ts_mtr :: "mtr \<times> finished reader list"
  ts_ip_scan :: ip_scan
  ts_port_scan :: port_scan

definition tool_session0 :: tool_session where
  "tool_session0 = \<lparr>ts_ping = (ping0, []), ts_mtr = (mtr0, []), ts_ip_scan = ip_scan0, ts_port_scan = port_scan0\<rparr>"

text \<open>What surrounds a request: the host; what \<open>Popen\<close> gives; the lines a new ping will print and what a new
  mtr will return; the outcome of a TCP connection; the raw socket and IDNA codec of the PROFINET scan; the S7
  connections and the time they take.\<close>

record 'w tool_answers =
  ta_host :: "'w host"
  ta_popen :: "pystr + nat"
  ta_ping_lines :: "pystr list"
  ta_mtr_finished :: finished
  ta_tcp :: "pystr \<Rightarrow> pystr \<Rightarrow> int \<Rightarrow> real \<times> real \<times> tcp_outcome"
  ta_scan_env :: scan_env
  ta_idna :: "pystr \<Rightarrow> pystr option"
  ta_s7 :: "nat \<Rightarrow> s7_socket"
  ta_elapsed :: real

section \<open>The S7 client and the address of eth0\<close>

text \<open>\<open>identify\<close> and \<open>read_tag\<close> ask for the mode of eth0 after the checks of their arguments.\<close>

definition identify_refused :: "pystr \<Rightarrow> int \<Rightarrow> bool" where
  "identify_refused target_host port \<longleftrightarrow> strip target_host = [] \<or> \<not> (1 \<le> port \<and> port \<le> 65535)"

definition read_tag_refused :: "pystr \<Rightarrow> pystr \<Rightarrow> int \<Rightarrow> pystr \<Rightarrow> int \<Rightarrow> int \<Rightarrow> int \<Rightarrow> bool" where
  "read_tag_refused target_host area byte_offset tag_type port db_number bit_offset \<longleftrightarrow>
     read_tag_checks (strip target_host) port (upper (strip area)) db_number byte_offset (upper (strip tag_type)) bit_offset
       \<noteq> None"

definition with_address ::
  "'w host \<Rightarrow> bool \<Rightarrow> (pystr option \<Rightarrow> exn + 'r) \<Rightarrow> 'w running \<Rightarrow> (exn + 'r) \<times> 'w running" where
  "with_address H refused call s =
     (let (source, s') = checked_address H refused s in (rbind source call, s'))"

section \<open>Requests and responses\<close>

datatype tool_request =
    Ping_Start pystr "int field"
  | Ping_Status
  | Ping_Stop
  | Arp_Scan_Run "pystr field"
  | Tcp_Test_Run pystr int
  | Mtr_Start pystr "int field"
  | Mtr_Status
  | Mtr_Stop
  | Ip_Scan_Start pystr
  | Ip_Scan_Status
  | Ip_Scan_Stop
  | Port_Scan_Start pystr pystr
  | Port_Scan_Status
  | Port_Scan_Stop
  | Profinet_Scan_Run
  | S7_Identify pystr "int field"
  | S7_Read_Tag pystr pystr int pystr "int field" "int field" "int field"

text \<open>The reply of a \<open>start\<close> or \<open>stop\<close> comes with the process that it signals, if any; that of a PROFINET scan
  with the request it has sent.\<close>

datatype tool_response =
    Tool_Reply tool_reply "nat option"
  | Ping_Response ping_report
  | Arp_Response arp_report
  | Tcp_Response tcp_reply
  | Mtr_Response "bool \<times> pystr option \<times> int option \<times> bool option \<times> pystr option \<times> hop list"
  | Ip_Scan_Response "bool \<times> pystr option \<times> ip_host list"
  | Port_Scan_Response "bool \<times> pystr option \<times> pystr option \<times> bool option \<times> pystr option \<times> open_port list"
  | Profinet_Response scan_result "bytes option"
  | Identify_Response identify_result
  | Tag_Response tag_result

text \<open>\<open>scan(interface, timeout=3.0)\<close> may not return; its value is \<open>None\<close> then, and so is that of the route.\<close>

definition profinet_route :: "'w tool_answers \<Rightarrow> (exn + tool_response) option" where
  "profinet_route A =
     (let (sent, result) = pn_scan (ta_idna A) ETH0 3 (ta_scan_env A)
      in map_option (\<lambda>r. rbind r (\<lambda>x. Inr (Profinet_Response x sent))) result)"

abbreviation port_102 :: "int field \<Rightarrow> int" where
  "port_102 f \<equiv> py_or 0 (attribute (Some 102) f) 102"

abbreviation zero_or :: "int field \<Rightarrow> int" where
  "zero_or f \<equiv> py_or 0 (attribute (Some 0) f) 0"

fun tool_route ::
  "'w tool_answers \<Rightarrow> tool_request \<Rightarrow> tool_session \<Rightarrow> 'w running \<Rightarrow>
    ((exn + tool_response) \<times> tool_session \<times> 'w running) option" where
  "tool_route A (Ping_Start target_host packets) st s =
     (case ping_start (ta_host A) target_host (attribute None packets) (ta_popen A) (ta_ping_lines A) (ts_ping st) s of
        (Inl e, s') \<Rightarrow> Some (Inl e, st, s')
      | (Inr (r, killed, w), s') \<Rightarrow> Some (Inr (Tool_Reply r killed), st\<lparr>ts_ping := w\<rparr>, s'))"
| "tool_route A Ping_Status st s = Some (Inr (Ping_Response (ping_status (fst (ts_ping st)))), st, s)"
| "tool_route A Ping_Stop st s =
     (let (r, killed, p) = ping_stop (fst (ts_ping st))
      in Some (Inr (Tool_Reply r killed), st\<lparr>ts_ping := (p, snd (ts_ping st))\<rparr>, s))"
| "tool_route A (Arp_Scan_Run network) st s =
     (let (r, s') = arp_scan (ta_host A) ETH0 (attribute None network) s in Some (Inr (Arp_Response r), st, s'))"
| "tool_route A (Tcp_Test_Run target_host port) st s =
     (let (r, s') = test_port (ta_host A) (ta_tcp A) target_host port s
      in Some (rbind r (\<lambda>x. Inr (Tcp_Response x)), st, s'))"
| "tool_route A (Mtr_Start target_host cycles) st s =
     (case mtr_start (ta_host A) target_host (py_or 0 (attribute (Some 10) cycles) 10) (ta_popen A) (ta_mtr_finished A)
             (ts_mtr st) s of
        (Inl e, s') \<Rightarrow> Some (Inl e, st, s')
      | (Inr (r, killed, w), s') \<Rightarrow> Some (Inr (Tool_Reply r killed), st\<lparr>ts_mtr := w\<rparr>, s'))"
| "tool_route A Mtr_Status st s = Some (Inr (Mtr_Response (mtr_status (fst (ts_mtr st)))), st, s)"
| "tool_route A Mtr_Stop st s =
     (let (r, killed, m) = mtr_stop (fst (ts_mtr st))
      in Some (Inr (Tool_Reply r killed), st\<lparr>ts_mtr := (m, snd (ts_mtr st))\<rparr>, s))"
| "tool_route A (Ip_Scan_Start target) st s =
     (case ip_start (ta_host A) target ETH0 (ta_popen A) (ts_ip_scan st) s of
        (Inl e, s') \<Rightarrow> Some (Inl e, st, s')
      | (Inr (r, killed, scan), s') \<Rightarrow> Some (Inr (Tool_Reply r killed), st\<lparr>ts_ip_scan := scan\<rparr>, s'))"
| "tool_route A Ip_Scan_Status st s = Some (Inr (Ip_Scan_Response (ip_status (ts_ip_scan st))), st, s)"
| "tool_route A Ip_Scan_Stop st s =
     (let (r, killed, scan) = ip_stop (ts_ip_scan st) in Some (Inr (Tool_Reply r killed), st\<lparr>ts_ip_scan := scan\<rparr>, s))"
| "tool_route A (Port_Scan_Start target_host port_range) st s =
     (case pt_start (ta_host A) target_host port_range ETH0 (ta_popen A) (ts_port_scan st) s of
        (Inl e, s') \<Rightarrow> Some (Inl e, st, s')
      | (Inr (r, killed, scan), s') \<Rightarrow> Some (Inr (Tool_Reply r killed), st\<lparr>ts_port_scan := scan\<rparr>, s'))"
| "tool_route A Port_Scan_Status st s = Some (Inr (Port_Scan_Response (pt_status (ts_port_scan st))), st, s)"
| "tool_route A Port_Scan_Stop st s =
     (let (r, killed, scan) = pt_stop (ts_port_scan st)
      in Some (Inr (Tool_Reply r killed), st\<lparr>ts_port_scan := scan\<rparr>, s))"
| "tool_route A Profinet_Scan_Run st s = map_option (\<lambda>r. (r, st, s)) (profinet_route A)"
| "tool_route A (S7_Identify target_host port) st s =
     (let p = port_102 port;
          (r, s') = with_address (ta_host A) (identify_refused target_host p)
            (\<lambda>a. identify target_host p a (ta_s7 A) (ta_elapsed A)) s
      in Some (rbind r (\<lambda>x. Inr (Identify_Response x)), st, s'))"
| "tool_route A (S7_Read_Tag target_host area byte_offset tag_type port db_number bit_offset) st s =
     (let p = port_102 port; db = zero_or db_number; b = zero_or bit_offset;
          (r, s') = with_address (ta_host A) (read_tag_refused target_host area byte_offset tag_type p db b)
            (\<lambda>a. read_tag target_host area byte_offset tag_type p db b a (ta_s7 A) (ta_elapsed A)) s
      in Some (rbind r (\<lambda>x. Inr (Tag_Response x)), st, s'))"

section \<open>Without an address\<close>

text \<open>The routes that send from the address of eth0.  The ARP and PROFINET scans send frames of their own.\<close>

fun tool_connects :: "tool_request \<Rightarrow> bool" where
  "tool_connects (Ping_Start target_host packets) = True"
| "tool_connects (Tcp_Test_Run target_host port) = True"
| "tool_connects (Mtr_Start target_host cycles) = True"
| "tool_connects (Ip_Scan_Start target) = True"
| "tool_connects (Port_Scan_Start target_host port_range) = True"
| "tool_connects (S7_Identify target_host port) = True"
| "tool_connects (S7_Read_Tag target_host area byte_offset tag_type port db_number bit_offset) = True"
| "tool_connects _ = False"

text \<open>A refusal: not ok, with a message, and no process started, ended or asked.\<close>

fun tool_refusal :: "tool_response \<Rightarrow> bool" where
  "tool_refusal (Tool_Reply (False, Some m) None) = True"
| "tool_refusal (Tcp_Response r) = (\<not> tr_ok r \<and> tr_message r \<noteq> None \<and> tr_latency_ms r = None)"
| "tool_refusal (Identify_Response (IdRefused m)) = True"
| "tool_refusal (Tag_Response (TagRefused m)) = True"
| "tool_refusal _ = False"

text \<open>The checks end in a message.\<close>

definition check_ends :: "'w host \<Rightarrow> 'w running \<Rightarrow> (exn + (pystr + command)) \<times> 'w running \<Rightarrow> bool" where
  "check_ends H s x \<longleftrightarrow>
     (case fst x of Inl e \<Rightarrow> False | Inr c \<Rightarrow> (case c of Inl m \<Rightarrow> True | Inr args \<Rightarrow> False)) \<and> only_asked H s (snd x)"

lemma check_endsE:
  assumes "check_ends H s x"
  obtains m s' where "x = (Inr (Inl m), s')" and "only_asked H s s'"
  using assms by (cases x) (auto simp: check_ends_def split: sum.splits)

lemma checks_no_source:
  assumes "no_address H s"
  shows "check_ends H s (ping_check H h c s)" and "check_ends H s (mtr_check H h n s)"
    and "check_ends H s (ip_check H h i s)" and "check_ends H s (pt_check H h p i s)"
proof -
  obtain ip where ip: "tool_source_ip H s = (Inr ip, snd (eth0_get_mode H s))" "\<not> truthy ip"
    by (rule no_tool_source [OF assms])
  have nmap: "check_ends H s (nmap_check H args s)" for args
    using ip by (simp add: check_ends_def nmap_check_def split: option.split)
  show "check_ends H s (ping_check H h c s)"
    using ip by (simp add: check_ends_def ping_check_def split: option.split)
  show "check_ends H s (mtr_check H h n s)"
    using ip by (simp add: check_ends_def mtr_check_def split: option.split)
  show "check_ends H s (ip_check H h i s)" using nmap by (simp add: ip_check_def) (simp add: check_ends_def)
  show "check_ends H s (pt_check H h p i s)"
    using nmap by (simp add: pt_check_def split: option.split) (simp add: check_ends_def)
qed

lemma tool_route_no_address:
  assumes "no_address (ta_host A) s" and "tool_connects req"
  obtains resp s' where "tool_route A req st s = Some (Inr resp, st, s')" and "tool_refusal resp"
    and "only_asked (ta_host A) s s'"
proof (cases req)
  case (Ping_Start h c)
  obtain m s' where "ping_check (ta_host A) (strip h) (attribute None c) s = (Inr (Inl m), s')"
    "only_asked (ta_host A) s s'" by (rule check_endsE [OF checks_no_source(1) [OF assms(1)]])
  then show ?thesis
    by (intro that [of "Tool_Reply (False, Some m) None" s']) (simp_all add: Ping_Start ping_start_def)
next
  case (Mtr_Start h n)
  obtain m s' where "mtr_check (ta_host A) (strip h) (py_or 0 (attribute (Some 10) n) 10) s = (Inr (Inl m), s')"
    "only_asked (ta_host A) s s'" by (rule check_endsE [OF checks_no_source(2) [OF assms(1)]])
  then show ?thesis
    by (intro that [of "Tool_Reply (False, Some m) None" s']) (simp_all add: Mtr_Start mtr_start_def)
next
  case (Ip_Scan_Start h)
  obtain m s' where "ip_check (ta_host A) (strip h) ETH0 s = (Inr (Inl m), s')"
    "only_asked (ta_host A) s s'" by (rule check_endsE [OF checks_no_source(3) [OF assms(1)]])
  then show ?thesis
    by (intro that [of "Tool_Reply (False, Some m) None" s']) (simp_all add: Ip_Scan_Start ip_start_def)
next
  case (Port_Scan_Start h p)
  obtain m s' where "pt_check (ta_host A) (strip h) p ETH0 s = (Inr (Inl m), s')"
    "only_asked (ta_host A) s s'" by (rule check_endsE [OF checks_no_source(4) [OF assms(1)]])
  then show ?thesis
    by (intro that [of "Tool_Reply (False, Some m) None" s']) (simp_all add: Port_Scan_Start pt_start_def)
next
  case (Tcp_Test_Run h p)
  obtain ip where ip: "tool_source_ip (ta_host A) s = (Inr ip, snd (eth0_get_mode (ta_host A) s))" "\<not> truthy ip"
    by (rule no_tool_source [OF assms(1)])
  let ?t = "test_port (ta_host A) (ta_tcp A) h p s"
  have "(case fst ?t of Inl e \<Rightarrow> False | Inr r \<Rightarrow> tool_refusal (Tcp_Response r)) \<and> only_asked (ta_host A) s (snd ?t)"
    using ip by (simp add: test_port_def tcp_error_def)
  then show ?thesis using that by (cases ?t) (auto simp: Tcp_Test_Run split: sum.splits)
next
  case (S7_Identify h p)
  obtain a s' where c: "checked_address (ta_host A) (identify_refused h (port_102 p)) s = (Inr a, s')"
    "\<not> truthy (eth0_source_ip a)" "only_asked (ta_host A) s s'"
    using no_checked_address [OF assms(1)] by blast
  then have "\<exists>m. identify h (port_102 p) a (ta_s7 A) (ta_elapsed A) = Inr (IdRefused m)"
    by (auto simp: identify_def truthy_def split: option.split)
  with c that show ?thesis by (auto simp: S7_Identify with_address_def)
next
  case (S7_Read_Tag h ar bo ty p db b)
  obtain a s' where c: "checked_address (ta_host A)
      (read_tag_refused h ar bo ty (port_102 p) (zero_or db) (zero_or b)) s = (Inr a, s')"
    "\<not> truthy (eth0_source_ip a)" "only_asked (ta_host A) s s'"
    using no_checked_address [OF assms(1)] by blast
  then have "\<exists>m. read_tag h ar bo ty (port_102 p) (zero_or db) (zero_or b) a (ta_s7 A) (ta_elapsed A) =
      Inr (TagRefused m)"
    by (auto simp: read_tag_def Let_def truthy_def split: option.split)
  with c that show ?thesis by (auto simp: S7_Read_Tag with_address_def)
qed (use assms(2) in simp_all)

end
