(* ===== verification/Api_Modbus.thy ===== *)
theory Api_Modbus
  imports Api_Address Poll_Thread Modbus_Register_Scan Modbus_Device_Id Modbus_Templates
begin

text \<open>
  The routes of \<open>backend/api/routes/modbus.py\<close> over the states of the modules they call, without the two of
  the passive traffic analysis (theory \<open>Api_Listeners\<close>).  A request is a constructor with the fields of its
  body; a route is one equation of \<open>modbus_route\<close>.
\<close>

section \<open>State and surroundings\<close>

text \<open>The background threads that \<open>start\<close> functions have made, with their arguments.\<close>

datatype (discs_sels) modbus_thread =
    Unit_Scan_Thread pystr "nat list" int real nat
  | Register_Scan_Thread pystr int nat nat nat int real nat
  | Poll_Thread pystr int int int int int int nat

record modbus_session =
  ms_transaction_id :: nat
  ms_unit_scan :: unit_scan
  ms_reg_scan :: reg_scan
  ms_poll :: poll
  ms_threads :: "modbus_thread list"

definition modbus_session0 :: modbus_session where
  "modbus_session0 = \<lparr>ms_transaction_id = 0, ms_unit_scan = unit_scan0, ms_reg_scan = reg_scan0, ms_poll = poll0,
     ms_threads = []\<rparr>"

text \<open>What surrounds a request: the host, what a connection made when the transaction counter is at \<open>tid\<close>
  finds, the time an exchange takes, the two template files, and \<open>modbus.read\<close> on values of a template that
  are not integers.\<close>

record 'w modbus_answers =
  ma_host :: "'w host"
  ma_network :: "nat \<Rightarrow> network"
  ma_id_network :: "nat \<Rightarrow> id_network"
  ma_elapsed :: real
  ma_templates :: file_read
  ma_example :: file_read
  ma_read_other :: "(nat \<times> 'w running) json_reader"

section \<open>Calls\<close>

text \<open>An exception of \<open>modbus.read\<close> comes after the request has taken its transaction id.\<close>

definition read_at ::
  "'w modbus_answers \<Rightarrow> pystr \<Rightarrow> int \<Rightarrow> int \<Rightarrow> int \<Rightarrow> int \<Rightarrow> int \<Rightarrow> nat \<times> 'w running \<Rightarrow>
    (exn + read_result) \<times> nat \<times> 'w running" where
  "read_at A host port unit_id function_code address quantity w =
     (let (tid, s) = w;
          refused = (read_checks (strip host) unit_id function_code address quantity port \<noteq> None);
          (source, s') = checked_address (ma_host A) refused s
      in case source of
           Inl e \<Rightarrow> (Inl e, tid, s')
         | Inr a \<Rightarrow>
             (case modbus_read host unit_id function_code address quantity port a tid (ma_network A tid) (ma_elapsed A) of
                Inl e \<Rightarrow> (Inl e, next_transaction_id tid, s')
              | Inr (r, tid') \<Rightarrow> (Inr r, tid', s')))"

text \<open>An exception of the identification comes from \<open>connect\<close>, before the first request.\<close>

definition identify_at ::
  "'w modbus_answers \<Rightarrow> pystr \<Rightarrow> int \<Rightarrow> int \<Rightarrow> nat \<times> 'w running \<Rightarrow> (exn + id_result) \<times> nat \<times> 'w running" where
  "identify_at A host port unit_id w =
     (let (tid, s) = w; refused = (id_checks (strip host) unit_id port \<noteq> None);
          (source, s') = checked_address (ma_host A) refused s
      in case source of
           Inl e \<Rightarrow> (Inl e, tid, s')
         | Inr a \<Rightarrow>
             (case read_device_identification host unit_id port a tid (ma_id_network A tid) (ma_elapsed A) of
                Inl e \<Rightarrow> (Inl e, tid, s')
              | Inr (r, tid') \<Rightarrow> (Inr r, tid', s')))"

fun template_reader :: "'w modbus_answers \<Rightarrow> pystr \<Rightarrow> int \<Rightarrow> (nat \<times> 'w running) json_reader" where
  "template_reader A host port (JInt u) (JInt f) (JInt a) (JInt q) w =
     read_at A host port u f a q w"
| "template_reader A host port u f a q w = ma_read_other A u f a q w"

section \<open>Requests and responses\<close>

datatype modbus_request =
    Read_Registers pystr "int field" int int int int
  | List_Templates
  | Read_Template pystr pystr "int field"
  | Read_Device_Id pystr "int field" int
  | Decode_Values "int list" "pystr field"
  | Unit_Scan_Start pystr "int field" int int "real field"
  | Unit_Scan_Status
  | Unit_Scan_Stop
  | Register_Scan_Start pystr "int field" pystr int int int "real field"
  | Register_Scan_Status
  | Register_Scan_Stop
  | Poll_Start pystr "int field" int int int "int field" "int field"
  | Poll_Status
  | Poll_Stop

datatype modbus_response =
    Read_Response read_result
  | Templates json
  | Template_Response "pystr + json \<times> template_result list"
  | Device_Id_Response id_result
  | Decode_Response "pystr + decoded"
  | Started
  | Not_Started pystr
  | Stopped pystr
  | Unit_Report unit_report
  | Register_Report reg_report
  | Poll_Report poll_report

abbreviation port_502 :: "int field \<Rightarrow> int" where
  "port_502 f \<equiv> py_or 0 (attribute (Some 502) f) 502"

abbreviation timeout_1 :: "real field \<Rightarrow> real" where
  "timeout_1 f \<equiv> py_or 0 (attribute (Some 1) f) 1"

fun modbus_route ::
  "'w modbus_answers \<Rightarrow> modbus_request \<Rightarrow> modbus_session \<Rightarrow> 'w running \<Rightarrow>
    (exn + modbus_response) \<times> modbus_session \<times> 'w running" where
  "modbus_route A (Read_Registers host port unit_id function_code address quantity) st s =
     (let (r, tid, s') = read_at A host (port_502 port) unit_id function_code address quantity (ms_transaction_id st, s)
      in (rbind r (\<lambda>x. Inr (Read_Response x)), st\<lparr>ms_transaction_id := tid\<rparr>, s'))"
| "modbus_route A List_Templates st s =
     (rbind (list_templates (ma_templates A) (ma_example A)) (\<lambda>t. Inr (Templates t)), st, s)"
| "modbus_route A (Read_Template template_id host port) st s =
     (let (r, tid, s') = read_template (template_reader A host (port_502 port))
             (list_templates (ma_templates A) (ma_example A)) template_id (ms_transaction_id st, s)
      in (rbind r (\<lambda>x. Inr (Template_Response x)), st\<lparr>ms_transaction_id := tid\<rparr>, s'))"
| "modbus_route A (Read_Device_Id host port unit_id) st s =
     (let (r, tid, s') = identify_at A host (port_502 port) unit_id (ms_transaction_id st, s)
      in (rbind r (\<lambda>x. Inr (Device_Id_Response x)), st\<lparr>ms_transaction_id := tid\<rparr>, s'))"
| "modbus_route A (Decode_Values values byte_order) st s =
     (Inr (Decode_Response (decode_registers values
        (py_or [] (attribute (Some (lit ''ABCD'')) byte_order) (lit ''ABCD'')))), st, s)"
| "modbus_route A (Unit_Scan_Start host port start_unit end_unit timeout) st s =
     (case us_start host start_unit end_unit (port_502 port) (timeout_1 timeout) (ms_unit_scan st) of
        Inl m \<Rightarrow> (Inr (Not_Started m), st, s)
      | Inr (scan, units, scan_id) \<Rightarrow>
          (Inr Started, st\<lparr>ms_unit_scan := scan, ms_threads := ms_threads st @
             [Unit_Scan_Thread (strip host) units (port_502 port) (timeout_1 timeout) scan_id]\<rparr>, s))"
| "modbus_route A Unit_Scan_Status st s = (Inr (Unit_Report (us_status (ms_unit_scan st))), st, s)"
| "modbus_route A Unit_Scan_Stop st s =
     (let (scan, m) = us_stop (ms_unit_scan st) in (Inr (Stopped m), st\<lparr>ms_unit_scan := scan\<rparr>, s))"
| "modbus_route A (Register_Scan_Start host port register_type unit_id start_address end_address timeout) st s =
     (case rs_start host register_type unit_id start_address end_address (port_502 port) (timeout_1 timeout)
             (ms_reg_scan st) of
        Inl m \<Rightarrow> (Inr (Not_Started m), st, s)
      | Inr (scan, fc, a, n, scan_id) \<Rightarrow>
          (Inr Started, st\<lparr>ms_reg_scan := scan, ms_threads := ms_threads st @
             [Register_Scan_Thread (strip host) unit_id fc a n (port_502 port) (timeout_1 timeout) scan_id]\<rparr>, s))"
| "modbus_route A Register_Scan_Status st s = (Inr (Register_Report (rs_status (ms_reg_scan st))), st, s)"
| "modbus_route A Register_Scan_Stop st s =
     (let (scan, m) = rs_stop (ms_reg_scan st) in (Inr (Stopped m), st\<lparr>ms_reg_scan := scan\<rparr>, s))"
| "modbus_route A (Poll_Start host port unit_id function_code address quantity interval_ms) st s =
     (let q = py_or 0 (attribute (Some 1) quantity) 1; iv = py_or 0 (attribute (Some 1000) interval_ms) 1000 in
      case po_start host (port_502 port) unit_id function_code address q iv (ms_poll st) of
        Inl m \<Rightarrow> (Inr (Not_Started m), st, s)
      | Inr (poll, session_id) \<Rightarrow>
          (Inr Started, st\<lparr>ms_poll := poll, ms_threads := ms_threads st @
             [Poll_Thread (strip host) (port_502 port) unit_id function_code address q iv session_id]\<rparr>, s))"
| "modbus_route A Poll_Status st s = (Inr (Poll_Report (po_status (ms_poll st))), st, s)"
| "modbus_route A Poll_Stop st s =
     (let (poll, m) = po_stop (ms_poll st) in (Inr (Stopped m), st\<lparr>ms_poll := poll\<rparr>, s))"

section \<open>Without an address\<close>

text \<open>The routes that open a connection themselves; scans and polls open theirs in their threads, by \<open>modbus.read\<close>.\<close>

fun modbus_connects :: "modbus_request \<Rightarrow> bool" where
  "modbus_connects (Read_Registers host port unit_id function_code address quantity) = True"
| "modbus_connects (Read_Device_Id host port unit_id) = True"
| "modbus_connects _ = False"

fun modbus_refusal :: "modbus_response \<Rightarrow> bool" where
  "modbus_refusal (Read_Response (Refused m)) = True"
| "modbus_refusal (Device_Id_Response (IdFailed (Refused m))) = True"
| "modbus_refusal _ = False"

lemma read_no_source:
  assumes "\<not> truthy (eth0_source_ip a)"
  obtains m where "modbus_read host u fc ad q port a tid net elapsed = Inr (Refused m, tid)"
proof (cases "read_checks (strip host) u fc ad q port")
  case None
  have "eth0_source_ip a = None \<or> eth0_source_ip a = Some []" using assms by (auto simp: truthy_def)
  then have "modbus_read host u fc ad q port a tid net elapsed = Inr (Refused no_source_ip, tid)"
    by (elim disjE) (simp_all add: modbus_read_def None)
  with that show ?thesis by blast
next
  case (Some m)
  with that show ?thesis by (simp add: modbus_read_def)
qed

lemma identify_no_source:
  assumes "\<not> truthy (eth0_source_ip a)"
  obtains m where "read_device_identification host u port a tid net elapsed = Inr (IdFailed (Refused m), tid)"
proof (cases "id_checks (strip host) u port")
  case None
  have "eth0_source_ip a = None \<or> eth0_source_ip a = Some []" using assms by (auto simp: truthy_def)
  then have "read_device_identification host u port a tid net elapsed = Inr (IdFailed (Refused no_source_ip), tid)"
    by (elim disjE) (simp_all add: read_device_identification_def None)
  with that show ?thesis by blast
next
  case (Some m)
  with that show ?thesis by (simp add: read_device_identification_def)
qed

lemma modbus_route_no_address:
  assumes "no_address (ma_host A) s" and "modbus_connects req"
  obtains resp s' where "modbus_route A req st s = (Inr resp, st, s')" and "modbus_refusal resp"
    and "only_asked (ma_host A) s s'"
proof (cases req)
  case (Read_Registers host port u fc ad q)
  obtain a s' where c: "checked_address (ma_host A)
      (read_checks (strip host) u fc ad q (port_502 port) \<noteq> None) s = (Inr a, s')"
    "\<not> truthy (eth0_source_ip a)" "only_asked (ma_host A) s s'"
    using no_checked_address [OF assms(1)] by blast
  obtain m where "modbus_read host u fc ad q (port_502 port) a (ms_transaction_id st)
      (ma_network A (ms_transaction_id st)) (ma_elapsed A) = Inr (Refused m, ms_transaction_id st)"
    by (rule read_no_source [OF c(2)])
  with c show ?thesis by (intro that [of "Read_Response (Refused m)" s']) (simp_all add: Read_Registers read_at_def)
next
  case (Read_Device_Id host port u)
  obtain a s' where c: "checked_address (ma_host A) (id_checks (strip host) u (port_502 port) \<noteq> None) s = (Inr a, s')"
    "\<not> truthy (eth0_source_ip a)" "only_asked (ma_host A) s s'"
    using no_checked_address [OF assms(1)] by blast
  obtain m where "read_device_identification host u (port_502 port) a (ms_transaction_id st)
      (ma_id_network A (ms_transaction_id st)) (ma_elapsed A) = Inr (IdFailed (Refused m), ms_transaction_id st)"
    by (rule identify_no_source [OF c(2)])
  with c show ?thesis
    by (intro that [of "Device_Id_Response (IdFailed (Refused m))" s']) (simp_all add: Read_Device_Id identify_at_def)
qed (use assms(2) in simp_all)

section \<open>Requests and threads together\<close>

text \<open>What can happen to the state, and who does it: a request in any surroundings, the host changing, or a
  locked section of one of the threads that were started, with any result of its read.\<close>

definition rs_finish :: "nat \<Rightarrow> segment list \<Rightarrow> reg_scan \<Rightarrow> reg_scan" where
  "rs_finish scan_id merged st =
     (if rs_scan_id st \<noteq> scan_id then st else st\<lparr>rs_segments := merged, rs_running := False\<rparr>)"

lemma run_scan_finish:
  "run_scan W fc start n scan_id s =
   (let (segments, st, w) = probe W fc scan_id start n s in (rs_finish scan_id (merge_segments segments) st, w))"
  by (simp add: run_scan_def rs_finish_def Let_def split_def)

datatype modbus_actor = Client | Host | Thread modbus_thread

inductive modbus_step ::
  "modbus_actor \<Rightarrow> modbus_session \<times> 'w running \<Rightarrow> modbus_session \<times> 'w running \<Rightarrow> bool" where
  request: "modbus_route A req st s = (r, st', s') \<Longrightarrow> modbus_step Client (st, s) (st', s')"
| host: "modbus_step Host (st, s) (st, s')"
| unit_section: "Unit_Scan_Thread h units p timeout i \<in> set (ms_threads st) \<Longrightarrow>
    modbus_step (Thread (Unit_Scan_Thread h units p timeout i)) (st, s)
      (st\<lparr>ms_unit_scan := us_work i e (ms_unit_scan st)\<rparr>, s)"
| register_progress: "Register_Scan_Thread h unit_id fc a n p timeout i \<in> set (ms_threads st) \<Longrightarrow>
    modbus_step (Thread (Register_Scan_Thread h unit_id fc a n p timeout i)) (st, s)
      (st\<lparr>ms_reg_scan := rs_bump_progress i k (ms_reg_scan st)\<rparr>, s)"
| register_finish: "Register_Scan_Thread h unit_id fc a n p timeout i \<in> set (ms_threads st) \<Longrightarrow>
    modbus_step (Thread (Register_Scan_Thread h unit_id fc a n p timeout i)) (st, s)
      (st\<lparr>ms_reg_scan := rs_finish i merged (ms_reg_scan st)\<rparr>, s)"
| poll_section: "Poll_Thread h p unit_id fc a q iv i \<in> set (ms_threads st) \<Longrightarrow>
    modbus_step (Thread (Poll_Thread h p unit_id fc a q iv i)) (st, s)
      (st\<lparr>ms_poll := po_record i result (ms_poll st)\<rparr>, s)"

inductive_cases unit_sectionE: "modbus_step (Thread (Unit_Scan_Thread h units p timeout i)) (st, s) z'"
inductive_cases register_sectionE:
  "modbus_step (Thread (Register_Scan_Thread h unit_id fc a n p timeout i)) (st, s) z'"
inductive_cases poll_sectionE: "modbus_step (Thread (Poll_Thread h p unit_id fc a q iv i)) (st, s) z'"

inductive modbus_reachable :: "modbus_session \<times> 'w running \<Rightarrow> bool" where
  start: "modbus_reachable (modbus_session0, s)"
| step: "modbus_reachable z \<Longrightarrow> modbus_step actor z z' \<Longrightarrow> modbus_reachable z'"

text \<open>A thread has a section to run from here that changes the state of the modules.\<close>

definition can_change :: "modbus_session \<times> 'w running \<Rightarrow> modbus_thread \<Rightarrow> bool" where
  "can_change z t \<longleftrightarrow> (\<exists>z'. modbus_step (Thread t) z z' \<and> fst z' \<noteq> fst z)"

section \<open>One current thread per module\<close>

text \<open>The session number and host of each thread of a kind.\<close>

definition unit_sessions :: "modbus_session \<Rightarrow> (nat \<times> pystr) list" where
  "unit_sessions st =
     List.map_filter (\<lambda>t. case t of Unit_Scan_Thread h us p to i \<Rightarrow> Some (i, h) | _ \<Rightarrow> None) (ms_threads st)"

definition register_sessions :: "modbus_session \<Rightarrow> (nat \<times> pystr) list" where
  "register_sessions st =
     List.map_filter (\<lambda>t. case t of Register_Scan_Thread h u fc a n p to i \<Rightarrow> Some (i, h) | _ \<Rightarrow> None) (ms_threads st)"

definition poll_sessions :: "modbus_session \<Rightarrow> (nat \<times> pystr) list" where
  "poll_sessions st =
     List.map_filter (\<lambda>t. case t of Poll_Thread h p u fc a q iv i \<Rightarrow> Some (i, h) | _ \<Rightarrow> None) (ms_threads st)"

text \<open>Given the threads, the current session number of the module, and what it reports: no thread is ahead of
  the module, at most one is current, and a module that reports to be running has one, with its host.\<close>

definition one_current :: "(nat \<times> pystr) list \<Rightarrow> nat \<Rightarrow> bool \<Rightarrow> pystr option \<Rightarrow> bool" where
  "one_current ts c running host \<longleftrightarrow>
     list_all (\<lambda>(i, h). i \<le> c) ts \<and> length (filter (\<lambda>(i, h). i = c) ts) \<le> 1 \<and>
     (if running then \<exists>h. host = Some h \<and> (c, h) \<in> set ts else True)"

lemma one_current_new: "one_current ts c running host \<Longrightarrow> one_current (ts @ [(Suc c, h)]) (Suc c) True (Some h)"
proof -
  assume "one_current ts c running host"
  then have "\<forall>t \<in> set ts. fst t \<le> c" by (auto simp: one_current_def list_all_iff)
  then have "filter (\<lambda>(i, h). i = Suc c) ts = []" "list_all (\<lambda>(i, h). i \<le> Suc c) ts"
    by (force simp: filter_empty_conv list_all_iff)+
  then show ?thesis by (simp add: one_current_def)
qed

lemma one_current_skip: "one_current ts c running host \<Longrightarrow> one_current ts (Suc c) False host'"
proof -
  assume "one_current ts c running host"
  then have "\<forall>t \<in> set ts. fst t \<le> c" by (auto simp: one_current_def list_all_iff)
  then have "filter (\<lambda>(i, h). i = Suc c) ts = []" "list_all (\<lambda>(i, h). i \<le> Suc c) ts"
    by (force simp: filter_empty_conv list_all_iff)+
  then show ?thesis by (simp add: one_current_def)
qed

lemma one_current_end: "one_current ts c running host \<Longrightarrow> one_current ts c False host'"
  by (simp add: one_current_def)

definition modbus_sessions_ok :: "modbus_session \<Rightarrow> bool" where
  "modbus_sessions_ok st \<longleftrightarrow>
     one_current (unit_sessions st) (us_scan_id (ms_unit_scan st)) (us_running (ms_unit_scan st)) (us_host (ms_unit_scan st)) \<and>
     one_current (register_sessions st) (rs_scan_id (ms_reg_scan st)) (rs_running (ms_reg_scan st)) (rs_host (ms_reg_scan st)) \<and>
     one_current (poll_sessions st) (po_session_id (ms_poll st)) (po_running (ms_poll st)) (po_host (ms_poll st))"

lemmas sessions_defs = unit_sessions_def register_sessions_def poll_sessions_def

lemma sessions_same [simp]:
  "unit_sessions (st\<lparr>ms_transaction_id := t\<rparr>) = unit_sessions st" "unit_sessions (st\<lparr>ms_unit_scan := u\<rparr>) = unit_sessions st"
  "unit_sessions (st\<lparr>ms_reg_scan := g\<rparr>) = unit_sessions st" "unit_sessions (st\<lparr>ms_poll := p\<rparr>) = unit_sessions st"
  "register_sessions (st\<lparr>ms_transaction_id := t\<rparr>) = register_sessions st"
  "register_sessions (st\<lparr>ms_unit_scan := u\<rparr>) = register_sessions st"
  "register_sessions (st\<lparr>ms_reg_scan := g\<rparr>) = register_sessions st"
  "register_sessions (st\<lparr>ms_poll := p\<rparr>) = register_sessions st"
  "poll_sessions (st\<lparr>ms_transaction_id := t\<rparr>) = poll_sessions st" "poll_sessions (st\<lparr>ms_unit_scan := u\<rparr>) = poll_sessions st"
  "poll_sessions (st\<lparr>ms_reg_scan := g\<rparr>) = poll_sessions st" "poll_sessions (st\<lparr>ms_poll := p\<rparr>) = poll_sessions st"
  by (simp_all add: sessions_defs)

lemma sessions_add:
  "ms_threads st' = ms_threads st @ [t] \<Longrightarrow> unit_sessions st' = unit_sessions st @
     (case t of Unit_Scan_Thread h us p to i \<Rightarrow> [(i, h)] | _ \<Rightarrow> [])"
  "ms_threads st' = ms_threads st @ [t] \<Longrightarrow> register_sessions st' = register_sessions st @
     (case t of Register_Scan_Thread h u fc a n p to i \<Rightarrow> [(i, h)] | _ \<Rightarrow> [])"
  "ms_threads st' = ms_threads st @ [t] \<Longrightarrow> poll_sessions st' = poll_sessions st @
     (case t of Poll_Thread h p u fc a q iv i \<Rightarrow> [(i, h)] | _ \<Rightarrow> [])"
  by (cases t; simp add: sessions_defs List.map_filter_def)+

text \<open>Every route leaves the modules alone or starts or stops one of them.\<close>

lemma route_sessions_ok:
  assumes "modbus_sessions_ok st" and "modbus_route A req st s = (r, st', s')"
  shows "modbus_sessions_ok st'"
proof (cases req)
  case (Unit_Scan_Start h p a b t)
  with assms show ?thesis
    by (auto simp: modbus_sessions_ok_def us_start_def sessions_add Let_def
        intro: one_current_new split: sum.splits option.splits)
next
  case (Register_Scan_Start h p rt u a b t)
  with assms show ?thesis
    by (auto simp: modbus_sessions_ok_def rs_start_def sessions_add Let_def
        intro: one_current_new split: sum.splits option.splits)
next
  case (Poll_Start h p u fc a q iv)
  with assms show ?thesis
    by (auto simp: modbus_sessions_ok_def po_start_def sessions_add Let_def
        intro: one_current_new split: sum.splits option.splits)
qed (use assms in \<open>auto simp: modbus_sessions_ok_def us_stop_def rs_stop_def po_stop_def Let_def
      intro: one_current_skip split: sum.splits prod.splits if_splits\<close>)

text \<open>A locked section keeps session number and host, and at most ends the session.\<close>

lemma section_fields:
  "us_scan_id (us_work i e u) = us_scan_id u" "us_host (us_work i e u) = us_host u"
  "us_running (us_work i e u) \<Longrightarrow> us_running u"
  "rs_scan_id (rs_bump_progress i k g) = rs_scan_id g" "rs_host (rs_bump_progress i k g) = rs_host g"
  "rs_running (rs_bump_progress i k g) = rs_running g"
  "rs_scan_id (rs_finish i m g) = rs_scan_id g" "rs_host (rs_finish i m g) = rs_host g"
  "rs_running (rs_finish i m g) \<Longrightarrow> rs_running g"
  by (cases e; simp add: us_record_def us_finish_def rs_bump_progress_def rs_finish_def split: prod.splits if_splits)+

lemma poll_section_fields:
  "po_session_id (po_record i r p) = po_session_id p" "po_host (po_record i r p) = po_host p"
  "po_running (po_record i r p) = po_running p"
  by (cases r; simp add: po_record_def po_add_time_def Let_def split: option.split)+

lemma one_current_section:
  "one_current ts c running host \<Longrightarrow> (running' \<Longrightarrow> running) \<Longrightarrow> one_current ts c running' host"
  by (auto simp: one_current_def)

lemma step_sessions_ok: "modbus_step actor z z' \<Longrightarrow> modbus_sessions_ok (fst z) \<Longrightarrow> modbus_sessions_ok (fst z')"
proof (induction rule: modbus_step.induct)
  case (request A req st s r st' s')
  then show ?case using route_sessions_ok by simp
qed (auto simp: modbus_sessions_ok_def section_fields poll_section_fields
      intro: one_current_section section_fields(3,9))

text \<open>A section of a thread whose number the module has left behind changes nothing.\<close>

lemma can_change_current:
  "can_change (st, s) (Unit_Scan_Thread h us p to i) \<Longrightarrow> i = us_scan_id (ms_unit_scan st)"
  "can_change (st, s) (Register_Scan_Thread h u fc a n p to i) \<Longrightarrow> i = rs_scan_id (ms_reg_scan st)"
  "can_change (st, s) (Poll_Thread h p' u fc' a' q iv i) \<Longrightarrow> i = po_session_id (ms_poll st)"
  by (rule ccontr, auto simp: can_change_def us.work_stale rs_bump_progress_def rs_finish_def po_record_def
      elim!: unit_sectionE register_sectionE poll_sectionE)+

lemma filter_via_map_filter:
  "(\<And>t. t \<in> set ts \<Longrightarrow> Q t \<Longrightarrow> \<exists>x. f t = Some x \<and> R x) \<Longrightarrow>
    length (filter Q ts) \<le> length (filter R (List.map_filter f ts))"
proof (induction ts)
  case (Cons t ts)
  then have "length (filter Q ts) \<le> length (filter R (List.map_filter f ts))" by simp
  moreover have "Q t \<Longrightarrow> \<exists>x. f t = Some x \<and> R x" by (rule Cons.prems) simp_all
  ultimately show ?case by (auto simp: List.map_filter_simps split: option.split)
qed simp

lemma one_current_filter:
  assumes "one_current (List.map_filter f ts) c r h"
    and "\<And>t. t \<in> set ts \<Longrightarrow> Q t \<Longrightarrow> \<exists>h. f t = Some (c, h)"
  shows "length (filter Q ts) \<le> 1"
proof -
  have "length (filter Q ts) \<le> length (filter (\<lambda>(i, h). i = c) (List.map_filter f ts))"
    by (rule filter_via_map_filter) (use assms(2) in fastforce)
  then show ?thesis using assms(1) by (simp add: one_current_def)
qed

lemma one_changer:
  "one_current (unit_sessions st) (us_scan_id (ms_unit_scan st)) r h \<Longrightarrow>
    length (filter (\<lambda>t. is_Unit_Scan_Thread t \<and> can_change (st, s) t) (ms_threads st)) \<le> 1"
  "one_current (register_sessions st) (rs_scan_id (ms_reg_scan st)) r h \<Longrightarrow>
    length (filter (\<lambda>t. is_Register_Scan_Thread t \<and> can_change (st, s) t) (ms_threads st)) \<le> 1"
  "one_current (poll_sessions st) (po_session_id (ms_poll st)) r h \<Longrightarrow>
    length (filter (\<lambda>t. is_Poll_Thread t \<and> can_change (st, s) t) (ms_threads st)) \<le> 1"
  unfolding sessions_defs
  by (erule one_current_filter, (auto dest: can_change_current
      simp: is_Unit_Scan_Thread_def is_Register_Scan_Thread_def is_Poll_Thread_def)[1])+

text \<open>C7: One scan at a time.  In every state that requests of the Modbus routes, with any bodies and in any
  surroundings, and the locked sections of the background threads they have started can lead to, in any
  interleaving: no thread has a number the module has not reached; of the unit scan, the register scan and the
  poll threads at most one each belongs to the current session, and at most one each has any locked section, with
  any result of its read, that changes anything in the state of the modules; and a module that reports to be
  running has a current thread, started for the host it reports.\<close>

theorem modbus_one_current_thread:
  assumes "modbus_reachable (st, s)"
  shows "one_current (unit_sessions st) (us_scan_id (ms_unit_scan st)) (us_running (ms_unit_scan st)) (us_host (ms_unit_scan st)) \<and>
    one_current (register_sessions st) (rs_scan_id (ms_reg_scan st)) (rs_running (ms_reg_scan st)) (rs_host (ms_reg_scan st)) \<and>
    one_current (poll_sessions st) (po_session_id (ms_poll st)) (po_running (ms_poll st)) (po_host (ms_poll st)) \<and>
    length (filter (\<lambda>t. is_Unit_Scan_Thread t \<and> can_change (st, s) t) (ms_threads st)) \<le> 1 \<and>
    length (filter (\<lambda>t. is_Register_Scan_Thread t \<and> can_change (st, s) t) (ms_threads st)) \<le> 1 \<and>
    length (filter (\<lambda>t. is_Poll_Thread t \<and> can_change (st, s) t) (ms_threads st)) \<le> 1"
proof -
  have "modbus_sessions_ok (fst z)" if "modbus_reachable z" for z :: "modbus_session \<times> 'a running"
    using that
  proof induction
    case (start s)
    show ?case
      by (simp add: modbus_sessions_ok_def modbus_session0_def sessions_defs unit_scan0_def reg_scan0_def poll0_def
          one_current_def List.map_filter_def)
  next
    case (step z z')
    then show ?case using step_sessions_ok by blast
  qed
  from this [OF assms] have "modbus_sessions_ok st" by simp
  then show ?thesis
    unfolding modbus_sessions_ok_def by (elim conjE, intro conjI) (assumption | erule one_changer)+
qed

text \<open>A host with no programs, and no network; polling is started twice, and the first thread's number is no
  longer current.\<close>

definition host_empty :: "unit host" where
  "host_empty = \<lparr>ho_which = (\<lambda>p. None), ho_run = (\<lambda>args w. (None, w)), ho_monotonic = (\<lambda>w. 0),
     ho_sleep = (\<lambda>t w. w), ho_read = (\<lambda>path w. Inl []), ho_repo_dir = []\<rparr>"

definition modbus_answers_empty :: "unit modbus_answers" where
  "modbus_answers_empty = \<lparr>ma_host = host_empty, ma_network = (\<lambda>t. \<lparr>n_setup = None, n_events = []\<rparr>),
     ma_id_network = (\<lambda>t. \<lparr>in_setup = None, in_answers = (\<lambda>sent. [])\<rparr>),
     ma_elapsed = 0, ma_templates = Missing, ma_example = Missing, ma_read_other = (\<lambda>u f a q w. (Inl TypeError, w))\<rparr>"

definition polled :: "string \<Rightarrow> modbus_session \<Rightarrow> modbus_session" where
  "polled h st = fst (snd (modbus_route modbus_answers_empty (Poll_Start (lit h) Absent 1 3 0 Null (Given 500)) st ([], ())))"

lemma polled_step:
  assumes "modbus_reachable (st, ([], ()))"
  shows "modbus_reachable (polled h st, ([], ()))"
proof -
  have "\<exists>r. modbus_route modbus_answers_empty (Poll_Start (lit h) Absent 1 3 0 Null (Given 500)) st ([], ()) =
      (r, polled h st, ([], ()))"
    by (auto simp: polled_def Let_def split: sum.split)
  then show ?thesis using assms modbus_reachable.step modbus_step.request by blast
qed

theorem modbus_one_current_thread_witness:
  "let st = polled ''b'' (polled ''a'' modbus_session0) in
    poll_sessions st = [(1, lit ''a''), (2, lit ''b'')] \<and> one_current (poll_sessions st) 2 True (Some (lit ''b''))"
proof -
  let ?st = "polled ''b'' (polled ''a'' modbus_session0)"
  have "po_session_id (ms_poll ?st) = 2" "po_running (ms_poll ?st)" "po_host (ms_poll ?st) = Some (lit ''b'')"
    "poll_sessions ?st = [(1, lit ''a''), (2, lit ''b'')]"
    by (simp_all add: polled_def modbus_session0_def py_or_def po_start_def po_checks_def poll0_def poll_sessions_def
        List.map_filter_def lit_def strip_def lstrip_def rstrip_def is_space_def)
  then show ?thesis
    using modbus_one_current_thread [OF polled_step [OF polled_step [OF modbus_reachable.start]], of "''b''" "''a''"]
    by (simp add: Let_def)
qed

end
