(* ===== verification/Api_Reads.thy ===== *)
theory Api_Reads
  imports Wifi Eth0_Mode Link System_Info
begin

text \<open>
  The operations behind the \<open>GET\<close> routes of the device run their programs without \<open>sudo\<close>.  The programs they
  look for are other files than the \<open>sudo\<close> that is found; then a command is privileged exactly if it starts
  with that.
\<close>

definition apart_from_sudo :: "'w host \<Rightarrow> pystr list \<Rightarrow> bool" where
  "apart_from_sudo H candidates \<longleftrightarrow>
     (case (find_binary H candidates, find_binary H SUDO_CANDIDATES) of
        (Some bin, Some sudo) \<Rightarrow> bin \<noteq> sudo
      | _ \<Rightarrow> True)"

definition sudo_apart :: "'w host \<Rightarrow> bool" where
  "sudo_apart H \<longleftrightarrow> list_all (apart_from_sudo H)
     [NMCLI_CANDIDATES, SYSTEMCTL_CANDIDATES, IP_CANDIDATES, ETHTOOL_CANDIDATES, VCGENCMD_CANDIDATES]"

definition unprivileged :: "'w host \<Rightarrow> command \<times> completed option \<Rightarrow> bool" where
  "unprivileged H e \<longleftrightarrow>
     (case find_binary H SUDO_CANDIDATES of None \<Rightarrow> True | Some sudo \<Rightarrow> fst e \<noteq> [] \<and> hd (fst e) \<noteq> sudo)"

lemma adds_binary:
  assumes "apart_from_sudo H candidates" and "find_binary H candidates = Some bin"
  shows "adds (unprivileged H) s (snd (shell_run H (bin # args) s))"
  using assms by (intro adds_shell_run) (auto simp: apart_from_sudo_def unprivileged_def split: option.splits)

lemma apart_programs:
  assumes "sudo_apart H"
  shows "apart_from_sudo H NMCLI_CANDIDATES" "apart_from_sudo H SYSTEMCTL_CANDIDATES"
    "apart_from_sudo H IP_CANDIDATES" "apart_from_sudo H ETHTOOL_CANDIDATES" "apart_from_sudo H VCGENCMD_CANDIDATES"
  using assms by (simp_all add: sudo_apart_def)

section \<open>NetworkManager\<close>

lemma nmcli_reads: "sudo_apart H \<Longrightarrow> adds (unprivileged H) s (snd (nmcli_run H args s))"
  using adds_binary [OF apart_programs(1)] by (cases "find_binary H NMCLI_CANDIDATES") (simp_all add: nmcli_run_def)

lemma active_reads: "sudo_apart H \<Longrightarrow> adds (unprivileged H) s (snd (ap_is_active H s))"
  using adds_binary [OF apart_programs(2)]
  by (cases "find_binary H SYSTEMCTL_CANDIDATES") (simp_all add: ap_is_active_def Let_def split_def)

lemma field_reads: "sudo_apart H \<Longrightarrow> adds (unprivileged H) s (snd (connection_field H field connection s))"
  by (simp add: connection_field_def Let_def split_def nmcli_reads)

lemma gateway_reads: "sudo_apart H \<Longrightarrow> adds (unprivileged H) s (snd (eth0_gateway H mode d s))"
  by (simp add: eth0_gateway_def Let_def split_def field_reads)

lemma mode_reads:
  assumes "sudo_apart H"
  shows "adds (unprivileged H) s (snd (eth0_get_mode H s))"
proof -
  let ?s1 = "snd (nmcli_run H show_args s)"
  have 1: "adds (unprivileged H) s ?s1" by (rule nmcli_reads [OF assms])
  have "adds (unprivileged H) s (snd (connection_field H f c ?s1))" for f c
    by (rule adds_trans [OF 1 field_reads [OF assms]])
  then have "adds (unprivileged H) s (snd (eth0_gateway H mode d (snd (connection_field H f c ?s1))))" for mode d f c
    by (rule adds_trans) (rule gateway_reads [OF assms])
  with 1 show ?thesis by (auto simp: eth0_get_mode_def Let_def split_def split: option.split sum.split)
qed

lemma ssid_reads: "sudo_apart H \<Longrightarrow> adds (unprivileged H) s (snd (get_connection_ssid H name s))"
  by (simp add: get_connection_ssid_def Let_def split_def nmcli_reads)

lemma status_reads:
  assumes "sudo_apart H"
  shows "adds (unprivileged H) s (snd (wifi_get_status H s))"
proof -
  let ?s1 = "snd (ap_is_active H s)"
  have 1: "adds (unprivileged H) s ?s1" by (rule active_reads [OF assms])
  have 2: "adds (unprivileged H) s (snd (nmcli_run H args ?s1))" for args
    by (rule adds_trans [OF 1 nmcli_reads [OF assms]])
  have "adds (unprivileged H) s (snd (get_connection_ssid H name (snd (nmcli_run H args ?s1))))" for name args
    by (rule adds_trans [OF 2 ssid_reads [OF assms]])
  with 1 2 show ?thesis
    by (auto simp: wifi_get_status_def Let_def split_def split: option.split sum.split)
qed

lemma saved_rows_reads: "sudo_apart H \<Longrightarrow> adds (unprivileged H) s (snd (saved_rows H rows s))"
proof (induction rows arbitrary: s)
  case (Cons row rows)
  let ?s1 = "snd (get_connection_ssid H (get_or_empty row (lit ''NAME'')) s)"
  have "adds (unprivileged H) s (snd (saved_rows H rows ?s1))"
    by (rule adds_trans [OF ssid_reads [OF Cons.prems] Cons.IH [OF Cons.prems]])
  then show ?case using Cons.IH [OF Cons.prems, of s] by (simp add: Let_def split_def)
qed simp

lemma saved_reads:
  assumes "sudo_apart H"
  shows "adds (unprivileged H) s (snd (wifi_list_saved H s))"
proof -
  have "adds (unprivileged H) s (snd (saved_rows H rows (snd (nmcli_run H args s))))" for rows args
    by (rule adds_trans [OF nmcli_reads [OF assms] saved_rows_reads [OF assms]])
  then show ?thesis
    using nmcli_reads [OF assms] by (simp add: wifi_list_saved_def Let_def split_def split: option.split)
qed

section \<open>Link and system\<close>

lemma link_run_reads:
  "find_binary H C = Some bin \<Longrightarrow> apart_from_sudo H C \<Longrightarrow> adds (unprivileged H) s (snd (link_run H (bin # args) s))"
  by (simp add: link_run_def Let_def split_def adds_binary)

lemma ip_reads: "sudo_apart H \<Longrightarrow> adds (unprivileged H) s (snd (get_ip_link_info H interface s))"
  by (cases "find_binary H IP_CANDIDATES")
    (simp_all add: get_ip_link_info_def Let_def split_def link_run_reads apart_programs(3))

lemma ethtool_reads:
  "sudo_apart H \<Longrightarrow> adds (unprivileged H) s (snd (get_ethtool_info H interface s))"
  "sudo_apart H \<Longrightarrow> adds (unprivileged H) s (snd (get_phy_statistics H interface s))"
  by (cases "find_binary H ETHTOOL_CANDIDATES";
      simp add: get_ethtool_info_def get_phy_statistics_def Let_def split_def link_run_reads apart_programs(4))+

lemma link_reads:
  assumes "sudo_apart H"
  shows "adds (unprivileged H) s (snd (get_link_status H interface s))"
proof -
  let ?s1 = "snd (get_ip_link_info H interface s)"
  let ?s2 = "snd (get_ethtool_info H interface ?s1)"
  have 1: "adds (unprivileged H) s ?s1" by (rule ip_reads [OF assms])
  have 2: "adds (unprivileged H) s ?s2" by (rule adds_trans [OF 1 ethtool_reads(1) [OF assms]])
  have "adds (unprivileged H) s (snd (get_phy_statistics H interface ?s2))"
    by (rule adds_trans [OF 2 ethtool_reads(2) [OF assms]])
  with 1 show ?thesis by (simp add: get_link_status_def Let_def split_def split: sum.split)
qed

lemma system_reads:
  assumes "sudo_apart H"
  shows "adds (unprivileged H) s (snd (get_system_info H averages disk s))"
proof -
  let ?s1 = "snd (get_cpu_percent H (15 / 100) s)"
  have "fst ?s1 = fst s" by (simp add: get_cpu_percent_def Let_def split: option.split)
  then have 1: "adds (unprivileged H) s ?s1" by (simp add: adds_def)
  have "adds (unprivileged H) t (snd (get_power_status H t))" for t
    using adds_binary [OF apart_programs(5) [OF assms]]
    by (cases "find_binary H VCGENCMD_CANDIDATES") (simp_all add: get_power_status_def Let_def split_def)
  from adds_trans [OF 1 this [of ?s1]] 1 show ?thesis
    by (simp add: get_system_info_def Let_def split_def split: sum.split)
qed

lemmas reading_reads = mode_reads status_reads saved_reads link_reads system_reads active_reads

text \<open>A device with all programs where Raspberry Pi OS has them.\<close>

definition host_installed :: "unit host" where
  "host_installed = \<lparr>ho_which = (\<lambda>p. if p \<in> set (map hd [SUDO_CANDIDATES, NMCLI_CANDIDATES, SYSTEMCTL_CANDIDATES,
       IP_CANDIDATES, ETHTOOL_CANDIDATES, VCGENCMD_CANDIDATES]) then Some p else None),
     ho_run = (\<lambda>args w. (Some \<lparr>cp_returncode = 0, cp_stdout = [], cp_stderr = []\<rparr>, w)), ho_monotonic = (\<lambda>w. 0),
     ho_sleep = (\<lambda>t w. w), ho_read = (\<lambda>path w. Inl []), ho_repo_dir = lit ''/opt/lanpi''\<rparr>"

lemma host_installed_apart: "sudo_apart host_installed"
  by (simp add: sudo_apart_def apart_from_sudo_def host_installed_def SUDO_CANDIDATES_def NMCLI_CANDIDATES_def
      SYSTEMCTL_CANDIDATES_def IP_CANDIDATES_def ETHTOOL_CANDIDATES_def VCGENCMD_CANDIDATES_def lit_def)

end
