(* ===== verification/Api.thy ===== *)
theory Api
  imports Api_Listeners Api_Network Api_Capture Api_Tools Api_Modbus Api_Reads
begin

text \<open>
  The HTTP interface as a whole: the state of the backend behind it, one constructor per router of
  \<open>backend/api/routes\<close>, and \<open>handle\<close>, what a request answers and does.
\<close>

section \<open>The backend\<close>

record backend =
  b_listeners :: capture_system
  b_history :: link_log
  b_capture :: world
  b_tools :: tool_session
  b_modbus :: modbus_session

text \<open>What surrounds a request: the one host of all modules, and what each router's modules find in theirs;
  the file that gives the MAC address of the port; the name of a temporary file; the averages and the disk
  usage; and for \<open>/status\<close> the version file, the names of host and platform, the time the backend has
  started, and the dispatcher's clock.\<close>

record 'w surroundings =
  v_host :: "'w host"
  v_addr_file :: "pystr option"
  v_tmp :: pystr
  v_capture :: capture_answers
  v_tools :: "'w tool_answers"
  v_modbus :: "'w modbus_answers"
  v_averages :: "(real \<times> real \<times> real) option"
  v_disk :: "(int \<times> int) option"
  v_version_path :: pystr
  v_names :: "pystr \<times> pystr"
  v_start_time :: real
  v_now :: timestamp

datatype request =
    Listeners system_event
  | Network network_request
  | Capture capture_request
  | Tools tool_request
  | Modbus modbus_request
  | System
  | Status
  | Health

datatype response =
    Listeners_Response "listener_response option"
  | Network_Response network_response
  | Capture_Response capture_response
  | Tools_Response tool_response
  | Modbus_Response modbus_response
  | System_Response system_report
  | Status_Response status_report
  | Health_Response "(pystr, pystr) dict"

definition answer :: "('a \<Rightarrow> response) \<Rightarrow> exn + 'a \<Rightarrow> exn + response" where
  "answer f r = rbind r (\<lambda>x. Inr (f x))"

lemma answer_simps [simp]: "answer f (Inr x) = Inr (f x)" "answer f (Inl e) = Inl e"
  by (simp_all add: answer_def)

fun handle ::
  "'w surroundings \<Rightarrow> request \<Rightarrow> backend \<Rightarrow> 'w running \<Rightarrow> ((exn + response) \<times> backend \<times> 'w running) option" where
  "handle V (Listeners e) b s =
     (let (r, z) = listener_route (v_addr_file V) e (b_listeners b)
      in Some (Inr (Listeners_Response r), b\<lparr>b_listeners := z\<rparr>, s))"
| "handle V (Network req) b s =
     map_option (\<lambda>(r, history, s'). (answer Network_Response r, b\<lparr>b_history := history\<rparr>, s'))
       (network_route (v_host V) (v_tmp V) req (b_history b) s)"
| "handle V (Capture req) b s =
     (let (r, w) = capture_route (v_capture V) req (b_capture b)
      in Some (answer Capture_Response r, b\<lparr>b_capture := w\<rparr>, s))"
| "handle V (Tools req) b s =
     map_option (\<lambda>(r, t, s'). (answer Tools_Response r, b\<lparr>b_tools := t\<rparr>, s'))
       (tool_route ((v_tools V)\<lparr>ta_host := v_host V\<rparr>) req (b_tools b) s)"
| "handle V (Modbus req) b s =
     (let (r, m, s') = modbus_route ((v_modbus V)\<lparr>ma_host := v_host V\<rparr>) req (b_modbus b) s
      in Some (answer Modbus_Response r, b\<lparr>b_modbus := m\<rparr>, s'))"
| "handle V System b s =
     (let (r, s') = get_system_info (v_host V) (v_averages V) (v_disk V) s in Some (answer System_Response r, b, s'))"
| "handle V Status b s =
     Some (Inr (Status_Response (status_route (v_host V) (v_version_path V) (fst (v_names V)) (snd (v_names V))
       (v_start_time V) (v_now V) s (b_listeners b))), b, s)"
| "handle V Health b s = Some (Inr (Health_Response health_route), b, s)"

section \<open>Without an address nothing is sent\<close>

fun connects :: "request \<Rightarrow> bool" where
  "connects (Tools req) = tool_connects req"
| "connects (Modbus req) = modbus_connects req"
| "connects _ = False"

fun refusal :: "response \<Rightarrow> bool" where
  "refusal (Tools_Response r) = tool_refusal r"
| "refusal (Modbus_Response r) = modbus_refusal r"
| "refusal _ = False"

text \<open>C4: The test port stays silent while it has no address.  As long as NetworkManager reports no address for
  eth0 (passive mode, no lease, or no answer of nmcli), every request of a tool that would send from that
  address (ping, mtr, TCP test, IP and port scan, S7 identification and tag read, Modbus read and device
  identification) is refused with a message, whatever its body and whatever the network would answer: no state
  of any module changes, so no process is started, signalled or replaced and no transaction id is used, and
  the only command that may have run is the query for the mode.\<close>

theorem no_address_nothing_sent:
  assumes "no_address (v_host V) s" and "connects req"
  shows "\<exists>resp s'. handle V req b s = Some (Inr resp, b, s') \<and> refusal resp \<and> only_asked (v_host V) s s'"
proof (cases req)
  case (Tools r)
  obtain resp s' where
    "tool_route ((v_tools V)\<lparr>ta_host := v_host V\<rparr>) r (b_tools b) s = Some (Inr resp, b_tools b, s')"
    "tool_refusal resp" "only_asked (v_host V) s s'"
    using tool_route_no_address [of "(v_tools V)\<lparr>ta_host := v_host V\<rparr>" s r "b_tools b"] assms Tools by auto
  then show ?thesis by (simp add: Tools)
next
  case (Modbus r)
  obtain resp s' where
    "modbus_route ((v_modbus V)\<lparr>ma_host := v_host V\<rparr>) r (b_modbus b) s = (Inr resp, b_modbus b, s')"
    "modbus_refusal resp" "only_asked (v_host V) s s'"
    using modbus_route_no_address [of "(v_modbus V)\<lparr>ma_host := v_host V\<rparr>" s r "b_modbus b"] assms Modbus by auto
  then show ?thesis by (simp add: Modbus)
qed (use assms(2) in simp_all)

section \<open>Defaults\<close>

text \<open>Leaving a field out, null, zero and the default itself are the same request; in particular a poll with the
  quantity or interval 0 is not refused but runs with 1 and 1000 ms, and a scan with the timeout 0 waits 1 s.\<close>

lemma defaults_same:
  assumes "spells_default 0 502 p" and "spells_default 0 1 t" and "spells_default 0 102 p7"
    and "spells_default 0 1 n" and "spells_default 0 1000 iv" and "spells_default 0 10 c"
  shows
    "handle V (Modbus (Read_Registers h p u f a q)) b s = handle V (Modbus (Read_Registers h (Given 502) u f a q)) b s"
    "handle V (Modbus (Read_Device_Id h p u)) b s = handle V (Modbus (Read_Device_Id h (Given 502) u)) b s"
    "handle V (Modbus (Unit_Scan_Start h p u0 u1 t)) b s = handle V (Modbus (Unit_Scan_Start h (Given 502) u0 u1 (Given 1))) b s"
    "handle V (Modbus (Register_Scan_Start h p ty u a0 a1 t)) b s =
       handle V (Modbus (Register_Scan_Start h (Given 502) ty u a0 a1 (Given 1))) b s"
    "handle V (Modbus (Poll_Start h p u f a n iv)) b s =
       handle V (Modbus (Poll_Start h (Given 502) u f a (Given 1) (Given 1000))) b s"
    "handle V (Tools (S7_Identify h p7)) b s = handle V (Tools (S7_Identify h (Given 102))) b s"
    "handle V (Tools (Mtr_Start h c)) b s = handle V (Tools (Mtr_Start h (Given 10))) b s"
  using assms by (simp_all add: split_def cong: sum.case_cong)

section \<open>Reading is safe\<close>






section \<open>A device\<close>

text \<open>The backend as it starts, on a device with all programs installed and an unplugged test port.\<close>

definition backend0 :: "timestamp \<Rightarrow> capture_dir \<Rightarrow> backend" where
  "backend0 now dir = \<lparr>b_listeners = system0 now, b_history = link_log0, b_capture = world0 dir,
     b_tools = tool_session0, b_modbus = modbus_session0\<rparr>"

definition surroundings_installed :: "unit surroundings" where
  "surroundings_installed = \<lparr>v_host = host_installed, v_addr_file = None, v_tmp = lit ''/tmp/x'',
     v_capture = \<lparr>ca_tcpdump = None, ca_session_start = [], ca_time = 0,
       ca_os = \<lparr>os_sort_stat = (\<lambda>f. True), os_sum_stat = (\<lambda>f. True), os_unlink = (\<lambda>f. True), os_delete_error = (\<lambda>f. None), os_elsewhere = (\<lambda>f. None)\<rparr>,
       ca_base = []\<rparr>,
     v_tools = \<lparr>ta_host = host_installed, ta_popen = Inr 1, ta_ping_lines = [],
       ta_mtr_finished = \<lparr>fi_returncode = 0, fi_stdout = [], fi_stderr = []\<rparr>, ta_tcp = (\<lambda>a h p. (0, 0, Connected)),
       ta_scan_env = \<lparr>se_mac_file = None, se_open = None, se_send = None, se_xid = 0, se_start = 0, se_clock = real,
         se_recv = (\<lambda>k. Inr [])\<rparr>, ta_idna = (\<lambda>t. None),
       ta_s7 = (\<lambda>k. \<lparr>sk_connect = None, sk_answers = (\<lambda>sent. Inr [])\<rparr>), ta_elapsed = 0\<rparr>,
     v_modbus = modbus_answers_empty, v_averages = None, v_disk = None, v_version_path = [], v_names = ([], []),
     v_start_time = 0, v_now = 0\<rparr>"

lemma host_installed_no_address: "no_address host_installed ([], ())"
proof -
  have "find_binary host_installed NMCLI_CANDIDATES = Some (hd NMCLI_CANDIDATES)"
    by (simp add: host_installed_def NMCLI_CANDIDATES_def lit_def)
  then have "fst (eth0_get_mode host_installed ([], ())) = Inr (Some passive_report)"
    by (simp add: eth0_get_mode_def nmcli_run_def shell_run_def Let_def split_def ok_stdout_def eth0_lines0_def truthy_def)
      (simp add: host_installed_def eth0_lines0_def truthy_def)
  then show ?thesis by (simp add: no_address_def source_ip_of_mode_def passive_report_def truthy_def)
qed

theorem no_address_nothing_sent_witness:
  "\<exists>resp s'. handle surroundings_installed (Tools (Ping_Start (lit ''10.0.0.1'') Absent)) (backend0 0 None) ([], ()) =
    Some (Inr resp, backend0 0 None, s') \<and> refusal resp \<and> only_asked host_installed ([], ()) s'"
  using no_address_nothing_sent [of surroundings_installed "([], ())" "Tools (Ping_Start (lit ''10.0.0.1'') Absent)"]
    host_installed_no_address
  by (simp add: surroundings_installed_def)


end
