(* ===== verification/Spec2Isabelle.thy ===== *)
theory Spec2Isabelle
  imports Lldp Cdp Mndp Dispatcher Ip_Conflict Dhcp_Monitor Modbus_Traffic Traffic_Stats
    Modbus_Client Modbus_Device_Id Modbus_Register_Scan Modbus_Tasks Poll_Thread Modbus_Decode Modbus_Templates S7_Plc Profinet
    Capture_System Pcap_Session Wifi Nmap_Scans
    Link_History Ping Mtr Arp_Scan Tcp_Test System_Info Api
begin

text \<open>
  LanPi: a verification development for the Python backend under \<open>src/backend\<close>.

  LanPi is a network tool on a Raspberry Pi.  Its test port eth0 listens to a network; its Wi-Fi carries the
  management page.  The backend has three kinds of parts, and the development follows them.

  1. Passive listeners.  \<open>capture/dispatcher.py\<close> runs one tcpdump, cuts its pcap stream into frames and gives
  every frame to every registered handler.  Seven modules register a handler at startup and keep a state of their
  own, which the HTTP routes read.

  2. Active tools.  Modbus and S7 clients, a PROFINET scan, and programs run in the background (nmap, ping, mtr,
  tcpdump), each with a module-level state, a lock, and threads that outlive a new start.

  3. The device itself: the mode of eth0, Wi-Fi and the fallback access point through nmcli and scripts, the link
  status and its history, and system information.

  The HTTP routes (\<open>api/routes\<close>) pass the fields of a request to one function of a module.  In the model a request is
  a value, a route an equation over the state of its modules and the host, and \<open>Api.handle\<close> the whole backend.

  The vocabulary.

  \<open>Prelude\<close>: bytes (\<open>byte = 8 word\<close>, a bytes object is \<open>byte list\<close>), exceptions (\<open>exn\<close>; a call that may raise returns
  \<open>exn + 'a\<close> and is sequenced with \<open>rbind\<close>), slices, \<open>struct.unpack\<close>.  \<open>Py_Text\<close>: strings as lists of code points
  (\<open>pystr\<close>; \<open>lit ''abc''\<close> is a literal), formatting, \<open>split\<close>, \<open>strip\<close>, \<open>splitlines\<close>, UTF-8 with replacement.  \<open>Py_Dict\<close>:
  dicts as association lists in insertion order, \<open>sorted\<close>, \<open>min\<close>, \<open>round\<close>.  \<open>Struct_Numbers\<close>: 16- and 32-bit integers and
  IEEE single floats from bytes.  \<open>Regex\<close>: \<open>re.match\<close> and \<open>re.search\<close> by backtracking.  \<open>Json\<close>: \<open>json.loads\<close>.
  \<open>Byte_Stream\<close>: \<open>_read_exact\<close> and \<open>_recv_exact\<close> over a source that delivers bytes in pieces, ends or fails.  \<open>Shell\<close>,
  \<open>Nmcli\<close>: running programs (\<open>shell.py\<close>, and the helpers of \<open>wifi.py\<close> and \<open>eth0_mode.py\<close>); the host is a record of what
  it answers, and every command run is logged with its result.  Clock readings and Python floats are real numbers.

  The interfaces, each a locale with an interpretation for every component that provides it.

  \<open>Tlv.tlv_window\<close>, \<open>Tlv.tlv_loop\<close>: a loop over an index that parses encoded items one by one (LLDP, CDP, MNDP, DHCP
  options, PROFINET blocks).  \<open>Listener.listener\<close>: a handler that either raises and changes nothing or keeps its
  invariant; \<open>Listener.neighbor_listener\<close>: one that stores an announcement in a neighbour cache (LLDP, CDP, MNDP).
  \<open>Capture_System.part\<close>: a field of the system's state that belongs to one module (all seven).  \<open>Sessions.session\<close>: a
  state with a session number; threads of earlier numbers have no effect however they interleave (unit scan, poll, IP
  scan, port scan).  \<open>Tool_Source.host_session\<close>: threads whose session is the host name (ping, mtr).

  The listeners.

  \<open>Neighbor_Cache\<close>, \<open>Lldp\<close>, \<open>Cdp\<close>, \<open>Mndp\<close> (\<open>discovery/lldp.py\<close>, \<open>cdp.py\<close>, \<open>mndp.py\<close>): the parsers, the cache of at most 500
  neighbours with its eviction and expiry.  Shown: announcements encoded as the protocols say are parsed back (except
  that LLDP takes the VLAN from the VLAN Name TLV and never from the Port VLAN ID), a handler never raises where that
  holds, the cache holds the last announcement of each neighbour.
  \<open>Dispatcher\<close> (\<open>dispatcher.py\<close>): the pcap framing and dispatch loop; every frame of the stream reaches every handler once,
  in order, with its bytes, whatever the pieces in which the pipe delivers it.
  \<open>Ip_Conflict\<close>, \<open>Dhcp_Monitor\<close>, \<open>Modbus_Traffic\<close> with \<open>Response_Times\<close>, \<open>Traffic_Stats\<close> (files of the same names under
  \<open>capture\<close>): the state after any list of frames is compared with a specification over that list (claims of an address,
  replies of a server, requests and responses, bytes in a window).
  \<open>Capture_System\<close> (startup in \<open>main.py\<close>, the \<open>start_listener\<close> functions): the system with all seven modules, with API
  calls interleaved with frames, refines the seven modules run alone; bytes of the pipe arrive in all of them.

  The tools.

  \<open>Modbus_Client\<close>, \<open>Modbus_Device_Id\<close> (\<open>tools/modbus.py\<close>): requests, responses and every error; reading from a device gives
  the device's values; against a device that decodes and answers whatever request it is sent, the identification collects
  all its objects, page by page.  \<open>Modbus_Register_Scan\<close>: the bisection, as one
  function that threads the interference of other calls; its segments are exactly the maximal readable ranges.
  \<open>Modbus_Tasks\<close>, \<open>Poll_Thread\<close> (\<open>modbus_unit_scan.py\<close>, \<open>modbus_poll.py\<close>): a unit scan reports what answers; scans and their
  supersession; the poll thread as a loop, which among any calls of others ends in the first pass in which somebody stops or
  starts a poll or a read raises, with every result before recorded, and otherwise never.  \<open>Modbus_Decode\<close> (\<open>modbus_decode.py\<close>):
  the four byte orders invert their encoding, and a decoded value is well typed whatever the input.  \<open>Modbus_Templates\<close>
  (\<open>modbus_templates.py\<close>): a template of the file is read register by register, with the values the device answers.
  \<open>S7_Frames\<close>, \<open>S7_Diag\<close>, \<open>S7_Plc\<close> (\<open>s7_diag.py\<close>): frames, identification and tag reads; against a PLC that decodes and
  answers whatever job it is sent, the value read is the tag's.  \<open>Siemens_Names\<close>, \<open>Profinet\<close> (\<open>profinet_scan.py\<close>): CRC-16 and the decoding of
  station names converted as the source documents it (the lowercased name comes back), DCP responses and the scan loop.
  \<open>Pcap_Files\<close>, \<open>Pcap_Session\<close> (\<open>capture/pcap.py\<close>): file names and the paths they are joined to, pruning, and the capture session as steps of API calls,
  session threads and tcpdump processes in any interleaving.
  \<open>Tool_Source\<close>, \<open>Nmap_Scans\<close> (\<open>ip_scanner.py\<close>, \<open>port_scanner.py\<close>), \<open>Ping\<close>, \<open>Mtr\<close>, \<open>Arp_Scan\<close>, \<open>Tcp_Test\<close>: the checks, the
  locked sections of the calls and of the reader threads, and the reading of the programs' output.

  The device.

  \<open>Access_Point\<close>, \<open>Wifi\<close> (\<open>network/ap.py\<close>, \<open>wifi.py\<close>): every operation as a function of the host and the command log; the
  configuration file is read back as written (a carriage return apart, which text mode turns into a line break); a failed
  connection brings the access point back.  \<open>Eth0_Mode\<close>
  (\<open>eth0_mode.py\<close>): the mode report reads what nmcli prints, the setters touch eth0 only.  \<open>Link\<close>, \<open>Link_History\<close>
  (\<open>link.py\<close>, \<open>link_history.py\<close>): status and history; the history is the list of link changes.  \<open>System_Info\<close>
  (\<open>system_info.py\<close>, \<open>version.py\<close>).

  The interface.

  \<open>Api_Body\<close>: optional fields and \<open>value or default\<close>.  \<open>Api_Address\<close>: when the tools ask for the address of eth0.
  \<open>Api_Modbus\<close>, \<open>Api_Tools\<close>, \<open>Api_Network\<close>, \<open>Api_Capture\<close>, \<open>Api_Listeners\<close>: the routes of each file of \<open>api/routes\<close>, those of
  the passive listeners, of \<open>health.py\<close> and the middleware of \<open>main.py\<close> together in the last.  \<open>Api_Reads\<close>: the operations that
  only read.  \<open>Api\<close>: the backend.  Shown: with no address on eth0 nothing is sent, \<open>GET\<close> requests change nothing (the listeners
  at most expire what is old) and run nothing with privileges, a mode request touches eth0 only, and of the Modbus background threads one at a time is
  current, over requests and thread steps in any order.

  Termination and bounds.  Loops over bytes, texts and lists are functions with a measure.  The register scan's
  measure is the size of the range, weighted so that the split of a block that is too large comes first.  Three
  loops have no bound of their own and are partial functions whose value \<open>None\<close> is not returning: the PROFINET receive
  loop (\<open>Profinet.scan_loop\<close>) and the retry loop of the Wi-Fi (\<open>Wifi.retry_loop\<close>), which are shown to return when the
  clock advances, and the poll thread (\<open>Poll_Thread.poll_loop\<close>), for which it is shown when it returns.  \<open>json.loads\<close> has fuel, twice the length of the text and one, which \<open>Json.loads_fuel\<close> shows to be enough.
  The endless threads of the dispatcher and of the link history are functions of the list of what they meet.

  Not modelled.  The construction of the FastAPI application, the validation of requests and the serialisation of
  answers by FastAPI and pydantic, the static files, the frontend, the shell scripts and service files: calls into
  other software, or not Python.  Of the modelled modules: \<open>modbus.read\<close> on values of a template that are not
  integers (an argument), \<open>SO_BINDTODEVICE\<close>, timeouts of sockets
  beyond their outcome.  Programs, sockets and files are what they answer: arguments of the definitions, over which
  the properties quantify.  Regular expressions and
  number texts are those of ASCII.  \<open>shell.run\<close> gives \<open>None\<close> for the exceptions it catches (\<open>OSError\<close>, a timeout); those it
  does not catch (a null character in an argument, output that is not text) are not modelled.
\<close>

end
